(* ===== verification/GoStrings.thy ===== *)
theory GoStrings
  imports Prelude
begin

text \<open>
  The part of Go's \<open>strings\<close>, \<open>strconv\<close> and \<open>unicode/utf8\<close> the sources use, over byte
  strings (a HOL \<open>char\<close> is a byte, as an element of a Go string is). Positions and
  lengths count bytes, except where the sources range over runes. Case conversion is the
  ASCII one: the sources apply it to names Kubernetes keeps in ASCII and to boolean
  literals, none of whose letters is the lower case of a character outside ASCII.
\<close>

section \<open>Bytes\<close>

definition byte :: "char \<Rightarrow> int" where
  "byte c = of_char c"

definition is_digit :: "char \<Rightarrow> bool" where
  "is_digit c \<longleftrightarrow> 48 \<le> byte c \<and> byte c \<le> 57"

definition is_upper :: "char \<Rightarrow> bool" where
  "is_upper c \<longleftrightarrow> 65 \<le> byte c \<and> byte c \<le> 90"

definition is_lower :: "char \<Rightarrow> bool" where
  "is_lower c \<longleftrightarrow> 97 \<le> byte c \<and> byte c \<le> 122"

definition digit_val :: "char \<Rightarrow> nat" where
  "digit_val c = nat (byte c - 48)"

definition newline :: char where
  "newline = CHR 0x0A"

definition lower_char :: "char \<Rightarrow> char" where
  "lower_char c = (if is_upper c then char_of (byte c + 32) else c)"

definition upper_char :: "char \<Rightarrow> char" where
  "upper_char c = (if is_lower c then char_of (byte c - 32) else c)"

definition to_lower :: "string \<Rightarrow> string" where
  "to_lower s = map lower_char s"

definition to_upper :: "string \<Rightarrow> string" where
  "to_upper s = map upper_char s"

section \<open>Searching and cutting\<close>

definition has_prefix :: "string \<Rightarrow> string \<Rightarrow> bool" where
  "has_prefix p s \<longleftrightarrow> take (length p) s = p"

definition has_suffix :: "string \<Rightarrow> string \<Rightarrow> bool" where
  "has_suffix p s \<longleftrightarrow> length p \<le> length s \<and> drop (length s - length p) s = p"

text \<open>\<open>strings.Index\<close>: the first position where the substring occurs.\<close>

fun index_of :: "string \<Rightarrow> string \<Rightarrow> nat option" where
  "index_of sub [] = (if sub = [] then Some 0 else None)"
| "index_of sub (c # s) =
     (if has_prefix sub (c # s) then Some 0 else map_option Suc (index_of sub s))"

definition str_contains :: "string \<Rightarrow> string \<Rightarrow> bool" where
  "str_contains sub s \<longleftrightarrow> index_of sub s \<noteq> None"

definition cut :: "string \<Rightarrow> string \<Rightarrow> (string \<times> string) option" where
  "cut sep s = (case index_of sep s of None \<Rightarrow> None
     | Some i \<Rightarrow> Some (take i s, drop (i + length sep) s))"

definition trim_prefix :: "string \<Rightarrow> string \<Rightarrow> string" where
  "trim_prefix p s = (if has_prefix p s then drop (length p) s else s)"

text \<open>\<open>strings.TrimRight(s, cutset)\<close> for a cutset of single bytes.\<close>

definition trim_right :: "string \<Rightarrow> string \<Rightarrow> string" where
  "trim_right cs s = rev (dropWhile (\<lambda>c. c \<in> set cs) (rev s))"

fun join :: "string \<Rightarrow> string list \<Rightarrow> string" where
  "join sep [] = []"
| "join sep [x] = x"
| "join sep (x # y # ys) = x @ sep @ join sep (y # ys)"

text \<open>
  \<open>strings.TrimSpace\<close> removes the Unicode white space: the six ASCII characters and the
  UTF-8 encodings of U+0085, U+00A0, U+1680, U+2000 to U+200A, U+2028, U+2029, U+202F,
  U+205F and U+3000. Each encoding starts with its only non-continuation byte, so a suffix
  of the string that is an encoding is also the last rune Go decodes.
\<close>

definition space_encodings :: "string list" where
  "space_encodings =
     [[CHR 0x09], [CHR 0x0A], [CHR 0x0B], [CHR 0x0C], [CHR 0x0D], [CHR 0x20],
      [CHR 0xC2, CHR 0x85], [CHR 0xC2, CHR 0xA0], [CHR 0xE1, CHR 0x9A, CHR 0x80]]
     @ [[CHR 0xE2, CHR 0x80, CHR 0x80],
      [CHR 0xE2, CHR 0x80, CHR 0x81],
      [CHR 0xE2, CHR 0x80, CHR 0x82],
      [CHR 0xE2, CHR 0x80, CHR 0x83],
      [CHR 0xE2, CHR 0x80, CHR 0x84],
      [CHR 0xE2, CHR 0x80, CHR 0x85],
      [CHR 0xE2, CHR 0x80, CHR 0x86],
      [CHR 0xE2, CHR 0x80, CHR 0x87],
      [CHR 0xE2, CHR 0x80, CHR 0x88],
      [CHR 0xE2, CHR 0x80, CHR 0x89],
      [CHR 0xE2, CHR 0x80, CHR 0x8A]]
     @ [[CHR 0xE2, CHR 0x80, CHR 0xA8], [CHR 0xE2, CHR 0x80, CHR 0xA9],
        [CHR 0xE2, CHR 0x80, CHR 0xAF], [CHR 0xE2, CHR 0x81, CHR 0x9F],
        [CHR 0xE3, CHR 0x80, CHR 0x80]]"

text \<open>Drop leading encodings; the second argument is a set of encodings, none empty.\<close>

function trim_left_enc :: "string list \<Rightarrow> string \<Rightarrow> string" where
  "trim_left_enc es s =
     (case find (\<lambda>e. e \<noteq> [] \<and> has_prefix e s) es of None \<Rightarrow> s
      | Some e \<Rightarrow> trim_left_enc es (drop (length e) s))"
  by pat_completeness auto
termination
proof (relation "measure (\<lambda>(es, s). length s)", goal_cases)
  case (2 es s e)
  then have "e \<noteq> []" "has_prefix e s"
    by (auto simp: find_Some_iff)
  then show ?case by (cases s) (auto simp: has_prefix_def)
qed simp

declare trim_left_enc.simps [simp del]

definition trim_space :: "string \<Rightarrow> string" where
  "trim_space s =
     rev (trim_left_enc (map rev space_encodings) (rev (trim_left_enc space_encodings s)))"

section \<open>Runes\<close>

definition cont_byte :: "char \<Rightarrow> bool" where
  "cont_byte c \<longleftrightarrow> 128 \<le> byte c \<and> byte c \<le> 191"

definition byte_in :: "int \<Rightarrow> int \<Rightarrow> string \<Rightarrow> bool" where
  "byte_in lo hi s = (case s of [] \<Rightarrow> False | c # _ \<Rightarrow> lo \<le> byte c \<and> byte c \<le> hi)"

text \<open>
  The number of bytes after the first that belong to the first rune of \<open>b # s\<close>: an
  invalid sequence decodes as one byte (U+FFFD of width 1).
\<close>

definition rune_tail :: "char \<Rightarrow> string \<Rightarrow> nat" where
  "rune_tail b s =
     (let n = byte b;
          c2 = (\<lambda>lo hi. byte_in lo hi s);
          c3 = byte_in 128 191 (drop 1 s);
          c4 = byte_in 128 191 (drop 2 s)
      in if n < 194 then 0
         else if n \<le> 223 then (if c2 128 191 then 1 else 0)
         else if n = 224 then (if c2 160 191 \<and> c3 then 2 else 0)
         else if n = 237 then (if c2 128 159 \<and> c3 then 2 else 0)
         else if 225 \<le> n \<and> n \<le> 239 then (if c2 128 191 \<and> c3 then 2 else 0)
         else if n = 240 then (if c2 144 191 \<and> c3 \<and> c4 then 3 else 0)
         else if 241 \<le> n \<and> n \<le> 243 then (if c2 128 191 \<and> c3 \<and> c4 then 3 else 0)
         else if n = 244 then (if c2 128 143 \<and> c3 \<and> c4 then 3 else 0)
         else 0)"

section \<open>Numbers\<close>

definition digit_char :: "nat \<Rightarrow> char" where
  "digit_char n = char_of (48 + int n)"

fun utoa :: "nat \<Rightarrow> string" where
  "utoa n = (if n < 10 then [digit_char n] else utoa (n div 10) @ [digit_char (n mod 10)])"

declare utoa.simps [simp del]

definition itoa :: "int \<Rightarrow> string" where
  "itoa i = (if i < 0 then CHR ''-'' # utoa (nat (- i)) else utoa (nat i))"

definition digits_val :: "string \<Rightarrow> nat" where
  "digits_val s = foldl (\<lambda>a c. 10 * a + digit_val c) 0 s"

definition all_digits :: "string \<Rightarrow> bool" where
  "all_digits s \<longleftrightarrow> s \<noteq> [] \<and> list_all is_digit s"

text \<open>\<open>strconv.ParseInt(s, 10, 64)\<close>: an optional sign and digits, within 64 bits.\<close>

definition parse_int64 :: "string \<Rightarrow> int option" where
  "parse_int64 s =
     (let neg = has_prefix ''-'' s;
          ds = (if neg \<or> has_prefix ''+'' s then tl s else s);
          v = int (digits_val ds)
      in if \<not> all_digits ds then None
         else if neg then (if v \<le> 2 ^ 63 then Some (- v) else None)
         else (if v < 2 ^ 63 then Some v else None))"

text \<open>
  \<open>strconv.ParseFloat(s, 64)\<close>, as acceptance: the decimal or hexadecimal syntax with
  underscores between digits, the names of the infinities and of NaN, and a finite value
  that does not round beyond the largest float64 (a value of at least
  \<open>2^1024 - 2^970\<close> does).
\<close>

definition is_hexdigit :: "char \<Rightarrow> bool" where
  "is_hexdigit c \<longleftrightarrow> is_digit c \<or> (97 \<le> byte (lower_char c) \<and> byte (lower_char c) \<le> 102)"

definition hexdigit_val :: "char \<Rightarrow> nat" where
  "hexdigit_val c = (if is_digit c then digit_val c else nat (byte (lower_char c) - 87))"

definition drop_sign :: "string \<Rightarrow> string" where
  "drop_sign s = (if has_prefix ''+'' s \<or> has_prefix ''-'' s then tl s else s)"

text \<open>
  The mantissa loop: the value of the digits, the number of digits after the point,
  whether a point and a digit were seen, and what is left.
\<close>

fun read_mantissa ::
  "bool \<Rightarrow> string \<Rightarrow> int \<Rightarrow> int \<Rightarrow> bool \<Rightarrow> bool \<Rightarrow> int \<times> int \<times> bool \<times> string" where
  "read_mantissa hex [] m f dot dig = (m, f, dig, [])"
| "read_mantissa hex (c # s) m f dot dig =
     (if c = CHR ''_'' then read_mantissa hex s m f dot dig
      else if c = CHR ''.'' then
        (if dot then (m, f, dig, c # s) else read_mantissa hex s m f True dig)
      else if is_digit c \<or> (hex \<and> is_hexdigit c) then
        read_mantissa hex s ((if hex then 16 else 10) * m + int (hexdigit_val c))
          (if dot then f + 1 else f) dot True
      else (m, f, dig, c # s))"

fun read_exponent :: "string \<Rightarrow> int \<Rightarrow> int \<times> string" where
  "read_exponent [] e = (e, [])"
| "read_exponent (c # s) e =
     (if c = CHR ''_'' then read_exponent s e
      else if is_digit c then read_exponent s (if e < 10000 then 10 * e + int (digit_val c) else e)
      else (e, c # s))"

datatype prev_char = PrevStart | PrevDigit | PrevUnderscore | PrevOther

fun underscore_scan :: "bool \<Rightarrow> prev_char \<Rightarrow> string \<Rightarrow> bool" where
  "underscore_scan hex i [] = (i \<noteq> PrevUnderscore)"
| "underscore_scan hex i (c # s) =
     (if is_digit c \<or> (hex \<and> is_hexdigit c) then underscore_scan hex PrevDigit s
      else if c = CHR ''_'' then i = PrevDigit \<and> underscore_scan hex PrevUnderscore s
      else i \<noteq> PrevUnderscore \<and> underscore_scan hex PrevOther s)"

definition underscore_ok :: "string \<Rightarrow> bool" where
  "underscore_ok s0 =
     (let s = drop_sign s0
      in if 2 \<le> length s \<and> s ! 0 = CHR ''0'' \<and> lower_char (s ! 1) \<in> set ''box''
         then underscore_scan (lower_char (s ! 1) = CHR ''x'') PrevDigit (drop 2 s)
         else underscore_scan False PrevStart s)"

definition float_in_range :: "int \<Rightarrow> int \<Rightarrow> int \<Rightarrow> bool" where
  "float_in_range b k m =
     (m = 0 \<or> (if 0 \<le> k then m * b ^ nat k < 2 ^ 1024 - 2 ^ 970
               else m < (2 ^ 1024 - 2 ^ 970) * b ^ nat (- k)))"

definition read_float_ok :: "string \<Rightarrow> bool" where
  "read_float_ok s0 =
     (let s = drop_sign s0;
          hex = (3 \<le> length s \<and> s ! 0 = CHR ''0'' \<and> lower_char (s ! 1) = CHR ''x'');
          (m, f, dig, r) = read_mantissa hex (if hex then drop 2 s else s) 0 0 False False
      in dig \<and> (CHR ''_'' \<in> set s0 \<longrightarrow> underscore_ok s0) \<and>
         (if r = [] then \<not> hex \<and> float_in_range 10 (- f) m
          else if lower_char (hd r) \<noteq> (if hex then CHR ''p'' else CHR ''e'') then False
          else let neg = has_prefix ''-'' (tl r); ds = drop_sign (tl r); (e, r') = read_exponent ds 0;
                   k = (if neg then - e else e)
               in ds \<noteq> [] \<and> is_digit (hd ds) \<and> r' = [] \<and>
                  (if hex then float_in_range 2 (k - 4 * f) m
                   else float_in_range 10 (k - f) m)))"

definition parse_float_ok :: "string \<Rightarrow> bool" where
  "parse_float_ok s \<longleftrightarrow>
     to_lower (drop_sign s) = ''inf'' \<or> to_lower (drop_sign s) = ''infinity'' \<or>
     to_lower s = ''nan'' \<or> read_float_ok s"

section \<open>Durations\<close>

text \<open>
  \<open>time.Duration.String\<close> on nanoseconds: the fraction without trailing zeros, the units of the
  largest non-zero part down to seconds, or a single unit below a second.
\<close>

definition frac_digits :: "nat \<Rightarrow> nat \<Rightarrow> string" where
  "frac_digits prec v =
     (let ds = rev (dropWhile (\<lambda>c. c = CHR ''0'')
        (rev (replicate (prec - length (utoa v)) (CHR ''0'') @ utoa v)))
      in if v = 0 then [] else CHR ''.'' # ds)"

definition with_frac :: "nat \<Rightarrow> nat \<Rightarrow> string" where
  "with_frac prec u = utoa (u div 10 ^ prec) @ frac_digits prec (u mod 10 ^ prec)"

definition dur_unsigned :: "nat \<Rightarrow> string" where
  "dur_unsigned u =
     (if u = 0 then ''0s''
      else if u < 1000 then with_frac 0 u @ ''ns''
      else if u < 1000000 then with_frac 3 u @ [CHR 0xC2, CHR 0xB5] @ ''s''
      else if u < 1000000000 then with_frac 6 u @ ''ms''
      else let s = u div 1000000000; frac = frac_digits 9 (u mod 1000000000); m = s div 60; h = m div 60
           in (if 0 < h then utoa h @ ''h'' else []) @
              (if 0 < m then utoa (m mod 60) @ ''m'' else []) @ utoa (s mod 60) @ frac @ ''s'')"

definition dur_string :: "int \<Rightarrow> string" where
  "dur_string d = (if d < 0 then CHR ''-'' # dur_unsigned (nat (- d)) else dur_unsigned (nat d))"

section \<open>Lemmas\<close>

lemma has_prefix_Nil [simp]: "has_prefix [] s"
  by (simp add: has_prefix_def)

lemma has_prefix_append [simp]: "has_prefix p (p @ s)"
  by (simp add: has_prefix_def)

lemma has_prefix_iff: "has_prefix p s \<longleftrightarrow> (\<exists>t. s = p @ t)"
  unfolding has_prefix_def by (metis append_eq_conv_conj append_take_drop_id)

lemma has_prefix_Cons [simp]:
  "has_prefix (x # p) (c # s) \<longleftrightarrow> x = c \<and> has_prefix p s"
  by (auto simp: has_prefix_def)

lemma has_prefix_Cons_Nil [simp]: "\<not> has_prefix (x # p) []"
  by (simp add: has_prefix_def)

lemma has_prefix_append_iff:
  "has_prefix (p @ q) s \<longleftrightarrow> has_prefix p s \<and> has_prefix q (drop (length p) s)"
  by (auto simp: has_prefix_iff)

lemma trim_prefix_append [simp]: "trim_prefix p (p @ s) = s"
  by (simp add: trim_prefix_def)

lemma index_of_Some:
  "index_of sub s = Some i \<Longrightarrow> i + length sub \<le> length s \<and> take (length sub) (drop i s) = sub"
proof (induction sub s arbitrary: i rule: index_of.induct)
  case (2 sub c s)
  show ?case
  proof (cases "has_prefix sub (c # s)")
    case True
    then have "take (length sub) (c # s) = sub" by (simp add: has_prefix_def)
    moreover from this have "length sub \<le> length (c # s)"
      by (metis length_take min.cobounded1)
    ultimately show ?thesis using "2.prems" True by simp
  qed (use 2 in \<open>auto split: if_splits\<close>)
qed (auto split: if_splits)

lemma index_of_first:
  "index_of sub s = Some i \<Longrightarrow> j < i \<Longrightarrow> \<not> has_prefix sub (drop j s)"
proof (induction sub s arbitrary: i j rule: index_of.induct)
  case (2 sub c s)
  then show ?case by (cases j) (auto split: if_splits)
qed (auto split: if_splits)

lemma index_of_None: "index_of sub s = None \<Longrightarrow> \<not> has_prefix sub (drop j s)"
proof (induction sub s arbitrary: j rule: index_of.induct)
  case (2 sub c s)
  then show ?case by (cases j) (auto split: if_splits)
qed (auto simp: has_prefix_def split: if_splits)

lemma cut_Some: "cut sep s = Some (a, b) \<Longrightarrow> s = a @ sep @ b"
proof -
  assume "cut sep s = Some (a, b)"
  then obtain i where i: "index_of sep s = Some i" "a = take i s" "b = drop (i + length sep) s"
    by (auto simp: cut_def split: option.splits)
  from index_of_Some [OF i(1)] have "take (length sep) (drop i s) = sep" by simp
  then have "drop i s = sep @ drop (length sep) (drop i s)"
    by (metis append_take_drop_id)
  then show ?thesis using i(2,3)
    by (metis add.commute append_take_drop_id drop_drop)
qed

lemma join_map_single [simp]: "join sep [x] = x"
  by simp

lemma length_to_lower [simp]: "length (to_lower s) = length s"
  by (simp add: to_lower_def)

lemma utoa_nonempty [simp]: "utoa n \<noteq> []"
  by (subst utoa.simps) simp

lemma digit_char_digit [simp]: "n < 10 \<Longrightarrow> is_digit (digit_char n)"
  by (simp add: is_digit_def digit_char_def byte_def)

lemma digit_val_char [simp]: "n < 10 \<Longrightarrow> digit_val (digit_char n) = n"
  by (simp add: digit_val_def digit_char_def byte_def)

lemma utoa_digits: "list_all is_digit (utoa n)"
proof (induction n rule: utoa.induct)
  case (1 n)
  then show ?case by (subst utoa.simps) simp
qed

lemma digits_val_snoc: "digits_val (s @ [c]) = 10 * digits_val s + digit_val c"
  by (simp add: digits_val_def)

lemma digits_val_Cons: "digits_val (c # s) = digit_val c * 10 ^ length s + digits_val s"
proof -
  let ?f = "\<lambda>a c. 10 * a + digit_val c"
  have "foldl ?f a s = a * 10 ^ length s + foldl ?f 0 s" for a
  proof (induction s arbitrary: a)
    case (Cons c s)
    have "foldl ?f a (c # s) = (10 * a + digit_val c) * 10 ^ length s + foldl ?f 0 s" unfolding foldl_Cons by (rule Cons)
    moreover have "foldl ?f 0 (c # s) = (10 * 0 + digit_val c) * 10 ^ length s + foldl ?f 0 s" unfolding foldl_Cons by (rule Cons)
    ultimately show ?case by (simp only: length_Cons power_Suc) (simp add: distrib_right)
  qed simp
  from this [of "digit_val c"] show ?thesis by (simp only: digits_val_def foldl_Cons) simp
qed

text \<open>Reading back what \<open>strconv.Itoa\<close> wrote.\<close>

lemma digits_val_utoa [simp]: "digits_val (utoa n) = n"
proof (induction n rule: utoa.induct)
  case (1 n)
  show ?case
  proof (cases "n < 10")
    case True
    then show ?thesis by (subst utoa.simps) (simp add: digits_val_def)
  next
    case False
    with 1 have "digits_val (utoa (n div 10)) = n div 10" by simp
    with False show ?thesis by (subst utoa.simps) (simp add: digits_val_snoc)
  qed
qed

lemma utoa_inject [simp]: "utoa m = utoa n \<longleftrightarrow> m = n"
  by (metis digits_val_utoa)

lemma not_digit_not_in_utoa: "\<not> is_digit c \<Longrightarrow> c \<notin> set (utoa n)"
  using utoa_digits [of n] by (auto simp: list_all_iff)

text \<open>Trimming stops at a character that starts no encoding of white space.\<close>

lemma trim_left_enc_stop:
  assumes "\<forall>e \<in> set es. e \<noteq> [] \<longrightarrow> hd e \<noteq> c"
  shows "trim_left_enc es (c # s) = c # s"
proof -
  have "\<not> (e \<noteq> [] \<and> has_prefix e (c # s))" if "e \<in> set es" for e
    using assms that by (cases e) auto
  then have "find (\<lambda>e. e \<noteq> [] \<and> has_prefix e (c # s)) es = None"
    by (auto simp: find_None_iff)
  then show ?thesis by (simp add: trim_left_enc.simps [of es "c # s"])
qed

text \<open>Cutting at the first separator.\<close>

lemma cut_at_char: "c \<notin> set a \<Longrightarrow> cut (c # sep) (a @ c # sep @ b) = Some (a, b)"
proof -
  assume "c \<notin> set a"
  then have "index_of (c # sep) (a @ c # sep @ b) = Some (length a)" by (induction a) auto
  then show ?thesis by (simp add: cut_def)
qed

end
