(* ===== verification/Expr.thy ===== *)
theory Expr
  imports GoStrings
begin

text \<open>
  The templating engine, \<open>src/pkg/expr/expr.go\<close>: \<open>Eval\<close> (strict, single pass),
  \<open>resolveRef\<close>, \<open>deferWorkerRef\<close>, \<open>SubstituteWorker\<close>, \<open>EvalSlice\<close>, \<open>EvalMap\<close> and
  \<open>CoerceParam\<close>. A message is a constructor applied to the values Go formats into it.
  The abstract specification is a list of segments (literal text, the two escapes,
  references): \<open>print_segs\<close> writes it as a template, \<open>eval_segs\<close> says what it means, and
  \<open>Eval\<close> is shown to compute exactly that, whatever text the looked-up values hold.
  The user regexp of a parameter is a parameter of the model: \<open>re p = None\<close> when Go's
  \<open>regexp.Compile\<close> rejects \<open>p\<close>, otherwise the predicate \<open>MatchString\<close> decides.
\<close>

section \<open>Data\<close>

record ParallelKeys =
  pk_Matrix :: "(string, bool) gomap"
  pk_Shard :: "(string, bool) gomap"

record Scope =
  sc_Config :: "(string, string) gomap"
  sc_Env :: "(string, string) gomap"
  sc_RunID :: string
  sc_TestName :: string
  sc_Services :: "(string, string) gomap"
  sc_Parallel :: "ParallelKeys option"

record WorkerVars =
  wv_Index :: nat
  wv_Count :: nat
  wv_Matrix :: "(string, string) gomap"
  wv_Shard :: "(string, string) gomap"

datatype expr_msg =
    Unterminated
  | EmptyExpression
  | NoNamespace string
  | NestedKey string
  | InvalidKey string string
  | UnknownConfigKey string
  | UnknownEnvVar string
  | UnknownService string
  | UnknownField string string string
  | UnknownNamespace string
  | OnlyInParallel string
  | UnknownWorkerField string
  | UnknownMatrixKey string
  | UnknownShardKey string

record expr_error =
  err_Line :: nat
  err_Col :: nat
  err_Ref :: string
  err_Message :: expr_msg

definition nsWorker :: string where "nsWorker = ''worker''"

definition nsMatrix :: string where "nsMatrix = ''matrix''"

definition nsShard :: string where "nsShard = ''shard''"

section \<open>Identifiers and worker references\<close>

definition ident_start :: "char \<Rightarrow> bool" where
  "ident_start c \<longleftrightarrow> is_upper c \<or> is_lower c \<or> c = CHR ''_''"

definition ident_char :: "char \<Rightarrow> bool" where
  "ident_char c \<longleftrightarrow> ident_start c \<or> is_digit c"

definition identRe :: "string \<Rightarrow> bool" where
  "identRe s = (case s of [] \<Rightarrow> False | c # cs \<Rightarrow> ident_start c \<and> list_all ident_char cs)"

text \<open>RE2's \<open>\s\<close>: tab, newline, form feed, carriage return, space.\<close>

definition re_space :: "char \<Rightarrow> bool" where
  "re_space c \<longleftrightarrow> c \<in> {CHR 0x09, CHR 0x0A, CHR 0x0C, CHR 0x0D, CHR 0x20}"

text \<open>
  \<open>workerRefRE\<close> anchored at the start of the string: the namespace, the key and what
  follows the match. The three namespaces are no prefixes of each other and an identifier
  cannot be followed by another identifier character, so the leftmost match is unique.
\<close>

definition worker_ns :: "string \<Rightarrow> (string \<times> string) option" where
  "worker_ns s =
     (if has_prefix (nsWorker @ ''.'') s then Some (nsWorker, drop 7 s)
      else if has_prefix (nsMatrix @ ''.'') s then Some (nsMatrix, drop 7 s)
      else if has_prefix (nsShard @ ''.'') s then Some (nsShard, drop 6 s)
      else None)"

definition workerRefRE :: "string \<Rightarrow> (string \<times> string \<times> string) option" where
  "workerRefRE s =
     (if \<not> has_prefix ''{{'' s then None
      else case worker_ns (dropWhile re_space (drop 2 s)) of None \<Rightarrow> None
        | Some (ns, r) \<Rightarrow>
            let key = takeWhile ident_char r; r' = dropWhile re_space (dropWhile ident_char r)
            in if identRe key \<and> has_prefix ''}}'' r' then Some (ns, key, drop 2 r') else None)"

lemma workerRefRE_shorter: "workerRefRE s = Some (ns, key, r) \<Longrightarrow> length r < length s"
proof -
  assume m: "workerRefRE s = Some (ns, key, r)"
  let ?b = "dropWhile re_space (drop 2 s)"
  from m obtain q where q: "worker_ns ?b = Some (ns, q)"
    and r: "r = drop 2 (dropWhile re_space (dropWhile ident_char q))"
    by (auto simp: workerRefRE_def Let_def split: if_splits option.splits)
  from m have two: "2 \<le> length s"
    by (auto simp: workerRefRE_def has_prefix_def split: if_splits dest: arg_cong [of _ _ length])
  have "length q \<le> length ?b"
    using q by (auto simp: worker_ns_def split: if_splits)
  moreover have "length ?b \<le> length s - 2"
    using length_dropWhile_le [of re_space "drop 2 s"] by simp
  moreover have "length r \<le> length (dropWhile ident_char q)"
    using length_dropWhile_le [of re_space "dropWhile ident_char q"] by (simp add: r)
  moreover have "length (dropWhile ident_char q) \<le> length q"
    by (rule length_dropWhile_le)
  ultimately show ?thesis using two by simp
qed

definition worker_value :: "WorkerVars \<Rightarrow> string \<Rightarrow> string \<Rightarrow> string" where
  "worker_value w ns key =
     (if ns = nsWorker then (if key = ''index'' then utoa (wv_Index w) else utoa (wv_Count w))
      else if ns = nsMatrix then gm_at [] (wv_Matrix w) key
      else gm_at [] (wv_Shard w) key)"

function replace_worker_refs :: "WorkerVars \<Rightarrow> string \<Rightarrow> string" where
  "replace_worker_refs w [] = []"
| "replace_worker_refs w (c # s) =
     (case workerRefRE (c # s) of
        Some (ns, key, r) \<Rightarrow> worker_value w ns key @ replace_worker_refs w r
      | None \<Rightarrow> c # replace_worker_refs w s)"
  by pat_completeness auto
termination
  by (relation "measure (\<lambda>(w, s). length s)") (auto dest: workerRefRE_shorter)

definition SubstituteWorker :: "string \<Rightarrow> WorkerVars \<Rightarrow> string" where
  "SubstituteWorker s w = (if \<not> str_contains ''{{'' s then s else replace_worker_refs w s)"

section \<open>Evaluation\<close>

definition escapeOpenBrace :: string where
  "escapeOpenBrace = [CHR 0x22] @ ''{{'' @ [CHR 0x22]"

definition escapeCloseBrace :: string where
  "escapeCloseBrace = [CHR 0x22] @ ''}}'' @ [CHR 0x22]"

definition escOpen :: string where
  "escOpen = ''{{'' @ escapeOpenBrace @ ''}}''"

definition escClose :: string where
  "escClose = ''{{'' @ escapeCloseBrace @ ''}}''"

function advancePos :: "string \<Rightarrow> nat \<Rightarrow> nat \<Rightarrow> nat \<times> nat" where
  "advancePos [] line col = (line, col)"
| "advancePos (b # s) line col =
     (if b = newline then advancePos s (Suc line) 1
      else advancePos (drop (rune_tail b s) s) line (Suc col))"
  by pat_completeness auto
termination
  by (relation "measure (\<lambda>(s, l, c). length s)") auto

definition defaultLeafFor :: "string \<Rightarrow> string" where
  "defaultLeafFor ns = (if ns = ''run'' then ''id'' else ''name'')"

definition deferWorkerRef ::
  "string \<Rightarrow> string \<Rightarrow> string \<Rightarrow> Scope \<Rightarrow> nat \<Rightarrow> nat \<Rightarrow> (expr_error, string) result" where
  "deferWorkerRef ns key raw scope line col =
     (let fail = (\<lambda>m. Inl \<lparr>err_Line = line, err_Col = col, err_Ref = raw, err_Message = m\<rparr>);
          ok = Inr (''{{ '' @ ns @ ''.'' @ key @ '' }}'')
      in case sc_Parallel scope of
           None \<Rightarrow> fail (OnlyInParallel ns)
         | Some p \<Rightarrow>
             if ns = nsWorker then
               (if key \<noteq> ''index'' \<and> key \<noteq> ''count'' then fail (UnknownWorkerField key) else ok)
             else if ns = nsMatrix then
               (if \<not> gm_at False (pk_Matrix p) key then fail (UnknownMatrixKey key) else ok)
             else if ns = nsShard then
               (if \<not> gm_at False (pk_Shard p) key then fail (UnknownShardKey key) else ok)
             else ok)"

definition resolveRef :: "string \<Rightarrow> Scope \<Rightarrow> nat \<Rightarrow> nat \<Rightarrow> (expr_error, string) result" where
  "resolveRef raw scope line col =
     (let fail = (\<lambda>m. Inl \<lparr>err_Line = line, err_Col = col, err_Ref = raw, err_Message = m\<rparr>);
          found = (\<lambda>o1 m. case o1 of Some v \<Rightarrow> Inr v | None \<Rightarrow> fail m)
      in if raw = [] then fail EmptyExpression
         else if raw = ''run.id'' then Inr (sc_RunID scope)
         else if raw = ''test.name'' then Inr (sc_TestName scope)
         else case cut ''.'' raw of
           None \<Rightarrow> fail (NoNamespace raw)
         | Some (ns, key) \<Rightarrow>
             if CHR ''.'' \<in> set key then fail (NestedKey raw)
             else if \<not> identRe key then fail (InvalidKey raw key)
             else if ns = ''config'' then found (gm_get (sc_Config scope) key) (UnknownConfigKey key)
             else if ns = ''env'' then found (gm_get (sc_Env scope) key) (UnknownEnvVar key)
             else if ns = nsWorker \<or> ns = nsMatrix \<or> ns = nsShard
               then deferWorkerRef ns key raw scope line col
             else if ns = ''services'' then found (gm_get (sc_Services scope) key) (UnknownService key)
             else if ns = ''run'' \<or> ns = ''test''
               then fail (UnknownField ns key (defaultLeafFor ns))
             else fail (UnknownNamespace ns))"

text \<open>\<open>out.WriteString(v)\<close> before the rest of the loop.\<close>

definition emit :: "string \<Rightarrow> (expr_error, string) result \<Rightarrow> (expr_error, string) result" where
  "emit v r = rbind r (\<lambda>out. Inr (v @ out))"

function eval_loop :: "Scope \<Rightarrow> string \<Rightarrow> nat \<Rightarrow> nat \<Rightarrow> (expr_error, string) result" where
  "eval_loop scope [] line col = Inr []"
| "eval_loop scope (b # s) line col =
     (if b = newline then emit [newline] (eval_loop scope s (Suc line) 1)
      else if has_prefix ''{{'' (b # s) then
        if has_prefix escOpen (b # s) then
          (let (l, c) = advancePos escOpen line col
           in emit ''{{'' (eval_loop scope (drop (length escOpen) (b # s)) l c))
        else if has_prefix escClose (b # s) then
          (let (l, c) = advancePos escClose line col
           in emit ''}}'' (eval_loop scope (drop (length escClose) (b # s)) l c))
        else (case index_of ''}}'' (b # s) of
            None \<Rightarrow> Inl \<lparr>err_Line = line, err_Col = col, err_Ref = [], err_Message = Unterminated\<rparr>
          | Some stop \<Rightarrow>
              (let body = take (stop - 2) (drop 2 (b # s)); raw = trim_space body
               in rbind (resolveRef raw scope line col)
                    (\<lambda>val. let (l, c) = advancePos (take (stop + 2) (b # s)) line col
                      in emit val (eval_loop scope (drop (stop + 2) (b # s)) l c))))
      else emit [b] (eval_loop scope s line (Suc col)))"
  by pat_completeness auto
termination
  by (relation "measure (\<lambda>(sc, s, l, c). length s)")
    (auto simp: escOpen_def escClose_def escapeOpenBrace_def escapeCloseBrace_def)

declare eval_loop.simps(2) [simp del]

definition Eval :: "string \<Rightarrow> Scope \<Rightarrow> (expr_error, string) result" where
  "Eval s scope = (if s = [] then Inr [] else eval_loop scope s 1 1)"

fun eval_slice_from ::
  "Scope \<Rightarrow> nat \<Rightarrow> string list \<Rightarrow> (nat \<times> expr_error, string list) result" where
  "eval_slice_from scope i [] = Inr []"
| "eval_slice_from scope i (x # xs) =
     (case Eval x scope of Inl e \<Rightarrow> Inl (i, e)
      | Inr v \<Rightarrow> (case eval_slice_from scope (Suc i) xs of Inl e \<Rightarrow> Inl e | Inr vs \<Rightarrow> Inr (v # vs)))"

definition EvalSlice :: "string list \<Rightarrow> Scope \<Rightarrow> (nat \<times> expr_error, string list) result" where
  "EvalSlice xs scope = eval_slice_from scope 0 xs"

fun EvalMap ::
  "(string, string) gomap \<Rightarrow> Scope \<Rightarrow> (string \<times> expr_error, (string, string) gomap) result" where
  "EvalMap [] scope = Inr []"
| "EvalMap ((k, v) # m) scope =
     (case Eval v scope of Inl e \<Rightarrow> Inl (k, e)
      | Inr val \<Rightarrow> (case EvalMap m scope of Inl e \<Rightarrow> Inl e | Inr out \<Rightarrow> Inr ((k, val) # out)))"

section \<open>Parameter coercion\<close>

record ExprParameter =
  ep_Type :: string
  ep_Enum :: "string list"
  ep_Pattern :: string

datatype coerce_error =
    NotInteger string string
  | NotNumber string string
  | NotBoolean string string
  | UnknownType string string
  | NotInEnum string string "string list"
  | InvalidPattern string string
  | PatternMismatch string string string

type_synonym regexp = "string \<Rightarrow> (string \<Rightarrow> bool) option"

definition coerce_type :: "string \<Rightarrow> string \<Rightarrow> string \<Rightarrow> (coerce_error, string) result" where
  "coerce_type name t value =
     (if t = ''string'' then Inr value
      else if t = ''integer'' then
        (if parse_int64 value = None then Inl (NotInteger name value) else Inr value)
      else if t = ''number'' then
        (if \<not> parse_float_ok value then Inl (NotNumber name value) else Inr value)
      else if t = ''boolean'' then
        (let l = to_lower value
         in if l = ''true'' \<or> l = ''1'' then Inr ''true''
            else if l = ''false'' \<or> l = ''0'' then Inr ''false''
            else Inl (NotBoolean name value))
      else Inl (UnknownType name t))"

definition CoerceParam ::
  "regexp \<Rightarrow> string \<Rightarrow> string \<Rightarrow> ExprParameter \<Rightarrow> (coerce_error, string) result" where
  "CoerceParam re name value p =
     rbind (coerce_type name (if ep_Type p = [] then ''string'' else ep_Type p) value)
       (\<lambda>v. if ep_Enum p \<noteq> [] \<and> v \<notin> set (ep_Enum p) then Inl (NotInEnum name v (ep_Enum p))
            else if ep_Pattern p \<noteq> [] then
              (case re (ep_Pattern p) of
                 None \<Rightarrow> Inl (InvalidPattern name (ep_Pattern p))
               | Some matches \<Rightarrow>
                   if \<not> matches v then Inl (PatternMismatch name v (ep_Pattern p)) else Inr v)
            else Inr v)"

section \<open>The abstract specification: segments\<close>

datatype ref =
    RConfig string | REnv string | RRunID | RTestName | RService string
  | RWorkerIndex | RWorkerCount | RMatrix string | RShard string
  | RUnknown string string

datatype seg = SLit string | SOpen | SClose | SRef string ref string

fun print_ref :: "ref \<Rightarrow> string" where
  "print_ref (RConfig k) = ''config.'' @ k"
| "print_ref (REnv k) = ''env.'' @ k"
| "print_ref RRunID = ''run.id''"
| "print_ref RTestName = ''test.name''"
| "print_ref (RService k) = ''services.'' @ k"
| "print_ref RWorkerIndex = ''worker.index''"
| "print_ref RWorkerCount = ''worker.count''"
| "print_ref (RMatrix k) = ''matrix.'' @ k"
| "print_ref (RShard k) = ''shard.'' @ k"
| "print_ref (RUnknown ns k) = ns @ ''.'' @ k"

fun print_seg :: "seg \<Rightarrow> string" where
  "print_seg (SLit t) = t"
| "print_seg SOpen = escOpen"
| "print_seg SClose = escClose"
| "print_seg (SRef l r w) = ''{{'' @ l @ print_ref r @ w @ ''}}''"

definition print_segs :: "seg list \<Rightarrow> string" where
  "print_segs segs = concat (map print_seg segs)"

definition known_namespaces :: "string list" where
  "known_namespaces =
     [''config'', ''env'', ''run'', ''test'', ''services'', ''worker'', ''matrix'', ''shard'']"

fun wf_ref :: "ref \<Rightarrow> bool" where
  "wf_ref (RConfig k) = identRe k"
| "wf_ref (REnv k) = identRe k"
| "wf_ref (RService k) = identRe k"
| "wf_ref (RMatrix k) = identRe k"
| "wf_ref (RShard k) = identRe k"
| "wf_ref (RUnknown ns k) = (identRe ns \<and> ns \<notin> set known_namespaces \<and> identRe k)"
| "wf_ref _ = True"

definition blank :: "string \<Rightarrow> bool" where
  "blank s \<longleftrightarrow> set s \<subseteq> {CHR 0x20, CHR 0x09}"

definition wf_lit :: "string \<Rightarrow> bool" where
  "wf_lit t \<longleftrightarrow> \<not> str_contains ''{{'' t \<and> (t = [] \<or> last t \<noteq> CHR ''{'')"

fun wf_seg :: "seg \<Rightarrow> bool" where
  "wf_seg (SLit t) = wf_lit t"
| "wf_seg (SRef l r w) = (blank l \<and> wf_ref r \<and> blank w)"
| "wf_seg _ = True"

definition par_has :: "(ParallelKeys \<Rightarrow> bool) \<Rightarrow> Scope \<Rightarrow> bool" where
  "par_has f sc = (case sc_Parallel sc of None \<Rightarrow> False | Some p \<Rightarrow> f p)"

definition deferred :: "string \<Rightarrow> string" where
  "deferred r = ''{{ '' @ r @ '' }}''"

fun ref_value :: "Scope \<Rightarrow> ref \<Rightarrow> string option" where
  "ref_value sc (RConfig k) = gm_get (sc_Config sc) k"
| "ref_value sc (REnv k) = gm_get (sc_Env sc) k"
| "ref_value sc RRunID = Some (sc_RunID sc)"
| "ref_value sc RTestName = Some (sc_TestName sc)"
| "ref_value sc (RService k) = gm_get (sc_Services sc) k"
| "ref_value sc RWorkerIndex = (if par_has (\<lambda>_. True) sc then Some (deferred ''worker.index'') else None)"
| "ref_value sc RWorkerCount = (if par_has (\<lambda>_. True) sc then Some (deferred ''worker.count'') else None)"
| "ref_value sc (RMatrix k) =
     (if par_has (\<lambda>p. gm_at False (pk_Matrix p) k) sc then Some (deferred (''matrix.'' @ k)) else None)"
| "ref_value sc (RShard k) =
     (if par_has (\<lambda>p. gm_at False (pk_Shard p) k) sc then Some (deferred (''shard.'' @ k)) else None)"
| "ref_value sc (RUnknown ns k) = None"

text \<open>The meaning of a template: the output, or the first reference that does not resolve.\<close>

fun eval_segs :: "Scope \<Rightarrow> seg list \<Rightarrow> (string, string) result" where
  "eval_segs sc [] = Inr []"
| "eval_segs sc (SLit t # segs) = rbind (eval_segs sc segs) (\<lambda>o1. Inr (t @ o1))"
| "eval_segs sc (SOpen # segs) = rbind (eval_segs sc segs) (\<lambda>o1. Inr (''{{'' @ o1))"
| "eval_segs sc (SClose # segs) = rbind (eval_segs sc segs) (\<lambda>o1. Inr (''}}'' @ o1))"
| "eval_segs sc (SRef l r w # segs) =
     (case ref_value sc r of None \<Rightarrow> Inl (print_ref r)
      | Some v \<Rightarrow> rbind (eval_segs sc segs) (\<lambda>o1. Inr (v @ o1)))"

definition no_pos :: "(expr_error, string) result \<Rightarrow> (string, string) result" where
  "no_pos = map_sum err_Ref id"

section \<open>Evaluation computes the specification\<close>

lemma no_pos_simps [simp]:
  "no_pos (Inl e) = Inl (err_Ref e)" "no_pos (Inr v) = Inr v"
  by (simp_all add: no_pos_def)

lemma no_pos_emit [simp]: "no_pos (emit v r) = rbind (no_pos r) (\<lambda>o1. Inr (v @ o1))"
  by (cases r) (simp_all add: emit_def)

lemma emit_emit [simp]: "emit v (emit w r) = emit (v @ w) r"
  by (cases r) (simp_all add: emit_def)

lemma emit_Nil [simp]: "emit [] r = r"
  by (cases r) (simp_all add: emit_def)

lemma ident_char_byte:
  "ident_char c \<Longrightarrow> (48 \<le> byte c \<and> byte c \<le> 57) \<or> (65 \<le> byte c \<and> byte c \<le> 90)
     \<or> byte c = 95 \<or> (97 \<le> byte c \<and> byte c \<le> 122)"
  by (auto simp: ident_char_def ident_start_def is_upper_def is_lower_def is_digit_def byte_def)

lemma identRe_chars: "identRe k \<Longrightarrow> k \<noteq> [] \<and> (\<forall>c \<in> set k. ident_char c)"
  by (auto simp: identRe_def ident_char_def list_all_iff split: list.splits)

lemma ident_char_no:
  assumes "ident_char c"
  shows "c \<noteq> CHR ''{''" "c \<noteq> CHR ''}''" "c \<noteq> CHR ''.''" "c \<noteq> CHR 0x22" "c \<noteq> newline" "\<not> re_space c"
  using ident_char_byte [OF assms] by (auto simp: byte_def newline_def re_space_def)

lemma identRe_no:
  assumes "identRe k"
  shows "CHR ''}'' \<notin> set k" "CHR ''.'' \<notin> set k" "CHR ''{'' \<notin> set k"
  using identRe_chars [OF assms] ident_char_no(1-3) by auto

text \<open>Trimming: encodings of white space do not start or end with an identifier character.\<close>

lemma ident_not_space_hd: "ident_char c \<Longrightarrow> e \<in> set space_encodings \<Longrightarrow> e \<noteq> [] \<Longrightarrow> hd e \<noteq> c"
  using ident_char_byte [of c] by (auto simp: space_encodings_def byte_def)

lemma ident_not_space_last:
  "ident_char c \<Longrightarrow> e \<in> set (map rev space_encodings) \<Longrightarrow> e \<noteq> [] \<Longrightarrow> hd e \<noteq> c"
  using ident_char_byte [of c] by (auto simp: space_encodings_def byte_def)

lemma trim_left_space:
  assumes "c \<in> {CHR 0x20, CHR 0x09}"
  shows "trim_left_enc space_encodings (c # s) = trim_left_enc space_encodings s"
proof -
  from assms consider "c = CHR 0x20" | "c = CHR 0x09" by blast
  then have "find (\<lambda>e. e \<noteq> [] \<and> has_prefix e (c # s)) space_encodings = Some [c]"
    by cases (simp_all add: space_encodings_def)
  then show ?thesis by (simp add: trim_left_enc.simps [of _ "c # s"])
qed

lemma trim_right_space:
  assumes "c \<in> {CHR 0x20, CHR 0x09}"
  shows "trim_left_enc (map rev space_encodings) (c # s) = trim_left_enc (map rev space_encodings) s"
proof -
  from assms consider "c = CHR 0x20" | "c = CHR 0x09" by blast
  then have "find (\<lambda>e. e \<noteq> [] \<and> has_prefix e (c # s)) (map rev space_encodings) = Some [c]"
    by cases (simp_all add: space_encodings_def)
  then show ?thesis by (simp add: trim_left_enc.simps [of _ "c # s"])
qed

lemma trim_left_blank: "blank l \<Longrightarrow> trim_left_enc space_encodings (l @ s) = trim_left_enc space_encodings s"
  by (induction l) (simp_all add: blank_def trim_left_space)

lemma trim_right_blank:
  "blank l \<Longrightarrow> trim_left_enc (map rev space_encodings) (l @ s) = trim_left_enc (map rev space_encodings) s"
  by (induction l) (simp_all add: blank_def trim_right_space)

lemma blank_rev [simp]: "blank (rev s) = blank s"
  by (simp add: blank_def)

lemma trim_space_blank:
  assumes "blank l" "blank w" "x \<noteq> []" "ident_char (hd x)" "ident_char (last x)"
  shows "trim_space (l @ x @ w) = x"
proof -
  obtain c y where x: "x = c # y" using assms(3) by (cases x) auto
  obtain z d where x': "x = z @ [d]" using assms(3) by (cases x rule: rev_cases) auto
  have "trim_left_enc space_encodings (l @ x @ w) = x @ w"
    using assms(1,4) ident_not_space_hd by (simp add: trim_left_blank x trim_left_enc_stop)
  moreover have "trim_left_enc (map rev space_encodings) (rev w @ rev x) = rev x"
    unfolding trim_right_blank [of "rev w", simplified, OF assms(2)]
    using assms(5) ident_not_space_last unfolding x'
    by (simp del: set_map set_rev) (rule trim_left_enc_stop, auto)
  ultimately show ?thesis by (simp add: trim_space_def)
qed

lemma index_of_close:
  "CHR ''}'' \<notin> set body \<Longrightarrow>
   index_of ''}}'' (body @ CHR ''}'' # CHR ''}'' # r) = Some (length body)"
  by (induction body) auto

lemma index_of_dot:
  "CHR ''.'' \<notin> set ns \<Longrightarrow> index_of ''.'' (ns @ CHR ''.'' # k) = Some (length ns)"
  by (induction ns) auto

lemma cut_dot: "CHR ''.'' \<notin> set ns \<Longrightarrow> cut ''.'' (ns @ CHR ''.'' # k) = Some (ns, k)"
  by (simp add: cut_def index_of_dot)

lemmas ns_defs = nsWorker_def nsMatrix_def nsShard_def

lemma identRe_index_count: "identRe ''index''" "identRe ''count''"
  by (simp_all add: identRe_def ident_char_def ident_start_def is_lower_def byte_def)

lemma print_ref_shape:
  "wf_ref r \<Longrightarrow> print_ref r \<noteq> [] \<and> ident_char (hd (print_ref r)) \<and> ident_char (last (print_ref r))
     \<and> CHR ''}'' \<notin> set (print_ref r) \<and> CHR 0x22 \<notin> set (print_ref r)"
proof -
  have k: "k \<noteq> [] \<and> ident_char (last k) \<and> ident_char (hd k) \<and> CHR ''}'' \<notin> set k \<and> CHR 0x22 \<notin> set k"
    if "identRe k" for k
    using identRe_chars [OF that] ident_char_no by (metis hd_in_set last_in_set)
  have lit: "ident_char c" if "c \<in> set ''abcdefghijklmnopqrstuvwxyz''" for c
    using that by (auto simp: ident_char_def ident_start_def is_lower_def byte_def)
  show "wf_ref r \<Longrightarrow> ?thesis"
    by (cases r) (auto simp: k lit)
qed

lemma resolveRef_unknown:
  assumes "identRe ns" "identRe k" "ns \<notin> set known_namespaces"
  shows "no_pos (resolveRef (ns @ CHR ''.'' # k) sc l c) = Inl (ns @ CHR ''.'' # k)"
proof -
  have cut: "cut ''.'' (ns @ CHR ''.'' # k) = Some (ns, k)"
    by (rule cut_dot) (rule identRe_no [OF assms(1)])
  have "cut ''.'' ''run.id'' = Some (''run'', ''id'')" "cut ''.'' ''test.name'' = Some (''test'', ''name'')"
    by (simp_all add: cut_def)
  then have "ns @ CHR ''.'' # k \<noteq> ''run.id''" "ns @ CHR ''.'' # k \<noteq> ''test.name''"
    using cut assms(3) by (auto simp: known_namespaces_def)
  then show ?thesis
    using assms identRe_no(2) [OF assms(2)]
    by (simp add: resolveRef_def cut known_namespaces_def ns_defs)
qed

lemma resolveRef_print:
  assumes "wf_ref r"
  shows "no_pos (resolveRef (print_ref r) sc l c) =
    (case ref_value sc r of None \<Rightarrow> Inl (print_ref r) | Some v \<Rightarrow> Inr v)"
proof (cases r)
  case (RUnknown ns k)
  with assms show ?thesis by (simp add: resolveRef_unknown)
qed (use assms identRe_index_count in \<open>auto simp: resolveRef_def cut_def ns_defs deferWorkerRef_def
      par_has_def deferred_def identRe_no split: option.split\<close>)

lemma str_contains_Cons:
  "\<not> str_contains sub (b # t) \<Longrightarrow> \<not> has_prefix sub (b # t) \<and> \<not> str_contains sub t"
  by (auto simp: str_contains_def split: if_splits)

lemma wf_lit_Cons:
  assumes "wf_lit (b # t)"
  shows "wf_lit t" "\<not> has_prefix ''{{'' (b # t @ r)"
proof -
  have c: "\<not> has_prefix ''{{'' (b # t)" "\<not> str_contains ''{{'' t"
    using assms str_contains_Cons [of "''{{''" b t] by (simp_all add: wf_lit_def del: has_prefix_Cons)
  then show "wf_lit t" using assms by (auto simp: wf_lit_def split: if_splits)
  show "\<not> has_prefix ''{{'' (b # t @ r)"
    using c(1) assms by (cases t) (auto simp: wf_lit_def)
qed

lemma eval_loop_lit:
  "wf_lit t \<Longrightarrow> \<exists>l' c'. eval_loop sc (t @ r) l c = emit t (eval_loop sc r l' c')"
proof (induction t arbitrary: l c)
  case (Cons b t)
  note np = wf_lit_Cons(2) [OF Cons.prems]
  obtain l1 c1 where "eval_loop sc (b # t @ r) l c = emit [b] (eval_loop sc (t @ r) l1 c1)"
    using np by (cases "b = newline") (auto simp: eval_loop.simps(2) simp del: has_prefix_Cons)
  moreover obtain l2 c2 where "eval_loop sc (t @ r) l1 c1 = emit t (eval_loop sc r l2 c2)"
    using Cons.IH [OF wf_lit_Cons(1) [OF Cons.prems]] by blast
  ultimately have "eval_loop sc ((b # t) @ r) l c = emit (b # t) (eval_loop sc r l2 c2)" by simp
  then show ?case by blast
qed auto

lemmas esc_defs = escOpen_def escClose_def escapeOpenBrace_def escapeCloseBrace_def newline_def

lemma eval_loop_open:
  "\<exists>l' c'. eval_loop sc (escOpen @ r) l c = emit ''{{'' (eval_loop sc r l' c')"
  by (simp add: eval_loop.simps(2) esc_defs split_beta Let_def) blast

lemma eval_loop_close:
  "\<exists>l' c'. eval_loop sc (escClose @ r) l c = emit ''}}'' (eval_loop sc r l' c')"
  by (simp add: eval_loop.simps(2) esc_defs split_beta Let_def) blast

lemma eval_loop_expr:
  assumes "CHR ''}'' \<notin> set bd" "bd \<noteq> []" "hd bd \<noteq> CHR 0x22"
  shows "\<exists>l' c'. eval_loop sc (CHR ''{'' # CHR ''{'' # bd @ CHR ''}'' # CHR ''}'' # r) l c =
    rbind (resolveRef (trim_space bd) sc l c) (\<lambda>v. emit v (eval_loop sc r l' c'))"
proof -
  let ?s = "CHR ''{'' # CHR ''{'' # bd @ CHR ''}'' # CHR ''}'' # r"
  obtain c0 b0 where bd: "bd = c0 # b0" "c0 \<noteq> CHR 0x22" using assms(2,3) by (cases bd) auto
  have noesc: "\<not> has_prefix escOpen ?s" "\<not> has_prefix escClose ?s"
    using bd(2) by (simp_all add: esc_defs bd(1))
  have idx: "index_of ''}}'' ?s = Some (length bd + 2)"
    using index_of_close [OF assms(1)] by simp
  have pre: "has_prefix ''{{'' ?s" "CHR ''{'' \<noteq> newline" by (simp_all add: newline_def)
  obtain l' c' where p: "advancePos (take (length bd + 2 + 2) ?s) l c = (l', c')" by fastforce
  have "eval_loop sc ?s l c = rbind (resolveRef (trim_space bd) sc l c)
      (\<lambda>v. emit v (eval_loop sc r l' c'))"
    by (subst eval_loop.simps(2)) (simp only: noesc idx pre p if_True if_False option.case Let_def prod.case, simp)
  then show ?thesis by blast
qed

lemma eval_loop_ref:
  assumes "blank bl" "blank w" "wf_ref rf"
  shows "\<exists>l' c'. no_pos (eval_loop sc (print_seg (SRef bl rf w) @ r) l c) =
    rbind (no_pos (resolveRef (print_ref rf) sc l c))
      (\<lambda>v. rbind (no_pos (eval_loop sc r l' c')) (\<lambda>o1. Inr (v @ o1)))"
proof -
  let ?body = "bl @ print_ref rf @ w"
  note x = print_ref_shape [OF assms(3)]
  have nb: "CHR ''}'' \<notin> set ?body" and nq: "CHR 0x22 \<notin> set ?body" and ne: "?body \<noteq> []"
    using x assms(1,2) by (auto simp: blank_def)
  have hd: "hd ?body \<noteq> CHR 0x22" using ne nq hd_in_set by metis
  have trim: "trim_space ?body = print_ref rf"
    using x by (intro trim_space_blank assms(1,2)) auto
  have s: "print_seg (SRef bl rf w) @ r = CHR ''{'' # CHR ''{'' # ?body @ CHR ''}'' # CHR ''}'' # r"
    by simp
  obtain l' c' where "eval_loop sc (print_seg (SRef bl rf w) @ r) l c =
      rbind (resolveRef (print_ref rf) sc l c) (\<lambda>v. emit v (eval_loop sc r l' c'))"
    using eval_loop_expr [OF nb ne hd, of sc r l c] unfolding trim s by blast
  then show ?thesis
    by (intro exI [of _ l'] exI [of _ c']) (cases "resolveRef (print_ref rf) sc l c"; simp)
qed

lemma eval_loop_segs:
  "\<forall>g \<in> set segs. wf_seg g \<Longrightarrow> no_pos (eval_loop sc (print_segs segs) l c) = eval_segs sc segs"
proof (induction segs arbitrary: l c)
  case Nil
  then show ?case by (simp add: print_segs_def)
next
  case (Cons g segs)
  have IH: "no_pos (eval_loop sc (print_segs segs) l' c') = eval_segs sc segs" for l' c'
    using Cons by simp
  have p: "print_segs (g # segs) = print_seg g @ print_segs segs"
    by (simp add: print_segs_def)
  show ?case
  proof (cases g)
    case (SLit t)
    then show ?thesis
      using eval_loop_lit [of t sc "print_segs segs" l c] Cons.prems IH p by auto
  next
    case SOpen
    then show ?thesis using eval_loop_open [of sc "print_segs segs" l c] IH p by auto
  next
    case SClose
    then show ?thesis using eval_loop_close [of sc "print_segs segs" l c] IH p by auto
  next
    case (SRef bl rf w)
    with Cons.prems have wf: "blank bl" "blank w" "wf_ref rf" by auto
    obtain l' c' where "no_pos (eval_loop sc (print_seg g @ print_segs segs) l c) =
      rbind (no_pos (resolveRef (print_ref rf) sc l c))
      (\<lambda>v. rbind (no_pos (eval_loop sc (print_segs segs) l' c')) (\<lambda>o1. Inr (v @ o1)))"
      using eval_loop_ref [OF wf, of sc "print_segs segs" l c] SRef by auto
    then show ?thesis
      unfolding p [symmetric] IH resolveRef_print [OF wf(3)]
      using SRef by (simp split: option.split)
  qed
qed

lemma Eval_no_pos:
  "\<forall>g \<in> set segs. wf_seg g \<Longrightarrow> no_pos (Eval (print_segs segs) sc) = eval_segs sc segs"
  using eval_loop_segs [of segs sc 1 1] by (cases "print_segs segs") (simp_all add: Eval_def)

lemma Eval_Inr_iff:
  assumes "\<forall>g \<in> set segs. wf_seg g"
  shows "Eval (print_segs segs) sc = Inr out \<longleftrightarrow> eval_segs sc segs = Inr out"
  using Eval_no_pos [OF assms, of sc] by (cases "Eval (print_segs segs) sc") auto

section \<open>The worker pass\<close>

lemma replace_no_open: "\<not> str_contains ''{{'' s \<Longrightarrow> replace_worker_refs w s = s"
proof (induction s)
  case (Cons b s)
  from str_contains_Cons [OF Cons.prems] have "\<not> has_prefix ''{{'' (b # s)" "\<not> str_contains ''{{'' s"
    by auto
  with Cons.IH show ?case by (simp add: workerRefRE_def del: has_prefix_Cons)
qed simp

lemma SubstituteWorker_replace: "SubstituteWorker s w = replace_worker_refs w s"
  by (simp add: SubstituteWorker_def replace_no_open)

lemma replace_plain: "CHR ''{'' \<notin> set t \<Longrightarrow> replace_worker_refs w (t @ r) = t @ replace_worker_refs w r"
  by (induction t) (auto simp: workerRefRE_def)

lemma dropWhile_ident: "identRe k \<Longrightarrow> dropWhile ident_char (k @ CHR '' '' # r) = CHR '' '' # r"
  "identRe k \<Longrightarrow> takeWhile ident_char (k @ CHR '' '' # r) = k"
proof -
  have sp: "\<not> ident_char (CHR '' '')"
    by (simp add: ident_char_def ident_start_def is_upper_def is_lower_def is_digit_def byte_def)
  assume "identRe k"
  then have "\<forall>c \<in> set k. ident_char c" using identRe_chars by blast
  then show "dropWhile ident_char (k @ CHR '' '' # r) = CHR '' '' # r"
    "takeWhile ident_char (k @ CHR '' '' # r) = k"
    using sp by (induction k) auto
qed

lemma workerRefRE_deferred:
  assumes "identRe k" "ns \<in> {nsWorker, nsMatrix, nsShard}"
  shows "workerRefRE (deferred (ns @ CHR ''.'' # k) @ r) = Some (ns, k, r)"
proof -
  have k: "dropWhile re_space (ns @ CHR ''.'' # k @ u) = ns @ CHR ''.'' # k @ u" for u
    using assms(2) by (auto simp: ns_defs re_space_def)
  have w: "worker_ns (ns @ CHR ''.'' # k @ u) = Some (ns, k @ u)" for u
    using assms(2) by (elim insertE) (simp_all add: worker_ns_def ns_defs)
  have sp: "re_space (CHR '' '')" "\<not> re_space (CHR ''}'')" by (simp_all add: re_space_def)
  have "deferred (ns @ CHR ''.'' # k) @ r =
      CHR ''{'' # CHR ''{'' # CHR '' '' # ns @ CHR ''.'' # k @ CHR '' '' # CHR ''}'' # CHR ''}'' # r"
    by (simp add: deferred_def)
  then show ?thesis
    using assms(1) by (simp add: workerRefRE_def k w sp dropWhile_ident Let_def)
qed

lemma replace_deferred:
  assumes "identRe k" "ns \<in> {nsWorker, nsMatrix, nsShard}"
  shows "replace_worker_refs w (deferred (ns @ CHR ''.'' # k) @ r) =
    worker_value w ns k @ replace_worker_refs w r"
  using workerRefRE_deferred [OF assms, of r] unfolding deferred_def by simp

text \<open>
  The value a reference has once both passes ran, and the side condition under which the
  second pass is innocuous: no looked-up value holds an opening brace.
\<close>

fun final_value :: "Scope \<Rightarrow> WorkerVars \<Rightarrow> ref \<Rightarrow> string" where
  "final_value sc w RWorkerIndex = utoa (wv_Index w)"
| "final_value sc w RWorkerCount = utoa (wv_Count w)"
| "final_value sc w (RMatrix k) = gm_at [] (wv_Matrix w) k"
| "final_value sc w (RShard k) = gm_at [] (wv_Shard w) k"
| "final_value sc w r = (case ref_value sc r of None \<Rightarrow> [] | Some v \<Rightarrow> v)"

fun final_seg :: "Scope \<Rightarrow> WorkerVars \<Rightarrow> seg \<Rightarrow> string" where
  "final_seg sc w (SLit t) = t"
| "final_seg sc w SOpen = ''{{''"
| "final_seg sc w SClose = ''}}''"
| "final_seg sc w (SRef l r e) = final_value sc w r"

definition brace_free :: "string \<Rightarrow> bool" where
  "brace_free s \<longleftrightarrow> CHR ''{'' \<notin> set s"

definition plain_scope :: "Scope \<Rightarrow> bool" where
  "plain_scope sc \<longleftrightarrow> list_all brace_free (map snd (sc_Config sc)) \<and>
     list_all brace_free (map snd (sc_Env sc)) \<and> list_all brace_free (map snd (sc_Services sc)) \<and>
     brace_free (sc_RunID sc) \<and> brace_free (sc_TestName sc)"

fun plain_seg :: "seg \<Rightarrow> bool" where
  "plain_seg (SLit t) = brace_free t"
| "plain_seg SOpen = False"
| "plain_seg _ = True"

lemma map_of_brace_free: "list_all brace_free (map snd m) \<Longrightarrow> map_of m k = Some v \<Longrightarrow> brace_free v"
  by (induction m) (auto split: if_splits)

lemma replace_ref:
  assumes "plain_scope sc" "wf_ref rf" "ref_value sc rf = Some v"
  shows "replace_worker_refs w (v @ r) = final_value sc w rf @ replace_worker_refs w r"
proof -
  have pl: "replace_worker_refs w (u @ r) = u @ replace_worker_refs w r" if "brace_free u" for u
    using that by (simp add: replace_plain brace_free_def)
  have m: "brace_free u" if "map_of (sc_Config sc) k = Some u \<or> map_of (sc_Env sc) k = Some u
      \<or> map_of (sc_Services sc) k = Some u" for u k
    using assms(1) that map_of_brace_free [of "sc_Config sc" k u] map_of_brace_free [of "sc_Env sc" k u]
      map_of_brace_free [of "sc_Services sc" k u]
    by (elim disjE) (simp_all add: plain_scope_def)
  have d: "replace_worker_refs w (deferred ''worker.index'' @ r) = utoa (wv_Index w) @ replace_worker_refs w r"
    "replace_worker_refs w (deferred ''worker.count'' @ r) = utoa (wv_Count w) @ replace_worker_refs w r"
    using identRe_index_count replace_deferred [of "''index''" nsWorker w r]
      replace_deferred [of "''count''" nsWorker w r]
    by (simp_all add: worker_value_def ns_defs)
  have e: "replace_worker_refs w (deferred (''matrix.'' @ k) @ r) = gm_at [] (wv_Matrix w) k @ replace_worker_refs w r"
    "replace_worker_refs w (deferred (''shard.'' @ k) @ r) = gm_at [] (wv_Shard w) k @ replace_worker_refs w r"
    if "identRe k" for k
    using replace_deferred [OF that, of nsMatrix w r] replace_deferred [OF that, of nsShard w r]
    by (simp_all add: worker_value_def ns_defs)
  have ids: "brace_free (sc_RunID sc)" "brace_free (sc_TestName sc)"
    using assms(1) by (simp_all add: plain_scope_def)
  show ?thesis
  proof (cases rf)
    case (RMatrix k)
    then show ?thesis using assms(2,3) e(1) [of k] by (simp split: if_splits)
  next
    case (RShard k)
    then show ?thesis using assms(2,3) e(2) [of k] by (simp split: if_splits)
  qed (use assms(3) d ids pl [of v] m [of _ v] in \<open>auto split: if_splits\<close>)
qed

lemma replace_eval_segs:
  "plain_scope sc \<Longrightarrow> \<forall>g \<in> set segs. wf_seg g \<and> plain_seg g \<Longrightarrow> eval_segs sc segs = Inr out \<Longrightarrow>
   replace_worker_refs w out = concat (map (final_seg sc w) segs)"
proof (induction segs arbitrary: out)
  case (Cons g segs)
  show ?case
  proof (cases g)
    case (SLit t)
    with Cons show ?thesis by (auto simp: rbind_Inr replace_plain brace_free_def)
  next
    case SClose
    with Cons show ?thesis using replace_plain [of "''}}''" w] by (auto simp: rbind_Inr)
  next
    case (SRef l rf e)
    with Cons show ?thesis by (auto simp: rbind_Inr replace_ref split: option.splits)
  qed (use Cons in auto)
qed simp

section \<open>Coercion\<close>

text \<open>What a coerced parameter value satisfies.\<close>

definition type_ok :: "string \<Rightarrow> string \<Rightarrow> bool" where
  "type_ok t v \<longleftrightarrow> t = [] \<or> t = ''string'' \<or> t = ''integer'' \<and> parse_int64 v \<noteq> None
     \<or> t = ''number'' \<and> parse_float_ok v \<or> t = ''boolean'' \<and> v \<in> {''true'', ''false''}"

definition param_ok :: "regexp \<Rightarrow> ExprParameter \<Rightarrow> string \<Rightarrow> bool" where
  "param_ok re p v \<longleftrightarrow> type_ok (ep_Type p) v \<and> (ep_Enum p = [] \<or> v \<in> set (ep_Enum p)) \<and>
     (ep_Pattern p = [] \<or> (case re (ep_Pattern p) of None \<Rightarrow> False | Some f \<Rightarrow> f v))"

lemma to_lower_bools: "to_lower ''true'' = ''true''" "to_lower ''false'' = ''false''"
  by (simp_all add: to_lower_def lower_char_def is_upper_def byte_def)

lemma coerce_type_sound: "coerce_type n t v = Inr u \<Longrightarrow> type_ok t u"
  by (auto simp: coerce_type_def type_ok_def Let_def split: if_splits)

lemma coerce_type_fix: "t \<noteq> [] \<Longrightarrow> type_ok t u \<Longrightarrow> coerce_type n t u = Inr u"
  unfolding type_ok_def
  by (elim disjE conjE insertE) (simp_all add: coerce_type_def to_lower_bools)

lemma utoa_2: "utoa 2 = ''2''" and utoa_3: "utoa 3 = ''3''"
  by code_simp+

section \<open>Properties\<close>

text \<open>
  C33. Strict, single-pass evaluation: on every template written as segments (literal text,
  escapes, references padded with blanks), \<open>Eval\<close> returns exactly the concatenation of the
  literals, the escaped braces and the looked-up values, copied verbatim whatever they
  contain (a value holding \<open>{{ config.secret }}\<close> is not evaluated again); and when some
  reference does not resolve it returns an error that names the first such reference.
\<close>

theorem Eval_segments:
  "\<forall>g \<in> set segs. wf_seg g \<Longrightarrow> no_pos (Eval (print_segs segs) sc) = eval_segs sc segs"
  by (rule Eval_no_pos)

theorem Eval_segments_witness:
  "no_pos (Eval ''a {{ config.k }} b'' \<lparr>sc_Config = [(''k'', ''{{ run.id }}'')], sc_Env = [],
     sc_RunID = ''r1'', sc_TestName = ''t'', sc_Services = [], sc_Parallel = None\<rparr>)
   = Inr ''a {{ run.id }} b''"
  using Eval_segments [of "[SLit ''a '', SRef '' '' (RConfig ''k'') '' '', SLit '' b'']"
      "\<lparr>sc_Config = [(''k'', ''{{ run.id }}'')], sc_Env = [],
     sc_RunID = ''r1'', sc_TestName = ''t'', sc_Services = [], sc_Parallel = None\<rparr>"]
  by (simp add: wf_lit_def str_contains_def blank_def identRe_def ident_char_def ident_start_def
      is_lower_def byte_def print_segs_def)

text \<open>
  Two-phase templating of a parallel worker: the resolver's pass defers
  \<open>worker.*\<close>, \<open>matrix.*\<close> and \<open>shard.*\<close> references and the controller's pass fills them in
  per worker. On a template whose literals and looked-up values hold no opening brace the
  two passes together give every reference its final value: the scope's for the ordinary
  references, the worker's for the deferred ones.
\<close>

theorem SubstituteWorker_after_Eval:
  assumes "plain_scope sc" "\<forall>g \<in> set segs. wf_seg g \<and> plain_seg g"
    and "Eval (print_segs segs) sc = Inr out"
  shows "SubstituteWorker out w = concat (map (final_seg sc w) segs)"
proof -
  have "eval_segs sc segs = Inr out" using assms(2,3) Eval_Inr_iff by blast
  then show ?thesis by (simp add: SubstituteWorker_replace replace_eval_segs [OF assms(1,2)])
qed

theorem SubstituteWorker_after_Eval_witness:
  "SubstituteWorker ''s={{ shard.u }} n={{ worker.index }}''
     \<lparr>wv_Index = 3, wv_Count = 4, wv_Matrix = [], wv_Shard = [(''u'', ''a,b'')]\<rparr> = ''s=a,b n=3''"
proof -
  define sc :: Scope where "sc = \<lparr>sc_Config = [], sc_Env = [], sc_RunID = ''r1'', sc_TestName = ''t'',
    sc_Services = [], sc_Parallel = Some \<lparr>pk_Matrix = [], pk_Shard = [(''u'', True)]\<rparr>\<rparr>"
  define segs where "segs = [SLit ''s='', SRef [] (RShard ''u'') [], SLit '' n='', SRef [] RWorkerIndex []]"
  have p: "plain_scope sc" by (simp add: plain_scope_def sc_def brace_free_def)
  have s: "\<forall>g \<in> set segs. wf_seg g \<and> plain_seg g"
    by (simp add: segs_def wf_lit_def str_contains_def blank_def identRe_def ident_char_def ident_start_def
        is_lower_def byte_def brace_free_def)
  have e: "Eval (print_segs segs) sc = Inr ''s={{ shard.u }} n={{ worker.index }}''"
    unfolding segs_def sc_def by code_simp
  show ?thesis
    using SubstituteWorker_after_Eval [OF p s e, of "\<lparr>wv_Index = 3, wv_Count = 4, wv_Matrix = [], wv_Shard = [(''u'', ''a,b'')]\<rparr>"]
    by (simp add: segs_def gm_at_def utoa_3)
qed

text \<open>
  The second pass is textual: it cannot tell a reference the first pass deferred from the
  same text arriving through a value. A configuration value that spells \<open>{{ worker.index }}\<close>
  is kept verbatim by \<open>Eval\<close> and then replaced by the worker's index, although the
  parameter value was to be treated as opaque data.
\<close>

theorem worker_pass_rewrites_values:
  assumes "identRe k" "gm_get (sc_Config sc) k = Some (deferred ''worker.index'')"
  shows "Eval (print_seg (SRef [] (RConfig k) [])) sc = Inr (deferred ''worker.index'') \<and>
    SubstituteWorker (deferred ''worker.index'') w = utoa (wv_Index w)"
proof
  show "Eval (print_seg (SRef [] (RConfig k) [])) sc = Inr (deferred ''worker.index'')"
    using Eval_Inr_iff [of "[SRef [] (RConfig k) []]" sc] assms
    by (simp add: print_segs_def blank_def)
  show "SubstituteWorker (deferred ''worker.index'') w = utoa (wv_Index w)"
    using replace_deferred [of "''index''" nsWorker w "[]"] identRe_index_count
    by (simp add: SubstituteWorker_replace worker_value_def ns_defs)
qed

theorem worker_pass_rewrites_values_witness:
  "SubstituteWorker (deferred ''worker.index'')
     \<lparr>wv_Index = 2, wv_Count = 4, wv_Matrix = [], wv_Shard = []\<rparr> = ''2''"
  using worker_pass_rewrites_values [of "''k''"
      "\<lparr>sc_Config = [(''k'', deferred ''worker.index'')], sc_Env = [], sc_RunID = [], sc_TestName = [],
        sc_Services = [], sc_Parallel = None\<rparr>"
      "\<lparr>wv_Index = 2, wv_Count = 4, wv_Matrix = [], wv_Shard = []\<rparr>"]
  by (simp add: identRe_def ident_char_def ident_start_def is_lower_def byte_def utoa_2)

text \<open>
  Parameter coercion: the values \<open>CoerceParam\<close> returns are exactly those that satisfy
  the declared type, the enumeration and the pattern, and each of them is left alone when
  it is coerced again (the webhook and the resolver both coerce).
\<close>

theorem CoerceParam_range:
  "((\<exists>v. CoerceParam re name v p = Inr u) \<longleftrightarrow> param_ok re p u) \<and>
   (CoerceParam re name u p = Inr u \<longleftrightarrow> param_ok re p u)"
proof -
  let ?t = "if ep_Type p = [] then ''string'' else ep_Type p"
  have ty: "type_ok ?t u \<longleftrightarrow> type_ok (ep_Type p) u" by (simp add: type_ok_def)
  have a: "param_ok re p u" if "CoerceParam re name v p = Inr u" for v
  proof -
    from that have "coerce_type name ?t v = Inr u"
      unfolding CoerceParam_def by (cases "coerce_type name ?t v") (simp_all split: if_splits option.splits)
    with that show ?thesis
      using coerce_type_sound ty unfolding CoerceParam_def param_ok_def
      by (simp split: if_splits option.splits)
  qed
  have b: "CoerceParam re name u p = Inr u" if "param_ok re p u"
  proof -
    have "coerce_type name ?t u = Inr u"
      using that ty by (intro coerce_type_fix) (simp_all add: param_ok_def)
    with that show ?thesis
      unfolding CoerceParam_def param_ok_def by (auto split: option.splits)
  qed
  show ?thesis using a b by blast
qed

end
