(* ===== verification/Names.thy ===== *)
theory Names
  imports Sha256
begin

text \<open>
  Generated object names, \<open>src/internal/names/names.go\<close>: \<open>Bounded\<close> (a name that fits a label
  value), \<open>ServiceName\<close> (a DNS-1035 label), \<open>ServiceReplicaName\<close> and \<open>ServiceHost\<close>.
\<close>

definition MaxLen :: nat where "MaxLen = 63"

definition hashLen :: nat where "hashLen = 8"

definition Bounded :: "string \<Rightarrow> string" where
  "Bounded name =
     (if length name \<le> MaxLen then name
      else trim_right ''-.'' (take (MaxLen - hashLen - 1) name) @ ''-'' @ take hashLen (sha256_hex name))"

definition dns_char :: "char \<Rightarrow> bool" where
  "dns_char c \<longleftrightarrow> is_lower c \<or> is_digit c \<or> c = CHR ''-''"

definition ServiceName :: "string \<Rightarrow> string \<Rightarrow> string" where
  "ServiceName runName svc =
     (let n = map (\<lambda>c. if \<not> is_lower c \<and> \<not> is_digit c \<and> c \<noteq> CHR ''-'' then CHR ''-'' else c)
                (to_lower (runName @ ''-'' @ svc));
          name = (if \<not> is_lower (hd n) then ''s-'' @ n else n)
      in Bounded name)"

definition ServiceReplicaName :: "string \<Rightarrow> nat \<Rightarrow> string" where
  "ServiceReplicaName serviceName i = Bounded (serviceName @ ''-'' @ utoa i)"

definition ServiceHost :: "string \<Rightarrow> string \<Rightarrow> string \<Rightarrow> string" where
  "ServiceHost runName namespace svc = ServiceName runName svc @ ''.'' @ namespace @ ''.svc''"

section \<open>Lemmas\<close>

lemma length_trim_right: "length (trim_right cs s) \<le> length s"
  using length_dropWhile_le [of _ "rev s"] by (simp add: trim_right_def)

lemma set_trim_right: "set (trim_right cs s) \<subseteq> set s"
  using set_dropWhileD by (fastforce simp: trim_right_def)

lemma trim_right_Cons:
  "c \<notin> set cs \<Longrightarrow> trim_right cs (c # s) = c # trim_right cs s"
  by (auto simp: trim_right_def dropWhile_append)

lemma length_Bounded: "length (Bounded name) \<le> MaxLen"
  using length_trim_right [of "''-.''" "take (MaxLen - hashLen - 1) name"]
  by (simp add: Bounded_def MaxLen_def hashLen_def)

lemma Bounded_hex:
  assumes "MaxLen < length name"
  obtains p h where "Bounded name = p @ ''-'' @ h" "length h = 8" "list_all is_hex h"
    "set p \<subseteq> set name" "p = trim_right ''-.'' (take 54 name)"
proof
  let ?p = "trim_right ''-.'' (take 54 name)" and ?h = "take 8 (sha256_hex name)"
  show "Bounded name = ?p @ ''-'' @ ?h" using assms by (simp add: Bounded_def MaxLen_def hashLen_def)
  show "length ?h = 8" by simp
  show "list_all is_hex ?h" using sha256_hex_chars [of name] by (auto simp: list_all_iff dest: in_set_takeD)
  show "set ?p \<subseteq> set name" using set_trim_right set_take_subset by fast
qed simp

lemma hex_dns: "is_hex c \<Longrightarrow> is_lower c \<or> is_digit c"
  by (auto simp: is_hex_def is_lower_def)

definition dns_label :: "string \<Rightarrow> bool" where
  "dns_label s \<longleftrightarrow> s \<noteq> [] \<and> length s \<le> 63 \<and> is_lower (hd s) \<and> list_all dns_char s"

lemma dash_not_lower [simp]: "\<not> is_lower (CHR ''-'')" "\<not> is_digit (CHR ''-'')" "is_lower (CHR ''s'')"
  by (simp_all add: is_lower_def is_digit_def byte_def)

lemma Bounded_label:
  assumes "name \<noteq> []" "is_lower (hd name)" "list_all dns_char name"
  shows "dns_label (Bounded name)"
proof (cases "length name \<le> MaxLen")
  case True
  then show ?thesis using assms by (simp add: Bounded_def dns_label_def MaxLen_def)
next
  case False
  then obtain p h where b: "Bounded name = p @ ''-'' @ h" "list_all is_hex h" "set p \<subseteq> set name"
    "p = trim_right ''-.'' (take 54 name)" using Bounded_hex [of name] by (metis not_le)
  obtain c s where cs: "name = c # s" "is_lower c" using assms(1,2) by (cases name) auto
  have "c \<notin> set ''-.''" using cs(2) by (auto simp: is_lower_def byte_def)
  then have "p = c # trim_right ''-.'' (take 53 s)" unfolding b(4) cs(1) by (simp add: trim_right_Cons)
  then have "is_lower (hd (Bounded name))" "Bounded name \<noteq> []" using b(1) cs(2) by auto
  moreover have "list_all dns_char (Bounded name)"
    using assms(3) b(2,3) hex_dns unfolding b(1) by (auto simp: list_all_iff dns_char_def)
  ultimately show ?thesis using length_Bounded [of name] by (simp add: dns_label_def MaxLen_def)
qed

lemma last_Bounded:
  assumes "name \<noteq> []" "is_lower (last name) \<or> is_digit (last name)"
  shows "is_lower (last (Bounded name)) \<or> is_digit (last (Bounded name))"
proof (cases "length name \<le> MaxLen")
  case False
  then obtain p h where b: "Bounded name = p @ ''-'' @ h" "list_all is_hex h" "length h = 8"
    using Bounded_hex [of name] by (metis not_le)
  then have "h \<noteq> []" by auto
  then have "last (Bounded name) \<in> set h" using b(1) by simp
  then show ?thesis using b(2) hex_dns by (auto simp: list_all_iff)
qed (use assms in \<open>simp add: Bounded_def\<close>)

section \<open>Properties\<close>

text \<open>
  \<open>Bounded\<close>: every name fits a label value (63 bytes), a name that fits is returned as
  it is, and shortening is stable (bounding a bounded name changes nothing), so names built
  in two steps agree with names built in one.
\<close>

theorem Bounded_fits:
  "length (Bounded name) \<le> 63 \<and> (length name \<le> 63 \<longrightarrow> Bounded name = name) \<and>
   Bounded (Bounded name) = Bounded name"
  using length_Bounded [of name] by (simp add: Bounded_def MaxLen_def)

theorem Bounded_fits_witness:
  "length (Bounded (replicate 70 (CHR ''a''))) \<le> 63 \<and> Bounded ''smoke'' = ''smoke''"
  using Bounded_fits [of "replicate 70 (CHR ''a'')"] Bounded_fits [of "''smoke''"] by simp

text \<open>
  \<open>ServiceName\<close>: whatever the run is called (digits first, dots, upper case, any length),
  the name of its service is a DNS-1035 label: at most 63 bytes, a letter first, then letters,
  digits and dashes only; and it ends with a letter or digit when the service's name does.
\<close>

theorem ServiceName_label:
  "dns_label (ServiceName run svc) \<and>
   (svc \<noteq> [] \<and> (is_lower (last svc) \<or> is_digit (last svc)) \<longrightarrow>
    is_lower (last (ServiceName run svc)) \<or> is_digit (last (ServiceName run svc)))"
proof -
  define n where "n = map (\<lambda>c. if \<not> is_lower c \<and> \<not> is_digit c \<and> c \<noteq> CHR ''-'' then CHR ''-'' else c)
                (to_lower (run @ ''-'' @ svc))"
  define name where "name = (if \<not> is_lower (hd n) then ''s-'' @ n else n)"
  have sn: "ServiceName run svc = Bounded name" by (simp add: ServiceName_def n_def name_def Let_def)
  have n: "n \<noteq> []" "list_all dns_char n" by (auto simp: n_def to_lower_def list_all_iff dns_char_def)
  then have l: "name \<noteq> []" "is_lower (hd name)" "list_all dns_char name" "last name = last n"
    by (auto simp: name_def dns_char_def)
  have keep: "lower_char c = c" if "is_lower c \<or> is_digit c" for c
    using that by (auto simp: lower_char_def is_upper_def is_lower_def is_digit_def)
  have "last n = last svc" if "svc \<noteq> []" "is_lower (last svc) \<or> is_digit (last svc)"
    using that keep [OF that(2)] by (auto simp: n_def to_lower_def last_map)
  then show ?thesis
    unfolding sn using Bounded_label [OF l(1-3)] last_Bounded [OF l(1)] l(4) by simp
qed

theorem ServiceName_label_witness:
  "dns_label (ServiceName ''2024.Run'' ''db'') \<and> (is_lower (last (ServiceName ''2024.Run'' ''db'')) \<or>
   is_digit (last (ServiceName ''2024.Run'' ''db'')))"
  using ServiceName_label [of "''2024.Run''" "''db''"] by (simp add: is_lower_def byte_def)

text \<open>
  \<open>ServiceName\<close> joins the two names with a dash that either may contain: two different
  runs can own a service of the same name. Run \<open>a\<close> with service \<open>b-c\<close> and run \<open>a-b\<close> with
  service \<open>c\<close> get one Service object between them.
\<close>

theorem ServiceName_not_injective:
  "ServiceName (run @ ''-'' @ x) svc = ServiceName run (x @ ''-'' @ svc)"
  by (simp add: ServiceName_def)

end
