(* ===== verification/ApiTypes.thy ===== *)
theory ApiTypes
  imports GoStrings
begin

text \<open>
  The resource types of \<open>src/api/v1alpha1\<close>, as records with the fields the modelled code
  reads or writes. Objects of the Kubernetes API that the sources only copy are \<open>opaque\<close>.
  A slice or map that some code compares with \<open>nil\<close> is a \<open>slice\<close> (\<open>None\<close> is \<open>nil\<close>, which
  Go distinguishes from an empty slice); the others are plain lists, \<open>[]\<close> being both. A
  pointer is an \<open>option\<close>. Times and durations are integers (nanoseconds); a nil
  \<open>*metav1.Time\<close> is \<open>None\<close>.
\<close>

section \<open>Slices and opaque objects\<close>

type_synonym 'a slice = "'a list option"

definition items :: "'a slice \<Rightarrow> 'a list" where
  "items s = (case s of None \<Rightarrow> [] | Some xs \<Rightarrow> xs)"

text \<open>\<open>append(dst, src...)\<close>: appending nothing returns \<open>dst\<close> itself, \<open>nil\<close> included.\<close>

definition go_append :: "'a slice \<Rightarrow> 'a slice \<Rightarrow> 'a slice" where
  "go_append dst src = (if items src = [] then dst else Some (items dst @ items src))"

datatype opaque = Opaque string

type_synonym time = int
type_synonym duration = int

section \<open>Phases\<close>

text \<open>The empty string of a status nobody wrote yet is \<open>PhaseNone\<close>.\<close>

datatype Phase =
    PhaseNone | PhaseQueued | PhaseRunning | PhasePaused | PhasePassed | PhaseFailed
  | PhaseAborted | PhaseError

text \<open>A step's phase: the run's phases and the skip marker.\<close>

datatype StepPhase =
    StepPhaseNone | StepPhaseQueued | StepPhaseRunning | StepPhasePaused | StepPhasePassed
  | StepPhaseFailed | StepPhaseAborted | StepPhaseError | StepPhaseSkipped

fun StepPhaseFromPhase :: "Phase \<Rightarrow> StepPhase" where
  "StepPhaseFromPhase PhaseNone = StepPhaseNone"
| "StepPhaseFromPhase PhaseQueued = StepPhaseQueued"
| "StepPhaseFromPhase PhaseRunning = StepPhaseRunning"
| "StepPhaseFromPhase PhasePaused = StepPhasePaused"
| "StepPhaseFromPhase PhasePassed = StepPhasePassed"
| "StepPhaseFromPhase PhaseFailed = StepPhaseFailed"
| "StepPhaseFromPhase PhaseAborted = StepPhaseAborted"
| "StepPhaseFromPhase PhaseError = StepPhaseError"

section \<open>Pods and containers\<close>

record KeyedSource =
  ks_Name :: string
  ks_Optional :: "bool option"
  ks_Items :: "string list"

record ProjectedSource =
  pj_Secret :: "KeyedSource option"
  pj_ConfigMap :: "KeyedSource option"

record VolumeSource =
  vs_EmptyDir :: "opaque option"
  vs_ConfigMap :: "KeyedSource option"
  vs_Secret :: "KeyedSource option"
  vs_Projected :: "ProjectedSource list option"
  vs_DownwardAPI :: "opaque option"
  vs_PersistentVolumeClaim :: "opaque option"
  vs_Ephemeral :: "opaque option"
  vs_CSI :: "opaque option"
  vs_HostPath :: "opaque option"
  vs_Other :: "opaque option"

record Volume =
  vol_Name :: string
  vol_Source :: VolumeSource

record PodConfig =
  po_Labels :: "(string, string) gomap"
  po_Annotations :: "(string, string) gomap"
  po_ServiceAccountName :: string
  po_NodeSelector :: "(string, string) gomap option"
  po_Tolerations :: "opaque slice"
  po_Affinity :: "opaque option"
  po_SecurityContext :: "opaque option"
  po_Volumes :: "Volume slice"
  po_ImagePullSecrets :: "opaque slice"

record EnvVar =
  ev_Name :: string
  ev_Value :: string
  ev_ValueFrom :: "opaque option"

record ResourceRequirements =
  rr_Requests :: "(string, string) gomap"
  rr_Limits :: "(string, string) gomap"

record SecurityContext =
  sx_Privileged :: "bool option"
  sx_CapabilitiesAdd :: "string slice"
  sx_Rest :: opaque

record ContainerConfig =
  ct_Image :: string
  ct_ImagePullPolicy :: string
  ct_WorkingDir :: string
  ct_Command :: "string list"
  ct_Args :: "string list"
  ct_Env :: "EnvVar list"
  ct_EnvFrom :: "opaque list"
  ct_Resources :: ResourceRequirements
  ct_SecurityContext :: "SecurityContext option"
  ct_VolumeMounts :: "opaque list"

section \<open>Test definitions\<close>

record GitContent =
  gc_URI :: string
  gc_Revision :: string
  gc_Paths :: "string list"
  gc_MountPath :: string
  gc_AuthType :: string
  gc_UsernameFrom :: "opaque option"
  gc_TokenFrom :: "opaque option"
  gc_SSHKeyFrom :: "opaque option"

record FileContent =
  fc_Path :: string
  fc_Content :: string
  fc_ContentFrom :: "opaque option"
  fc_Mode :: "int option"

record Tarball =
  tb_URL :: string
  tb_Path :: string
  tb_Mount :: bool

record TestDataItem =
  tdi_Key :: string
  tdi_Path :: string

record TestDataSource =
  td_ConfigMap :: string
  td_Secret :: string
  td_MountPath :: string
  td_Items :: "TestDataItem list"

record Content =
  cn_Git :: "GitContent option"
  cn_Files :: "FileContent list"
  cn_Tarball :: "Tarball list"
  cn_TestData :: "TestDataSource list"

record Parameter =
  pm_Type :: string
  pm_Default :: string
  pm_Enum :: "string list"
  pm_Pattern :: string
  pm_Description :: string
  pm_Path :: string

record ArtifactSpec =
  as_Paths :: "string list"
  as_Compress :: string
  as_Report :: string

record RetryPolicy =
  rp_Count :: int
  rp_Until :: string

record ServiceSpec =
  sv_Image :: string
  sv_Command :: "string list"
  sv_Args :: "string list"
  sv_Env :: "EnvVar list"
  sv_Timeout :: "duration option"
  sv_Logs :: bool
  sv_Count :: "int option"
  sv_MaxCount :: "int option"
  sv_Matrix :: "(string, string list) gomap"
  sv_Shards :: "(string, string) gomap"
  sv_Rest :: opaque

record ParallelSpec =
  pl_Count :: "int option"
  pl_MaxCount :: "int option"
  pl_Matrix :: "(string, string list) gomap"
  pl_Shards :: "(string, string list) gomap"

record VerdictSpec =
  vd_From :: string
  vd_ErrorRateMax :: string

record MetricsSpec =
  ms_From :: string
  ms_Path :: string

record LiveViewSpec =
  lv_Port :: int
  lv_Path :: string

record StepExecuteTest =
  et_Name :: string
  et_Count :: int
  et_Config :: "(string, string) gomap"

record StepExecute =
  se_Parallelism :: int
  se_Tests :: "StepExecuteTest list"

record Step =
  st_Name :: string
  st_Condition :: string
  st_Optional :: bool
  st_Negative :: bool
  st_Retry :: "RetryPolicy option"
  st_Timeout :: "duration option"
  st_Delay :: "duration option"
  st_Execute :: "StepExecute option"

record TestSpec =
  ts_Content :: Content
  ts_Container :: ContainerConfig
  ts_Use :: "string list"
  ts_Pod :: "PodConfig option"
  ts_Config :: "(string, Parameter) gomap"
  ts_Artifacts :: "ArtifactSpec option"
  ts_Timeout :: "duration option"
  ts_Retry :: "RetryPolicy option"
  ts_Schedule :: string
  ts_Services :: "(string, ServiceSpec) gomap"
  ts_Parallel :: "ParallelSpec option"
  ts_ConcurrencyPolicy :: string
  ts_Verdict :: "VerdictSpec option"
  ts_Metrics :: "MetricsSpec option"
  ts_LiveView :: "LiveViewSpec option"
  ts_Steps :: "Step list"

record Test =
  t_Name :: string
  t_Namespace :: string
  t_Labels :: "(string, string) gomap"
  t_CreationTimestamp :: time
  t_Spec :: TestSpec

record TestTemplateSpec =
  tt_Content :: Content
  tt_Container :: ContainerConfig
  tt_Pod :: "PodConfig option"
  tt_Config :: "(string, Parameter) gomap"
  tt_Artifacts :: "ArtifactSpec option"
  tt_Timeout :: "duration option"
  tt_Retry :: "RetryPolicy option"
  tt_Services :: "(string, ServiceSpec) gomap"
  tt_Parallel :: "ParallelSpec option"
  tt_Verdict :: "VerdictSpec option"
  tt_Metrics :: "MetricsSpec option"
  tt_LiveView :: "LiveViewSpec option"

record TestTemplate =
  tp_Name :: string
  tp_Labels :: "(string, string) gomap"
  tp_Spec :: TestTemplateSpec

section \<open>Zero values\<close>

definition zero_ContainerConfig :: ContainerConfig where
  "zero_ContainerConfig = \<lparr>ct_Image = [], ct_ImagePullPolicy = [], ct_WorkingDir = [], ct_Command = [],
     ct_Args = [], ct_Env = [], ct_EnvFrom = [], ct_Resources = \<lparr>rr_Requests = [], rr_Limits = []\<rparr>,
     ct_SecurityContext = None, ct_VolumeMounts = []\<rparr>"

definition zero_Content :: Content where
  "zero_Content = \<lparr>cn_Git = None, cn_Files = [], cn_Tarball = [], cn_TestData = []\<rparr>"

definition zero_PodConfig :: PodConfig where
  "zero_PodConfig = \<lparr>po_Labels = [], po_Annotations = [], po_ServiceAccountName = [],
     po_NodeSelector = None, po_Tolerations = None, po_Affinity = None, po_SecurityContext = None,
     po_Volumes = None, po_ImagePullSecrets = None\<rparr>"

definition zero_TestSpec :: TestSpec where
  "zero_TestSpec = \<lparr>ts_Content = zero_Content, ts_Container = zero_ContainerConfig, ts_Use = [],
     ts_Pod = None, ts_Config = [], ts_Artifacts = None, ts_Timeout = None, ts_Retry = None,
     ts_Schedule = [], ts_Services = [], ts_Parallel = None, ts_ConcurrencyPolicy = [],
     ts_Verdict = None, ts_Metrics = None, ts_LiveView = None, ts_Steps = []\<rparr>"

definition zero_TestTemplateSpec :: TestTemplateSpec where
  "zero_TestTemplateSpec = \<lparr>tt_Content = zero_Content, tt_Container = zero_ContainerConfig,
     tt_Pod = None, tt_Config = [], tt_Artifacts = None, tt_Timeout = None, tt_Retry = None,
     tt_Services = [], tt_Parallel = None, tt_Verdict = None, tt_Metrics = None, tt_LiveView = None\<rparr>"

section \<open>Runs\<close>

record AbortRequest =
  ab_Reason :: string
  ab_Message :: string
  ab_RequestedBy :: string

record TestRunSpec =
  rs_TestRef :: string
  rs_Config :: "(string, string) gomap"
  rs_Pod :: "PodConfig option"
  rs_Tags :: "(string, string) gomap"
  rs_Source :: string
  rs_Abort :: "AbortRequest option"
  rs_NotBefore :: "time option"

datatype StageKind = StageQueue | StageFetch | StageRun | StageCollect

record Stage =
  sg_Kind :: StageKind
  sg_Name :: string
  sg_Phase :: StepPhase
  sg_StartedAt :: "time option"
  sg_FinishedAt :: "time option"
  sg_Message :: string

record StepResult =
  sr_Phase :: StepPhase
  sr_QueuedAt :: "time option"
  sr_StartedAt :: "time option"
  sr_FinishedAt :: "time option"
  sr_Message :: string
  sr_Stages :: "Stage list"
  sr_Params :: "(string, string) gomap"
  sr_PodIP :: string

definition zero_StepResult :: StepResult where
  "zero_StepResult = \<lparr>sr_Phase = StepPhaseNone, sr_QueuedAt = None, sr_StartedAt = None,
     sr_FinishedAt = None, sr_Message = [], sr_Stages = [], sr_Params = [], sr_PodIP = []\<rparr>"

record ArtifactRef =
  ar_Path :: string
  ar_Key :: string
  ar_SizeBytes :: int
  ar_ContentType :: string

record ContentStatus =
  cs_GitRevision :: string
  cs_GitCommit :: string

record TestCounts =
  tc_Total :: int
  tc_Passed :: int
  tc_Failed :: int
  tc_Skipped :: int

text \<open>
  \<open>status.resolvedSpec\<close> is a JSON document: nothing, a spec, or text \<open>json.Unmarshal\<close> rejects.
\<close>

datatype snapshot = NoSnapshot | Snapshot TestSpec | BadSnapshot string

record TestRunStatus =
  ru_Phase :: Phase
  ru_QueuedAt :: "time option"
  ru_StartedAt :: "time option"
  ru_FinishedAt :: "time option"
  ru_DurationMs :: int
  ru_JobName :: string
  ru_Tool :: string
  ru_ResolvedSpec :: snapshot
  ru_Steps :: "(string, StepResult) gomap"
  ru_Stages :: "Stage list"
  ru_LogsRef :: string
  ru_ArtifactRefs :: "ArtifactRef list"
  ru_Metrics :: "(string, string) gomap"
  ru_TestCounts :: "TestCounts option"
  ru_PodIP :: string
  ru_Content :: "ContentStatus option"
  ru_Message :: string

definition zero_TestRunStatus :: TestRunStatus where
  "zero_TestRunStatus = \<lparr>ru_Phase = PhaseNone, ru_QueuedAt = None, ru_StartedAt = None,
     ru_FinishedAt = None, ru_DurationMs = 0, ru_JobName = [], ru_Tool = [], ru_ResolvedSpec = NoSnapshot,
     ru_Steps = [], ru_Stages = [], ru_LogsRef = [], ru_ArtifactRefs = [], ru_Metrics = [],
     ru_TestCounts = None, ru_PodIP = [], ru_Content = None, ru_Message = []\<rparr>"

record TestRun =
  r_Name :: string
  r_Namespace :: string
  r_UID :: string
  r_Labels :: "(string, string) gomap"
  r_CreationTimestamp :: time
  r_DeletionTimestamp :: "time option"
  r_Finalizers :: "string list"
  r_Spec :: TestRunSpec
  r_Status :: TestRunStatus

section \<open>Lemmas on slices\<close>

lemma items_simps [simp]: "items None = []" "items (Some xs) = xs"
  by (simp_all add: items_def)

lemma items_go_append [simp]: "items (go_append a b) = items a @ items b"
  by (simp add: go_append_def)

lemma go_append_nil [simp]: "go_append a None = a" "go_append a (Some []) = a"
  by (simp_all add: go_append_def)

lemma go_append_assoc: "go_append (go_append a b) c = go_append a (go_append b c)"
  by (simp add: go_append_def)

end
