(* ===== verification/PodMerge.thy ===== *)
theory PodMerge
  imports ApiTypes
begin

text \<open>
  The pod template's metadata and pod settings, \<open>src/internal/compiler/podmerge.go\<close>: what the
  Test's \<open>spec.pod\<close> and the TestRun's override become together with the operator's own labels,
  and the policy for test pods, \<open>src/internal/podpolicy/podpolicy.go\<close>, that the controller
  checks on the two inputs before anything is merged.
\<close>

section \<open>Merging\<close>

definition LabelRunID :: string where "LabelRunID = ''kubetest.io/run-id''"

definition LabelManagedBy :: string where "LabelManagedBy = ''app.kubernetes.io/managed-by''"

definition ManagedByValue :: string where "ManagedByValue = ''kubetest-alt''"

definition LabelParentRun :: string where "LabelParentRun = ''kubetest.io/parent-run''"

definition LabelStep :: string where "LabelStep = ''kubetest.io/step''"

definition LabelExecIndex :: string where "LabelExecIndex = ''kubetest.io/exec-index''"

definition LabelAttempt :: string where "LabelAttempt = ''kubetest.io/attempt''"

definition ReservedLabelPrefix :: string where "ReservedLabelPrefix = ''kubetest.io/''"

definition isReservedLabelKey :: "string \<Rightarrow> bool" where
  "isReservedLabelKey k \<longleftrightarrow> k = LabelManagedBy \<or> has_prefix ReservedLabelPrefix k"

text \<open>An empty result is \<open>nil\<close>, which a list does not distinguish.\<close>

definition mergeAnnotations :: "PodConfig option \<Rightarrow> PodConfig option \<Rightarrow> (string, string) gomap" where
  "mergeAnnotations testPod runPod =
     (let o1 = (case testPod of None \<Rightarrow> [] | Some p \<Rightarrow> maps_copy [] (po_Annotations p))
      in case runPod of None \<Rightarrow> o1 | Some p \<Rightarrow> maps_copy o1 (po_Annotations p))"

definition merge_user_labels ::
  "PodConfig option \<Rightarrow> (string, string) gomap \<Rightarrow> (string, string) gomap" where
  "merge_user_labels src out = (case src of None \<Rightarrow> out
     | Some p \<Rightarrow> fold (\<lambda>(k, v) m. if isReservedLabelKey k then m else gm_set k v m) (po_Labels p) out)"

definition mergeLabels ::
  "PodConfig option \<Rightarrow> PodConfig option \<Rightarrow> string \<Rightarrow> (string, string) gomap" where
  "mergeLabels testPod runPod runID =
     gm_set LabelManagedBy ManagedByValue (gm_set LabelRunID runID
       (merge_user_labels runPod (merge_user_labels testPod [])))"

definition mergePodConfig :: "PodConfig option \<Rightarrow> PodConfig option \<Rightarrow> PodConfig" where
  "mergePodConfig testPod runPod =
     (let m = (case testPod of None \<Rightarrow> zero_PodConfig | Some p \<Rightarrow> p)
      in case runPod of None \<Rightarrow> m
         | Some r \<Rightarrow> m\<lparr>
             po_ServiceAccountName := (if po_ServiceAccountName r \<noteq> [] then po_ServiceAccountName r
                                       else po_ServiceAccountName m),
             po_NodeSelector := (if po_NodeSelector r \<noteq> None then po_NodeSelector r else po_NodeSelector m),
             po_Tolerations := (if po_Tolerations r \<noteq> None then po_Tolerations r else po_Tolerations m),
             po_Affinity := (if po_Affinity r \<noteq> None then po_Affinity r else po_Affinity m),
             po_SecurityContext := (if po_SecurityContext r \<noteq> None then po_SecurityContext r
                                    else po_SecurityContext m),
             po_Volumes := (if po_Volumes r \<noteq> None then po_Volumes r else po_Volumes m),
             po_ImagePullSecrets := (if po_ImagePullSecrets r \<noteq> None then po_ImagePullSecrets r
                                     else po_ImagePullSecrets m)\<rparr>)"

section \<open>Policy\<close>

record Policy =
  pp_ServiceAccounts :: "string list"
  pp_AllowHostPath :: bool

definition defaultSA :: string where "defaultSA = ''default''"

definition baselineCapabilities :: "string list" where
  "baselineCapabilities =
     [''AUDIT_WRITE'', ''CHOWN'', ''DAC_OVERRIDE'', ''FOWNER'', ''FSETID'', ''KILL'', ''MKNOD'',
      ''NET_BIND_SERVICE'', ''SETFCAP'', ''SETGID'', ''SETPCAP'', ''SETUID'', ''SYS_CHROOT'']"

datatype violation =
    BadServiceAccount string string string
  | BadVolume string string string
  | PrivilegedContainer string
  | BadCapability string string

definition allowedSAs :: "Policy \<Rightarrow> string" where
  "allowedSAs p = join '', '' (defaultSA # pp_ServiceAccounts p)"

definition allowedVolumes :: "string list" where
  "allowedVolumes = [''emptyDir'', ''configMap'', ''secret'', ''projected'', ''downwardAPI'',
     ''persistentVolumeClaim'', ''ephemeral'', ''csi'']"

definition volumeAllowed :: "Policy \<Rightarrow> string \<Rightarrow> bool" where
  "volumeAllowed p kind \<longleftrightarrow> kind \<in> set allowedVolumes \<or> (kind = ''hostPath'' \<and> pp_AllowHostPath p)"

definition volumeKind :: "VolumeSource \<Rightarrow> string" where
  "volumeKind s =
     (if vs_EmptyDir s \<noteq> None then ''emptyDir''
      else if vs_ConfigMap s \<noteq> None then ''configMap''
      else if vs_Secret s \<noteq> None then ''secret''
      else if vs_Projected s \<noteq> None then ''projected''
      else if vs_DownwardAPI s \<noteq> None then ''downwardAPI''
      else if vs_PersistentVolumeClaim s \<noteq> None then ''persistentVolumeClaim''
      else if vs_Ephemeral s \<noteq> None then ''ephemeral''
      else if vs_CSI s \<noteq> None then ''csi''
      else if vs_HostPath s \<noteq> None then ''hostPath''
      else ''this kind of'')"

definition checkPod :: "Policy \<Rightarrow> string \<Rightarrow> PodConfig option \<Rightarrow> violation list" where
  "checkPod p at pod = (case pod of None \<Rightarrow> []
     | Some pc \<Rightarrow>
         (let sa = po_ServiceAccountName pc
          in if sa \<noteq> [] \<and> sa \<noteq> defaultSA \<and> sa \<notin> set (pp_ServiceAccounts p)
             then [BadServiceAccount at sa (allowedSAs p)] else []) @
         concat (map (\<lambda>v. let kind = volumeKind (vol_Source v)
                          in if \<not> volumeAllowed p kind then [BadVolume at (vol_Name v) kind] else [])
           (items (po_Volumes pc))))"

definition checkContainer :: "string \<Rightarrow> SecurityContext option \<Rightarrow> violation list" where
  "checkContainer at sc = (case sc of None \<Rightarrow> []
     | Some s \<Rightarrow>
         (if sx_Privileged s = Some True then [PrivilegedContainer at] else []) @
         concat (map (\<lambda>c. if c \<notin> set baselineCapabilities then [BadCapability at c] else [])
           (items (sx_CapabilitiesAdd s))))"

definition Check :: "Policy \<Rightarrow> TestSpec option \<Rightarrow> PodConfig option \<Rightarrow> violation list" where
  "Check p spec runPod = (case spec of None \<Rightarrow> []
     | Some s \<Rightarrow> checkPod p ''spec.pod'' (ts_Pod s) @ checkPod p ''spec.pod (TestRun)'' runPod @
         checkContainer ''spec.container'' (ct_SecurityContext (ts_Container s)))"

section \<open>Lemmas\<close>

lemmas label_defs = LabelRunID_def LabelManagedBy_def ReservedLabelPrefix_def isReservedLabelKey_def

lemma reserved_ours: "isReservedLabelKey LabelRunID" "isReservedLabelKey LabelManagedBy"
  "LabelRunID \<noteq> LabelManagedBy"
  by (simp_all add: label_defs)

definition pod_labels :: "PodConfig option \<Rightarrow> (string, string) gomap" where
  "pod_labels p = (case p of None \<Rightarrow> [] | Some pc \<Rightarrow> po_Labels pc)"

definition pod_annotations :: "PodConfig option \<Rightarrow> (string, string) gomap" where
  "pod_annotations p = (case p of None \<Rightarrow> [] | Some pc \<Rightarrow> po_Annotations pc)"

lemma fold_labels_get:
  "gm_ok ls \<Longrightarrow>
   map_of (fold (\<lambda>(k, v) m. if isReservedLabelKey k then m else gm_set k v m) ls out) key =
   (if isReservedLabelKey key then map_of out key else (map_of out ++ map_of ls) key)"
  unfolding gm_ok_def
proof (induction ls arbitrary: out)
  case (Cons p ls)
  obtain k v where p: "p = (k, v)" by (cases p)
  have "map_of ls k = None" using Cons.prems p by (simp add: map_of_eq_None_iff)
  then show ?case using Cons p by (auto simp: map_add_def split: option.split)
qed simp

lemma merge_user_labels_get:
  "gm_ok (pod_labels src) \<Longrightarrow> map_of (merge_user_labels src out) key =
   (if isReservedLabelKey key then map_of out key else (map_of out ++ map_of (pod_labels src)) key)"
  by (cases src) (simp_all add: merge_user_labels_def pod_labels_def fold_labels_get)

definition policy_ok :: "Policy \<Rightarrow> PodConfig \<Rightarrow> bool" where
  "policy_ok p pc \<longleftrightarrow>
     po_ServiceAccountName pc \<in> set ([] # defaultSA # pp_ServiceAccounts p) \<and>
     (\<forall>v \<in> set (items (po_Volumes pc)). volumeAllowed p (volumeKind (vol_Source v)))"

lemma checkPod_ok: "checkPod p at (Some pc) = [] \<longleftrightarrow> policy_ok p pc"
  by (auto simp: checkPod_def policy_ok_def Let_def)

lemma checkContainer_ok:
  "checkContainer at (Some sc) = [] \<longleftrightarrow>
     sx_Privileged sc \<noteq> Some True \<and> set (items (sx_CapabilitiesAdd sc)) \<subseteq> set baselineCapabilities"
proof -
  have "concat (map (\<lambda>c. if c \<notin> set bs then [BadCapability at c] else []) cs) = [] \<longleftrightarrow> set cs \<subseteq> set bs"
    for bs cs by (induction cs) auto
  then show ?thesis by (simp add: checkContainer_def)
qed

lemma mergePodConfig_fields:
  "mergePodConfig a None = (case a of None \<Rightarrow> zero_PodConfig | Some p \<Rightarrow> p)"
  "po_ServiceAccountName (mergePodConfig a (Some r)) = (if po_ServiceAccountName r \<noteq> []
     then po_ServiceAccountName r else po_ServiceAccountName (mergePodConfig a None))"
  "po_Volumes (mergePodConfig a (Some r)) = (if po_Volumes r \<noteq> None then po_Volumes r
     else po_Volumes (mergePodConfig a None))"
  by (simp_all add: mergePodConfig_def Let_def)

section \<open>Properties\<close>

text \<open>
  The operator owns its labels: whatever the Test and the TestRun say, the pod carries the
  run's id and the operator's managed-by value, no other key of the reserved prefix appears,
  and every other key has the TestRun's value, else the Test's.
\<close>

theorem mergeLabels_spec:
  assumes "gm_ok (pod_labels t)" "gm_ok (pod_labels r)"
  shows "map_of (mergeLabels t r run) k =
    (if k = LabelRunID then Some run
     else if k = LabelManagedBy then Some ManagedByValue
     else if isReservedLabelKey k then None
     else (map_of (pod_labels t) ++ map_of (pod_labels r)) k)"
  using merge_user_labels_get [OF assms(1), of "[]" k]
    merge_user_labels_get [OF assms(2), of "merge_user_labels t []" k] reserved_ours
  by (auto simp: mergeLabels_def map_add_def split: option.split)

theorem mergeLabels_spec_witness:
  "map_of (mergeLabels (Some (zero_PodConfig\<lparr>po_Labels := [(''kubetest.io/run-id'', ''fake''), (''a'', ''1'')]\<rparr>))
     None ''run-7'') LabelRunID = Some ''run-7''"
  using mergeLabels_spec [of "Some (zero_PodConfig\<lparr>po_Labels := [(''kubetest.io/run-id'', ''fake''), (''a'', ''1'')]\<rparr>)"
      None "''run-7''" LabelRunID]
  by (simp add: pod_labels_def gm_ok_def)

text \<open>
  Annotations are a pure passthrough: every annotation of the pod was written by the Test
  or the TestRun, the TestRun's value winning per key, and the operator adds none.
\<close>

theorem mergeAnnotations_passthrough:
  assumes "gm_ok (pod_annotations t)" "gm_ok (pod_annotations r)"
  shows "map_of (mergeAnnotations t r) = map_of (pod_annotations t) ++ map_of (pod_annotations r)"
  using assms
  by (auto simp: mergeAnnotations_def pod_annotations_def Let_def gomap_simps split: option.splits)

theorem mergeAnnotations_passthrough_witness:
  "map_of (mergeAnnotations (Some (zero_PodConfig\<lparr>po_Annotations := [(''a'', ''1''), (''b'', ''2'')]\<rparr>))
     (Some (zero_PodConfig\<lparr>po_Annotations := [(''b'', ''3'')]\<rparr>))) ''b'' = Some ''3''"
  using mergeAnnotations_passthrough [of "Some (zero_PodConfig\<lparr>po_Annotations := [(''a'', ''1''), (''b'', ''2'')]\<rparr>)"
      "Some (zero_PodConfig\<lparr>po_Annotations := [(''b'', ''3'')]\<rparr>)"]
  by (simp add: pod_annotations_def gm_ok_def)

text \<open>
  The policy checked on the inputs holds of the output: when \<open>Check\<close> reports nothing for
  the resolved Test and the TestRun's override, the pod settings the compiler merges from them
  use an allowed service account and only allowed kinds of volume, and the container is neither
  privileged nor granted a capability beyond the baseline.
\<close>

theorem Check_covers_merged_pod:
  assumes "Check p (Some spec) runPod = []"
  shows "policy_ok p (mergePodConfig (ts_Pod spec) runPod) \<and>
    (\<forall>sc. ct_SecurityContext (ts_Container spec) = Some sc \<longrightarrow>
       sx_Privileged sc \<noteq> Some True \<and> set (items (sx_CapabilitiesAdd sc)) \<subseteq> set baselineCapabilities)"
proof
  have t: "policy_ok p (mergePodConfig (ts_Pod spec) None)"
    using assms checkPod_ok [of p] by (cases "ts_Pod spec")
      (simp_all add: Check_def mergePodConfig_fields policy_ok_def zero_PodConfig_def)
  show "policy_ok p (mergePodConfig (ts_Pod spec) runPod)"
  proof (cases runPod)
    case (Some r)
    then have "policy_ok p r" using assms checkPod_ok [of p _ r] by (simp add: Check_def)
    with t Some show ?thesis by (auto simp: policy_ok_def mergePodConfig_fields(2,3) split: if_splits)
  qed (use t in simp)
  show "\<forall>sc. ct_SecurityContext (ts_Container spec) = Some sc \<longrightarrow>
       sx_Privileged sc \<noteq> Some True \<and> set (items (sx_CapabilitiesAdd sc)) \<subseteq> set baselineCapabilities"
    using assms by (auto simp: Check_def checkContainer_ok)
qed

theorem Check_covers_merged_pod_witness:
  "policy_ok \<lparr>pp_ServiceAccounts = [''gcs''], pp_AllowHostPath = False\<rparr>
     (mergePodConfig None (Some (zero_PodConfig\<lparr>po_ServiceAccountName := ''gcs''\<rparr>)))"
  using Check_covers_merged_pod [of "\<lparr>pp_ServiceAccounts = [''gcs''], pp_AllowHostPath = False\<rparr>" zero_TestSpec
      "Some (zero_PodConfig\<lparr>po_ServiceAccountName := ''gcs''\<rparr>)"]
  by (simp add: Check_def checkPod_def checkContainer_def zero_TestSpec_def zero_PodConfig_def
      zero_ContainerConfig_def)

end
