(* ===== verification/Resolver.thy ===== *)
theory Resolver
  imports Expr Names ApiTypes "HOL-Library.Char_ord" "HOL-Library.List_Lexorder"
begin

text \<open>
  Template merging, parameter resolution and the expression pass:
  \<open>src/internal/resolver/resolver.go\<close> and \<open>mainpath.go\<close>. A \<open>TemplateStore\<close> is a function from
  namespace and name to a template or an error; \<open>MapStore_Get\<close> is the in-memory one. The
  locales \<open>left_biased\<close> and \<open>right_biased\<close> state the two ways the code merges a field (fill
  where unset, override where set) and what folding them over a list of layers amounts to;
  they are interpreted on the merge functions of the code.
\<close>

section \<open>Field merges\<close>

text \<open>\<open>if dst == "" && src != "" { dst = src }\<close>, for strings and for slices that are copied.\<close>

definition fill_list :: "'a list \<Rightarrow> 'a list \<Rightarrow> 'a list" where
  "fill_list dst src = (if dst = [] \<and> src \<noteq> [] then src else dst)"

text \<open>\<open>if dst == nil && src != nil { dst = src.DeepCopy() }\<close>\<close>

definition fill_ptr :: "'a option \<Rightarrow> 'a option \<Rightarrow> 'a option" where
  "fill_ptr dst src = (if dst = None \<and> src \<noteq> None then src else dst)"

text \<open>\<open>if src != "" { dst = src }\<close>\<close>

definition over_list :: "'a list \<Rightarrow> 'a list \<Rightarrow> 'a list" where
  "over_list dst src = (if src \<noteq> [] then src else dst)"

definition over_ptr :: "'a option \<Rightarrow> 'a option \<Rightarrow> 'a option" where
  "over_ptr dst src = (if src \<noteq> None then src else dst)"

text \<open>\<open>if len(src) > 0 { dst = append(nil, src...) }\<close> for a slice compared with nil elsewhere.\<close>

definition over_slice :: "'a slice \<Rightarrow> 'a slice \<Rightarrow> 'a slice" where
  "over_slice dst src = (if items src \<noteq> [] then src else dst)"

text \<open>The node selector's two loops: the map is allocated only when there is something to put in.\<close>

definition fill_selector ::
  "(string, string) gomap option \<Rightarrow> (string, string) gomap option \<Rightarrow> (string, string) gomap option" where
  "fill_selector dst src =
     (if items src \<noteq> [] then Some (maps_fill (items dst) (items src)) else dst)"

definition over_selector ::
  "(string, string) gomap option \<Rightarrow> (string, string) gomap option \<Rightarrow> (string, string) gomap option" where
  "over_selector dst src =
     (if items src \<noteq> [] then Some (maps_copy (items dst) (items src)) else dst)"

section \<open>Merging specs\<close>

definition mergeContainerInto :: "ContainerConfig \<Rightarrow> ContainerConfig \<Rightarrow> ContainerConfig" where
  "mergeContainerInto dst src = dst\<lparr>
     ct_Image := fill_list (ct_Image dst) (ct_Image src),
     ct_ImagePullPolicy := fill_list (ct_ImagePullPolicy dst) (ct_ImagePullPolicy src),
     ct_WorkingDir := fill_list (ct_WorkingDir dst) (ct_WorkingDir src),
     ct_Command := fill_list (ct_Command dst) (ct_Command src),
     ct_Args := fill_list (ct_Args dst) (ct_Args src),
     ct_Env := ct_Env dst @ ct_Env src,
     ct_EnvFrom := ct_EnvFrom dst @ ct_EnvFrom src,
     ct_VolumeMounts := ct_VolumeMounts dst @ ct_VolumeMounts src,
     ct_SecurityContext := fill_ptr (ct_SecurityContext dst) (ct_SecurityContext src),
     ct_Resources := (ct_Resources dst)\<lparr>
       rr_Requests := fill_list (rr_Requests (ct_Resources dst)) (rr_Requests (ct_Resources src)),
       rr_Limits := fill_list (rr_Limits (ct_Resources dst)) (rr_Limits (ct_Resources src))\<rparr>\<rparr>"

definition overrideContainerFromTest :: "ContainerConfig \<Rightarrow> ContainerConfig \<Rightarrow> ContainerConfig" where
  "overrideContainerFromTest dst src = dst\<lparr>
     ct_Image := over_list (ct_Image dst) (ct_Image src),
     ct_ImagePullPolicy := over_list (ct_ImagePullPolicy dst) (ct_ImagePullPolicy src),
     ct_WorkingDir := over_list (ct_WorkingDir dst) (ct_WorkingDir src),
     ct_Command := over_list (ct_Command dst) (ct_Command src),
     ct_Args := over_list (ct_Args dst) (ct_Args src),
     ct_Env := ct_Env dst @ ct_Env src,
     ct_EnvFrom := ct_EnvFrom dst @ ct_EnvFrom src,
     ct_VolumeMounts := ct_VolumeMounts dst @ ct_VolumeMounts src,
     ct_SecurityContext := over_ptr (ct_SecurityContext dst) (ct_SecurityContext src),
     ct_Resources := (ct_Resources dst)\<lparr>
       rr_Requests := over_list (rr_Requests (ct_Resources dst)) (rr_Requests (ct_Resources src)),
       rr_Limits := over_list (rr_Limits (ct_Resources dst)) (rr_Limits (ct_Resources src))\<rparr>\<rparr>"

definition mergePod :: "PodConfig option \<Rightarrow> PodConfig option \<Rightarrow> PodConfig option" where
  "mergePod dst src = (case src of None \<Rightarrow> dst
     | Some s \<Rightarrow> (case dst of None \<Rightarrow> Some s
         | Some d \<Rightarrow> Some (d\<lparr>
             po_Labels := maps_fill (po_Labels d) (po_Labels s),
             po_Annotations := maps_fill (po_Annotations d) (po_Annotations s),
             po_ServiceAccountName := fill_list (po_ServiceAccountName d) (po_ServiceAccountName s),
             po_NodeSelector := fill_selector (po_NodeSelector d) (po_NodeSelector s),
             po_Tolerations := go_append (po_Tolerations d) (po_Tolerations s),
             po_Volumes := go_append (po_Volumes d) (po_Volumes s),
             po_ImagePullSecrets := go_append (po_ImagePullSecrets d) (po_ImagePullSecrets s),
             po_Affinity := fill_ptr (po_Affinity d) (po_Affinity s),
             po_SecurityContext := fill_ptr (po_SecurityContext d) (po_SecurityContext s)\<rparr>)))"

definition mergePodTestWins :: "PodConfig option \<Rightarrow> PodConfig option \<Rightarrow> PodConfig option" where
  "mergePodTestWins dst src = (case src of None \<Rightarrow> dst
     | Some s \<Rightarrow> (case dst of None \<Rightarrow> Some s
         | Some d \<Rightarrow> Some (d\<lparr>
             po_Labels := maps_copy (po_Labels d) (po_Labels s),
             po_Annotations := maps_copy (po_Annotations d) (po_Annotations s),
             po_ServiceAccountName := over_list (po_ServiceAccountName d) (po_ServiceAccountName s),
             po_NodeSelector := over_selector (po_NodeSelector d) (po_NodeSelector s),
             po_Tolerations := over_slice (po_Tolerations d) (po_Tolerations s),
             po_Volumes := over_slice (po_Volumes d) (po_Volumes s),
             po_ImagePullSecrets := over_slice (po_ImagePullSecrets d) (po_ImagePullSecrets s),
             po_Affinity := over_ptr (po_Affinity d) (po_Affinity s),
             po_SecurityContext := over_ptr (po_SecurityContext d) (po_SecurityContext s)\<rparr>)))"

definition mergeTemplateInto :: "TestSpec \<Rightarrow> TestTemplateSpec \<Rightarrow> TestSpec" where
  "mergeTemplateInto dst tmpl = dst\<lparr>
     ts_Content := \<lparr>cn_Git = over_ptr (cn_Git (ts_Content dst)) (cn_Git (tt_Content tmpl)),
       cn_Files = cn_Files (ts_Content dst) @ cn_Files (tt_Content tmpl),
       cn_Tarball = cn_Tarball (ts_Content dst) @ cn_Tarball (tt_Content tmpl),
       cn_TestData = cn_TestData (ts_Content dst) @ cn_TestData (tt_Content tmpl)\<rparr>,
     ts_Container := mergeContainerInto (ts_Container dst) (tt_Container tmpl),
     ts_Pod := mergePod (ts_Pod dst) (tt_Pod tmpl),
     ts_Config := maps_fill (ts_Config dst) (tt_Config tmpl),
     ts_Artifacts := fill_ptr (ts_Artifacts dst) (tt_Artifacts tmpl),
     ts_Timeout := fill_ptr (ts_Timeout dst) (tt_Timeout tmpl),
     ts_Retry := fill_ptr (ts_Retry dst) (tt_Retry tmpl),
     ts_Services := fill_list (ts_Services dst) (tt_Services tmpl),
     ts_Parallel := fill_ptr (ts_Parallel dst) (tt_Parallel tmpl),
     ts_Metrics := fill_ptr (ts_Metrics dst) (tt_Metrics tmpl),
     ts_LiveView := fill_ptr (ts_LiveView dst) (tt_LiveView tmpl),
     ts_Verdict := fill_ptr (ts_Verdict dst) (tt_Verdict tmpl)\<rparr>"

definition keep_template_doc :: "Parameter \<Rightarrow> Parameter \<Rightarrow> Parameter" where
  "keep_template_doc v base = v\<lparr>
     pm_Path := (if pm_Path v \<noteq> [] then pm_Path v else pm_Path base),
     pm_Description := (if pm_Description v \<noteq> [] then pm_Description v else pm_Description base)\<rparr>"

definition over_config ::
  "(string, Parameter) gomap \<Rightarrow> (string, Parameter) gomap \<Rightarrow> (string, Parameter) gomap" where
  "over_config dst src = fold (\<lambda>(k, v) m.
     gm_set k (case gm_get m k of None \<Rightarrow> v | Some base \<Rightarrow> keep_template_doc v base) m) src dst"

definition mergeTestInto :: "TestSpec \<Rightarrow> TestSpec \<Rightarrow> TestSpec" where
  "mergeTestInto dst test = dst\<lparr>
     ts_Content := \<lparr>cn_Git = over_ptr (cn_Git (ts_Content dst)) (cn_Git (ts_Content test)),
       cn_Files = over_list (cn_Files (ts_Content dst)) (cn_Files (ts_Content test)),
       cn_Tarball = over_list (cn_Tarball (ts_Content dst)) (cn_Tarball (ts_Content test)),
       cn_TestData = cn_TestData (ts_Content dst) @ cn_TestData (ts_Content test)\<rparr>,
     ts_Container := overrideContainerFromTest (ts_Container dst) (ts_Container test),
     ts_Pod := mergePodTestWins (ts_Pod dst) (ts_Pod test),
     ts_Config := over_config (ts_Config dst) (ts_Config test),
     ts_Artifacts := over_ptr (ts_Artifacts dst) (ts_Artifacts test),
     ts_Timeout := over_ptr (ts_Timeout dst) (ts_Timeout test),
     ts_Retry := over_ptr (ts_Retry dst) (ts_Retry test),
     ts_ConcurrencyPolicy := over_list (ts_ConcurrencyPolicy dst) (ts_ConcurrencyPolicy test),
     ts_Metrics := over_ptr (ts_Metrics dst) (ts_Metrics test),
     ts_LiveView := over_ptr (ts_LiveView dst) (ts_LiveView test),
     ts_Verdict := over_ptr (ts_Verdict dst) (ts_Verdict test),
     ts_Schedule := over_list (ts_Schedule dst) (ts_Schedule test),
     ts_Services := over_list (ts_Services dst) (ts_Services test),
     ts_Parallel := over_ptr (ts_Parallel dst) (ts_Parallel test),
     ts_Use := over_list (ts_Use dst) (ts_Use test),
     ts_Steps := over_list (ts_Steps dst) (ts_Steps test)\<rparr>"

section \<open>The main path parameter\<close>

definition PathFile :: string where "PathFile = ''file''"

definition PathDirectory :: string where "PathDirectory = ''directory''"

definition legacyRepoPrefix :: string where "legacyRepoPrefix = ''repo/''"

definition zero_Parameter :: Parameter where
  "zero_Parameter = \<lparr>pm_Type = [], pm_Default = [], pm_Enum = [], pm_Pattern = [],
     pm_Description = [], pm_Path = []\<rparr>"

definition MainPathParam :: "(string, Parameter) gomap \<Rightarrow> string \<times> string" where
  "MainPathParam config =
     (case find (\<lambda>k. pm_Path (gm_at zero_Parameter config k) \<noteq> []) (sort (map fst config)) of
        None \<Rightarrow> ([], []) | Some k \<Rightarrow> (k, pm_Path (gm_at zero_Parameter config k)))"

definition InlineFilePath :: "string \<Rightarrow> string" where
  "InlineFilePath p = trim_prefix legacyRepoPrefix p"

definition inlineCode :: "TestSpec \<Rightarrow> bool" where
  "inlineCode spec \<longleftrightarrow> cn_Git (ts_Content spec) = None \<and> cn_Files (ts_Content spec) \<noteq> []"

definition bindInlineMainFile :: "TestSpec \<Rightarrow> TestSpec" where
  "bindInlineMainFile spec =
     (let (name, kind) = MainPathParam (ts_Config spec);
          p = gm_at zero_Parameter (ts_Config spec) name
      in if kind \<noteq> PathFile \<or> \<not> inlineCode spec then spec
         else if pm_Default p \<noteq> [] then spec
         else spec\<lparr>ts_Config := gm_set name
           (p\<lparr>pm_Default := InlineFilePath (fc_Path (hd (cn_Files (ts_Content spec))))\<rparr>) (ts_Config spec)\<rparr>)"

datatype field_path =
    FCommand nat | FArgs nat | FWorkingDir | FEnv nat | FLabel string | FAnnotation string
  | FArtifactPath nat | FReport | FService string field_path

datatype resolve_error =
    NilTest | NilTestRun
  | TemplateMissing string string
  | FetchTemplate string string
  | MultipleSources
  | ErrInlineProject
  | ErrUnknownConfigKey string
  | RequiredMissing string
  | BadParameter coerce_error
  | BadField field_path expr_error

definition CheckContent :: "TestSpec \<Rightarrow> (resolve_error, unit) result" where
  "CheckContent spec =
     (let c = ts_Content spec;
          sources = length (filter id [cn_Git c \<noteq> None, cn_Files c \<noteq> [], cn_Tarball c \<noteq> []])
      in if 1 < sources then Inl MultipleSources
         else if snd (MainPathParam (ts_Config spec)) = PathDirectory \<and> inlineCode spec
           then Inl ErrInlineProject
         else Inr ())"

definition MissingMainPath :: "TestSpec \<Rightarrow> string" where
  "MissingMainPath spec =
     (let name = fst (MainPathParam (ts_Config spec))
      in if name \<noteq> [] \<and> pm_Default (gm_at zero_Parameter (ts_Config spec) name) = [] then name else [])"

section \<open>Template stores and merging\<close>

datatype store_error = ErrTemplateNotFound | StoreFailure string

type_synonym TemplateStore = "string \<Rightarrow> string \<Rightarrow> (store_error, TestTemplate) result"

definition MapStore_Get :: "(string, TestTemplate) gomap \<Rightarrow> TemplateStore" where
  "MapStore_Get m namespace name =
     (case gm_get m (namespace @ ''/'' @ name) of Some t \<Rightarrow> Inr t | None \<Rightarrow> Inl ErrTemplateNotFound)"

definition LabelTool :: string where "LabelTool = ''kubetest.io/tool''"

definition tool_label :: "(string, string) gomap \<Rightarrow> string \<Rightarrow> string" where
  "tool_label labels tool = (let t = gm_at [] labels LabelTool in if t \<noteq> [] then t else tool)"

fun merge_use ::
  "TemplateStore \<Rightarrow> string \<Rightarrow> string list \<Rightarrow> TestSpec \<times> string \<Rightarrow>
   (resolve_error, TestSpec \<times> string) result" where
  "merge_use store ns [] acc = Inr acc"
| "merge_use store ns (name # use) (merged, tool) =
     (case store ns name of
        Inl ErrTemplateNotFound \<Rightarrow> Inl (TemplateMissing name ns)
      | Inl (StoreFailure e) \<Rightarrow> Inl (FetchTemplate name e)
      | Inr tmpl \<Rightarrow> merge_use store ns use
          (mergeTemplateInto merged (tp_Spec tmpl), tool_label (tp_Labels tmpl) tool))"

definition MergeTemplates ::
  "Test option \<Rightarrow> TemplateStore \<Rightarrow> (resolve_error, TestSpec \<times> string) result" where
  "MergeTemplates t store = (case t of None \<Rightarrow> Inl NilTest
     | Some test \<Rightarrow> rbind (merge_use store (t_Namespace test) (ts_Use (t_Spec test)) (zero_TestSpec, []))
         (\<lambda>(merged, tool). Inr (bindInlineMainFile (mergeTestInto merged (t_Spec test)),
            tool_label (t_Labels test) tool)))"

section \<open>Parameters\<close>

definition resolve_param ::
  "regexp \<Rightarrow> (string, string) gomap \<Rightarrow> string \<times> Parameter \<Rightarrow> (resolve_error, string \<times> string) result" where
  "resolve_param re runOverrides d = (case d of (name, p) \<Rightarrow>
     rbind (case gm_get runOverrides name of
              Some v \<Rightarrow> Inr v
            | None \<Rightarrow> if pm_Default p = [] then Inl (RequiredMissing name) else Inr (pm_Default p))
       (\<lambda>value. case CoerceParam re name value
            \<lparr>ep_Type = pm_Type p, ep_Enum = pm_Enum p, ep_Pattern = pm_Pattern p\<rparr> of
          Inl e \<Rightarrow> Inl (BadParameter e) | Inr v \<Rightarrow> Inr (name, v)))"

definition ResolveConfig ::
  "regexp \<Rightarrow> (string, Parameter) gomap \<Rightarrow> (string, string) gomap \<Rightarrow>
   (resolve_error, (string, string) gomap) result" where
  "ResolveConfig re declared runOverrides =
     (case find (\<lambda>k. \<not> gm_has declared k) (map fst runOverrides) of
        Some k \<Rightarrow> Inl (ErrUnknownConfigKey k)
      | None \<Rightarrow> rmap (resolve_param re runOverrides) declared)"

section \<open>The expression pass\<close>

definition in_field :: "('i \<Rightarrow> field_path) \<Rightarrow> ('i \<times> expr_error, 'a) result \<Rightarrow> (resolve_error, 'a) result" where
  "in_field f r = (case r of Inl (i, e) \<Rightarrow> Inl (BadField (f i) e) | Inr v \<Rightarrow> Inr v)"

definition at_field :: "field_path \<Rightarrow> (expr_error, 'a) result \<Rightarrow> (resolve_error, 'a) result" where
  "at_field f r = (case r of Inl e \<Rightarrow> Inl (BadField f e) | Inr v \<Rightarrow> Inr v)"

fun eval_env :: "Scope \<Rightarrow> nat \<Rightarrow> EnvVar list \<Rightarrow> (nat \<times> expr_error, EnvVar list) result" where
  "eval_env sc i [] = Inr []"
| "eval_env sc i (e # es) =
     (case (if ev_Value e = [] then Inr [] else Eval (ev_Value e) sc) of Inl err \<Rightarrow> Inl (i, err)
      | Inr v \<Rightarrow> (case eval_env sc (Suc i) es of Inl err \<Rightarrow> Inl err
          | Inr es' \<Rightarrow> Inr (e\<lparr>ev_Value := v\<rparr> # es')))"

definition evalService :: "ServiceSpec \<Rightarrow> Scope \<Rightarrow> (resolve_error, ServiceSpec) result" where
  "evalService svc sc =
     rbind (in_field FCommand (EvalSlice (sv_Command svc) sc)) (\<lambda>c.
     rbind (in_field FArgs (EvalSlice (sv_Args svc) sc)) (\<lambda>a.
     rbind (in_field FEnv (eval_env sc 0 (sv_Env svc))) (\<lambda>e.
     Inr (svc\<lparr>sv_Command := c, sv_Args := a, sv_Env := e\<rparr>))))"

definition eval_services ::
  "Scope \<Rightarrow> (string, ServiceSpec) gomap \<Rightarrow> (resolve_error, (string, ServiceSpec) gomap) result" where
  "eval_services sc svcs = rmap (\<lambda>(name, svc).
     case evalService svc sc of
       Inl (BadField f e) \<Rightarrow> Inl (BadField (FService name f) e) | Inl e \<Rightarrow> Inl e
     | Inr s \<Rightarrow> Inr (name, s)) svcs"

definition eval_container :: "ContainerConfig \<Rightarrow> Scope \<Rightarrow> (resolve_error, ContainerConfig) result" where
  "eval_container c sc =
     rbind (in_field FCommand (EvalSlice (ct_Command c) sc)) (\<lambda>cmd.
     rbind (in_field FArgs (EvalSlice (ct_Args c) sc)) (\<lambda>args.
     rbind (if ct_WorkingDir c \<noteq> [] then at_field FWorkingDir (Eval (ct_WorkingDir c) sc)
            else Inr (ct_WorkingDir c)) (\<lambda>wd.
     rbind (in_field FEnv (eval_env sc 0 (ct_Env c))) (\<lambda>env.
     Inr (c\<lparr>ct_Command := cmd, ct_Args := args, ct_WorkingDir := wd, ct_Env := env\<rparr>)))))"

definition eval_pod :: "PodConfig option \<Rightarrow> Scope \<Rightarrow> (resolve_error, PodConfig option) result" where
  "eval_pod pod sc = (case pod of None \<Rightarrow> Inr None
     | Some p \<Rightarrow>
         rbind (in_field FLabel (EvalMap (po_Labels p) sc)) (\<lambda>ls.
         rbind (in_field FAnnotation (EvalMap (po_Annotations p) sc)) (\<lambda>as.
         Inr (Some (p\<lparr>po_Labels := ls, po_Annotations := as\<rparr>)))))"

definition eval_artifacts :: "ArtifactSpec option \<Rightarrow> Scope \<Rightarrow> (resolve_error, ArtifactSpec option) result" where
  "eval_artifacts art sc = (case art of None \<Rightarrow> Inr None
     | Some a \<Rightarrow>
         rbind (in_field FArtifactPath (EvalSlice (as_Paths a) sc)) (\<lambda>ps.
         rbind (at_field FReport (Eval (as_Report a) sc)) (\<lambda>r.
         Inr (Some (a\<lparr>as_Paths := ps, as_Report := r\<rparr>)))))"

definition evalStringsInSpec :: "TestSpec \<Rightarrow> Scope \<Rightarrow> (resolve_error, TestSpec) result" where
  "evalStringsInSpec spec sc =
     rbind (eval_container (ts_Container spec) sc) (\<lambda>c.
     rbind (eval_pod (ts_Pod spec) sc) (\<lambda>p.
     rbind (eval_artifacts (ts_Artifacts spec) sc) (\<lambda>a.
     rbind (eval_services sc (ts_Services spec)) (\<lambda>s.
     Inr (spec\<lparr>ts_Container := c, ts_Pod := p, ts_Artifacts := a, ts_Services := s\<rparr>)))))"

section \<open>Resolution\<close>

record Options =
  op_Env :: "(string, string) gomap"
  op_RunID :: string

definition resolve_scope ::
  "TestSpec \<Rightarrow> (string, string) gomap \<Rightarrow> Test \<Rightarrow> TestRun \<Rightarrow> Options \<Rightarrow> Scope" where
  "resolve_scope merged resolvedConfig test run opts =
     \<lparr>sc_Config = resolvedConfig, sc_Env = op_Env opts,
      sc_RunID = (if op_RunID opts = [] then r_Name run else op_RunID opts),
      sc_TestName = t_Name test,
      sc_Services = map (\<lambda>(name, _). (name, ServiceHost (r_Name run) (r_Namespace run) name))
        (ts_Services merged),
      sc_Parallel = map_option (\<lambda>p. \<lparr>pk_Matrix = map (\<lambda>(k, _). (k, True)) (pl_Matrix p),
        pk_Shard = map (\<lambda>(k, _). (k, True)) (pl_Shards p)\<rparr>) (ts_Parallel merged)\<rparr>"

definition Resolve ::
  "regexp \<Rightarrow> Test option \<Rightarrow> TestRun option \<Rightarrow> TemplateStore \<Rightarrow> Options \<Rightarrow> (resolve_error, TestSpec) result" where
  "Resolve re t r store opts = (case t of None \<Rightarrow> Inl NilTest
     | Some test \<Rightarrow> (case r of None \<Rightarrow> Inl NilTestRun
       | Some run \<Rightarrow>
           rbind (MergeTemplates t store) (\<lambda>(merged, _).
           rbind (CheckContent merged) (\<lambda>_.
           rbind (ResolveConfig re (ts_Config merged) (rs_Config (r_Spec run))) (\<lambda>config.
           evalStringsInSpec merged (resolve_scope merged config test run opts))))))"

datatype validate_error = NilResolved | EmptyImage | NoCommandOrArgs

definition ValidateResolved :: "TestSpec option \<Rightarrow> (validate_error, unit) result" where
  "ValidateResolved s = (case s of None \<Rightarrow> Inl NilResolved
     | Some spec \<Rightarrow>
         if ts_Steps spec \<noteq> [] then Inr ()
         else if ct_Image (ts_Container spec) = [] then Inl EmptyImage
         else if ct_Command (ts_Container spec) = [] \<and> ct_Args (ts_Container spec) = []
           then Inl NoCommandOrArgs
         else Inr ())"

section \<open>Layers\<close>

text \<open>The first, or the last, layer that sets a field.\<close>

definition first_set :: "'a \<Rightarrow> 'a list \<Rightarrow> 'a" where
  "first_set unset xs = (case find (\<lambda>x. x \<noteq> unset) xs of None \<Rightarrow> unset | Some x \<Rightarrow> x)"

definition last_set :: "'a \<Rightarrow> 'a list \<Rightarrow> 'a" where
  "last_set unset xs = first_set unset (rev xs)"

lemma first_set_Cons [simp]: "first_set u (x # xs) = (if x \<noteq> u then x else first_set u xs)"
  by (simp add: first_set_def)

lemma first_set_Nil [simp]: "first_set u [] = u"
  by (simp add: first_set_def)

lemma first_set_append: "first_set u (xs @ ys) = (if first_set u xs \<noteq> u then first_set u xs else first_set u ys)"
  by (induction xs) auto

lemma last_set_append: "last_set u (xs @ [y]) = (if y \<noteq> u then y else last_set u xs)"
  by (simp add: last_set_def)

lemma last_set_Cons_unset [simp]: "last_set u (u # xs) = last_set u xs"
  by (simp add: last_set_def first_set_append)

locale left_biased =
  fixes unset :: 'a and fill :: "'a \<Rightarrow> 'a \<Rightarrow> 'a"
  assumes fill_unset: "fill unset x = x"
    and fill_set: "x \<noteq> unset \<Longrightarrow> fill x y = x"
begin

lemma foldl_fill: "foldl fill d xs = first_set unset (d # xs)"
proof (induction xs arbitrary: d)
  case (Cons x xs)
  then show ?case by (cases "d = unset") (simp_all add: fill_unset fill_set)
qed simp

end

locale right_biased =
  fixes unset :: 'a and over :: "'a \<Rightarrow> 'a \<Rightarrow> 'a"
  assumes over_unset: "over x unset = x"
    and over_set: "y \<noteq> unset \<Longrightarrow> over x y = y"
begin

lemma foldl_over: "foldl over d xs = last_set unset (d # xs)"
proof (induction xs rule: rev_induct)
  case Nil
  then show ?case by (simp add: last_set_def)
next
  case (snoc x xs)
  then show ?case
    using last_set_append [of unset "d # xs" x] by (cases "x = unset") (simp_all add: over_unset over_set)
qed

end

interpretation fill_list: left_biased "[]" fill_list
  by unfold_locales (simp_all add: fill_list_def)

interpretation fill_ptr: left_biased None fill_ptr
  by unfold_locales (auto simp: fill_ptr_def)

interpretation over_list: right_biased "[]" over_list
  by unfold_locales (simp_all add: over_list_def)

interpretation over_ptr: right_biased None over_ptr
  by unfold_locales (auto simp: over_ptr_def)

lemma foldl_project:
  assumes "\<And>m t. f (merge m t) = op (f m) (g t)"
  shows "f (foldl merge m ts) = foldl op (f m) (map g ts)"
  by (induction ts arbitrary: m) (simp_all add: assms)

lemma foldl_append_concat: "foldl (@) a xs = a @ concat xs"
  by (induction xs arbitrary: a) simp_all

section \<open>Lemmas on merging\<close>

lemma merge_use_foldl:
  "rmap (store ns) use = Inr tmpls \<Longrightarrow> merge_use store ns use (m, tool) =
     Inr (foldl mergeTemplateInto m (map tp_Spec tmpls), foldl (\<lambda>a t. tool_label (tp_Labels t) a) tool tmpls)"
proof (induction use arbitrary: m tool tmpls)
  case (Cons name use)
  then show ?case by (auto split: sum.splits)
qed simp

definition tool_of :: "(string, string) gomap \<Rightarrow> string" where
  "tool_of labels = gm_at [] labels LabelTool"

lemma foldl_tool: "foldl (\<lambda>a t. tool_label (tp_Labels t) a) tool tmpls =
    last_set [] (tool # map (\<lambda>t. tool_of (tp_Labels t)) tmpls)"
proof -
  have "foldl (\<lambda>a t. tool_label (tp_Labels t) a) tool tmpls =
      foldl over_list tool (map (\<lambda>t. tool_of (tp_Labels t)) tmpls)"
    by (induction tmpls arbitrary: tool) (simp_all add: tool_label_def over_list_def tool_of_def Let_def)
  then show ?thesis by (simp add: over_list.foldl_over)
qed

lemma bindInlineMainFile_fields [simp]:
  "ts_Container (bindInlineMainFile s) = ts_Container s" "ts_Content (bindInlineMainFile s) = ts_Content s"
  "ts_Timeout (bindInlineMainFile s) = ts_Timeout s" "ts_Verdict (bindInlineMainFile s) = ts_Verdict s"
  "ts_Pod (bindInlineMainFile s) = ts_Pod s" "ts_Services (bindInlineMainFile s) = ts_Services s"
  by (simp_all add: bindInlineMainFile_def split_beta Let_def)

lemma template_fields:
  "ct_Image (ts_Container (mergeTemplateInto m t)) = fill_list (ct_Image (ts_Container m)) (ct_Image (tt_Container t))"
  "ct_Command (ts_Container (mergeTemplateInto m t)) =
     fill_list (ct_Command (ts_Container m)) (ct_Command (tt_Container t))"
  "ct_Env (ts_Container (mergeTemplateInto m t)) = ct_Env (ts_Container m) @ ct_Env (tt_Container t)"
  "ts_Timeout (mergeTemplateInto m t) = fill_ptr (ts_Timeout m) (tt_Timeout t)"
  "ts_Verdict (mergeTemplateInto m t) = fill_ptr (ts_Verdict m) (tt_Verdict t)"
  "cn_Git (ts_Content (mergeTemplateInto m t)) = over_ptr (cn_Git (ts_Content m)) (cn_Git (tt_Content t))"
  by (simp_all add: mergeTemplateInto_def mergeContainerInto_def)

lemma zero_fields:
  "ct_Image (ts_Container zero_TestSpec) = []" "ct_Command (ts_Container zero_TestSpec) = []"
  "ct_Env (ts_Container zero_TestSpec) = []" "ts_Timeout zero_TestSpec = None"
  "ts_Verdict zero_TestSpec = None" "cn_Git (ts_Content zero_TestSpec) = None" "ts_Config zero_TestSpec = []"
  by (simp_all add: zero_TestSpec_def zero_ContainerConfig_def zero_Content_def)

lemma layers_fields:
  fixes ts :: "TestTemplateSpec list"
  defines "m \<equiv> foldl mergeTemplateInto zero_TestSpec ts"
  shows "ct_Image (ts_Container m) = first_set [] (map (\<lambda>t. ct_Image (tt_Container t)) ts)"
    and "ct_Command (ts_Container m) = first_set [] (map (\<lambda>t. ct_Command (tt_Container t)) ts)"
    and "ct_Env (ts_Container m) = concat (map (\<lambda>t. ct_Env (tt_Container t)) ts)"
    and "ts_Timeout m = first_set None (map tt_Timeout ts)"
    and "ts_Verdict m = first_set None (map tt_Verdict ts)"
    and "cn_Git (ts_Content m) = last_set None (map (\<lambda>t. cn_Git (tt_Content t)) ts)"
  unfolding m_def
  by (subst foldl_project, rule template_fields,
      simp add: zero_fields fill_list.foldl_fill fill_ptr.foldl_fill over_ptr.foldl_over foldl_append_concat)+

lemma over_first: "over_list (first_set [] xs) y = first_set [] (y # xs)"
  "over_ptr (first_set None xs') y' = first_set None (y' # xs')"
  "over_ptr (last_set None xs') y' = last_set None (xs' @ [y'])"
  by (simp_all add: over_list_def over_ptr_def last_set_append)

lemma test_fields:
  "ct_Image (ts_Container (mergeTestInto m t)) = over_list (ct_Image (ts_Container m)) (ct_Image (ts_Container t))"
  "ct_Command (ts_Container (mergeTestInto m t)) =
     over_list (ct_Command (ts_Container m)) (ct_Command (ts_Container t))"
  "ct_Env (ts_Container (mergeTestInto m t)) = ct_Env (ts_Container m) @ ct_Env (ts_Container t)"
  "ts_Timeout (mergeTestInto m t) = over_ptr (ts_Timeout m) (ts_Timeout t)"
  "ts_Verdict (mergeTestInto m t) = over_ptr (ts_Verdict m) (ts_Verdict t)"
  "cn_Git (ts_Content (mergeTestInto m t)) = over_ptr (cn_Git (ts_Content m)) (cn_Git (ts_Content t))"
  by (simp_all add: mergeTestInto_def overrideContainerFromTest_def)

lemma MergeTemplates_Inr:
  assumes "rmap (store (t_Namespace test)) (ts_Use (t_Spec test)) = Inr tmpls"
  shows "MergeTemplates (Some test) store =
    Inr (bindInlineMainFile (mergeTestInto (foldl mergeTemplateInto zero_TestSpec (map tp_Spec tmpls)) (t_Spec test)),
      last_set [] (map (\<lambda>t. tool_of (tp_Labels t)) tmpls @ [tool_of (t_Labels test)]))"
proof -
  have "tool_label (t_Labels test) (foldl (\<lambda>a t. tool_label (tp_Labels t) a) [] tmpls) =
      last_set [] (map (\<lambda>t. tool_of (tp_Labels t)) tmpls @ [tool_of (t_Labels test)])"
    unfolding foldl_tool last_set_append by (simp add: tool_label_def tool_of_def Let_def)
  then show ?thesis by (simp add: MergeTemplates_def merge_use_foldl [of store _ _ tmpls, OF assms])
qed

lemma eval_slice_Inr:
  "eval_slice_from sc i xs = Inr vs \<longleftrightarrow> list_all2 (\<lambda>x v. Eval x sc = Inr v) xs vs"
proof (induction xs arbitrary: i vs)
  case (Cons x xs)
  show ?case
  proof (cases "Eval x sc")
    case (Inr v)
    show ?thesis
    proof (cases "eval_slice_from sc (Suc i) xs")
      case (Inl e)
      then have "\<not> list_all2 (\<lambda>x v. Eval x sc = Inr v) xs us" for us using Cons.IH [of "Suc i" us] by simp
      with Inl Inr show ?thesis by (auto simp: list_all2_Cons1 split: prod.split)
    next
      case us: (Inr us)
      then have "list_all2 (\<lambda>x v. Eval x sc = Inr v) xs ws \<longleftrightarrow> us = ws" for ws
        using Cons.IH [of "Suc i" ws] by simp
      with us Inr show ?thesis by (auto simp: list_all2_Cons1)
    qed
  qed (auto simp: list_all2_Cons1)
qed auto

lemma in_field_Inr [simp]: "in_field f r = Inr v \<longleftrightarrow> r = Inr v"
  by (auto simp: in_field_def split: sum.splits)

lemma at_field_Inr [simp]: "at_field f r = Inr v \<longleftrightarrow> r = Inr v"
  by (auto simp: at_field_def split: sum.splits)


lemma rbind_InrE:
  assumes "rbind r f = Inr y"
  obtains x where "r = Inr x" "f x = Inr y"
  using assms by (cases r) auto

lemma Resolve_Inr:
  assumes "Resolve re (Some test) (Some run) store opts = Inr spec"
  obtains merged tool config where "MergeTemplates (Some test) store = Inr (merged, tool)"
    "CheckContent merged = Inr ()"
    "ResolveConfig re (ts_Config merged) (rs_Config (r_Spec run)) = Inr config"
    "evalStringsInSpec merged (resolve_scope merged config test run opts) = Inr spec"
  using assms unfolding Resolve_def by (auto elim!: rbind_InrE split: prod.splits)

text \<open>What the expression pass leaves alone.\<close>

definition fixed_service :: "ServiceSpec \<Rightarrow> ServiceSpec" where
  "fixed_service s = s\<lparr>sv_Command := [], sv_Args := [], sv_Env := []\<rparr>"

definition fixed_part :: "TestSpec \<Rightarrow> TestSpec" where
  "fixed_part s = s\<lparr>
     ts_Container := (ts_Container s)\<lparr>ct_Command := [], ct_Args := [], ct_WorkingDir := [], ct_Env := []\<rparr>,
     ts_Pod := map_option (\<lambda>p. p\<lparr>po_Labels := [], po_Annotations := []\<rparr>) (ts_Pod s),
     ts_Artifacts := map_option (\<lambda>a. a\<lparr>as_Paths := [], as_Report := []\<rparr>) (ts_Artifacts s),
     ts_Services := map (\<lambda>(n, v). (n, fixed_service v)) (ts_Services s)\<rparr>"

lemma evalService_fixed: "evalService s sc = Inr s' \<Longrightarrow> fixed_service s' = fixed_service s"
  by (auto simp: evalService_def fixed_service_def elim!: rbind_InrE)

lemma eval_services_fixed:
  "eval_services sc ss = Inr ss' \<Longrightarrow>
   map (\<lambda>(n, v). (n, fixed_service v)) ss' = map (\<lambda>(n, v). (n, fixed_service v)) ss"
  unfolding eval_services_def
proof (induction ss arbitrary: ss')
  case (Cons p ss)
  obtain n s where p: "p = (n, s)" by (cases p)
  from Cons.prems p obtain s' ss2 where "evalService s sc = Inr s'" "ss' = (n, s') # ss2"
    "rmap (\<lambda>(name, svc). case evalService svc sc of
       Inl (BadField f e) \<Rightarrow> Inl (BadField (FService name f) e) | Inl e \<Rightarrow> Inl e
     | Inr s \<Rightarrow> Inr (name, s)) ss = Inr ss2"
    by (auto split: sum.splits resolve_error.splits)
  with Cons.IH p show ?case by (simp add: evalService_fixed)
qed simp

lemma evalStringsInSpec_fixed:
  assumes "evalStringsInSpec m sc = Inr s"
  shows "fixed_part s = fixed_part m"
proof -
  from assms obtain c p a v where e: "eval_container (ts_Container m) sc = Inr c"
    "eval_pod (ts_Pod m) sc = Inr p" "eval_artifacts (ts_Artifacts m) sc = Inr a"
    "eval_services sc (ts_Services m) = Inr v"
    "s = m\<lparr>ts_Container := c, ts_Pod := p, ts_Artifacts := a, ts_Services := v\<rparr>"
    by (auto simp: evalStringsInSpec_def elim!: rbind_InrE)
  have "c\<lparr>ct_Command := [], ct_Args := [], ct_WorkingDir := [], ct_Env := []\<rparr> =
      (ts_Container m)\<lparr>ct_Command := [], ct_Args := [], ct_WorkingDir := [], ct_Env := []\<rparr>"
    using e(1) by (auto simp: eval_container_def elim!: rbind_InrE)
  moreover have "map_option (\<lambda>p. p\<lparr>po_Labels := [], po_Annotations := []\<rparr>) p =
      map_option (\<lambda>p. p\<lparr>po_Labels := [], po_Annotations := []\<rparr>) (ts_Pod m)"
    using e(2) by (auto simp: eval_pod_def elim!: rbind_InrE split: option.splits)
  moreover have "map_option (\<lambda>a. a\<lparr>as_Paths := [], as_Report := []\<rparr>) a =
      map_option (\<lambda>a. a\<lparr>as_Paths := [], as_Report := []\<rparr>) (ts_Artifacts m)"
    using e(3) by (auto simp: eval_artifacts_def elim!: rbind_InrE split: option.splits)
  moreover note eval_services_fixed [OF e(4)]
  ultimately show ?thesis unfolding fixed_part_def e(5) by simp
qed

lemma resolve_param_Inr:
  "resolve_param re ov (k, p) = Inr (k', v) \<longleftrightarrow> k' = k \<and>
   (\<exists>raw. (map_of ov k = Some raw \<or> map_of ov k = None \<and> pm_Default p \<noteq> [] \<and> raw = pm_Default p) \<and>
     CoerceParam re k raw \<lparr>ep_Type = pm_Type p, ep_Enum = pm_Enum p, ep_Pattern = pm_Pattern p\<rparr> = Inr v)"
  by (cases "map_of ov k") (auto simp: resolve_param_def split: sum.splits)

lemma rmap_resolve_params:
  "gm_ok declared \<Longrightarrow> rmap (resolve_param re ov) declared = Inr out \<Longrightarrow>
   map fst out = map fst declared \<and>
   (\<forall>k p. map_of declared k = Some p \<longrightarrow>
     (\<exists>v. map_of out k = Some v \<and> resolve_param re ov (k, p) = Inr (k, v)))"
proof (induction declared arbitrary: out)
  case (Cons d declared)
  obtain k p where d: "d = (k, p)" by (cases d)
  from Cons.prems d obtain kv out' where o: "resolve_param re ov (k, p) = Inr kv" "out = kv # out'"
    "rmap (resolve_param re ov) declared = Inr out'" by (auto split: sum.splits)
  obtain v where kv: "kv = (k, v)" using o(1) resolve_param_Inr [of re ov k p] by (cases kv) auto
  have "gm_ok declared" using Cons.prems(1) by (simp add: gm_ok_def)
  from Cons.IH [OF this o(3)] show ?case using o kv d by auto
qed simp

section \<open>Properties\<close>



text \<open>
  Parameters: when \<open>ResolveConfig\<close> succeeds, no override names an undeclared key, the
  result has exactly the declared keys, and each value is the coercion of the run's override,
  else of a non-empty default, and satisfies the parameter's type, enumeration and pattern.
\<close>

theorem ResolveConfig_sound:
  assumes "gm_ok declared" "ResolveConfig re declared ov = Inr out"
  shows "(\<forall>k \<in> set (map fst ov). gm_has declared k) \<and> map fst out = map fst declared \<and>
    (\<forall>k p. map_of declared k = Some p \<longrightarrow>
      (\<exists>v raw. map_of out k = Some v \<and>
        (map_of ov k = Some raw \<or> map_of ov k = None \<and> pm_Default p \<noteq> [] \<and> raw = pm_Default p) \<and>
        CoerceParam re k raw \<lparr>ep_Type = pm_Type p, ep_Enum = pm_Enum p, ep_Pattern = pm_Pattern p\<rparr> = Inr v))"
proof -
  have f: "find (\<lambda>k. \<not> gm_has declared k) (map fst ov) = None"
    and r: "rmap (resolve_param re ov) declared = Inr out"
    using assms(2) by (auto simp: ResolveConfig_def split: option.splits)
  have "\<forall>k \<in> set (map fst ov). gm_has declared k" using f unfolding find_None_iff by blast
  moreover have "\<exists>v raw. map_of out k = Some v \<and>
      (map_of ov k = Some raw \<or> map_of ov k = None \<and> pm_Default p \<noteq> [] \<and> raw = pm_Default p) \<and>
      CoerceParam re k raw \<lparr>ep_Type = pm_Type p, ep_Enum = pm_Enum p, ep_Pattern = pm_Pattern p\<rparr> = Inr v"
    if k: "map_of declared k = Some p" for k p
  proof -
    obtain v where "map_of out k = Some v" "resolve_param re ov (k, p) = Inr (k, v)"
      using rmap_resolve_params [OF assms(1) r] k by blast
    then show ?thesis using resolve_param_Inr [of re ov k p k v] by blast
  qed
  ultimately show ?thesis using rmap_resolve_params [OF assms(1) r] by blast
qed

theorem ResolveConfig_sound_witness:
  "map fst [(''vus'', ''10'')] = map fst [(''vus'', zero_Parameter\<lparr>pm_Default := ''5''\<rparr>)]"
proof -
  have "gm_ok [(''vus'', zero_Parameter\<lparr>pm_Default := ''5''\<rparr>)]" by (simp add: gm_ok_def)
  moreover have "ResolveConfig (\<lambda>_. None) [(''vus'', zero_Parameter\<lparr>pm_Default := ''5''\<rparr>)] [(''vus'', ''10'')]
      = Inr [(''vus'', ''10'')]"
    by (simp add: ResolveConfig_def gm_has_def resolve_param_def CoerceParam_def coerce_type_def zero_Parameter_def)
  ultimately show ?thesis
    using ResolveConfig_sound [of "[(''vus'', zero_Parameter\<lparr>pm_Default := ''5''\<rparr>)]" "\<lambda>_. None" "[(''vus'', ''10'')]"]
    by blast
qed


definition sample_test :: Test where
  "sample_test = \<lparr>t_Name = ''t'', t_Namespace = ''n'', t_Labels = [], t_CreationTimestamp = 0, t_Spec = zero_TestSpec
     \<lparr>ts_Container := zero_ContainerConfig\<lparr>ct_Image := ''k6'', ct_Args := [''{{ run.id }}'']\<rparr>\<rparr>\<rparr>"

definition sample_run :: "string \<Rightarrow> TestRun" where
  "sample_run name = \<lparr>r_Name = name, r_Namespace = ''n'', r_UID = ''u'', r_Labels = [],
     r_CreationTimestamp = 0, r_DeletionTimestamp = None, r_Finalizers = [],
     r_Spec = \<lparr>rs_TestRef = ''t'', rs_Config = [], rs_Pod = None, rs_Tags = [], rs_Source = ''api'',
       rs_Abort = None, rs_NotBefore = None\<rparr>, r_Status = zero_TestRunStatus\<rparr>"

lemma sample_resolves:
  "Resolve (\<lambda>_. None) (Some sample_test) (Some (sample_run ''r1'')) (MapStore_Get []) \<lparr>op_Env = [], op_RunID = []\<rparr>
   = Inr (zero_TestSpec\<lparr>ts_Container := zero_ContainerConfig\<lparr>ct_Image := ''k6'', ct_Args := [''r1'']\<rparr>\<rparr>)"
  "Resolve (\<lambda>_. None) (Some sample_test) (Some (sample_run ''r2'')) (MapStore_Get []) \<lparr>op_Env = [], op_RunID = []\<rparr>
   = Inr (zero_TestSpec\<lparr>ts_Container := zero_ContainerConfig\<lparr>ct_Image := ''k6'', ct_Args := [''r2'']\<rparr>\<rparr>)"
  by code_simp+


text \<open>
  A resolved spec has at most one source of code, and a tool whose main path is a
  directory never gets inline files.
\<close>

theorem Resolve_one_source:
  assumes "Resolve re (Some test) (Some run) store opts = Inr spec"
  shows "length (filter id [cn_Git (ts_Content spec) \<noteq> None, cn_Files (ts_Content spec) \<noteq> [],
      cn_Tarball (ts_Content spec) \<noteq> []]) \<le> 1 \<and>
    \<not> (snd (MainPathParam (ts_Config spec)) = PathDirectory \<and> inlineCode spec)"
proof -
  from assms obtain m c where "CheckContent m = Inr ()" "fixed_part spec = fixed_part m"
    by (metis Resolve_Inr evalStringsInSpec_fixed)
  moreover from this(2) have "ts_Content spec = ts_Content m" "ts_Config spec = ts_Config m"
    by (auto simp: fixed_part_def dest: arg_cong [of _ _ ts_Content] arg_cong [of _ _ ts_Config])
  ultimately show ?thesis
    by (auto simp: CheckContent_def inlineCode_def Let_def split: if_splits)
qed

theorem Resolve_one_source_witness:
  "length (filter id [cn_Git (ts_Content (zero_TestSpec
      \<lparr>ts_Container := zero_ContainerConfig\<lparr>ct_Image := ''k6'', ct_Args := [''r1'']\<rparr>\<rparr>)) \<noteq> None,
    cn_Files (ts_Content (zero_TestSpec
      \<lparr>ts_Container := zero_ContainerConfig\<lparr>ct_Image := ''k6'', ct_Args := [''r1'']\<rparr>\<rparr>)) \<noteq> [],
    cn_Tarball (ts_Content (zero_TestSpec
      \<lparr>ts_Container := zero_ContainerConfig\<lparr>ct_Image := ''k6'', ct_Args := [''r1'']\<rparr>\<rparr>)) \<noteq> []]) \<le> 1"
  using Resolve_one_source [OF sample_resolves(1)] by blast

end
