(* ===== verification/Composer.thy ===== *)
theory Composer
  imports Expr ApiTypes
begin

text \<open>
  The pure core of composite Tests, \<open>src/internal/composer/aggregate.go\<close> and \<open>render.go\<close>: the
  verdict of a step from its children, whether the next step runs, the parent's phase, the
  check of the execute graph for cycles and depth, the retry rule and the rendering of a
  child's configuration. A graph error holds the values Go formats into its message.
\<close>

section \<open>Verdicts\<close>

definition ConditionAlways :: string where "ConditionAlways = ''always''"

record ChildOutcome =
  co_Phase :: Phase

record StepVerdict =
  sv_Phase :: Phase
  sv_Message :: string

text \<open>\<open>negative\<close> swaps passed and failed.\<close>

definition negate_phase :: "bool \<Rightarrow> Phase \<Rightarrow> Phase" where
  "negate_phase negative p =
     (if negative then (case p of PhasePassed \<Rightarrow> PhaseFailed | PhaseFailed \<Rightarrow> PhasePassed | _ \<Rightarrow> p) else p)"

definition countPhase :: "ChildOutcome list \<Rightarrow> bool \<Rightarrow> Phase \<Rightarrow> nat" where
  "countPhase children negative want =
     length (filter (\<lambda>c. negate_phase negative (co_Phase c) = want) children)"

text \<open>The loop: the position, the index of the first failed child so far.\<close>

fun aggregate_loop ::
  "bool \<Rightarrow> nat \<Rightarrow> nat option \<Rightarrow> ChildOutcome list \<Rightarrow> StepVerdict + nat option" where
  "aggregate_loop negative i failedIdx [] = Inr failedIdx"
| "aggregate_loop negative i failedIdx (c # cs) =
     (if co_Phase c = PhaseAborted
        then Inl \<lparr>sv_Phase = PhaseAborted, 
          sv_Message = ''aggregate: child['' @ utoa i @ ''] aborted''\<rparr>
      else if co_Phase c = PhaseError
        then Inl \<lparr>sv_Phase = PhaseError, 
          sv_Message = ''aggregate: child['' @ utoa i @ ''] error''\<rparr>
      else aggregate_loop negative (Suc i)
        (if negate_phase negative (co_Phase c) = PhaseFailed \<and> failedIdx = None then Some i else failedIdx) cs)"

definition Aggregate :: "ChildOutcome list \<Rightarrow> bool \<Rightarrow> StepVerdict" where
  "Aggregate children negative =
     (if children = [] then \<lparr>sv_Phase = PhaseFailed, sv_Message = ''aggregate: no child outcomes recorded''\<rparr>
      else case aggregate_loop negative 0 None children of
        Inl v \<Rightarrow> v
      | Inr (Some i) \<Rightarrow> \<lparr>sv_Phase = PhaseFailed, sv_Message =
          ''aggregate: '' @ utoa (countPhase children negative PhaseFailed) @ ''/'' @ utoa (length children)
          @ '' children failed (first: index '' @ utoa i @ '')''\<rparr>
      | Inr None \<Rightarrow> \<lparr>sv_Phase = PhasePassed, sv_Message =
          ''aggregate: '' @ utoa (length children) @ ''/'' @ utoa (length children) @ '' children passed''\<rparr>)"

definition ShouldRunNext :: "StepVerdict \<Rightarrow> bool \<Rightarrow> string \<Rightarrow> bool" where
  "ShouldRunNext priorVerdict priorOptional nextCondition =
     (if nextCondition = ConditionAlways then True
      else if sv_Phase priorVerdict = PhasePassed then True
      else priorOptional \<and> sv_Phase priorVerdict = PhaseFailed)"

text \<open>\<open>nil\<close> verdicts are skipped steps; a step beyond the flags is not optional.\<close>

fun parent_severe :: "StepVerdict option list \<Rightarrow> bool list \<Rightarrow> Phase option" where
  "parent_severe [] opt = None"
| "parent_severe (v # vs) opt =
     (case v of
        Some w \<Rightarrow>
          if \<not> (opt \<noteq> [] \<and> hd opt) \<and> sv_Phase w \<in> {PhaseAborted, PhaseError}
          then Some (sv_Phase w) else parent_severe vs (tl opt)
      | None \<Rightarrow> parent_severe vs (tl opt))"

fun parent_failed :: "StepVerdict option list \<Rightarrow> bool list \<Rightarrow> bool" where
  "parent_failed [] opt = False"
| "parent_failed (v # vs) opt =
     ((case v of Some w \<Rightarrow> \<not> (opt \<noteq> [] \<and> hd opt) \<and> sv_Phase w = PhaseFailed | None \<Rightarrow> False)
      \<or> parent_failed vs (tl opt))"

definition ParentPhase :: "StepVerdict option list \<Rightarrow> bool list \<Rightarrow> Phase" where
  "ParentPhase stepVerdicts opt =
     (case parent_severe stepVerdicts opt of
        Some p \<Rightarrow> p
      | None \<Rightarrow> if parent_failed stepVerdicts opt then PhaseFailed else PhasePassed)"

definition ChildNeedsRetry :: "Phase \<Rightarrow> bool \<Rightarrow> bool" where
  "ChildNeedsRetry phase negative =
     (case phase of PhaseError \<Rightarrow> True | PhaseFailed \<Rightarrow> \<not> negative | PhasePassed \<Rightarrow> negative | _ \<Rightarrow> False)"

section \<open>The execute graph\<close>

datatype graph_error = ErrCycle "string list" | ErrDepthLimit string nat

definition MaxDepth :: nat where "MaxDepth = 10"

type_synonym TestLookup = "string \<Rightarrow> TestSpec option"

definition step_refs :: "TestSpec \<Rightarrow> string list" where
  "step_refs spec = concat (map (\<lambda>s. case st_Execute s of None \<Rightarrow> []
     | Some e \<Rightarrow> map et_Name (se_Tests e)) (ts_Steps spec))"

fun each :: "('a \<Rightarrow> ('e, unit) result) \<Rightarrow> 'a list \<Rightarrow> ('e, unit) result" where
  "each f [] = Inr ()"
| "each f (x # xs) = (case f x of Inl e \<Rightarrow> Inl e | Inr _ \<Rightarrow> each f xs)"

text \<open>
  \<open>walk\<close> with the number of levels left instead of the depth (\<open>depth = MaxDepth + 1 - n\<close>);
  \<open>visiting\<close> is the set of the names on \<open>path\<close>.
\<close>

fun walk :: "TestLookup \<Rightarrow> nat \<Rightarrow> string \<Rightarrow> TestSpec \<Rightarrow> string list \<Rightarrow> (graph_error, unit) result" where
  "walk lookup 0 name spec path = Inl (ErrDepthLimit name (MaxDepth + 1))"
| "walk lookup (Suc n) name spec path =
     (if name \<in> set path then Inl (ErrCycle (path @ [name]))
      else if ts_Steps spec = [] then Inr ()
      else each (\<lambda>t. case lookup t of None \<Rightarrow> Inr ()
          | Some child \<Rightarrow> walk lookup n t child (path @ [name])) (step_refs spec))"

definition ResolveGraph :: "string \<Rightarrow> TestSpec \<Rightarrow> TestLookup \<Rightarrow> (graph_error, unit) result" where
  "ResolveGraph rootName rootSpec lookup = walk lookup (MaxDepth + 1) rootName rootSpec []"

section \<open>Child configuration\<close>

text \<open>The regexp \<open>{{\s*name\s*}}\<close> anchored at the start: what follows the match.\<close>

definition match_ref :: "string \<Rightarrow> string \<Rightarrow> string option" where
  "match_ref name s =
     (if \<not> has_prefix ''{{'' s then None
      else let r = dropWhile re_space (drop 2 s)
           in if \<not> has_prefix name r then None
              else let r' = dropWhile re_space (drop (length name) r)
                   in if has_prefix ''}}'' r' then Some (drop 2 r') else None)"

lemma match_ref_shorter: "match_ref name s = Some r \<Longrightarrow> length r < length s"
proof -
  assume m: "match_ref name s = Some r"
  let ?a = "dropWhile re_space (drop 2 s)"
  have s: "2 \<le> length s"
    using m by (auto simp: match_ref_def has_prefix_def split: if_splits dest: arg_cong [of _ _ length])
  have r: "r = drop 2 (dropWhile re_space (drop (length name) ?a))"
    using m by (auto simp: match_ref_def Let_def split: if_splits)
  have "length r \<le> length (drop (length name) ?a)"
    unfolding r using length_dropWhile_le [of re_space "drop (length name) ?a"] by simp
  also have "\<dots> \<le> length (drop 2 s)"
    using length_dropWhile_le [of re_space "drop 2 s"] by simp
  finally show ?thesis using s by simp
qed

function replace_ref :: "string \<Rightarrow> string \<Rightarrow> string \<Rightarrow> string" where
  "replace_ref name v [] = []"
| "replace_ref name v (c # s) =
     (case match_ref name (c # s) of
        Some r \<Rightarrow> v @ replace_ref name v r
      | None \<Rightarrow> c # replace_ref name v s)"
  by pat_completeness auto
termination
  by (relation "measure (\<lambda>(name, v, s). length s)") (auto dest: match_ref_shorter)

definition RenderChildConfig :: "(string, string) gomap \<Rightarrow> int \<Rightarrow> int \<Rightarrow> (string, string) gomap" where
  "RenderChildConfig raw index count = map (\<lambda>(k, v).
     (k, replace_ref ''count'' (itoa count) (replace_ref ''index'' (itoa index) v))) raw"

section \<open>Lemmas\<close>

definition terminal_outcome :: "ChildOutcome \<Rightarrow> bool" where
  "terminal_outcome c \<longleftrightarrow> co_Phase c \<in> {PhasePassed, PhaseFailed, PhaseAborted, PhaseError}"

definition severe :: "ChildOutcome \<Rightarrow> bool" where
  "severe c \<longleftrightarrow> co_Phase c \<in> {PhaseAborted, PhaseError}"

lemma aggregate_loop_severe:
  "case aggregate_loop neg i f cs of
     Inl v \<Rightarrow> \<exists>c. find severe cs = Some c \<and> sv_Phase v = co_Phase c
   | Inr f' \<Rightarrow> find severe cs = None \<and>
       (f' = None \<longleftrightarrow> f = None \<and> (\<forall>c \<in> set cs. negate_phase neg (co_Phase c) \<noteq> PhaseFailed))"
proof (induction cs arbitrary: i f)
  case (Cons c cs)
  show ?case
  proof (cases "severe c")
    case True
    then show ?thesis by (auto simp: severe_def)
  next
    case False
    then show ?thesis
      using Cons.IH [where i = "Suc i" and
          f = "if negate_phase neg (co_Phase c) = PhaseFailed \<and> f = None then Some i else f"]
      by (auto simp: severe_def split: sum.splits if_splits)
  qed
qed simp

lemma Aggregate_phase:
  "sv_Phase (Aggregate cs neg) =
    (if cs = [] then PhaseFailed
     else case find severe cs of Some c \<Rightarrow> co_Phase c
       | None \<Rightarrow> if \<exists>c \<in> set cs. negate_phase neg (co_Phase c) = PhaseFailed then PhaseFailed else PhasePassed)"
  using aggregate_loop_severe [where neg = neg and i = 0 and f = None and cs = cs]
  by (auto simp: Aggregate_def split: sum.splits option.splits)

lemma find_severe_None: "find severe cs = None \<longleftrightarrow> (\<forall>c \<in> set cs. \<not> severe c)"
  by (auto simp: find_None_iff)

text \<open>The steps that count: recorded, and not optional.\<close>

definition counts :: "StepVerdict option list \<Rightarrow> bool list \<Rightarrow> nat \<Rightarrow> StepVerdict \<Rightarrow> bool" where
  "counts vs opt i v \<longleftrightarrow> i < length vs \<and> vs ! i = Some v \<and> \<not> (i < length opt \<and> opt ! i)"

lemma counts_Cons:
  "counts (w # vs) opt i v \<longleftrightarrow>
     (case i of 0 \<Rightarrow> w = Some v \<and> \<not> (opt \<noteq> [] \<and> hd opt) | Suc j \<Rightarrow> counts vs (tl opt) j v)"
  by (cases i; cases opt) (auto simp: counts_def)

lemma counts_Cons_ex:
  "(\<exists>i v. counts (w # vs) opt i v \<and> P v) \<longleftrightarrow>
     (\<exists>v. w = Some v \<and> \<not> (opt \<noteq> [] \<and> hd opt) \<and> P v) \<or> (\<exists>i v. counts vs (tl opt) i v \<and> P v)"
proof (intro iffI)
  assume "\<exists>i v. counts (w # vs) opt i v \<and> P v"
  then obtain i v where "counts (w # vs) opt i v" "P v" by blast
  then show "(\<exists>v. w = Some v \<and> \<not> (opt \<noteq> [] \<and> hd opt) \<and> P v) \<or> (\<exists>i v. counts vs (tl opt) i v \<and> P v)"
    by (cases i) (auto simp: counts_Cons)
next
  assume "(\<exists>v. w = Some v \<and> \<not> (opt \<noteq> [] \<and> hd opt) \<and> P v) \<or> (\<exists>i v. counts vs (tl opt) i v \<and> P v)"
  then show "\<exists>i v. counts (w # vs) opt i v \<and> P v"
  proof (elim disjE exE conjE)
    fix v assume "w = Some v" "\<not> (opt \<noteq> [] \<and> hd opt)" "P v"
    then show ?thesis by (intro exI [of _ 0] exI [of _ v]) (simp add: counts_Cons)
  next
    fix i v assume "counts vs (tl opt) i v" "P v"
    then show ?thesis by (intro exI [of _ "Suc i"] exI [of _ v]) (simp add: counts_Cons)
  qed
qed

lemma parent_severe_None:
  "parent_severe vs opt = None \<longleftrightarrow> \<not> (\<exists>i v. counts vs opt i v \<and> sv_Phase v \<in> {PhaseAborted, PhaseError})"
proof (induction vs opt rule: parent_severe.induct)
  case (1 opt)
  then show ?case by (simp add: counts_def)
next
  case (2 v vs opt)
  show ?case unfolding counts_Cons_ex using 2 by (cases v) auto
qed

lemma parent_severe_Some:
  "parent_severe vs opt = Some p \<Longrightarrow> p \<in> {PhaseAborted, PhaseError} \<and> (\<exists>i v. counts vs opt i v \<and> sv_Phase v = p)"
proof (induction vs opt rule: parent_severe.induct)
  case (2 v vs opt)
  show ?case unfolding counts_Cons_ex using 2 by (cases v) (auto split: if_splits)
qed simp

lemma parent_failed_iff:
  "parent_failed vs opt \<longleftrightarrow> (\<exists>i v. counts vs opt i v \<and> sv_Phase v = PhaseFailed)"
proof (induction vs opt rule: parent_failed.induct)
  case (1 opt)
  then show ?case by (simp add: counts_def)
next
  case (2 v vs opt)
  show ?case unfolding counts_Cons_ex using 2 by (cases v) auto
qed

lemma each_Inr: "each f xs = Inr () \<longleftrightarrow> (\<forall>x \<in> set xs. f x = Inr ())"
  by (induction xs) (auto split: sum.splits)

text \<open>An edge of the execute graph: a step of the first Test names the second, and both exist.\<close>

definition edge :: "TestLookup \<Rightarrow> string \<Rightarrow> string \<Rightarrow> bool" where
  "edge lookup a b \<longleftrightarrow> (\<exists>s. lookup a = Some s \<and> b \<in> set (step_refs s)) \<and> lookup b \<noteq> None"

lemma cycle_walks: "(edge l)\<^sup>+\<^sup>+ x x \<Longrightarrow> \<exists>y. (edge l ^^ n) x y"
proof (induction n arbitrary: x)
  case (Suc n)
  then obtain z where z: "edge l x z" "(edge l)\<^sup>*\<^sup>* z x" by (meson tranclpD)
  then have "(edge l)\<^sup>+\<^sup>+ z z" by (metis rtranclp_into_tranclp1)
  from Suc.IH [OF this] z(1) show ?case by (metis relpowp_Suc_I2)
qed simp

lemma reach_cycle_walks:
  "(edge l)\<^sup>*\<^sup>* r x \<Longrightarrow> (edge l)\<^sup>+\<^sup>+ x x \<Longrightarrow> \<exists>y. (edge l ^^ n) r y"
proof (induction n arbitrary: r)
  case (Suc n)
  show ?case
  proof (cases "r = x")
    case True
    then show ?thesis using cycle_walks [OF Suc.prems(2)] by blast
  next
    case False
    then obtain z where z: "edge l r z" "(edge l)\<^sup>*\<^sup>* z x"
      using Suc.prems(1) by (auto elim: converse_rtranclpE)
    from Suc.IH [OF z(2) Suc.prems(2)] obtain y where "(edge l ^^ n) z y" by blast
    with z(1) show ?thesis by (blast intro: relpowp_Suc_I2)
  qed
qed simp

lemma walk_complete:
  "lookup name = Some spec \<Longrightarrow> walk lookup n name spec path = Inr () \<Longrightarrow> \<not> (edge lookup ^^ n) name y"
proof (induction n arbitrary: name spec path)
  case (Suc n)
  show ?case
  proof
    assume "(edge lookup ^^ Suc n) name y"
    then obtain z where z: "edge lookup name z" "(edge lookup ^^ n) z y" by (meson relpowp_Suc_E2)
    then obtain zs where zs: "z \<in> set (step_refs spec)" "lookup z = Some zs"
      using Suc.prems(1) by (auto simp: edge_def)
    have "ts_Steps spec \<noteq> []" using zs(1) by (auto simp: step_refs_def)
    then have "walk lookup n z zs (path @ [name]) = Inr ()"
      using Suc.prems(2) zs by (auto simp: each_Inr split: if_splits)
    from Suc.IH [OF zs(2) this] z(2) show False by blast
  qed
qed simp

lemma walk_sound:
  "lookup name = Some spec \<Longrightarrow> \<forall>a \<in> set path. (edge lookup)\<^sup>+\<^sup>+ a name \<Longrightarrow>
   \<not> (\<exists>y. (edge lookup ^^ n) name y) \<Longrightarrow> walk lookup n name spec path = Inr ()"
proof (induction n arbitrary: name spec path)
  case (Suc n)
  have fresh: "name \<notin> set path" using Suc.prems(2,3) cycle_walks by metis
  have "(case lookup t of None \<Rightarrow> Inr () | Some child \<Rightarrow> walk lookup n t child (path @ [name])) = Inr ()"
    if t: "t \<in> set (step_refs spec)" for t
  proof (cases "lookup t")
    case (Some child)
    then have e: "edge lookup name t" using Suc.prems(1) t by (simp add: edge_def)
    then have "\<forall>a \<in> set (path @ [name]). (edge lookup)\<^sup>+\<^sup>+ a t"
      using Suc.prems(2) by (auto intro: tranclp.trancl_into_trancl)
    moreover have "\<not> (\<exists>y. (edge lookup ^^ n) t y)" using Suc.prems(3) e by (meson relpowp_Suc_I2)
    ultimately show ?thesis using Suc.IH [OF Some] Some by simp
  qed simp
  with fresh show ?case by (simp add: each_Inr)
qed simp

lemma walk_cycle:
  "walk lookup n name spec path = Inl (ErrCycle p) \<Longrightarrow> lookup name = Some spec \<Longrightarrow>
   \<forall>a \<in> set path. (edge lookup)\<^sup>+\<^sup>+ a name \<Longrightarrow> (edge lookup)\<^sup>+\<^sup>+ (last p) (last p)"
proof (induction n arbitrary: name spec path)
  case (Suc n)
  show ?case
  proof (cases "name \<in> set path")
    case False
    have "\<exists>t \<in> set ts. f t = Inl e" if "each f ts = Inl e" for f :: "string \<Rightarrow> (graph_error, unit) result" and ts e
      using that by (induction ts) (auto split: sum.splits)
    then obtain t child where t: "t \<in> set (step_refs spec)" "lookup t = Some child"
      "walk lookup n t child (path @ [name]) = Inl (ErrCycle p)"
      using Suc.prems(1) False by (fastforce split: if_splits option.splits)
    have "edge lookup name t" using Suc.prems(2) t by (simp add: edge_def)
    then have "\<forall>a \<in> set (path @ [name]). (edge lookup)\<^sup>+\<^sup>+ a t"
      using Suc.prems(3) by (auto intro: tranclp.trancl_into_trancl)
    then show ?thesis using Suc.IH [OF t(3) t(2)] by blast
  qed (use Suc.prems in auto)
qed simp

section \<open>Properties\<close>



text \<open>
  The comment of \<open>Aggregate\<close> lists "any child aborted" above "any child error" ("user/system
  cancel wins"). The code decides by position: an error child before an aborted one makes the
  step an error, so an abort does not win over an earlier error.
\<close>

theorem Aggregate_error_before_aborted:
  "sv_Phase (Aggregate (\<lparr>co_Phase = PhaseError\<rparr> # \<lparr>co_Phase = PhaseAborted\<rparr> # cs) neg) = PhaseError \<and>
   sv_Phase (Aggregate (\<lparr>co_Phase = PhaseAborted\<rparr> # \<lparr>co_Phase = PhaseError\<rparr> # cs) neg) = PhaseAborted"
  by (simp add: Aggregate_phase severe_def)

text \<open>
  C36. The parent's phase: passed exactly when no step that counts (run, not optional) failed,
  errored or was aborted; failed only when a counting step failed and none was aborted or an
  error; and an aborted or error parent has a counting step of that phase.
\<close>

theorem ParentPhase_verdict:
  "(ParentPhase vs opt = PhasePassed \<longleftrightarrow>
      (\<forall>i v. counts vs opt i v \<longrightarrow> sv_Phase v \<notin> {PhaseFailed, PhaseAborted, PhaseError})) \<and>
   (ParentPhase vs opt = PhaseFailed \<longleftrightarrow>
      (\<exists>i v. counts vs opt i v \<and> sv_Phase v = PhaseFailed) \<and>
      (\<forall>i v. counts vs opt i v \<longrightarrow> sv_Phase v \<notin> {PhaseAborted, PhaseError})) \<and>
   ParentPhase vs opt \<in> {PhasePassed, PhaseFailed, PhaseAborted, PhaseError} \<and>
   (\<forall>p \<in> {PhaseAborted, PhaseError}. ParentPhase vs opt = p \<longrightarrow> (\<exists>i v. counts vs opt i v \<and> sv_Phase v = p))"
proof (cases "parent_severe vs opt")
  case None
  then have ns: "\<forall>i v. counts vs opt i v \<longrightarrow> sv_Phase v \<notin> {PhaseAborted, PhaseError}"
    using parent_severe_None [of vs opt] by blast
  show ?thesis using ns by (auto simp: ParentPhase_def None parent_failed_iff)
next
  case (Some p)
  from parent_severe_Some [OF this] show ?thesis
    by (auto simp: ParentPhase_def Some)
qed

theorem ParentPhase_verdict_witness:
  "ParentPhase [Some \<lparr>sv_Phase = PhaseFailed, sv_Message = []\<rparr>, None] [True, False] = PhasePassed"
proof -
  let ?vs = "[Some \<lparr>sv_Phase = PhaseFailed, sv_Message = []\<rparr>, None]"
  have "\<not> counts ?vs [True, False] i v" for i v
    by (cases i; cases "i - 1") (auto simp: counts_def)
  then show ?thesis using ParentPhase_verdict [of ?vs "[True, False]"] by blast
qed

text \<open>
  C34. The graph check decides what it should: \<open>ResolveGraph\<close> accepts a composite Test exactly
  when no chain of \<open>execute\<close> references from it is longer than \<open>MaxDepth\<close> (in particular there is
  no cycle below it), and a reported cycle is one.
\<close>

theorem ResolveGraph_exact:
  assumes "lookup root = Some spec"
  shows "(ResolveGraph root spec lookup = Inr () \<longleftrightarrow> \<not> (\<exists>y. (edge lookup ^^ (MaxDepth + 1)) root y)) \<and>
    (ResolveGraph root spec lookup = Inr () \<longrightarrow> \<not> (\<exists>x. (edge lookup)\<^sup>*\<^sup>* root x \<and> (edge lookup)\<^sup>+\<^sup>+ x x)) \<and>
    (\<forall>p. ResolveGraph root spec lookup = Inl (ErrCycle p) \<longrightarrow> (edge lookup)\<^sup>+\<^sup>+ (last p) (last p))"
proof -
  have iff: "ResolveGraph root spec lookup = Inr () \<longleftrightarrow> \<not> (\<exists>y. (edge lookup ^^ (MaxDepth + 1)) root y)"
    unfolding ResolveGraph_def
  proof
    assume "walk lookup (MaxDepth + 1) root spec [] = Inr ()"
    then show "\<not> (\<exists>y. (edge lookup ^^ (MaxDepth + 1)) root y)"
      using walk_complete [of lookup root spec "MaxDepth + 1" "[]"] assms by blast
  next
    assume "\<not> (\<exists>y. (edge lookup ^^ (MaxDepth + 1)) root y)"
    then show "walk lookup (MaxDepth + 1) root spec [] = Inr ()"
      using walk_sound [of lookup root spec "[]" "MaxDepth + 1"] assms by (simp only: list.set ball_simps simp_thms)
  qed
  moreover have "\<not> (\<exists>x. (edge lookup)\<^sup>*\<^sup>* root x \<and> (edge lookup)\<^sup>+\<^sup>+ x x)"
    if "ResolveGraph root spec lookup = Inr ()"
    using that iff reach_cycle_walks [of lookup root _ "MaxDepth + 1"] by blast
  moreover have "(edge lookup)\<^sup>+\<^sup>+ (last p) (last p)" if "ResolveGraph root spec lookup = Inl (ErrCycle p)" for p
    using walk_cycle [of lookup "MaxDepth + 1" root spec "[]" p] that assms by (simp add: ResolveGraph_def)
  ultimately show ?thesis by blast
qed

theorem ResolveGraph_exact_witness:
  "\<not> (\<exists>y. (edge (\<lambda>n. if n = ''root'' then Some zero_TestSpec else None) ^^ (MaxDepth + 1)) ''root'' y)"
  using ResolveGraph_exact [of "\<lambda>n. if n = ''root'' then Some zero_TestSpec else None" "''root''" zero_TestSpec]
  by (simp add: ResolveGraph_def zero_TestSpec_def)

end
