(* ===== verification/PodStatus.thy ===== *)
theory PodStatus
  imports ApiTypes PodMerge
begin

text \<open>
  Reading Jobs and Pods, \<open>src/internal/controller/phases.go\<close>: terminal phases, a Job's
  conclusion, infrastructure failures of a Pod, the verdict the wrapper left in its
  termination message (\<open>src/pkg/executor/termination.go\<close>), the fallback verdict; the projection
  of a result (\<open>storage_result_reader.go\<close>, \<open>status_projection.go\<close>) into the run's status.
  Decoding JSON is a parameter (\<open>unmarshal\<close>). A float64 is represented by its shortest decimal
  text, which is the only thing the sources do with it.
\<close>

section \<open>Kubernetes objects\<close>

record ContainerTerminated =
  tm_ExitCode :: int
  tm_Reason :: string
  tm_Message :: string
  tm_StartedAt :: time
  tm_FinishedAt :: time

record ContainerWaiting =
  wt_Reason :: string
  wt_Message :: string

record ContainerState =
  cst_Waiting :: "ContainerWaiting option"
  cst_Running :: "time option"
  cst_Terminated :: "ContainerTerminated option"

record ContainerStatus =
  cs_Name :: string
  cs_Image :: string
  cs_State :: ContainerState
  cs_LastTerminationState :: ContainerState

record PodCondition =
  pc_Type :: string
  pc_Status :: string
  pc_Reason :: string
  pc_Message :: string
  pc_LastTransitionTime :: time

record Pod =
  pd_Name :: string
  pd_Namespace :: string
  pd_Labels :: "(string, string) gomap"
  pd_CreationTimestamp :: time
  pd_Containers :: "(string \<times> string) list"
  pd_Phase :: string
  pd_PodIP :: string
  pd_Conditions :: "PodCondition list"
  pd_InitContainerStatuses :: "ContainerStatus list"
  pd_ContainerStatuses :: "ContainerStatus list"

record JobCondition =
  jc_Type :: string
  jc_Status :: string
  jc_Reason :: string

record Job =
  j_Name :: string
  j_Namespace :: string
  j_Labels :: "(string, string) gomap"
  j_Conditions :: "JobCondition list"

section \<open>Phases and Jobs\<close>

definition IsTerminalPhase :: "Phase \<Rightarrow> bool" where
  "IsTerminalPhase p = (case p of PhasePassed \<Rightarrow> True | PhaseFailed \<Rightarrow> True | PhaseError \<Rightarrow> True
     | PhaseAborted \<Rightarrow> True | _ \<Rightarrow> False)"

fun phase_string :: "Phase \<Rightarrow> string" where
  "phase_string PhaseNone = []"
| "phase_string PhaseQueued = ''queued''"
| "phase_string PhaseRunning = ''running''"
| "phase_string PhasePaused = ''paused''"
| "phase_string PhasePassed = ''passed''"
| "phase_string PhaseFailed = ''failed''"
| "phase_string PhaseAborted = ''aborted''"
| "phase_string PhaseError = ''error''"

text \<open>A string that is none of the enumeration's values is no phase the code acts on.\<close>

definition phase_of_string :: "string \<Rightarrow> Phase" where
  "phase_of_string s = (case find (\<lambda>p. phase_string p = s)
       [PhaseQueued, PhaseRunning, PhasePaused, PhasePassed, PhaseFailed, PhaseAborted, PhaseError] of
     None \<Rightarrow> PhaseNone | Some p \<Rightarrow> p)"

datatype JobConclusion = JobStillRunning | JobSucceeded | JobFailedConclusion

fun inspect_conditions :: "JobCondition list \<Rightarrow> JobConclusion" where
  "inspect_conditions [] = JobStillRunning"
| "inspect_conditions (c # cs) =
     (if jc_Status c \<noteq> ''True'' then inspect_conditions cs
      else if jc_Type c = ''Complete'' then JobSucceeded
      else if jc_Type c = ''Failed'' then JobFailedConclusion
      else inspect_conditions cs)"

definition InspectJob :: "Job option \<Rightarrow> JobConclusion" where
  "InspectJob job = (case job of None \<Rightarrow> JobStillRunning | Some j \<Rightarrow> inspect_conditions (j_Conditions j))"

section \<open>Infrastructure failures\<close>

definition ReasonImagePull :: string where "ReasonImagePull = ''ImagePullBackOff''"

definition ReasonContainerConfig :: string where "ReasonContainerConfig = ''CreateContainerConfigError''"

definition ReasonOOMKilled :: string where "ReasonOOMKilled = ''OOMKilled''"

definition ReasonUnschedulable :: string where "ReasonUnschedulable = ''Unschedulable''"

definition ReasonContentFetchFailed :: string where "ReasonContentFetchFailed = ''ContentFetchFailed''"

definition ReasonMissingResult :: string where "ReasonMissingResult = ''MissingResult''"

definition ReasonJobDeadline :: string where "ReasonJobDeadline = ''JobActiveDeadlineExceeded''"

record InfraFailure =
  if_Reason :: string
  if_Message :: string

definition DefaultUnschedulableTimeout :: duration where
  "DefaultUnschedulableTimeout = 5 * 60 * 1000000000"

definition find_unschedulable :: "time \<Rightarrow> duration \<Rightarrow> PodCondition list \<Rightarrow> PodCondition option" where
  "find_unschedulable now d cs = find (\<lambda>c. pc_Type c = ''PodScheduled'' \<and> pc_Status c = ''False'' \<and>
     pc_Reason c = ''Unschedulable'' \<and> d \<le> now - pc_LastTransitionTime c) cs"

fun waiting_failure :: "ContainerStatus list \<Rightarrow> InfraFailure option" where
  "waiting_failure [] = None"
| "waiting_failure (cs # css) =
     (case cst_Waiting (cs_State cs) of None \<Rightarrow> waiting_failure css
      | Some w \<Rightarrow>
          let r = wt_Reason w
          in if r = ReasonImagePull \<or> r = ''ErrImagePull''
             then Some \<lparr>if_Reason = ReasonImagePull, if_Message = ''infra: '' @ r @ '' '' @ cs_Image cs\<rparr>
             else if r = ReasonContainerConfig
             then Some \<lparr>if_Reason = ReasonContainerConfig,
               if_Message = ''infra: container '' @ cs_Name cs @ '' can'' @ [CHR 0x27] @ ''t start: '' @ wt_Message w\<rparr>
             else waiting_failure css)"

definition oom_state :: "ContainerState \<Rightarrow> bool" where
  "oom_state s = (case cst_Terminated s of None \<Rightarrow> False | Some t \<Rightarrow> tm_Reason t = ReasonOOMKilled)"

definition em_dash :: string where "em_dash = [CHR 0xE2, CHR 0x80, CHR 0x94]"

fun fetch_failure :: "ContainerStatus list \<Rightarrow> InfraFailure option" where
  "fetch_failure [] = None"
| "fetch_failure (cs # css) =
     (case cst_Terminated (cs_State cs) of None \<Rightarrow> fetch_failure css
      | Some t \<Rightarrow>
          if tm_ExitCode t = 0 then fetch_failure css
          else Some \<lparr>if_Reason = ReasonContentFetchFailed, if_Message =
            (if tm_Message t = []
             then ''init container '' @ [CHR 0x22] @ cs_Name cs @ [CHR 0x22] @ '' exited with code '' @ itoa (tm_ExitCode t)
             else tm_Message t)\<rparr>)"

definition AnalyzePod :: "Pod option \<Rightarrow> time \<Rightarrow> duration \<Rightarrow> InfraFailure option" where
  "AnalyzePod pod now unschedulableFor = (case pod of None \<Rightarrow> None
     | Some p \<Rightarrow>
       (case find_unschedulable now unschedulableFor (pd_Conditions p) of
          Some c \<Rightarrow> Some \<lparr>if_Reason = ReasonUnschedulable,
            if_Message = ''infra: pod unschedulable for '' @ dur_string unschedulableFor @ '': '' @ pc_Message c\<rparr>
        | None \<Rightarrow>
          (let all = pd_InitContainerStatuses p @ pd_ContainerStatuses p
           in case waiting_failure all of Some f \<Rightarrow> Some f
            | None \<Rightarrow>
                if list_ex (\<lambda>cs. oom_state (cs_State cs) \<or> oom_state (cs_LastTerminationState cs)) all
                then Some \<lparr>if_Reason = ReasonOOMKilled,
                  if_Message = ''OOMKilled '' @ em_dash @ '' raise spec.container.resources''\<rparr>
                else fetch_failure (pd_InitContainerStatuses p))))"

definition IsPodRunning :: "Pod option \<Rightarrow> bool" where
  "IsPodRunning pod = (case pod of None \<Rightarrow> False | Some p \<Rightarrow> pd_Phase p = ''Running'')"

section \<open>Results\<close>

datatype float64 = Float64 string

record AttemptResult =
  at_Phase :: string
  at_ErrorMessage :: string

record ExecutionResult =
  er_Phase :: string
  er_ErrorMessage :: string
  er_Metrics :: "(string, float64) gomap"
  er_TestCounts :: "TestCounts option"
  er_Content :: "ContentStatus option"
  er_Artifacts :: "ArtifactRef list"
  er_Attempts :: "AttemptResult list"
  er_ToolFinishedAt :: "time option"
  er_TestCases :: "opaque list"

record RunResult =
  rr_Phase :: Phase
  rr_ErrorMessage :: string
  rr_Metrics :: "(string, float64) gomap"
  rr_TestCounts :: "TestCounts option"
  rr_Content :: "ContentStatus option"
  rr_Attempts :: "AttemptResult list"
  rr_Artifacts :: "ArtifactRef list"
  rr_ToolFinishedAt :: "time option"
  rr_TestCases :: "opaque list"

type_synonym unmarshal = "string \<Rightarrow> ExecutionResult option"

definition projectRunResult :: "ExecutionResult \<Rightarrow> RunResult" where
  "projectRunResult er = \<lparr>rr_Phase = phase_of_string (er_Phase er), rr_ErrorMessage = er_ErrorMessage er,
     rr_Metrics = er_Metrics er, rr_TestCounts = er_TestCounts er, rr_Content = er_Content er,
     rr_Attempts = er_Attempts er, rr_Artifacts = er_Artifacts er,
     rr_ToolFinishedAt = er_ToolFinishedAt er, rr_TestCases = er_TestCases er\<rparr>"

datatype read_error = ErrResultNotFound | ErrResultMalformed string | ReadFailed string

text \<open>
  \<open>readKeys\<close>: the object's bytes, \<open>Inl None\<close> when the store has no such object, \<open>Inl (Some e)\<close> for
  any other failure.
\<close>

definition readKeys ::
  "unmarshal \<Rightarrow> string \<Rightarrow> (string option, string) result \<Rightarrow> (read_error, RunResult) result" where
  "readKeys unm key object = (case object of
       Inl None \<Rightarrow> Inl ErrResultNotFound
     | Inl (Some e) \<Rightarrow> Inl (ReadFailed e)
     | Inr b \<Rightarrow> (case unm b of None \<Rightarrow> Inl (ErrResultMalformed key)
         | Some er \<Rightarrow> let rr = projectRunResult er
             in if \<not> IsTerminalPhase (rr_Phase rr) then Inl (ErrResultMalformed key) else Inr rr))"

definition ParseTerminationSummary :: "unmarshal \<Rightarrow> string \<Rightarrow> ExecutionResult option" where
  "ParseTerminationSummary unm m =
     (let msg = trim_space m
      in if \<not> has_prefix ''{'' msg then None
         else case unm msg of None \<Rightarrow> None
           | Some r \<Rightarrow> if er_Phase r \<in> {''passed'', ''failed'', ''error'', ''aborted''} then Some r else None)"

definition ContainerWrapper :: string where "ContainerWrapper = ''wrapper''"

definition ContainerContentFetcher :: string where "ContainerContentFetcher = ''content-fetcher''"

definition containerStatus :: "ContainerStatus list \<Rightarrow> string \<Rightarrow> ContainerStatus option" where
  "containerStatus l name = find (\<lambda>cs. cs_Name cs = name) l"

definition wrapperTerminated :: "Pod option \<Rightarrow> ContainerTerminated option" where
  "wrapperTerminated pod = (case pod of None \<Rightarrow> None
     | Some p \<Rightarrow> (case containerStatus (pd_ContainerStatuses p) ContainerWrapper of None \<Rightarrow> None
         | Some cs \<Rightarrow> if cst_Terminated (cs_State cs) \<noteq> None then cst_Terminated (cs_State cs)
             else cst_Terminated (cs_LastTerminationState cs)))"

definition ResultFromTermination :: "unmarshal \<Rightarrow> Pod option \<Rightarrow> RunResult option" where
  "ResultFromTermination unm pod = (case wrapperTerminated pod of None \<Rightarrow> None
     | Some t \<Rightarrow> map_option projectRunResult (ParseTerminationSummary unm (tm_Message t)))"

definition FallbackPhaseFromJobFailure :: "Job option \<Rightarrow> Pod option \<Rightarrow> Phase \<times> string \<times> string" where
  "FallbackPhaseFromJobFailure job pod =
     (let message = (case wrapperTerminated pod of
            None \<Rightarrow> ''wrapper produced no result; container likely crashed or was SIGKILL'' @ [CHR 0x27] @ ''d''
          | Some t \<Rightarrow> ''wrapper produced no result; container exited with code '' @ itoa (tm_ExitCode t) @
              (if tm_Reason t \<noteq> [] then '' ('' @ tm_Reason t @ '')'' else []));
          deadline = (case job of None \<Rightarrow> False
            | Some j \<Rightarrow> list_ex (\<lambda>c. jc_Status c = ''True'' \<and> jc_Type c = ''Failed'' \<and>
                jc_Reason c = ''DeadlineExceeded'') (j_Conditions j))
      in if deadline then (PhaseError, ReasonJobDeadline,
           ''Job exceeded activeDeadlineSeconds; wrapper should have flushed within its own timeout'')
         else (PhaseError, ReasonMissingResult, message))"

definition AttemptStepKey :: "nat \<Rightarrow> string" where
  "AttemptStepKey n = ''attempt-'' @ utoa n"

fun project_attempts ::
  "nat \<Rightarrow> AttemptResult list \<Rightarrow> (string, StepResult) gomap \<Rightarrow> (string, StepResult) gomap" where
  "project_attempts i [] steps = steps"
| "project_attempts i (a # as) steps = project_attempts (Suc i) as
     (gm_set (AttemptStepKey (i + 1)) (zero_StepResult\<lparr>
        sr_Phase := StepPhaseFromPhase (phase_of_string (at_Phase a)), sr_Message := at_ErrorMessage a\<rparr>) steps)"

definition applyRunResultToStatus :: "TestRun \<Rightarrow> RunResult option \<Rightarrow> TestRun" where
  "applyRunResultToStatus run result = (case result of None \<Rightarrow> run
     | Some r \<Rightarrow> run\<lparr>r_Status := (r_Status run)\<lparr>
         ru_Metrics := (if rr_Metrics r \<noteq> [] then map (\<lambda>(k, v). (k, case v of Float64 s \<Rightarrow> s)) (rr_Metrics r)
                        else ru_Metrics (r_Status run)),
         ru_TestCounts := (if rr_TestCounts r \<noteq> None then rr_TestCounts r else ru_TestCounts (r_Status run)),
         ru_Content := (if rr_Content r \<noteq> None then rr_Content r else ru_Content (r_Status run)),
         ru_ArtifactRefs := (if rr_Artifacts r \<noteq> [] then rr_Artifacts r else ru_ArtifactRefs (r_Status run)),
         ru_Steps := project_attempts 0 (rr_Attempts r) (ru_Steps (r_Status run))\<rparr>\<rparr>)"

section \<open>Lemmas\<close>

lemma IsTerminalPhase_iff:
  "IsTerminalPhase p \<longleftrightarrow> p \<in> {PhasePassed, PhaseFailed, PhaseError, PhaseAborted}"
  by (cases p) (simp_all add: IsTerminalPhase_def)

lemma phase_string_inject: "phase_string p = phase_string q \<Longrightarrow> p = q"
  by (cases p; cases q) simp_all

lemma phase_of_phase_string [simp]: "phase_of_string (phase_string p) = p"
  by (cases p) (simp_all add: phase_of_string_def)

lemma fetch_failure_reason: "fetch_failure css = Some f \<Longrightarrow> if_Reason f = ReasonContentFetchFailed"
  by (induction css) (auto split: option.splits if_splits)

lemma waiting_failure_reason:
  "waiting_failure css = Some f \<Longrightarrow> if_Reason f \<in> {ReasonImagePull, ReasonContainerConfig}"
  by (induction css) (auto simp: Let_def split: option.splits if_splits)

end
