(* ===== verification/Concurrency.thy ===== *)
theory Concurrency
  imports PodStatus "HOL-Library.Char_ord" "HOL-Library.List_Lexorder"
begin

text \<open>
  Concurrency policies, \<open>src/internal/controller/concurrency.go\<close>: whether a new run of a Test may
  start while others are active, and the message of a waiting run (\<open>stages.go\<close>). A nil \<open>self\<close> is
  \<open>None\<close>. Names are compared as Go compares strings, bytewise.
\<close>

datatype ConcurrencyAction = ConcurrencyProceed | ConcurrencyWait | ConcurrencyReplacePrior

definition PolicyForbid :: string where "PolicyForbid = ''Forbid''"

definition PolicyReplace :: string where "PolicyReplace = ''Replace''"

definition is_self :: "TestRun \<Rightarrow> TestRun option \<Rightarrow> bool" where
  "is_self p self = (case self of None \<Rightarrow> False | Some s \<Rightarrow> r_UID p = r_UID s)"

abbreviation run_phase :: "TestRun \<Rightarrow> Phase" where
  "run_phase r \<equiv> ru_Phase (r_Status r)"

definition activePriorCount :: "TestRun list \<Rightarrow> TestRun option \<Rightarrow> nat" where
  "activePriorCount prior self =
     length (filter (\<lambda>p. \<not> is_self p self \<and> \<not> IsTerminalPhase (run_phase p)) prior)"

definition queuedBefore :: "TestRun \<Rightarrow> TestRun \<Rightarrow> bool" where
  "queuedBefore a b =
     (if r_CreationTimestamp a \<noteq> r_CreationTimestamp b
      then r_CreationTimestamp a < r_CreationTimestamp b else r_Name a < r_Name b)"

definition forbidBlocks :: "TestRun \<Rightarrow> TestRun option \<Rightarrow> bool" where
  "forbidBlocks p self =
     (if IsTerminalPhase (run_phase p) \<or> is_self p self then False
      else ru_ResolvedSpec (r_Status p) \<noteq> NoSnapshot \<or>
        (case self of None \<Rightarrow> True | Some s \<Rightarrow> queuedBefore p s))"

definition DecideConcurrency :: "TestRun list \<Rightarrow> TestRun option \<Rightarrow> string \<Rightarrow> ConcurrencyAction" where
  "DecideConcurrency prior self policy =
     (if policy = PolicyForbid then
        (if list_ex (\<lambda>p. forbidBlocks p self) prior then ConcurrencyWait else ConcurrencyProceed)
      else if activePriorCount prior self = 0 then ConcurrencyProceed
      else if policy = PolicyReplace then ConcurrencyReplacePrior
      else ConcurrencyProceed)"

definition SelectPriorsToAbort :: "TestRun list \<Rightarrow> TestRun option \<Rightarrow> TestRun list" where
  "SelectPriorsToAbort prior self =
     filter (\<lambda>p. \<not> is_self p self \<and> \<not> IsTerminalPhase (run_phase p)) prior"

definition activePriorNames :: "TestRun list \<Rightarrow> TestRun \<Rightarrow> string list" where
  "activePriorNames prior self =
     sort (map r_Name (filter (\<lambda>p. r_UID p \<noteq> r_UID self \<and> \<not> IsTerminalPhase (run_phase p)) prior))"

definition forbidMessage :: "string list \<Rightarrow> string" where
  "forbidMessage names =
     (if names = [] then ''waiting: a previous run of this Test is still going (concurrencyPolicy: Forbid)''
      else if 3 < length names then
        ''waiting for '' @ join '', '' (take 3 names) @ '' and '' @ utoa (length names - 3) @
        '' more to finish (concurrencyPolicy: Forbid)''
      else ''waiting for '' @ join '', '' names @ '' to finish (concurrencyPolicy: Forbid)'')"

section \<open>Lemmas\<close>

text \<open>Waiting runs: not ended, not set up yet. Started runs: not ended, set up.\<close>

definition waiting :: "TestRun \<Rightarrow> bool" where
  "waiting r \<longleftrightarrow> \<not> IsTerminalPhase (run_phase r) \<and> ru_ResolvedSpec (r_Status r) = NoSnapshot"

definition started :: "TestRun \<Rightarrow> bool" where
  "started r \<longleftrightarrow> \<not> IsTerminalPhase (run_phase r) \<and> ru_ResolvedSpec (r_Status r) \<noteq> NoSnapshot"

text \<open>The runs of one Test in one namespace: names and UIDs are unique.\<close>

definition one_namespace :: "TestRun list \<Rightarrow> bool" where
  "one_namespace rs \<longleftrightarrow> (\<forall>a \<in> set rs. \<forall>b \<in> set rs. (r_UID a = r_UID b \<longrightarrow> a = b) \<and> (r_Name a = r_Name b \<longrightarrow> a = b))"

lemma queuedBefore_asym: "queuedBefore a b \<Longrightarrow> \<not> queuedBefore b a"
  by (auto simp: queuedBefore_def split: if_splits)

lemma queuedBefore_trans: "queuedBefore a b \<Longrightarrow> queuedBefore b c \<Longrightarrow> queuedBefore a c"
  by (auto simp: queuedBefore_def split: if_splits)

lemma queuedBefore_total: "r_Name a \<noteq> r_Name b \<Longrightarrow> queuedBefore a b \<or> queuedBefore b a"
  by (auto simp: queuedBefore_def)

lemma oldest_exists:
  "rs \<noteq> [] \<Longrightarrow> \<exists>r \<in> set rs. \<forall>p \<in> set rs. \<not> queuedBefore p r"
proof (induction rs)
  case (Cons a rs)
  show ?case
  proof (cases "rs = []")
    case True
    then show ?thesis using queuedBefore_asym [of a a] by auto
  next
    case False
    with Cons.IH obtain r where r: "r \<in> set rs" "\<forall>p \<in> set rs. \<not> queuedBefore p r" by blast
    show ?thesis
    proof (cases "queuedBefore a r")
      case True
      then have "\<forall>p \<in> set (a # rs). \<not> queuedBefore p a"
        using r(2) queuedBefore_trans [OF _ True] queuedBefore_asym [of a a] by auto
      then show ?thesis by auto
    qed (use r in auto)
  qed
qed simp

lemma proceed_forbid:
  "DecideConcurrency rs (Some r) PolicyForbid = ConcurrencyProceed \<longleftrightarrow> (\<forall>p \<in> set rs. \<not> forbidBlocks p (Some r))"
  by (auto simp: DecideConcurrency_def list_ex_iff)

section \<open>Properties\<close>


text \<open>
  Forbid excludes: a run told to proceed sees no other run of the Test that is under way
  and no older one that waits; and of two waiting runs at most one is told to proceed.
\<close>

theorem forbid_exclusive:
  assumes "one_namespace rs" "a \<in> set rs" "b \<in> set rs" "a \<noteq> b" "waiting a"
    and "DecideConcurrency rs (Some a) PolicyForbid = ConcurrencyProceed"
  shows "\<not> started b \<and> (waiting b \<longrightarrow> queuedBefore a b \<and>
    DecideConcurrency rs (Some b) PolicyForbid = ConcurrencyWait)"
proof -
  have u: "r_UID b \<noteq> r_UID a" "r_Name a \<noteq> r_Name b" "r_UID a \<noteq> r_UID b"
    using assms(1-4) unfolding one_namespace_def by metis+
  have nb: "\<not> forbidBlocks b (Some a)" using assms(3,6) by (auto simp: proceed_forbid)
  then have ns: "\<not> started b" "waiting b \<longrightarrow> \<not> queuedBefore b a"
    using u by (auto simp: forbidBlocks_def is_self_def started_def waiting_def split: if_splits)
  moreover have "DecideConcurrency rs (Some b) PolicyForbid = ConcurrencyWait" if "waiting b" "queuedBefore a b"
  proof -
    have "forbidBlocks a (Some b)" using that assms(5) u by (simp add: forbidBlocks_def is_self_def waiting_def)
    then show ?thesis using assms(2) by (auto simp: DecideConcurrency_def list_ex_iff)
  qed
  ultimately show ?thesis using queuedBefore_total [OF u(2)] by blast
qed

text \<open>
  The waiting message overstates: \<open>activePriorNames\<close> ("the runs a Forbid run waits for") lists
  every other active run, also a younger waiting one, which does not block it.
\<close>

theorem waiting_message_lists_younger:
  assumes "p \<in> set prior" "waiting p" "queuedBefore self p" "r_UID p \<noteq> r_UID self"
  shows "r_Name p \<in> set (activePriorNames prior self) \<and> \<not> forbidBlocks p (Some self)"
  using assms queuedBefore_asym [OF assms(3)]
  by (auto simp: activePriorNames_def forbidBlocks_def waiting_def is_self_def)

text \<open>
  Replace: the new run proceeds at once when nothing else is active, otherwise exactly the
  other active runs are selected for abort, itself never.
\<close>

theorem replace_selects_active:
  "(DecideConcurrency prior self PolicyReplace = ConcurrencyProceed \<longleftrightarrow> SelectPriorsToAbort prior self = []) \<and>
   (DecideConcurrency prior self PolicyReplace \<noteq> ConcurrencyProceed \<longleftrightarrow>
      DecideConcurrency prior self PolicyReplace = ConcurrencyReplacePrior) \<and>
   set (SelectPriorsToAbort prior self) = {p \<in> set prior. \<not> is_self p self \<and> \<not> IsTerminalPhase (run_phase p)}"
  by (auto simp: DecideConcurrency_def SelectPriorsToAbort_def activePriorCount_def PolicyReplace_def PolicyForbid_def)

definition queued_run :: "string \<Rightarrow> time \<Rightarrow> TestRun" where
  "queued_run name t = \<lparr>r_Name = name, r_Namespace = ''n'', r_UID = name, r_Labels = [],
     r_CreationTimestamp = t, r_DeletionTimestamp = None, r_Finalizers = [],
     r_Spec = \<lparr>rs_TestRef = ''t'', rs_Config = [], rs_Pod = None, rs_Tags = [], rs_Source = ''api'',
       rs_Abort = None, rs_NotBefore = None\<rparr>, r_Status = zero_TestRunStatus\<lparr>ru_Phase := PhaseQueued\<rparr>\<rparr>"

lemma queued_run_simps:
  "waiting (queued_run n t)" "\<not> started (queued_run n t)" "r_UID (queued_run n t) = n" "r_Name (queued_run n t) = n"
  "r_CreationTimestamp (queued_run n t) = t" "queued_run n t = queued_run m u \<longleftrightarrow> n = m \<and> t = u"
  by (auto simp: queued_run_def waiting_def started_def zero_TestRunStatus_def IsTerminalPhase_def)


theorem forbid_exclusive_witness:
  "DecideConcurrency [queued_run ''a'' 2, queued_run ''b'' 1] (Some (queued_run ''a'' 2)) PolicyForbid = ConcurrencyWait"
proof -
  have "DecideConcurrency [queued_run ''a'' 2, queued_run ''b'' 1] (Some (queued_run ''b'' 1)) PolicyForbid = ConcurrencyProceed"
    by (simp add: proceed_forbid forbidBlocks_def is_self_def queued_run_simps queuedBefore_def)
      (simp add: queued_run_def zero_TestRunStatus_def)
  then show ?thesis
    using forbid_exclusive [of "[queued_run ''a'' 2, queued_run ''b'' 1]" "queued_run ''b'' 1" "queued_run ''a'' 2"]
    by (simp add: one_namespace_def queued_run_simps)
qed

theorem waiting_message_lists_younger_witness:
  "''b'' \<in> set (activePriorNames [queued_run ''b'' 2] (queued_run ''a'' 1)) \<and>
   \<not> forbidBlocks (queued_run ''b'' 2) (Some (queued_run ''a'' 1))"
  using waiting_message_lists_younger [of "queued_run ''b'' 2" "[queued_run ''b'' 2]" "queued_run ''a'' 1"]
  by (simp add: queued_run_simps queuedBefore_def)

end
