(* ===== verification/Stages.thy ===== *)
theory Stages
  imports PodStatus
begin

text \<open>
  A leaf run's course, \<open>src/internal/controller/stages.go\<close>: the stages derived from the pod and the
  result, and how they are closed when the run ends.
\<close>

record stageInputs =
  si_queuedAt :: "time option"
  si_pod :: "Pod option"
  si_fetchName :: string
  si_tool :: string
  si_toolFinishedAt :: "time option"
  si_toolPhase :: Phase

definition stageQueuedName :: string where "stageQueuedName = ''Queued''"

definition fetchNameOf :: "TestRun \<Rightarrow> string" where
  "fetchNameOf run = (case ru_ResolvedSpec (r_Status run) of
     Snapshot spec \<Rightarrow>
       (let c = ts_Content spec
        in if cn_Git c \<noteq> None then ''Clone git repository''
           else if cn_Tarball c \<noteq> [] then ''Fetch tarball''
           else if cn_Files c \<noteq> [] then ''Write files''
           else if cn_TestData c \<noteq> [] then ''Mount test data''
           else [])
   | _ \<Rightarrow> [])"

definition LabelKubetestTool :: string where "LabelKubetestTool = ''kubetest.io/tool''"

definition toolOf :: "Pod option \<Rightarrow> string" where
  "toolOf pod = (case pod of None \<Rightarrow> []
     | Some p \<Rightarrow> (let t = gm_at [] (pd_Labels p) LabelKubetestTool
         in if t \<noteq> [] then t
            else case find (\<lambda>(n, _). n = ContainerWrapper) (pd_Containers p) of
              None \<Rightarrow> [] | Some (_, img) \<Rightarrow> img))"

definition startEnd :: "ContainerStatus option \<Rightarrow> time option \<times> time option \<times> int \<times> string" where
  "startEnd c = (case c of None \<Rightarrow> (None, None, 0, [])
     | Some cs \<Rightarrow> (case cst_Running (cs_State cs) of
           Some t \<Rightarrow> (Some t, None, 0, [])
         | None \<Rightarrow> (case cst_Terminated (cs_State cs) of
             Some t \<Rightarrow> (Some (tm_StartedAt t), Some (tm_FinishedAt t), tm_ExitCode t, tm_Message t)
           | None \<Rightarrow> (None, None, 0, []))))"

definition stage :: "StageKind \<Rightarrow> string \<Rightarrow> time option \<Rightarrow> time option \<Rightarrow> Stage" where
  "stage kind name start stop = \<lparr>sg_Kind = kind, sg_Name = name,
     sg_Phase = (if stop \<noteq> None then StepPhasePassed else if start \<noteq> None then StepPhaseRunning
                 else StepPhaseQueued),
     sg_StartedAt = start, sg_FinishedAt = stop, sg_Message = []\<rparr>"

definition deriveStages :: "stageInputs \<Rightarrow> Stage list" where
  "deriveStages i =
     (let (fetchStart, fetchEnd, fetchExit, fetchMsg) = (case si_pod i of None \<Rightarrow> (None, None, 0, [])
            | Some p \<Rightarrow> startEnd (containerStatus (pd_InitContainerStatuses p) ContainerContentFetcher));
          (runStart, runEnd, _, _) = (case si_pod i of None \<Rightarrow> (None, None, 0, [])
            | Some p \<Rightarrow> startEnd (containerStatus (pd_ContainerStatuses p) ContainerWrapper));
          queueEnd = (if si_fetchName i \<noteq> [] \<and> fetchStart \<noteq> None then fetchStart else runStart);
          f = stage StageFetch (si_fetchName i) fetchStart fetchEnd;
          f' = (if fetchEnd \<noteq> None \<and> fetchExit \<noteq> 0
                then f\<lparr>sg_Phase := StepPhaseError, sg_Message := fetchMsg\<rparr> else f);
          name = (if si_tool i \<noteq> [] then ''Run '' @ si_tool i else ''Run test'');
          toolEnd = (if si_toolFinishedAt i = None then runEnd else si_toolFinishedAt i);
          r = stage StageRun name runStart toolEnd;
          r' = (if toolEnd \<noteq> None \<and> si_toolPhase i \<noteq> PhaseNone
                then r\<lparr>sg_Phase := StepPhaseFromPhase (si_toolPhase i)\<rparr> else r);
          collectStart = (if si_toolFinishedAt i \<noteq> None then si_toolFinishedAt i else runEnd)
      in [stage StageQueue stageQueuedName (si_queuedAt i) queueEnd] @
         (if si_fetchName i \<noteq> [] then [f'] else []) @
         [r', stage StageCollect ''Collect results'' collectStart runEnd])"

definition open_stage :: "Stage \<Rightarrow> bool" where
  "open_stage s \<longleftrightarrow> sg_Phase s = StepPhaseQueued \<or> sg_Phase s = StepPhaseRunning"

definition close_stage :: "Phase \<Rightarrow> string \<Rightarrow> time \<Rightarrow> Stage \<Rightarrow> Stage" where
  "close_stage phase message now s =
     (let s1 = (if phase = PhasePassed then s\<lparr>sg_Phase := StepPhasePassed\<rparr>
                else s\<lparr>sg_Phase := StepPhaseFromPhase phase, sg_Message := message\<rparr>)
      in s1\<lparr>sg_StartedAt := (if sg_StartedAt s = None then Some now else sg_StartedAt s),
            sg_FinishedAt := (if sg_FinishedAt s = None then Some now else sg_FinishedAt s)\<rparr>)"

fun finish_loop :: "Phase \<Rightarrow> string \<Rightarrow> time \<Rightarrow> bool \<Rightarrow> Stage list \<Rightarrow> Stage list" where
  "finish_loop phase message now stopped [] = []"
| "finish_loop phase message now stopped (s # ss) =
     (if stopped then
        (if open_stage s then s\<lparr>sg_Phase := StepPhaseSkipped\<rparr> else s) # finish_loop phase message now True ss
      else if open_stage s then
        close_stage phase message now s # finish_loop phase message now (phase \<noteq> PhasePassed) ss
      else if sg_Kind s = StageFetch \<and> sg_Phase s \<noteq> StepPhasePassed then
        s # finish_loop phase message now True ss
      else if sg_Kind s = StageRun \<and> sg_Phase s \<noteq> StepPhasePassed \<and> sg_Message s = [] then
        s\<lparr>sg_Message := message\<rparr> # finish_loop phase message now False ss
      else s # finish_loop phase message now False ss)"

definition finishStages :: "Stage list \<Rightarrow> Phase \<Rightarrow> string \<Rightarrow> time \<Rightarrow> Stage list" where
  "finishStages stages phase message now = finish_loop phase message now False stages"

definition stagesNow :: "TestRun \<Rightarrow> Pod option \<Rightarrow> RunResult option \<Rightarrow> Stage list" where
  "stagesNow run pod res = deriveStages \<lparr>
     si_queuedAt = (case ru_QueuedAt (r_Status run) of None \<Rightarrow> Some (r_CreationTimestamp run) | Some t \<Rightarrow> Some t),
     si_pod = pod, si_fetchName = fetchNameOf run, si_tool = toolOf pod,
     si_toolFinishedAt = (case res of None \<Rightarrow> None | Some r \<Rightarrow> rr_ToolFinishedAt r),
     si_toolPhase = (case res of None \<Rightarrow> PhaseNone | Some r \<Rightarrow> rr_Phase r)\<rparr>"

definition tailerID :: "TestRun \<Rightarrow> string" where
  "tailerID run = r_Namespace run @ ''/'' @ r_Name run"

definition fetchTailerID :: "TestRun \<Rightarrow> string" where
  "fetchTailerID run = tailerID run @ ''/fetch''"

definition waitingStages :: "time option \<Rightarrow> string \<Rightarrow> Stage list" where
  "waitingStages queuedAt why = [\<lparr>sg_Kind = StageQueue, sg_Name = stageQueuedName,
     sg_Phase = StepPhaseRunning, sg_StartedAt = queuedAt, sg_FinishedAt = None, sg_Message = why\<rparr>]"

section \<open>Lemmas\<close>

lemma close_stage_closed: "IsTerminalPhase phase \<Longrightarrow> \<not> open_stage (close_stage phase m now s)"
  by (cases phase) (simp_all add: close_stage_def open_stage_def IsTerminalPhase_def Let_def)

lemma close_stage_kind [simp]: "sg_Kind (close_stage phase m now s) = sg_Kind s"
  by (simp add: close_stage_def Let_def)

lemma open_stage_update [simp]:
  "open_stage (s\<lparr>sg_Message := m\<rparr>) = open_stage s" "\<not> open_stage (s\<lparr>sg_Phase := StepPhaseSkipped\<rparr>)"
  by (simp_all add: open_stage_def)

lemma finish_loop_closed:
  "IsTerminalPhase phase \<Longrightarrow> \<forall>s \<in> set (finish_loop phase m now st ss). \<not> open_stage s"
  by (induction ss arbitrary: st) (simp_all add: close_stage_closed)

lemma finish_loop_kinds: "map sg_Kind (finish_loop phase m now st ss) = map sg_Kind ss"
  by (induction phase m now st ss rule: finish_loop.induct) auto

lemma finish_loop_stopped:
  "finish_loop phase m now True ss = map (\<lambda>s. if open_stage s then s\<lparr>sg_Phase := StepPhaseSkipped\<rparr> else s) ss"
  by (induction ss) simp_all

lemma finish_loop_passed:
  "\<forall>s \<in> set ss. open_stage s \<or> sg_Phase s = StepPhasePassed \<Longrightarrow>
   \<forall>s \<in> set (finish_loop PhasePassed m now False ss). sg_Phase s = StepPhasePassed"
proof (induction ss)
  case (Cons s ss)
  show ?case
  proof (cases "open_stage s")
    case True
    with Cons show ?thesis by (simp add: close_stage_def Let_def)
  qed (use Cons in simp)
qed simp

section \<open>Properties\<close>

text \<open>
  The course of a run: whatever the pod looks like, the derived stages are queue, fetch
  (exactly when there is content), run, collect, in this order.
\<close>

theorem deriveStages_layout:
  "map sg_Kind (deriveStages i) =
     StageQueue # (if si_fetchName i = [] then [] else [StageFetch]) @ [StageRun, StageCollect]"
  by (simp add: deriveStages_def stage_def split_beta Let_def)

text \<open>
  Ending a run closes its course: no stage is left queued or running, the stages keep
  their kinds and order; the first open stage takes the run's verdict and the stages after it are
  skipped unless the run passed, and a passed run whose closed stages passed shows only
  passed stages.
\<close>

theorem finishStages_closes:
  assumes "IsTerminalPhase phase"
  shows "(\<forall>s \<in> set (finishStages ss phase m now). \<not> open_stage s) \<and>
    map sg_Kind (finishStages ss phase m now) = map sg_Kind ss \<and>
    (phase = PhasePassed \<and> (\<forall>s \<in> set ss. open_stage s \<or> sg_Phase s = StepPhasePassed) \<longrightarrow>
      (\<forall>s \<in> set (finishStages ss phase m now). sg_Phase s = StepPhasePassed)) \<and>
    (\<forall>s rest. ss = s # rest \<and> open_stage s \<and> phase \<noteq> PhasePassed \<longrightarrow>
      finishStages ss phase m now = close_stage phase m now s #
        map (\<lambda>u. if open_stage u then u\<lparr>sg_Phase := StepPhaseSkipped\<rparr> else u) rest)"
  unfolding finishStages_def
  using finish_loop_closed [OF assms] finish_loop_kinds finish_loop_passed
  by (auto simp: finish_loop_stopped)

theorem finishStages_closes_witness:
  "finishStages (waitingStages (Some 1) ''w'') PhaseAborted ''stop'' 5 =
     [close_stage PhaseAborted ''stop'' 5 (hd (waitingStages (Some 1) ''w''))]"
  using finishStages_closes [of PhaseAborted "waitingStages (Some 1) ''w''" "''stop''" 5]
  by (simp add: IsTerminalPhase_def waitingStages_def open_stage_def)

end
