(* ===== verification/Workers.thy ===== *)
theory Workers
  imports Resolver PodMerge
begin

text \<open>
  The workers of a \<open>spec.parallel\<close> Test, \<open>src/internal/compiler/parallel.go\<close>: the expansion of the
  matrix and the shards, a worker's Job name, and the pass that fills the worker references the
  resolver deferred. The Job builder \<open>compile\<close> (\<open>compiler.go\<close>) is a parameter of \<open>CompileWorker\<close>,
  applied to the spec with the references filled in, the Job's name, labels and extra environment.
\<close>

section \<open>Expansion\<close>

definition LabelWorker :: string where "LabelWorker = ''kubetest.io/worker''"

text \<open>One level of the matrix: every combination so far with every value of the key.\<close>

definition add_axis ::
  "string \<Rightarrow> string list \<Rightarrow> (string, string) gomap list \<Rightarrow> (string, string) gomap list" where
  "add_axis key values combos = concat (map (\<lambda>c. map (\<lambda>v. gm_set key v c) values) combos)"

definition matrix_combos :: "(string, string list) gomap \<Rightarrow> (string, string) gomap list" where
  "matrix_combos m = fold (\<lambda>key. add_axis key (gm_at [] m key)) (sort (map fst m)) [[]]"

definition per_combination :: "ParallelSpec \<Rightarrow> nat" where
  "per_combination p = (case pl_Count p of
       Some c \<Rightarrow> nat c
     | None \<Rightarrow>
         if pl_Shards p = [] then 1
         else let longest = fold max (map (\<lambda>(_, vs). length vs) (pl_Shards p)) 0;
                  capped = (case pl_MaxCount p of None \<Rightarrow> longest | Some m \<Rightarrow> min longest (nat m))
              in max capped 1)"

text \<open>\<open>values[j*len/per : (j+1)*len/per]\<close>\<close>

definition shard_slice :: "nat \<Rightarrow> nat \<Rightarrow> 'a list \<Rightarrow> 'a list" where
  "shard_slice per j values =
     (let lo = j * length values div per; hi = (j + 1) * length values div per
      in take (hi - lo) (drop lo values))"

definition ParallelWorkers :: "ParallelSpec option \<Rightarrow> WorkerVars list" where
  "ParallelWorkers ps = (case ps of None \<Rightarrow> []
     | Some p \<Rightarrow>
         (let combos = matrix_combos (pl_Matrix p); per = per_combination p; total = length combos * per;
              cells = concat (map (\<lambda>c. map (\<lambda>j. (c, j)) [0..<per]) combos)
          in map (\<lambda>(i, c, j). \<lparr>wv_Index = i, wv_Count = total, wv_Matrix = c,
                wv_Shard = map (\<lambda>(key, values). (key, join '','' (shard_slice per j values))) (pl_Shards p)\<rparr>)
               (enumerate 0 cells)))"

definition WorkerJobName :: "TestRun \<Rightarrow> nat \<Rightarrow> string" where
  "WorkerJobName run i = Bounded (r_Name run @ ''-w'' @ utoa i)"

section \<open>Filling in the worker references\<close>

definition substituteWorker :: "TestSpec \<Rightarrow> WorkerVars \<Rightarrow> TestSpec" where
  "substituteWorker spec w =
     (let sub = (\<lambda>s. SubstituteWorker s w); c = ts_Container spec
      in spec\<lparr>
        ts_Container := c\<lparr>ct_Command := map sub (ct_Command c), ct_Args := map sub (ct_Args c),
          ct_WorkingDir := sub (ct_WorkingDir c),
          ct_Env := map (\<lambda>e. e\<lparr>ev_Value := sub (ev_Value e)\<rparr>) (ct_Env c)\<rparr>,
        ts_Pod := map_option (\<lambda>p. p\<lparr>po_Labels := map (\<lambda>(k, v). (k, sub v)) (po_Labels p),
          po_Annotations := map (\<lambda>(k, v). (k, sub v)) (po_Annotations p)\<rparr>) (ts_Pod spec),
        ts_Artifacts := map_option (\<lambda>a. a\<lparr>as_Paths := map sub (as_Paths a)\<rparr>) (ts_Artifacts spec)\<rparr>)"

definition env_var :: "string \<Rightarrow> string \<Rightarrow> EnvVar" where
  "env_var n v = \<lparr>ev_Name = n, ev_Value = v, ev_ValueFrom = None\<rparr>"

definition worker_env :: "WorkerVars \<Rightarrow> EnvVar list" where
  "worker_env w =
     [env_var ''KUBETEST_WORKER_INDEX'' (utoa (wv_Index w)), env_var ''KUBETEST_WORKER_COUNT'' (utoa (wv_Count w))] @
     map (\<lambda>k. env_var (''KUBETEST_MATRIX_'' @ to_upper k) (gm_at [] (wv_Matrix w) k)) (sort (map fst (wv_Matrix w))) @
     map (\<lambda>k. env_var (''KUBETEST_SHARD_'' @ to_upper k) (gm_at [] (wv_Shard w) k)) (sort (map fst (wv_Shard w)))"

definition CompileWorker ::
  "(TestSpec \<Rightarrow> string \<Rightarrow> (string, string) gomap \<Rightarrow> EnvVar list \<Rightarrow> 'c) \<Rightarrow> TestSpec \<Rightarrow> TestRun \<Rightarrow> WorkerVars \<Rightarrow> 'c" where
  "CompileWorker compile spec run w =
     compile (substituteWorker spec w) (WorkerJobName run (wv_Index w))
       [(LabelWorker, utoa (wv_Index w))] (worker_env w)"

section \<open>Lemmas\<close>

lemma length_add_axis: "length (add_axis k vs cs) = length cs * length vs"
  by (simp add: add_axis_def length_concat comp_def sum_list_triv)

lemma length_matrix_combos:
  "length (matrix_combos m) = prod_list (map (\<lambda>k. length (gm_at [] m k)) (sort (map fst m)))"
proof -
  have "length (fold (\<lambda>key. add_axis key (gm_at [] m key)) ks cs) =
      length cs * prod_list (map (\<lambda>k. length (gm_at [] m k)) ks)" for ks cs
    by (induction ks arbitrary: cs) (simp_all add: length_add_axis)
  then show ?thesis by (simp add: matrix_combos_def)
qed

lemma slice_bounds:
  assumes "0 < per"
  shows "j * n div per \<le> (j + 1) * n div per" "per * n div per = n" "0 * n div per = (0::nat)"
  using assms by (simp_all add: div_le_mono)

lemma concat_slices:
  assumes "0 < per" "k \<le> per"
  shows "concat (map (\<lambda>j. shard_slice per j vs) [0..<k]) = take (k * length vs div per) vs"
  using assms(2)
proof (induction k)
  case (Suc k)
  let ?lo = "k * length vs div per" and ?hi = "Suc k * length vs div per"
  have le: "?lo \<le> ?hi" by (simp add: div_le_mono)
  have "take ?lo vs @ take (?hi - ?lo) (drop ?lo vs) = take ?hi vs"
    using take_add [of ?lo "?hi - ?lo" vs] le by simp
  with Suc show ?case by (simp add: shard_slice_def Let_def)
qed simp

lemma length_shard_slice:
  assumes "0 < per" "j < per"
  shows "length (shard_slice per j vs) = (j + 1) * length vs div per - j * length vs div per"
proof -
  have "(j + 1) * length vs div per \<le> per * length vs div per"
    using assms(2) by (intro div_le_mono mult_le_mono1) simp
  then show ?thesis using assms(1) by (simp add: shard_slice_def Let_def)
qed

lemma slice_size:
  assumes "0 < (per :: nat)"
  shows "(j + 1) * n div per - j * n div per \<in> {n div per, n div per + 1}"
proof -
  let ?a = "j * n"
  have "(?a + n) div per = ?a div per + n div per + (?a mod per + n mod per) div per"
    by (rule div_add1_eq)
  moreover have "(?a mod per + n mod per) div per \<le> 1"
  proof -
    have "?a mod per + n mod per < 2 * per" using mod_less_divisor [OF assms, of ?a] mod_less_divisor [OF assms, of n] by linarith
    then have "(?a mod per + n mod per) div per < 2" using assms by (simp add: less_mult_imp_div_less mult.commute)
    then show ?thesis by simp
  qed
  ultimately show ?thesis by (auto simp: algebra_simps)
qed

lemma per_combination_pos: "pl_Count p = None \<Longrightarrow> 0 < per_combination p"
  by (auto simp: per_combination_def Let_def)

lemma length_cells: "length (concat (map (\<lambda>c. map (\<lambda>j. (c, j)) [0..<per]) combos)) = length combos * per"
  by (simp add: length_concat comp_def sum_list_triv)

lemma nth_cells:
  "i < length cs * per \<Longrightarrow> concat (map (\<lambda>c. map (\<lambda>j. (c, j)) [0..<per]) cs) ! i = (cs ! (i div per), i mod per)"
proof (induction cs arbitrary: i)
  case (Cons c cs)
  have per: "0 < per" using Cons.prems by (cases per) auto
  show ?case
  proof (cases "i < per")
    case True
    then show ?thesis by (simp add: nth_append)
  next
    case False
    then have "(i - per) div per = i div per - 1" "(i - per) mod per = i mod per" "0 < i div per"
      using per by (simp_all add: le_div_geq le_mod_geq div_greater_zero_iff)
    moreover have "i - per < length cs * per" using Cons.prems False by simp
    ultimately show ?thesis using Cons.IH [of "i - per"] False per by (simp add: nth_append nth_Cons')
  qed
qed simp

section \<open>Properties\<close>

text \<open>
  The expansion is a proper numbering: worker \<open>i\<close> is at position \<open>i\<close>, every worker knows the
  total, the total is the number of matrix combinations times the workers per combination, the
  combinations come in blocks, and within a block the \<open>j\<close>-th worker holds the \<open>j\<close>-th slice of
  every shard list.
\<close>

theorem ParallelWorkers_numbering:
  "length (ParallelWorkers (Some p)) = length (matrix_combos (pl_Matrix p)) * per_combination p \<and>
   (\<forall>i < length (ParallelWorkers (Some p)).
      ParallelWorkers (Some p) ! i = \<lparr>wv_Index = i, wv_Count = length (ParallelWorkers (Some p)),
        wv_Matrix = matrix_combos (pl_Matrix p) ! (i div per_combination p),
        wv_Shard = map (\<lambda>(k, vs). (k, join '','' (shard_slice (per_combination p) (i mod per_combination p) vs)))
          (pl_Shards p)\<rparr>)"
  by (auto simp: ParallelWorkers_def Let_def length_cells nth_enumerate_eq nth_cells)

theorem ParallelWorkers_numbering_witness:
  "wv_Shard (ParallelWorkers (Some \<lparr>pl_Count = Some 2, pl_MaxCount = None, pl_Matrix = [],
     pl_Shards = [(''u'', [''a'', ''b'', ''c''])]\<rparr>) ! 1) = [(''u'', ''b,c'')]"
proof -
  let ?p = "\<lparr>pl_Count = Some 2, pl_MaxCount = None, pl_Matrix = [], pl_Shards = [(''u'', [''a'', ''b'', ''c''])]\<rparr>"
  have "length (ParallelWorkers (Some ?p)) = 2"
    using ParallelWorkers_numbering [of ?p] by (simp add: matrix_combos_def per_combination_def)
  moreover from this have "ParallelWorkers (Some ?p) ! 1 = \<lparr>wv_Index = 1, wv_Count = 2, wv_Matrix = [],
      wv_Shard = [(''u'', join '','' (shard_slice 2 1 [''a'', ''b'', ''c'']))]\<rparr>"
    using ParallelWorkers_numbering [of ?p] by (simp add: matrix_combos_def per_combination_def)
  ultimately show ?thesis by (simp add: shard_slice_def Let_def)
qed

text \<open>
  The shards of a combination partition the list: the slices of the workers \<open>0 .. per-1\<close>
  concatenate to the whole list, in order, and any two slices differ in length by at most one.
\<close>

theorem shards_partition:
  assumes "0 < per"
  shows "concat (map (\<lambda>j. shard_slice per j vs) [0..<per]) = vs \<and>
    (\<forall>j < per. length (shard_slice per j vs) \<in> {length vs div per, length vs div per + 1})"
proof
  show "concat (map (\<lambda>j. shard_slice per j vs) [0..<per]) = vs"
    using concat_slices [OF assms order.refl, of vs] assms by simp
  show "\<forall>j < per. length (shard_slice per j vs) \<in> {length vs div per, length vs div per + 1}"
    using length_shard_slice [OF assms, of _ vs] slice_size [OF assms, of _ "length vs"] by metis
qed

theorem shards_partition_witness:
  "concat (map (\<lambda>j. shard_slice 3 j ''abcdefgh'') [0..<3]) = ''abcdefgh''"
  using shards_partition [of 3 "''abcdefgh''"] by simp

text \<open>
  The second pass does not reach every field the first one templated: a resolved spec keeps
  the deferred reference in a service's command and in the artifacts' report path, whatever the
  worker is, although the resolver accepted and deferred it there.
\<close>

theorem substituteWorker_misses_fields:
  "ts_Services (substituteWorker spec w) = ts_Services spec \<and>
   (\<forall>a. ts_Artifacts spec = Some a \<longrightarrow>
     (\<exists>b. ts_Artifacts (substituteWorker spec w) = Some b \<and> as_Report b = as_Report a)) \<and>
   ct_Image (ts_Container (substituteWorker spec w)) = ct_Image (ts_Container spec)"
  by (auto simp: substituteWorker_def Let_def)

theorem substituteWorker_misses_fields_witness:
  "\<exists>b. ts_Artifacts (substituteWorker (zero_TestSpec\<lparr>ts_Artifacts := Some
       \<lparr>as_Paths = [], as_Compress = [], as_Report = ''r-{{ worker.index }}.html''\<rparr>\<rparr>)
       \<lparr>wv_Index = 0, wv_Count = 1, wv_Matrix = [], wv_Shard = []\<rparr>) = Some b \<and>
     as_Report b = ''r-{{ worker.index }}.html''"
  using substituteWorker_misses_fields [of "zero_TestSpec\<lparr>ts_Artifacts := Some
       \<lparr>as_Paths = [], as_Compress = [], as_Report = ''r-{{ worker.index }}.html''\<rparr>\<rparr>"
      "\<lparr>wv_Index = 0, wv_Count = 1, wv_Matrix = [], wv_Shard = []\<rparr>"] by simp

end
