(* ===== verification/ServiceObjects.thy ===== *)
theory ServiceObjects
  imports Workers PodStatus
begin

text \<open>
  What \<open>spec.services\<close> turns into, \<open>src/internal/compiler/services.go\<close>: one headless Service per
  entry and the replica Pods, \<open>Count\<close> copies of every matrix combination.
\<close>

definition LabelServiceOf :: string where "LabelServiceOf = ''kubetest.io/service-of''"

definition LabelService :: string where "LabelService = ''kubetest.io/service''"

definition LabelServiceIndex :: string where "LabelServiceIndex = ''kubetest.io/service-index''"

record HeadlessService =
  hs_Name :: string
  hs_Namespace :: string
  hs_Labels :: "(string, string) gomap"
  hs_Selector :: "(string, string) gomap"

text \<open>
  A replica with the parts of its pod spec: metadata and container as a \<open>Pod\<close> with an empty status,
  and the settings the pod takes from \<open>spec.pod\<close>.
\<close>

record ServiceReplica =
  rep_Service :: string
  rep_Index :: nat
  rep_Pod :: Pod
  rep_Annotations :: "(string, string) gomap"
  rep_Subdomain :: string
  rep_Settings :: PodConfig
  rep_Command :: "string list"
  rep_Args :: "string list"
  rep_Env :: "EnvVar list"
  rep_Rest :: opaque

record CompiledServices =
  cmp_Services :: "HeadlessService list"
  cmp_Replicas :: "ServiceReplica list"

definition add_env_axis :: "string \<Rightarrow> string list \<Rightarrow> EnvVar list list \<Rightarrow> EnvVar list list" where
  "add_env_axis key values combos =
     concat (map (\<lambda>c. map (\<lambda>v. c @ [env_var (''KUBETEST_MATRIX_'' @ to_upper key) v]) values) combos)"

definition replicaEnvs :: "ServiceSpec \<Rightarrow> EnvVar list list" where
  "replicaEnvs svc =
     (let combos = fold (\<lambda>key. add_env_axis key (gm_at [] (sv_Matrix svc) key)) (sort (map fst (sv_Matrix svc))) [[]];
          count = (case sv_Count svc of None \<Rightarrow> 1 | Some c \<Rightarrow> if 0 < c then nat c else 1)
      in concat (map (\<lambda>c. replicate count c) combos))"

definition ServiceHostEnv :: "string \<Rightarrow> string" where
  "ServiceHostEnv name = ''KUBETEST_SERVICE_'' @
     to_upper (map (\<lambda>c. if c = CHR ''-'' then CHR ''_'' else c) name) @ ''_HOST''"

definition service_selector :: "TestRun \<Rightarrow> string \<Rightarrow> (string, string) gomap" where
  "service_selector run name = [(LabelServiceOf, r_Name run), (LabelService, name)]"

definition headless_service :: "TestRun \<Rightarrow> string \<Rightarrow> HeadlessService" where
  "headless_service run name = \<lparr>hs_Name = ServiceName (r_Name run) name, hs_Namespace = r_Namespace run,
     hs_Labels = gm_set LabelManagedBy ManagedByValue (service_selector run name),
     hs_Selector = service_selector run name\<rparr>"

definition service_replica ::
  "TestSpec \<Rightarrow> TestRun \<Rightarrow> string \<Rightarrow> ServiceSpec \<Rightarrow> nat \<times> EnvVar list \<Rightarrow> ServiceReplica" where
  "service_replica spec run name svc ie = (case ie of (i, combo) \<Rightarrow>
     (let svcName = ServiceName (r_Name run) name;
          podName = ServiceReplicaName svcName i;
          userLabels = gm_del LabelRunID (mergeLabels (ts_Pod spec) (rs_Pod (r_Spec run)) (r_Name run))
      in \<lparr>rep_Service = name, rep_Index = i,
          rep_Pod = \<lparr>pd_Name = podName, pd_Namespace = r_Namespace run,
            pd_Labels = gm_set LabelManagedBy ManagedByValue (gm_set LabelServiceIndex (utoa i)
              (maps_copy userLabels (service_selector run name))),
            pd_CreationTimestamp = 0, pd_Containers = [(''service'', sv_Image svc)],
            pd_Phase = [], pd_PodIP = [], pd_Conditions = [], pd_InitContainerStatuses = [],
            pd_ContainerStatuses = []\<rparr>,
          rep_Annotations = mergeAnnotations (ts_Pod spec) (rs_Pod (r_Spec run)),
          rep_Subdomain = svcName,
          rep_Settings = mergePodConfig (ts_Pod spec) (rs_Pod (r_Spec run)),
          rep_Command = sv_Command svc, rep_Args = sv_Args svc,
          rep_Env = env_var ''KUBETEST_SERVICE_INDEX'' (utoa i) # combo @ sv_Env svc,
          rep_Rest = sv_Rest svc\<rparr>))"

definition CompileServices :: "TestSpec \<Rightarrow> TestRun \<Rightarrow> CompiledServices" where
  "CompileServices spec run =
     (let ns = sort (map fst (ts_Services spec))
      in \<lparr>cmp_Services = map (headless_service run) ns,
          cmp_Replicas = concat (map (\<lambda>n. case gm_get (ts_Services spec) n of None \<Rightarrow> []
            | Some svc \<Rightarrow> map (service_replica spec run n svc) (enumerate 0 (replicaEnvs svc))) ns)\<rparr>)"

section \<open>Lemmas\<close>

lemma label_distinct:
  "LabelRunID \<noteq> LabelServiceOf" "LabelRunID \<noteq> LabelService" "LabelRunID \<noteq> LabelServiceIndex"
  "LabelRunID \<noteq> LabelManagedBy" "LabelServiceOf \<noteq> LabelManagedBy" "LabelServiceOf \<noteq> LabelServiceIndex"
  "LabelServiceOf \<noteq> LabelService"
  by (simp_all add: LabelRunID_def LabelServiceOf_def LabelService_def LabelServiceIndex_def LabelManagedBy_def)

lemma selector_ok: "gm_ok (service_selector run n)"
  by (simp add: service_selector_def gm_ok_def label_distinct)

section \<open>Properties\<close>

text \<open>
  A service replica is never taken for the run's own pod: no replica carries the run-id
  label (whatever labels the Test and the TestRun ask for), and each one names the run it
  belongs to in the service-of label.
\<close>

theorem replica_labels:
  assumes "r \<in> set (cmp_Replicas (CompileServices spec run))"
  shows "map_of (pd_Labels (rep_Pod r)) LabelRunID = None \<and>
    map_of (pd_Labels (rep_Pod r)) LabelServiceOf = Some (r_Name run) \<and>
    pd_Namespace (rep_Pod r) = r_Namespace run"
proof -
  from assms obtain n svc ie where r: "r = service_replica spec run n svc ie"
    by (auto simp: CompileServices_def Let_def split: option.splits)
  have sel: "map_of (service_selector run n) LabelRunID = None"
    "map_of (service_selector run n) LabelServiceOf = Some (r_Name run)"
    by (simp_all add: service_selector_def label_distinct)
  show ?thesis
    unfolding r by (cases ie) (simp add: service_replica_def Let_def maps_copy_get [OF selector_ok]
        map_add_def sel label_distinct)
qed

text \<open>
  The replicas of a service: as many as the product of the matrix' value lists times the
  count (one when unset), numbered from zero in order.
\<close>

theorem replicaEnvs_count:
  "length (replicaEnvs svc) =
     prod_list (map (\<lambda>k. length (gm_at [] (sv_Matrix svc) k)) (sort (map fst (sv_Matrix svc)))) *
     (case sv_Count svc of None \<Rightarrow> 1 | Some c \<Rightarrow> if 0 < c then nat c else 1)"
proof -
  have "length (fold (\<lambda>key. add_env_axis key (gm_at [] m key)) ks cs) =
      length cs * prod_list (map (\<lambda>k. length (gm_at [] m k)) ks)" for ks cs and m :: "(string, string list) gomap"
    by (induction ks arbitrary: cs) (simp_all add: add_env_axis_def length_concat comp_def sum_list_triv)
  then show ?thesis
    by (simp add: replicaEnvs_def Let_def length_concat comp_def sum_list_triv)
qed

theorem replica_labels_witness:
  "map_of (pd_Labels (rep_Pod (service_replica zero_TestSpec (sample_run ''r1'') ''db''
      \<lparr>sv_Image = ''pg'', sv_Command = [], sv_Args = [], sv_Env = [], sv_Timeout = None, sv_Logs = False,
       sv_Count = None, sv_MaxCount = None, sv_Matrix = [], sv_Shards = [], sv_Rest = Opaque []\<rparr> (0, [])))) LabelRunID = None"
proof -
  let ?svc = "\<lparr>sv_Image = ''pg'', sv_Command = [], sv_Args = [], sv_Env = [], sv_Timeout = None, sv_Logs = False,
       sv_Count = None, sv_MaxCount = None, sv_Matrix = [], sv_Shards = [], sv_Rest = Opaque []\<rparr>"
  let ?spec = "zero_TestSpec\<lparr>ts_Services := [(''db'', ?svc)]\<rparr>"
  have "service_replica ?spec (sample_run ''r1'') ''db'' ?svc (0, []) \<in> set (cmp_Replicas (CompileServices ?spec (sample_run ''r1'')))"
    by (simp add: CompileServices_def replicaEnvs_def Let_def enumerate_eq_zip)
  from replica_labels [OF this] show ?thesis by (simp add: service_replica_def Let_def)
qed

end
