(* ===== verification/TestData.thy ===== *)
theory TestData
  imports ApiTypes
begin

text \<open>
  Checks before a pod exists, \<open>src/internal/controller/testdata.go\<close>: every ConfigMap and Secret that
  \<open>content.testData\<close> and the pod's volumes need is there, with the keys they pick. The API server is
  a lookup: an error, nothing, or the object's keys.
\<close>

datatype obj_kind = KConfigMap | KSecret

type_synonym objects = "obj_kind \<Rightarrow> string \<times> string \<Rightarrow> (string, string list option) result"

datatype check_error =
    MissingObject nat obj_kind string
  | MissingKey nat obj_kind string string
  | MissingVolume string obj_kind string
  | MissingVolumeKey string obj_kind string string
  | CheckFailed string

definition check_entry :: "objects \<Rightarrow> string \<Rightarrow> nat \<times> TestDataSource \<Rightarrow> (check_error, unit) result" where
  "check_entry get ns e = (case e of (i, d) \<Rightarrow>
     (let name = td_ConfigMap d @ td_Secret d; kind = (if td_Secret d \<noteq> [] then KSecret else KConfigMap)
      in case get kind (ns, name) of
           Inl err \<Rightarrow> Inl (CheckFailed err)
         | Inr None \<Rightarrow> Inl (MissingObject i kind name)
         | Inr (Some keys) \<Rightarrow>
             (case find (\<lambda>it. tdi_Key it \<notin> set keys) (td_Items d) of
                Some it \<Rightarrow> Inl (MissingKey i kind name (tdi_Key it)) | None \<Rightarrow> Inr ())))"

definition checkTestData :: "objects \<Rightarrow> string \<Rightarrow> TestDataSource list \<Rightarrow> (check_error, unit) result" where
  "checkTestData get ns entries = rbind (rmap (check_entry get ns) (enumerate 0 entries)) (\<lambda>_. Inr ())"

record volumeRef =
  vr_Volume :: string
  vr_Kind :: obj_kind
  vr_Name :: string
  vr_Keys :: "string list"

definition required :: "KeyedSource \<Rightarrow> bool" where
  "required s \<longleftrightarrow> ks_Optional s = None \<or> ks_Optional s = Some False"

definition source_ref :: "string \<Rightarrow> obj_kind \<Rightarrow> KeyedSource option \<Rightarrow> volumeRef list" where
  "source_ref vol kind s = (case s of None \<Rightarrow> []
     | Some k \<Rightarrow> if required k
         then [\<lparr>vr_Volume = vol, vr_Kind = kind, vr_Name = ks_Name k, vr_Keys = ks_Items k\<rparr>] else [])"

text \<open>The cases of the Go switch: a secret or configMap that is optional falls through to the next.\<close>

definition volume_refs1 :: "Volume \<Rightarrow> volumeRef list" where
  "volume_refs1 v =
     (let s = vol_Source v; sec = source_ref (vol_Name v) KSecret (vs_Secret s);
          cm = source_ref (vol_Name v) KConfigMap (vs_ConfigMap s)
      in if sec \<noteq> [] then sec
         else if cm \<noteq> [] then cm
         else case vs_Projected s of None \<Rightarrow> []
           | Some srcs \<Rightarrow> concat (map (\<lambda>p. source_ref (vol_Name v) KSecret (pj_Secret p) @
               source_ref (vol_Name v) KConfigMap (pj_ConfigMap p)) srcs))"

definition volumeRefs :: "Volume list \<Rightarrow> volumeRef list" where
  "volumeRefs vols = concat (map volume_refs1 vols)"

definition check_ref :: "objects \<Rightarrow> string \<Rightarrow> volumeRef \<Rightarrow> (check_error, unit) result" where
  "check_ref get ns ref = (case get (vr_Kind ref) (ns, vr_Name ref) of
       Inl err \<Rightarrow> Inl (CheckFailed err)
     | Inr None \<Rightarrow> Inl (MissingVolume (vr_Volume ref) (vr_Kind ref) (vr_Name ref))
     | Inr (Some keys) \<Rightarrow>
         (case find (\<lambda>k. k \<notin> set keys) (vr_Keys ref) of
            Some k \<Rightarrow> Inl (MissingVolumeKey (vr_Volume ref) (vr_Kind ref) (vr_Name ref) k) | None \<Rightarrow> Inr ()))"

definition checkPodVolumes :: "objects \<Rightarrow> string \<Rightarrow> Volume list \<Rightarrow> (check_error, unit) result" where
  "checkPodVolumes get ns vols = rbind (rmap (check_ref get ns) (volumeRefs vols)) (\<lambda>_. Inr ())"

definition podVolumes :: "PodConfig option \<Rightarrow> Volume list" where
  "podVolumes p = (case p of None \<Rightarrow> [] | Some c \<Rightarrow> items (po_Volumes c))"

section \<open>Lemmas\<close>

definition has_keys :: "objects \<Rightarrow> obj_kind \<Rightarrow> string \<times> string \<Rightarrow> string list \<Rightarrow> bool" where
  "has_keys get kind key want = (case get kind key of Inr (Some keys) \<Rightarrow> set want \<subseteq> set keys | _ \<Rightarrow> False)"

lemma key_check:
  "(case find (\<lambda>x. f x \<notin> set keys) xs of Some x \<Rightarrow> Inl (E x) | None \<Rightarrow> Inr ()) = Inr () \<longleftrightarrow>
     set (map f xs) \<subseteq> set keys"
proof (cases "find (\<lambda>x. f x \<notin> set keys) xs")
  case None
  then have "\<forall>x \<in> set xs. f x \<in> set keys" unfolding find_None_iff by blast
  with None show ?thesis by (auto simp del: find_None_iff)
next
  case (Some x)
  then have "x \<in> set xs" "f x \<notin> set keys" by (auto simp: find_Some_iff)
  with Some show ?thesis by auto
qed

lemma object_check:
  "(case get kind key of Inl err \<Rightarrow> Inl (CheckFailed err) | Inr None \<Rightarrow> Inl E0
     | Inr (Some keys) \<Rightarrow> (case find (\<lambda>x. f x \<notin> set keys) xs of Some x \<Rightarrow> Inl (E x) | None \<Rightarrow> Inr ())) = Inr ()
   \<longleftrightarrow> has_keys get kind key (map f xs)"
proof (cases "get kind key")
  case (Inr k)
  then show ?thesis by (cases k) (simp_all only: has_keys_def sum.case option.case key_check, simp)
qed (simp add: has_keys_def)

lemma check_ref_ok: "check_ref get ns ref = Inr () \<longleftrightarrow> has_keys get (vr_Kind ref) (ns, vr_Name ref) (vr_Keys ref)"
  unfolding check_ref_def object_check [where f = "\<lambda>k. k"] by simp

lemma rmap_unit_ok: "rbind (rmap f xs) (\<lambda>_. Inr ()) = Inr () \<longleftrightarrow> (\<forall>x \<in> set xs. f x = Inr ())"
  by (induction xs) (auto split: sum.splits)

lemma check_entry_ok:
  "check_entry get ns (i, d) = Inr () \<longleftrightarrow>
     has_keys get (if td_Secret d \<noteq> [] then KSecret else KConfigMap) (ns, td_ConfigMap d @ td_Secret d)
       (map tdi_Key (td_Items d))"
  unfolding check_entry_def prod.case Let_def
  by (rule object_check [where f = tdi_Key and E = "\<lambda>it. MissingKey i _ _ (tdi_Key it)"])

section \<open>Properties\<close>

text \<open>
  The checks are exact: \<open>checkTestData\<close> succeeds precisely when every entry's object exists
  with every key its items pick, and \<open>checkPodVolumes\<close> precisely when every required Secret and
  ConfigMap of the volumes exists with the keys it picks.
\<close>

theorem testdata_checks_exact:
  "(checkTestData get ns entries = Inr () \<longleftrightarrow>
     (\<forall>d \<in> set entries. has_keys get (if td_Secret d \<noteq> [] then KSecret else KConfigMap)
        (ns, td_ConfigMap d @ td_Secret d) (map tdi_Key (td_Items d)))) \<and>
   (checkPodVolumes get ns vols = Inr () \<longleftrightarrow>
     (\<forall>ref \<in> set (volumeRefs vols). has_keys get (vr_Kind ref) (ns, vr_Name ref) (vr_Keys ref)))"
proof -
  have a: "check_entry get ns e = Inr () \<longleftrightarrow> check_entry get ns (0, snd e) = Inr ()" for e
    by (cases e) (simp only: check_entry_ok snd_conv)
  have "(\<forall>e \<in> set (enumerate 0 entries). P (snd e)) \<longleftrightarrow> (\<forall>d \<in> set (map snd (enumerate 0 entries)). P d)" for P
    unfolding set_map by blast
  from this [of "\<lambda>d. check_entry get ns (0, d) = Inr ()"] a
  have "(\<forall>e \<in> set (enumerate 0 entries). check_entry get ns e = Inr ()) \<longleftrightarrow>
      (\<forall>d \<in> set entries. check_entry get ns (0, d) = Inr ())"
    unfolding map_snd_enumerate by blast
  then show ?thesis
    unfolding checkTestData_def checkPodVolumes_def rmap_unit_ok by (simp add: check_entry_ok check_ref_ok)
qed

theorem testdata_checks_exact_witness:
  "checkTestData (\<lambda>_ _. Inr (Some [''a''])) ''n'' [\<lparr>td_ConfigMap = ''cm'', td_Secret = [], td_MountPath = [], td_Items = []\<rparr>]
   = Inr ()"
  using testdata_checks_exact [of "\<lambda>_ _. Inr (Some [''a''])" "''n''"
      "[\<lparr>td_ConfigMap = ''cm'', td_Secret = [], td_MountPath = [], td_Items = []\<rparr>]" "[]"]
  by (simp add: has_keys_def)

end
