(* ===== verification/Cluster.thy ===== *)
theory Cluster
  imports Resolver Stages Concurrency
begin

text \<open>
  The state the run controller works on, and the Kubernetes API calls it makes. A handler is a
  function from the world to a result and a new world (\<open>'a M\<close>). The world holds the objects of the
  API server, the operator's own memory (which runs were persisted or announced, which log
  tailers run, the metrics), the clock (one reading per handler) and two schedules of faults: each write takes the next entry of
  \<open>w_Faults\<close>, each read the next of \<open>w_ReadFaults\<close>; an absent entry is success. A run handler works on
  its own copy of the TestRun, as the code does, and nothing reaches the API server before the
  status update. \<open>w_Lag\<close> lists objects the informer cache does not show yet.
\<close>

section \<open>The world\<close>

type_synonym nsname = "string \<times> string"

datatype api_error = AConflict | ANotFound | AAlreadyExists | AInvalid string | AOther string

datatype go_error = GoAPI api_error | GoErr string

record RunReference =
  rf_Name :: string
  rf_Phase :: Phase
  rf_FinishedAt :: "time option"

record Webhook =
  wh_Name :: string
  wh_Namespace :: string
  wh_Events :: "string list"

record Delivery =
  dl_Hook :: nsname
  dl_Event :: string
  dl_Run :: nsname
  dl_UID :: string

record World =
  w_Now :: time
  w_Faults :: "api_error option list"
  w_ReadFaults :: "string option list"
  w_Lag :: "nsname list"
  w_NextUID :: nat
  w_Runs :: "(nsname, TestRun) gomap"
  w_Tests :: "(nsname, Test) gomap"
  w_LatestRun :: "(nsname, RunReference) gomap"
  w_Jobs :: "(nsname, Job) gomap"
  w_Pods :: "(nsname, Pod) gomap"
  w_Aux :: "nsname list"
  w_ServiceObjects :: "nsname list"
  w_Webhooks :: "Webhook list"
  w_Tailers :: "string list"
  w_History :: "(string, TestRun) gomap"
  w_Persisted :: "nsname list"
  w_Dispatched :: "string list"
  w_Outbox :: "Delivery list"
  w_RunsTotal :: "(string \<times> Phase \<times> string, nat) gomap"
  w_ActiveRuns :: "(string, int) gomap"
  w_Durations :: "(string \<times> int) list"

type_synonym 'a M = "World \<Rightarrow> (go_error, 'a) result \<times> World"

definition mret :: "'a \<Rightarrow> 'a M" where
  "mret x = (\<lambda>w. (Inr x, w))"

definition mfail :: "go_error \<Rightarrow> 'a M" where
  "mfail e = (\<lambda>w. (Inl e, w))"

definition mbind :: "'a M \<Rightarrow> ('a \<Rightarrow> 'b M) \<Rightarrow> 'b M" where
  "mbind m f = (\<lambda>w. case m w of (Inl e, w') \<Rightarrow> (Inl e, w') | (Inr x, w') \<Rightarrow> f x w')"

text \<open>An error that the caller handles itself.\<close>

definition mtry :: "'a M \<Rightarrow> (go_error, 'a) result M" where
  "mtry m = (\<lambda>w. case m w of (r, w') \<Rightarrow> (Inr r, w'))"

definition mget :: "(World \<Rightarrow> 'a) \<Rightarrow> 'a M" where
  "mget f = (\<lambda>w. (Inr (f w), w))"

definition mmod :: "(World \<Rightarrow> World) \<Rightarrow> unit M" where
  "mmod f = (\<lambda>w. (Inr (), f w))"

fun mfor :: "('a \<Rightarrow> unit M) \<Rightarrow> 'a list \<Rightarrow> unit M" where
  "mfor f [] = mret ()"
| "mfor f (x # xs) = mbind (f x) (\<lambda>_. mfor f xs)"

section \<open>API calls\<close>

definition run_key :: "TestRun \<Rightarrow> nsname" where
  "run_key run = (r_Namespace run, r_Name run)"

definition api_read :: "unit M" where
  "api_read = (\<lambda>w. case w_ReadFaults w of [] \<Rightarrow> (Inr (), w)
     | None # fs \<Rightarrow> (Inr (), w\<lparr>w_ReadFaults := fs\<rparr>)
     | Some e # fs \<Rightarrow> (Inl (GoErr e), w\<lparr>w_ReadFaults := fs\<rparr>))"

definition api_write :: "unit M" where
  "api_write = (\<lambda>w. case w_Faults w of [] \<Rightarrow> (Inr (), w)
     | None # fs \<Rightarrow> (Inr (), w\<lparr>w_Faults := fs\<rparr>)
     | Some e # fs \<Rightarrow> (Inl (GoAPI e), w\<lparr>w_Faults := fs\<rparr>))"

definition status_update :: "TestRun \<Rightarrow> unit M" where
  "status_update run = mbind api_write (\<lambda>_ w. case gm_get (w_Runs w) (run_key run) of
     None \<Rightarrow> (Inl (GoAPI ANotFound), w)
   | Some stored \<Rightarrow>
       (Inr (), w\<lparr>w_Runs := gm_set (run_key run) (stored\<lparr>r_Status := r_Status run\<rparr>) (w_Runs w)\<rparr>))"

text \<open>\<open>r.Update\<close> on a run: its metadata; an object without finalizers that is being deleted goes.\<close>

definition update_finalizers :: "TestRun \<Rightarrow> unit M" where
  "update_finalizers run = mbind api_write (\<lambda>_ w. case gm_get (w_Runs w) (run_key run) of
     None \<Rightarrow> (Inl (GoAPI ANotFound), w)
   | Some stored \<Rightarrow>
       if r_Finalizers run = [] \<and> r_DeletionTimestamp stored \<noteq> None
       then (Inr (), w\<lparr>w_Runs := gm_del (run_key run) (w_Runs w)\<rparr>)
       else (Inr (), w\<lparr>w_Runs := gm_set (run_key run) (stored\<lparr>r_Finalizers := r_Finalizers run\<rparr>) (w_Runs w)\<rparr>))"

definition delete_run :: "TestRun \<Rightarrow> unit M" where
  "delete_run run = mbind api_write (\<lambda>_ w. case gm_get (w_Runs w) (run_key run) of
     None \<Rightarrow> (Inl (GoAPI ANotFound), w)
   | Some stored \<Rightarrow>
       if r_Finalizers stored = [] then (Inr (), w\<lparr>w_Runs := gm_del (run_key run) (w_Runs w)\<rparr>)
       else (Inr (), w\<lparr>w_Runs := gm_set (run_key run)
         (stored\<lparr>r_DeletionTimestamp := Some (w_Now w)\<rparr>) (w_Runs w)\<rparr>))"

text \<open>The API server gives a new object its UID and creation time.\<close>

definition create_run :: "TestRun \<Rightarrow> unit M" where
  "create_run run = mbind api_write (\<lambda>_ w.
     if gm_has (w_Runs w) (run_key run) then (Inl (GoAPI AAlreadyExists), w)
     else (Inr (), w\<lparr>w_NextUID := Suc (w_NextUID w), w_Runs := gm_set (run_key run)
       (run\<lparr>r_UID := ''uid-'' @ utoa (w_NextUID w), r_CreationTimestamp := w_Now w\<rparr>) (w_Runs w)\<rparr>))"

definition patch_abort :: "nsname \<Rightarrow> AbortRequest \<Rightarrow> unit M" where
  "patch_abort key req = mbind api_write (\<lambda>_ w. case gm_get (w_Runs w) key of
     None \<Rightarrow> (Inl (GoAPI ANotFound), w)
   | Some stored \<Rightarrow> (Inr (), w\<lparr>w_Runs := gm_set key
       (stored\<lparr>r_Spec := (r_Spec stored)\<lparr>rs_Abort := Some req\<rparr>\<rparr>) (w_Runs w)\<rparr>))"

definition create_job :: "Job \<Rightarrow> unit M" where
  "create_job job = mbind api_write (\<lambda>_ w.
     if gm_has (w_Jobs w) (j_Namespace job, j_Name job) then (Inl (GoAPI AAlreadyExists), w)
     else (Inr (), w\<lparr>w_Jobs := gm_set (j_Namespace job, j_Name job) job (w_Jobs w)\<rparr>))"

definition delete_job :: "nsname \<Rightarrow> unit M" where
  "delete_job key = mbind api_write (\<lambda>_ w.
     if gm_has (w_Jobs w) key then (Inr (), w\<lparr>w_Jobs := gm_del key (w_Jobs w)\<rparr>)
     else (Inl (GoAPI ANotFound), w))"

definition create_pod :: "Pod \<Rightarrow> unit M" where
  "create_pod p = mbind api_write (\<lambda>_ w.
     if gm_has (w_Pods w) (pd_Namespace p, pd_Name p) then (Inl (GoAPI AAlreadyExists), w)
     else (Inr (), w\<lparr>w_Pods := gm_set (pd_Namespace p, pd_Name p)
       (p\<lparr>pd_CreationTimestamp := w_Now w\<rparr>) (w_Pods w)\<rparr>))"

definition delete_pod :: "nsname \<Rightarrow> unit M" where
  "delete_pod key = mbind api_write (\<lambda>_ w.
     if gm_has (w_Pods w) key then (Inr (), w\<lparr>w_Pods := gm_del key (w_Pods w)\<rparr>)
     else (Inl (GoAPI ANotFound), w))"

definition create_service :: "nsname \<Rightarrow> unit M" where
  "create_service key = mbind api_write (\<lambda>_ w.
     if key \<in> set (w_ServiceObjects w) then (Inl (GoAPI AAlreadyExists), w)
     else (Inr (), w\<lparr>w_ServiceObjects := key # w_ServiceObjects w\<rparr>))"

definition delete_service :: "nsname \<Rightarrow> unit M" where
  "delete_service key = mbind api_write (\<lambda>_ w.
     if key \<in> set (w_ServiceObjects w)
     then (Inr (), w\<lparr>w_ServiceObjects := filter (\<lambda>k. k \<noteq> key) (w_ServiceObjects w)\<rparr>)
     else (Inl (GoAPI ANotFound), w))"

definition create_aux :: "nsname \<Rightarrow> unit M" where
  "create_aux key = mbind api_write (\<lambda>_ w.
     if key \<in> set (w_Aux w) then (Inl (GoAPI AAlreadyExists), w)
     else (Inr (), w\<lparr>w_Aux := key # w_Aux w\<rparr>))"

text \<open>\<open>err != nil && !apierrors.IsAlreadyExists(err)\<close> and its sibling for NotFound.\<close>

definition ignore_exists :: "unit M \<Rightarrow> unit M" where
  "ignore_exists m = mbind (mtry m) (\<lambda>r. case r of Inl (GoAPI AAlreadyExists) \<Rightarrow> mret ()
     | Inl e \<Rightarrow> mfail e | Inr _ \<Rightarrow> mret ())"

definition ignore_notfound :: "unit M \<Rightarrow> unit M" where
  "ignore_notfound m = mbind (mtry m) (\<lambda>r. case r of Inl (GoAPI ANotFound) \<Rightarrow> mret ()
     | Inl e \<Rightarrow> mfail e | Inr _ \<Rightarrow> mret ())"

text \<open>An error that is only logged.\<close>

definition log_only :: "unit M \<Rightarrow> unit M" where
  "log_only m = mbind (mtry m) (\<lambda>_. mret ())"

definition get_job :: "nsname \<Rightarrow> Job option M" where
  "get_job key = mbind api_read (\<lambda>_. mget (\<lambda>w. if key \<in> set (w_Lag w) then None else gm_get (w_Jobs w) key))"

definition get_pod :: "nsname \<Rightarrow> Pod option M" where
  "get_pod key = mbind api_read (\<lambda>_. mget (\<lambda>w. if key \<in> set (w_Lag w) then None else gm_get (w_Pods w) key))"

definition get_test :: "nsname \<Rightarrow> Test option M" where
  "get_test key = mbind api_read (\<lambda>_. mget (\<lambda>w. if key \<in> set (w_Lag w) then None else gm_get (w_Tests w) key))"

definition deleteJobBackground :: "Job \<Rightarrow> unit M" where
  "deleteJobBackground job = ignore_notfound (delete_job (j_Namespace job, j_Name job))"

text \<open>The log registry: one tailer per id.\<close>

definition ensure_tailer :: "string \<Rightarrow> unit M" where
  "ensure_tailer tid = mmod (\<lambda>w. if tid \<in> set (w_Tailers w) then w else w\<lparr>w_Tailers := tid # w_Tailers w\<rparr>)"

definition stop_tailer :: "string \<Rightarrow> unit M" where
  "stop_tailer tid = mmod (\<lambda>w. w\<lparr>w_Tailers := filter (\<lambda>i. i \<noteq> tid) (w_Tailers w)\<rparr>)"

section \<open>Invariants of handlers\<close>

text \<open>
  \<open>keeps R m\<close>: every execution of \<open>m\<close>, whatever fails, relates the world before and after by \<open>R\<close>.
  For a reflexive and transitive \<open>R\<close> it composes, so a handler's guarantee follows from its calls'.
\<close>

definition keeps :: "(World \<Rightarrow> World \<Rightarrow> bool) \<Rightarrow> 'a M \<Rightarrow> bool" where
  "keeps R m \<longleftrightarrow> (\<forall>w. R w (snd (m w)))"

locale world_guarantee =
  fixes R :: "World \<Rightarrow> World \<Rightarrow> bool"
  assumes R_refl: "R w w"
    and R_trans: "R u v \<Longrightarrow> R v w \<Longrightarrow> R u w"
begin

lemma keeps_ret: "keeps R (mret x)" and keeps_fail: "keeps R (mfail e)" and keeps_get: "keeps R (mget f)"
  by (simp_all add: keeps_def mret_def mfail_def mget_def R_refl)

lemma keeps_bind: "keeps R m \<Longrightarrow> (\<And>x. keeps R (f x)) \<Longrightarrow> keeps R (mbind m f)"
  unfolding keeps_def mbind_def
  by (auto split: prod.splits sum.splits) (metis R_trans snd_conv)+

lemma keeps_try: "keeps R m \<Longrightarrow> keeps R (mtry m)"
  by (simp add: keeps_def mtry_def split_beta)

lemma keeps_for: "(\<And>x. keeps R (f x)) \<Longrightarrow> keeps R (mfor f xs)"
  by (induction xs) (simp_all add: keeps_ret keeps_bind)

lemma keeps_log: "keeps R m \<Longrightarrow> keeps R (log_only m)"
  unfolding log_only_def by (intro keeps_bind keeps_try keeps_ret)

lemma keeps_ignore: "keeps R m \<Longrightarrow> keeps R (ignore_exists m)" "keeps R m \<Longrightarrow> keeps R (ignore_notfound m)"
  unfolding ignore_exists_def ignore_notfound_def
  by (intro keeps_bind keeps_try; auto simp: keeps_ret keeps_fail split: sum.split go_error.split api_error.split)+

text \<open>A bind whose first part guarantees something of its value.\<close>

lemma keeps_bind_val:
  assumes "keeps R m" "\<And>w x w'. m w = (Inr x, w') \<Longrightarrow> Q x" "\<And>x. Q x \<Longrightarrow> keeps R (f x)"
  shows "keeps R (mbind m f)"
  unfolding keeps_def
proof
  fix w
  obtain r w' where m: "m w = (r, w')" by (cases "m w")
  have Rm: "R w w'" using assms(1) m unfolding keeps_def by (metis snd_conv)
  show "R w (snd (mbind m f w))"
  proof (cases r)
    case (Inl e)
    then show ?thesis using m Rm by (simp add: mbind_def)
  next
    case (Inr x)
    then have "keeps R (f x)" using assms(2,3) m by blast
    then have "R w' (snd (f x w'))" by (simp add: keeps_def)
    then show ?thesis using m Inr R_trans [OF Rm] by (simp add: mbind_def)
  qed
qed

lemmas keeps_rules = keeps_ret keeps_fail keeps_get keeps_bind keeps_try keeps_for keeps_log keeps_ignore

end

text \<open>The shape of a handler's text: conditionals, matches and \<open>let\<close>, whatever the guarantee.\<close>

lemma keeps_if: "(b \<Longrightarrow> keeps R m) \<Longrightarrow> (\<not> b \<Longrightarrow> keeps R n) \<Longrightarrow> keeps R (if b then m else n)"
  by simp

lemma keeps_let: "keeps R (f x) \<Longrightarrow> keeps R (Let x f)"
  by simp

lemma keeps_case_option:
  "(x = None \<Longrightarrow> keeps R m) \<Longrightarrow> (\<And>y. x = Some y \<Longrightarrow> keeps R (f y)) \<Longrightarrow> keeps R (case_option m f x)"
  by (cases x) auto

lemma keeps_case_sum:
  "(\<And>y. x = Inl y \<Longrightarrow> keeps R (f y)) \<Longrightarrow> (\<And>y. x = Inr y \<Longrightarrow> keeps R (g y)) \<Longrightarrow> keeps R (case_sum f g x)"
  by (cases x) auto

lemma keeps_case_prod: "(\<And>a b. x = (a, b) \<Longrightarrow> keeps R (f a b)) \<Longrightarrow> keeps R (case_prod f x)"
  by (cases x) auto

lemma keeps_case_list:
  "(x = [] \<Longrightarrow> keeps R m) \<Longrightarrow> (\<And>y ys. x = y # ys \<Longrightarrow> keeps R (f y ys)) \<Longrightarrow> keeps R (case_list m f x)"
  by (cases x) auto

lemma keeps_case_go_error:
  "(\<And>y. x = GoAPI y \<Longrightarrow> keeps R (f y)) \<Longrightarrow> (\<And>y. x = GoErr y \<Longrightarrow> keeps R (g y)) \<Longrightarrow> keeps R (case_go_error f g x)"
  by (cases x) auto

lemma keeps_case_api_error:
  "keeps R a \<Longrightarrow> keeps R b \<Longrightarrow> keeps R c \<Longrightarrow> (\<And>y. keeps R (f y)) \<Longrightarrow> (\<And>y. keeps R (g y)) \<Longrightarrow>
   keeps R (case_api_error a b c f g x)"
  by (cases x) auto

lemma keeps_case_snapshot:
  "(x = NoSnapshot \<Longrightarrow> keeps R m) \<Longrightarrow> (\<And>y. x = Snapshot y \<Longrightarrow> keeps R (f y)) \<Longrightarrow>
   (\<And>y. x = BadSnapshot y \<Longrightarrow> keeps R (g y)) \<Longrightarrow> keeps R (case_snapshot m f g x)"
  by (cases x) auto

lemma keeps_case_read_error:
  "keeps R m \<Longrightarrow> (\<And>y. keeps R (f y)) \<Longrightarrow> (\<And>y. keeps R (g y)) \<Longrightarrow> keeps R (case_read_error m f g x)"
  by (cases x) auto

lemmas keeps_cases = keeps_if keeps_let keeps_case_option keeps_case_sum keeps_case_prod keeps_case_list
  keeps_case_go_error keeps_case_api_error keeps_case_snapshot keeps_case_read_error

text \<open>Two guarantees: a view of the world does not change; an invariant of the world is kept.\<close>

definition same :: "(World \<Rightarrow> 'a) \<Rightarrow> World \<Rightarrow> World \<Rightarrow> bool" where
  "same f u v \<longleftrightarrow> f u = f v"

definition preserves :: "(World \<Rightarrow> bool) \<Rightarrow> World \<Rightarrow> World \<Rightarrow> bool" where
  "preserves I u v \<longleftrightarrow> (I u \<longrightarrow> I v)"

interpretation same: world_guarantee "same f" for f :: "World \<Rightarrow> 'a"
  by unfold_locales (simp_all add: same_def)

interpretation pres: world_guarantee "preserves I" for I :: "World \<Rightarrow> bool"
  by unfold_locales (auto simp: preserves_def)

lemma keeps_same_preserves:
  "keeps (same f) m \<Longrightarrow> (\<And>u v. f u = f v \<Longrightarrow> I u = I v) \<Longrightarrow> keeps (preserves I) m"
  by (metis keeps_def same_def preserves_def)

section \<open>Lemmas\<close>

lemma mret_apply [simp]: "mret x w = (Inr x, w)" and mfail_apply [simp]: "mfail e w = (Inl e, w)"
  and mget_apply [simp]: "mget f w = (Inr (f w), w)" and mmod_apply [simp]: "mmod g w = (Inr (), g w)"
  by (simp_all add: mret_def mfail_def mget_def mmod_def)

lemma mbind_apply: "mbind m f w = (case m w of (Inl e, w') \<Rightarrow> (Inl e, w') | (Inr x, w') \<Rightarrow> f x w')"
  by (simp add: mbind_def)

lemma mtry_apply: "mtry m w = (Inr (fst (m w)), snd (m w))"
  by (simp add: mtry_def split_beta)

lemma mbind_ret [simp]: "mbind (mret x) f = f x" and mbind_get: "mbind (mget g) f w = f (g w) w"
  by (simp_all add: mbind_def mret_def mget_def)

lemma api_ok [simp]: "w_ReadFaults w = [] \<Longrightarrow> api_read w = (Inr (), w)"
  "w_Faults w = [] \<Longrightarrow> api_write w = (Inr (), w)"
  by (simp_all add: api_read_def api_write_def)

text \<open>What the primitive calls leave alone: every view of the world that does not look at their objects.\<close>

named_theorems keeps_api \<open>what the primitive calls keep\<close>

lemma same_mmod [keeps_api]: "(\<And>u. f (g u) = f u) \<Longrightarrow> keeps (same f) (mmod g)"
  by (simp add: keeps_def same_def)

lemma same_api_read [keeps_api]: "(\<And>u x. f (u\<lparr>w_ReadFaults := x\<rparr>) = f u) \<Longrightarrow> keeps (same f) api_read"
  by (simp add: keeps_def same_def api_read_def split: list.split option.split)

lemma same_api_write [keeps_api]: "(\<And>u x. f (u\<lparr>w_Faults := x\<rparr>) = f u) \<Longrightarrow> keeps (same f) api_write"
  by (simp add: keeps_def same_def api_write_def split: list.split option.split)

lemma same_raw: "(\<And>w. f (snd (m w)) = f w) \<Longrightarrow> keeps (same f) m"
  by (simp add: keeps_def same_def)

text \<open>A call on the API server: the write slot, then a change of the objects.\<close>

lemma same_call:
  assumes "\<And>u x. f (u\<lparr>w_Faults := x\<rparr>) = f u" "\<And>w. f (snd (g w)) = f w"
  shows "keeps (same f) (mbind api_write (\<lambda>_. g))"
  using assms by (intro same.keeps_bind same_api_write same_raw)

lemma same_job [keeps_api]:
  assumes "\<And>u x. f (u\<lparr>w_Faults := x\<rparr>) = f u" "\<And>u x. f (u\<lparr>w_Jobs := x\<rparr>) = f u"
  shows "keeps (same f) (create_job j)" "keeps (same f) (delete_job key)"
  unfolding create_job_def delete_job_def using assms by (auto intro!: same_call)

lemma same_pod [keeps_api]:
  assumes "\<And>u x. f (u\<lparr>w_Faults := x\<rparr>) = f u" "\<And>u x. f (u\<lparr>w_Pods := x\<rparr>) = f u"
  shows "keeps (same f) (create_pod p)" "keeps (same f) (delete_pod key)"
  unfolding create_pod_def delete_pod_def using assms by (auto intro!: same_call)

lemma same_service [keeps_api]:
  assumes "\<And>u x. f (u\<lparr>w_Faults := x\<rparr>) = f u" "\<And>u x. f (u\<lparr>w_ServiceObjects := x\<rparr>) = f u"
  shows "keeps (same f) (create_service key)" "keeps (same f) (delete_service key)"
  unfolding create_service_def delete_service_def using assms by (auto intro!: same_call)

lemma same_aux [keeps_api]:
  assumes "\<And>u x. f (u\<lparr>w_Faults := x\<rparr>) = f u" "\<And>u x. f (u\<lparr>w_Aux := x\<rparr>) = f u"
  shows "keeps (same f) (create_aux key)"
  unfolding create_aux_def using assms by (auto intro!: same_call)

lemma same_run [keeps_api]:
  assumes "\<And>u x. f (u\<lparr>w_Faults := x\<rparr>) = f u" "\<And>u x. f (u\<lparr>w_Runs := x\<rparr>) = f u"
  shows "keeps (same f) (status_update run)" "keeps (same f) (update_finalizers run)"
    "keeps (same f) (delete_run run)" "keeps (same f) (patch_abort key req)"
  unfolding status_update_def update_finalizers_def delete_run_def patch_abort_def
  using assms by (auto intro!: same_call split: option.split)

lemma same_create_run [keeps_api]:
  assumes "\<And>u x. f (u\<lparr>w_Faults := x\<rparr>) = f u" "\<And>u n x. f (u\<lparr>w_NextUID := n, w_Runs := x\<rparr>) = f u"
  shows "keeps (same f) (create_run run)"
  unfolding create_run_def using assms by (auto intro!: same_call)

lemma same_reads [keeps_api]:
  assumes "\<And>u x. f (u\<lparr>w_ReadFaults := x\<rparr>) = f u"
  shows "keeps (same f) (get_job key)" "keeps (same f) (get_pod key)" "keeps (same f) (get_test key)"
  unfolding get_job_def get_pod_def get_test_def using assms by (auto intro!: same.keeps_rules same_api_read)

lemma same_tailers [keeps_api]:
  assumes "\<And>u x. f (u\<lparr>w_Tailers := x\<rparr>) = f u"
  shows "keeps (same f) (ensure_tailer tid)" "keeps (same f) (stop_tailer tid)"
  unfolding ensure_tailer_def stop_tailer_def using assms by (auto intro!: same_mmod)

lemma same_deleteJobBackground [keeps_api]:
  assumes "\<And>u x. f (u\<lparr>w_Faults := x\<rparr>) = f u" "\<And>u x. f (u\<lparr>w_Jobs := x\<rparr>) = f u"
  shows "keeps (same f) (deleteJobBackground job)"
  unfolding deleteJobBackground_def using assms by (intro same.keeps_rules same_job)

end
