(* ===== verification/RunCore.thy ===== *)
theory RunCore
  imports Cluster ServiceObjects TestData Composer
begin

text \<open>
  How a run ends, the part of \<open>src/internal/controller/testrun_controller.go\<close> every path shares:
  \<open>transitionTerminal\<close>, \<open>terminalAndDeleteJob\<close>, \<open>persistFinished\<close>, \<open>dispatchWebhooks\<close>, aborting, the
  teardown of services (\<open>services.go\<close>), \<open>recordLatestRun\<close> (\<open>latest_run.go\<close>), the tool and source
  labels of the metrics (\<open>src/internal/metrics/metrics.go\<close>). \<open>Deps\<close> holds what the operator wires
  into the reconciler: stores, readers, the Job compiler, intervals.
\<close>

section \<open>Wiring\<close>

type_synonym compiled = "(string, Job \<times> nsname list) result"

text \<open>Why a run could not be set up; \<open>d_ErrorText\<close> is its text, Go's \<open>err.Error()\<close>.\<close>

datatype setup_error =
    SetupResolve resolve_error | SetupValidate validate_error | SetupPolicy "violation list"
  | SetupData check_error | SetupGraph graph_error

record Deps =
  d_Logs :: bool
  d_RunStore :: bool
  d_SaveFinished :: "TestRun \<Rightarrow> bool"
  d_SaveTestCases :: "(TestRun \<Rightarrow> opaque list \<Rightarrow> bool) option"
  d_Read :: "TestRun \<Rightarrow> (read_error, RunResult) result"
  d_ReadWorker :: "(TestRun \<Rightarrow> nat \<Rightarrow> (read_error, RunResult) result) option"
  d_Unmarshal :: unmarshal
  d_Templates :: "TemplateStore option"
  d_ResolverEnv :: "(string, string) gomap"
  d_Regexp :: regexp
  d_Policy :: Policy
  d_ErrorText :: "setup_error \<Rightarrow> string"
  d_Webhooks :: bool
  d_APIReader :: bool
  d_FinishedRunTTL :: duration
  d_FallbackRequeue :: duration
  d_ConcurrencyWaitInterval :: duration
  d_UnschedulableTimeout :: duration
  d_Objects :: objects
  d_Compile :: "TestSpec \<Rightarrow> TestRun \<Rightarrow> compiled"
  d_CompileTarget :: "TestRun \<Rightarrow> TestSpec \<Rightarrow> string \<Rightarrow> (string, string) gomap \<Rightarrow> EnvVar list \<Rightarrow> compiled"

section \<open>Metrics labels\<close>

definition KnownTools :: "string list" where
  "KnownTools = [''k6'', ''cypress'', ''newman'', ''jmeter'', ''locust'', ''playwright'', ''pytest'',
     ''gatling'', ''gradle'', ''maven'', ''artillery'', ''soapui'', ''zap-baseline'', ''cucumber'',
     ''kubepug'', ''curl'', ''composite'']"

definition ToolOther :: string where "ToolOther = ''other''"

definition NormalizeTool :: "string \<Rightarrow> string" where
  "NormalizeTool raw =
     (let s = to_lower (trim_space raw)
      in if s = [] then ToolOther else if s \<in> set KnownTools then s else ToolOther)"

definition SourceValues :: "string list" where
  "SourceValues = [''api'', ''ui'', ''cli'', ''cron'', ''trigger'', ''gitops'']"

definition NormalizeSource :: "string \<Rightarrow> string" where
  "NormalizeSource raw =
     (let s = to_lower (trim_space raw)
      in if s = [] then ToolOther else if s \<in> set SourceValues then s else ToolOther)"

definition runTool :: "TestRun \<Rightarrow> string" where
  "runTool run = (if ru_Tool (r_Status run) \<noteq> [] then ru_Tool (r_Status run)
     else gm_at [] (r_Labels run) LabelKubetestTool)"

section \<open>Views of a run\<close>

definition isCompositeRun :: "TestRun \<Rightarrow> bool" where
  "isCompositeRun run = (case ru_ResolvedSpec (r_Status run) of Snapshot s \<Rightarrow> ts_Steps s \<noteq> [] | _ \<Rightarrow> False)"

definition isParallelRun :: "TestRun \<Rightarrow> bool" where
  "isParallelRun run = (case ru_ResolvedSpec (r_Status run) of Snapshot s \<Rightarrow> ts_Parallel s \<noteq> None | _ \<Rightarrow> False)"

abbreviation set_status :: "(TestRunStatus \<Rightarrow> TestRunStatus) \<Rightarrow> TestRun \<Rightarrow> TestRun" where
  "set_status f run \<equiv> run\<lparr>r_Status := f (r_Status run)\<rparr>"

section \<open>Side effects of an end\<close>

definition recordLatestRun :: "TestRun \<Rightarrow> bool \<Rightarrow> unit M" where
  "recordLatestRun run isStart =
     mbind (mtry (get_test (r_Namespace run, rs_TestRef (r_Spec run)))) (\<lambda>t. case t of
       Inl _ \<Rightarrow> mret ()
     | Inr None \<Rightarrow> mret ()
     | Inr (Some test) \<Rightarrow>
         let key = (r_Namespace run, rs_TestRef (r_Spec run));
             nxt = \<lparr>rf_Name = r_Name run, rf_Phase = run_phase run, rf_FinishedAt = ru_FinishedAt (r_Status run)\<rparr>
         in mbind (mget (\<lambda>w. gm_get (w_LatestRun w) key)) (\<lambda>cur.
              if \<not> isStart \<and> (case cur of None \<Rightarrow> False | Some c \<Rightarrow> rf_Name c \<noteq> r_Name run) then mret ()
              else if cur = Some nxt then mret ()
              else log_only (mbind api_write (\<lambda>_. mmod (\<lambda>w.
                w\<lparr>w_LatestRun := gm_set key nxt (w_LatestRun w)\<rparr>)))))"

definition serviceTailerID :: "TestRun \<Rightarrow> string \<Rightarrow> string" where
  "serviceTailerID run pod = tailerID run @ ''/services/'' @ pod"

definition teardownServices :: "Deps \<Rightarrow> TestRun \<Rightarrow> unit M" where
  "teardownServices d run = (case ru_ResolvedSpec (r_Status run) of
     Snapshot spec \<Rightarrow>
       if ts_Services spec = [] then mret ()
       else let compiled = CompileServices spec run
            in mbind (mfor (\<lambda>rep.
                 mbind (if d_Logs d then stop_tailer (serviceTailerID run (pd_Name (rep_Pod rep))) else mret ()) (\<lambda>_.
                 log_only (ignore_notfound (delete_pod (pd_Namespace (rep_Pod rep), pd_Name (rep_Pod rep))))))
                 (cmp_Replicas compiled)) (\<lambda>_.
               mfor (\<lambda>svc. log_only (ignore_notfound (delete_service (hs_Namespace svc, hs_Name svc))))
                 (cmp_Services compiled))
   | _ \<Rightarrow> mret ())"

text \<open>The counters \<open>transitionTerminal\<close> touches before the status is written.\<close>

definition count_end :: "TestRun \<Rightarrow> Phase \<Rightarrow> World \<Rightarrow> World" where
  "count_end run phase w =
     (let tool = NormalizeTool (runTool run); source = NormalizeSource (rs_Source (r_Spec run));
          w1 = w\<lparr>w_RunsTotal := gm_set (tool, phase, source)
            (gm_at 0 (w_RunsTotal w) (tool, phase, source) + 1) (w_RunsTotal w)\<rparr>
      in if ru_StartedAt (r_Status run) \<noteq> None \<and> run_phase run = PhaseRunning
         then w1\<lparr>w_ActiveRuns := gm_set tool (gm_at 0 (w_ActiveRuns w1) tool - 1) (w_ActiveRuns w1)\<rparr>
         else w1)"

definition end_message :: "string \<Rightarrow> string \<Rightarrow> string \<Rightarrow> string" where
  "end_message reason message old =
     (if reason \<noteq> [] \<and> message \<noteq> [] then reason @ '': '' @ message
      else if message \<noteq> [] then message else if reason \<noteq> [] then reason else old)"

text \<open>Go's division of the nanoseconds by a million truncates toward zero.\<close>

definition milliseconds :: "duration \<Rightarrow> int" where
  "milliseconds d = (if d < 0 then - ((- d) div 1000000) else d div 1000000)"

definition ended :: "TestRun \<Rightarrow> Phase \<Rightarrow> string \<Rightarrow> string \<Rightarrow> time \<Rightarrow> TestRun" where
  "ended run phase reason message now =
     (let st = r_Status run;
          msg = end_message reason message (ru_Message st);
          begun = (case ru_StartedAt st of None \<Rightarrow> now | Some t \<Rightarrow> t)
      in run\<lparr>r_Status := st\<lparr>ru_Phase := phase, ru_Message := msg,
           ru_Stages := (if ru_Stages st \<noteq> [] then finishStages (ru_Stages st) phase msg now else ru_Stages st),
           ru_StartedAt := Some begun, ru_FinishedAt := Some now,
           ru_DurationMs := milliseconds (now - begun)\<rparr>\<rparr>)"

definition transitionTerminal ::
  "Deps \<Rightarrow> TestRun \<Rightarrow> Phase \<Rightarrow> string \<Rightarrow> string \<Rightarrow> TestRun M" where
  "transitionTerminal d run phase reason message =
     (if \<not> IsTerminalPhase phase
      then mfail (GoErr (''transitionTerminal called with non-terminal phase '' @ phase_string phase))
      else if run_phase run = phase then mret run
      else mbind (mmod (count_end run phase)) (\<lambda>_. mbind (mget w_Now) (\<lambda>now.
        let run' = ended run phase reason message now
        in mbind (mmod (\<lambda>w. w\<lparr>w_Durations :=
               (NormalizeTool (runTool run), ru_DurationMs (r_Status run')) # w_Durations w\<rparr>)) (\<lambda>_.
           mbind (status_update run') (\<lambda>_.
           mbind (recordLatestRun run' False) (\<lambda>_.
           mbind (teardownServices d run') (\<lambda>_. mret run')))))))"

definition MaxTestCases :: nat where "MaxTestCases = 5000"

fun worker_cases ::
  "(nat \<Rightarrow> (read_error, RunResult) result) \<Rightarrow> nat list \<Rightarrow> opaque list option" where
  "worker_cases rd [] = Some []"
| "worker_cases rd (i # is) = (case rd i of
     Inl (ReadFailed e) \<Rightarrow> None
   | Inl _ \<Rightarrow> worker_cases rd is
   | Inr res \<Rightarrow> map_option (\<lambda>cs. rr_TestCases res @ cs) (worker_cases rd is))"

definition persistTestCases :: "Deps \<Rightarrow> TestRun \<Rightarrow> bool" where
  "persistTestCases d run = (case d_SaveTestCases d of None \<Rightarrow> True
     | Some save \<Rightarrow>
         if isCompositeRun run then True
         else let store = (\<lambda>cases. if cases = [] then True else save run cases)
              in case ru_ResolvedSpec (r_Status run) of
                   Snapshot spec \<Rightarrow>
                     (case ts_Parallel spec of
                        Some p \<Rightarrow> (case d_ReadWorker d of None \<Rightarrow> True
                          | Some rw \<Rightarrow> (case worker_cases (rw run) (map wv_Index (ParallelWorkers (Some p))) of
                              None \<Rightarrow> False | Some cs \<Rightarrow> store (take MaxTestCases cs)))
                      | None \<Rightarrow> (case d_Read d run of
                          Inl (ReadFailed _) \<Rightarrow> False | Inl _ \<Rightarrow> True | Inr res \<Rightarrow> store (rr_TestCases res)))
                 | _ \<Rightarrow> (case d_Read d run of
                     Inl (ReadFailed _) \<Rightarrow> False | Inl _ \<Rightarrow> True | Inr res \<Rightarrow> store (rr_TestCases res)))"

definition persistFinished :: "Deps \<Rightarrow> TestRun \<Rightarrow> unit M" where
  "persistFinished d run =
     (if \<not> d_RunStore d \<or> r_UID run = [] then mret ()
      else mbind (mget (\<lambda>w. run_key run \<in> set (w_Persisted w))) (\<lambda>saved.
        if saved \<or> \<not> d_SaveFinished d run then mret ()
        else mbind (mmod (\<lambda>w. w\<lparr>w_History := gm_set (r_UID run) run (w_History w)\<rparr>)) (\<lambda>_.
          if \<not> persistTestCases d run then mret ()
          else mmod (\<lambda>w. w\<lparr>w_Persisted := run_key run # w_Persisted w\<rparr>))))"

definition EventMatches :: "string list \<Rightarrow> string \<Rightarrow> bool" where
  "EventMatches events event \<longleftrightarrow> events = [] \<or> event \<in> set events"

definition webhookDedupKey :: "TestRun \<Rightarrow> string" where
  "webhookDedupKey run = r_Namespace run @ ''/'' @ r_Name run @ ''#'' @ phase_string (run_phase run)"

definition dispatchWebhooks :: "Deps \<Rightarrow> TestRun \<Rightarrow> unit M" where
  "dispatchWebhooks d run =
     (if \<not> d_Webhooks d then mret ()
      else mbind (mget (\<lambda>w. webhookDedupKey run \<in> set (w_Dispatched w))) (\<lambda>sent.
        if sent then mret ()
        else mbind (mtry api_read) (\<lambda>r. case r of Inl _ \<Rightarrow> mret ()
          | Inr _ \<Rightarrow> mmod (\<lambda>w.
              let event = phase_string (run_phase run);
                  hooks = filter (\<lambda>h. wh_Namespace h = r_Namespace run \<and> EventMatches (wh_Events h) event) (w_Webhooks w)
              in w\<lparr>w_Outbox := w_Outbox w @ map (\<lambda>h. \<lparr>dl_Hook = (wh_Namespace h, wh_Name h), dl_Event = event,
                     dl_Run = run_key run, dl_UID = r_UID run\<rparr>) hooks,
                   w_Dispatched := webhookDedupKey run # w_Dispatched w\<rparr>))))"

definition terminalAndDeleteJob ::
  "Deps \<Rightarrow> TestRun \<Rightarrow> Phase \<Rightarrow> string \<Rightarrow> string \<Rightarrow> Job option \<Rightarrow> TestRun M" where
  "terminalAndDeleteJob d run phase reason message job =
     mbind (transitionTerminal d run phase reason message) (\<lambda>run'.
     mbind (persistFinished d run') (\<lambda>_.
     mbind (dispatchWebhooks d run') (\<lambda>_.
     mbind (if d_Logs d then mbind (stop_tailer (tailerID run')) (\<lambda>_. stop_tailer (fetchTailerID run'))
            else mret ()) (\<lambda>_.
     mbind (case job of None \<Rightarrow> mret () | Some j \<Rightarrow> log_only (deleteJobBackground j)) (\<lambda>_.
     mret run')))))"

section \<open>Aborting\<close>

definition abortStatus :: "AbortRequest \<Rightarrow> string \<times> string" where
  "abortStatus req =
     ((if ab_Reason req = ''Concurrency'' then ''AbortedByConcurrency''
       else if ab_Reason req = ''Parent'' then ''AbortedByParent'' else ''AbortedByUser''),
      (if ab_RequestedBy req \<noteq> []
       then (if ab_Message req \<noteq> [] then ab_Message req @ '' '' else []) @ ''(requested by '' @ ab_RequestedBy req @ '')''
       else ab_Message req))"

definition requestAbort :: "TestRun \<Rightarrow> AbortRequest \<Rightarrow> unit M" where
  "requestAbort run req =
     (if rs_Abort (r_Spec run) \<noteq> None \<or> IsTerminalPhase (run_phase run) then mret ()
      else ignore_notfound (patch_abort (run_key run) req))"

definition abortRun :: "TestRun \<Rightarrow> TestRun \<Rightarrow> unit M" where
  "abortRun prior by_run = requestAbort prior \<lparr>ab_Reason = ''Concurrency'',
     ab_Message = ''superseded by a Replace-policy run'', ab_RequestedBy = r_Name by_run\<rparr>"

end
