(* ===== verification/Services.thy ===== *)
theory Services
  imports RunCore
begin

text \<open>
  Starting the services of a run, \<open>src/internal/controller/services.go\<close>: \<open>ensureServices\<close> creates the
  headless Services and the replica Pods, ends the run when a replica cannot become ready, and
  reports whether all are ready. Its \<open>done\<close> result is the second component: \<open>Some requeue\<close> when
  the caller must return, \<open>None\<close> to go on.
\<close>

definition DefaultServiceTimeout :: duration where "DefaultServiceTimeout = 5 * 60 * 1000000000"

definition servicePoll :: duration where "servicePoll = 2 * 1000000000"

definition unschedulableTimeout :: "Deps \<Rightarrow> duration" where
  "unschedulableTimeout d =
     (if 0 < d_UnschedulableTimeout d then d_UnschedulableTimeout d else DefaultUnschedulableTimeout)"

definition serviceFailure :: "Pod \<Rightarrow> time \<Rightarrow> duration \<Rightarrow> string" where
  "serviceFailure pod now unschedulableFor =
     (if pd_Phase pod = ''Failed'' \<or> pd_Phase pod = ''Succeeded''
      then ''replica exited (pod '' @ to_lower (pd_Phase pod) @ '')''
      else case AnalyzePod (Some pod) now unschedulableFor of
        Some f \<Rightarrow> if_Message f
      | None \<Rightarrow>
          if list_ex (\<lambda>cs. case cst_Waiting (cs_State cs) of None \<Rightarrow> False
               | Some w \<Rightarrow> wt_Reason w = ''CrashLoopBackOff'') (pd_ContainerStatuses pod)
          then ''replica keeps crashing (CrashLoopBackOff)'' else [])"

definition podReady :: "Pod \<Rightarrow> bool" where
  "podReady pod = (case find (\<lambda>c. pc_Type c = ''Ready'') (pd_Conditions pod) of
     None \<Rightarrow> False | Some c \<Rightarrow> pc_Status c = ''True'')"

definition serviceTimeout :: "TestSpec \<Rightarrow> string \<Rightarrow> duration" where
  "serviceTimeout spec name = (case gm_get (ts_Services spec) name of None \<Rightarrow> DefaultServiceTimeout
     | Some svc \<Rightarrow> (case sv_Timeout svc of None \<Rightarrow> DefaultServiceTimeout
         | Some t \<Rightarrow> if 0 < t then t else DefaultServiceTimeout))"

definition tailServiceLogs :: "Deps \<Rightarrow> TestRun \<Rightarrow> TestSpec \<Rightarrow> string \<Rightarrow> Pod \<Rightarrow> unit M" where
  "tailServiceLogs d run spec service pod =
     (if \<not> d_Logs d \<or> \<not> (case gm_get (ts_Services spec) service of None \<Rightarrow> False | Some s \<Rightarrow> sv_Logs s)
         \<or> pd_Phase pod \<noteq> ''Running'' then mret ()
      else ensure_tailer (serviceTailerID run (pd_Name pod)))"

definition ReasonServiceNotReady :: string where "ReasonServiceNotReady = ''ServiceNotReady''"

text \<open>The loop over the replicas: the run ended (\<open>Inl\<close>), or the services still waited for.\<close>

fun ensure_replicas ::
  "Deps \<Rightarrow> TestRun \<Rightarrow> TestSpec \<Rightarrow> time \<Rightarrow> ServiceReplica list \<Rightarrow> string list \<Rightarrow> (TestRun + string list) M" where
  "ensure_replicas d run spec now [] waitingFor = mret (Inr waitingFor)"
| "ensure_replicas d run spec now (rep # reps) waitingFor =
     mbind (get_pod (pd_Namespace (rep_Pod rep), pd_Name (rep_Pod rep))) (\<lambda>p. case p of
       None \<Rightarrow> mbind (ignore_exists (create_pod (rep_Pod rep))) (\<lambda>_.
         ensure_replicas d run spec now reps (waitingFor @ [rep_Service rep]))
     | Some pod \<Rightarrow>
         let msg = serviceFailure pod now (unschedulableTimeout d)
         in if msg \<noteq> [] then
              mbind (transitionTerminal d run PhaseError ReasonServiceNotReady
                (''service '' @ rep_Service rep @ '' ('' @ pd_Name pod @ ''): '' @ msg)) (\<lambda>r. mret (Inl r))
            else mbind (tailServiceLogs d run spec (rep_Service rep) pod) (\<lambda>_.
              if podReady pod then ensure_replicas d run spec now reps waitingFor
              else let timeout = serviceTimeout spec (rep_Service rep)
                   in if timeout < now - pd_CreationTimestamp pod then
                        mbind (transitionTerminal d run PhaseError ReasonServiceNotReady
                          (''service '' @ rep_Service rep @ '': replica '' @ pd_Name pod @ '' not ready after '' @
                           dur_string timeout)) (\<lambda>r. mret (Inl r))
                      else ensure_replicas d run spec now reps (waitingFor @ [rep_Service rep])))"

definition ensureServices :: "Deps \<Rightarrow> TestRun \<Rightarrow> TestSpec \<Rightarrow> (TestRun \<times> duration option) M" where
  "ensureServices d run spec =
     (let compiled = CompileServices spec run
      in mbind (mfor (\<lambda>svc. ignore_exists (create_service (hs_Namespace svc, hs_Name svc)))
           (cmp_Services compiled)) (\<lambda>_.
         mbind (mget w_Now) (\<lambda>now.
         mbind (ensure_replicas d run spec now (cmp_Replicas compiled) []) (\<lambda>r. case r of
           Inl run' \<Rightarrow> mret (run', Some 0)
         | Inr waitingFor \<Rightarrow>
             if waitingFor = [] then mret (run, None)
             else let msg = ''waiting for services: '' @ join '', '' (remdups_adj (sort waitingFor))
                  in if ru_Message (r_Status run) \<noteq> msg then
                       let run' = set_status (ru_Message_update (\<lambda>_. msg)) run
                       in mbind (status_update run') (\<lambda>_. mret (run', Some servicePoll))
                     else mret (run, Some servicePoll)))))"

end
