(* ===== verification/Parallel.thy ===== *)
theory Parallel
  imports Services
begin

text \<open>
  Parallel runs, \<open>src/internal/controller/parallel.go\<close>: one Job per worker, each worker's verdict
  folded into the run's status, the aggregate when all have finished. The local copy of the run is
  passed along and returned, as Go mutates it in place; the finished workers' Jobs are deleted
  only after the status that records their verdicts was written.
\<close>

definition parallelPoll :: duration where "parallelPoll = 5 * 1000000000"

definition WorkerStepKey :: "nat \<Rightarrow> string" where "WorkerStepKey i = ''worker-'' @ utoa i"

definition ReasonOrphanJobMissing :: string where "ReasonOrphanJobMissing = ''OrphanJobMissing''"

definition ReasonCompileError :: string where "ReasonCompileError = ''CompileError''"

definition ReasonMalformedResult :: string where "ReasonMalformedResult = ''MalformedResult''"

definition workerTailerID :: "TestRun \<Rightarrow> nat \<Rightarrow> string" where
  "workerTailerID run i = tailerID run @ ''/workers/'' @ utoa i"

definition workerFetchTailerID :: "TestRun \<Rightarrow> nat \<Rightarrow> string" where
  "workerFetchTailerID run i = workerTailerID run i @ ''/fetch''"

definition workerStages :: "TestRun \<Rightarrow> StepResult \<Rightarrow> Pod option \<Rightarrow> RunResult option \<Rightarrow> Stage list" where
  "workerStages run step pod res = deriveStages \<lparr>si_queuedAt = sr_QueuedAt step, si_pod = pod,
     si_fetchName = fetchNameOf run, si_tool = toolOf pod,
     si_toolFinishedAt = (case res of None \<Rightarrow> None | Some r \<Rightarrow> rr_ToolFinishedAt r),
     si_toolPhase = (case res of None \<Rightarrow> PhaseNone | Some r \<Rightarrow> rr_Phase r)\<rparr>"

definition step_of :: "TestRun \<Rightarrow> string \<Rightarrow> StepResult" where
  "step_of run key = gm_at zero_StepResult (ru_Steps (r_Status run)) key"

definition set_step :: "string \<Rightarrow> StepResult \<Rightarrow> TestRun \<Rightarrow> TestRun" where
  "set_step key step run = set_status (ru_Steps_update (gm_set key step)) run"

definition zero_RunResult :: RunResult where
  "zero_RunResult = \<lparr>rr_Phase = PhaseNone, rr_ErrorMessage = [], rr_Metrics = [], rr_TestCounts = None,
     rr_Content = None, rr_Attempts = [], rr_Artifacts = [], rr_ToolFinishedAt = None, rr_TestCases = []\<rparr>"

definition error_result :: "string \<Rightarrow> RunResult" where
  "error_result msg = zero_RunResult\<lparr>rr_Phase := PhaseError, rr_ErrorMessage := msg\<rparr>"

definition add_counts :: "TestCounts option \<Rightarrow> TestCounts option \<Rightarrow> TestCounts option" where
  "add_counts acc tc = (case tc of None \<Rightarrow> acc
     | Some c \<Rightarrow> (let t = (case acc of None \<Rightarrow> \<lparr>tc_Total = 0, tc_Passed = 0, tc_Failed = 0, tc_Skipped = 0\<rparr>
           | Some t \<Rightarrow> t)
         in Some \<lparr>tc_Total = tc_Total t + tc_Total c, tc_Passed = tc_Passed t + tc_Passed c,
              tc_Failed = tc_Failed t + tc_Failed c, tc_Skipped = tc_Skipped t + tc_Skipped c\<rparr>))"

definition finishWorker :: "time \<Rightarrow> nat \<Rightarrow> RunResult \<Rightarrow> TestRun \<Rightarrow> TestRun" where
  "finishWorker now i res run =
     (let key = WorkerStepKey i; step = step_of run key;
          step' = step\<lparr>sr_Phase := StepPhaseFromPhase (rr_Phase res), sr_Message := rr_ErrorMessage res,
            sr_FinishedAt := Some now, sr_PodIP := [],
            sr_StartedAt := (if sr_StartedAt step = None then Some now else sr_StartedAt step),
            sr_Stages := (if sr_Stages step \<noteq> [] then finishStages (sr_Stages step) (rr_Phase res) (rr_ErrorMessage res) now
                          else sr_Stages step)\<rparr>
      in set_status (\<lambda>s. s\<lparr>ru_Steps := gm_set key step' (ru_Steps s),
           ru_Content := (if ru_Content s = None then rr_Content res else ru_Content s),
           ru_TestCounts := add_counts (ru_TestCounts s) (rr_TestCounts res),
           ru_ArtifactRefs := ru_ArtifactRefs s @
             map (\<lambda>a. a\<lparr>ar_Path := ''workers/'' @ utoa i @ ''/artifacts/'' @ ar_Path a\<rparr>) (rr_Artifacts res)\<rparr>) run)"

definition endWorker :: "Deps \<Rightarrow> TestRun \<Rightarrow> nat \<Rightarrow> RunResult \<Rightarrow> TestRun M" where
  "endWorker d run i res =
     mbind (mget w_Now) (\<lambda>now.
     mbind (if d_Logs d then mbind (stop_tailer (workerTailerID run i)) (\<lambda>_. stop_tailer (workerFetchTailerID run i))
            else mret ()) (\<lambda>_.
     mret (finishWorker now i res run)))"

definition workerResult ::
  "Deps \<Rightarrow> TestRun \<Rightarrow> nat \<Rightarrow> Job \<Rightarrow> Pod option \<Rightarrow> (string, RunResult) result" where
  "workerResult d run i job pod =
     (case (case d_ReadWorker d of None \<Rightarrow> Inl ErrResultNotFound | Some rw \<Rightarrow> rw run i) of
        Inr res \<Rightarrow> Inr res
      | Inl (ErrResultMalformed e) \<Rightarrow> Inr (error_result (ReasonMalformedResult @ '': '' @ e))
      | Inl ErrResultNotFound \<Rightarrow>
          (case ResultFromTermination (d_Unmarshal d) pod of
             Some res \<Rightarrow> Inr res
           | None \<Rightarrow> (case FallbackPhaseFromJobFailure (Some job) pod of (phase, reason, msg) \<Rightarrow>
               Inr (zero_RunResult\<lparr>rr_Phase := phase, rr_ErrorMessage := reason @ '': '' @ msg\<rparr>)))
      | Inl (ReadFailed e) \<Rightarrow> Inl e)"

definition findPodForJob :: "Job \<Rightarrow> Pod option M" where
  "findPodForJob job = mbind (mtry api_read) (\<lambda>r. case r of Inl _ \<Rightarrow> mret None
     | Inr _ \<Rightarrow> (case gm_get (j_Labels job) LabelRunID of None \<Rightarrow> mret None
         | Some runID \<Rightarrow> mget (\<lambda>w.
             let pods = filter (\<lambda>p. pd_Namespace p = j_Namespace job \<and> gm_get (pd_Labels p) LabelRunID = Some runID \<and>
                   (case gm_get (j_Labels job) LabelWorker of None \<Rightarrow> True
                    | Some wk \<Rightarrow> gm_get (pd_Labels p) LabelWorker = Some wk)) (map snd (w_Pods w))
             in case pods of [] \<Rightarrow> None
                | p # ps \<Rightarrow> Some (fold (\<lambda>q newest. if pd_CreationTimestamp newest < pd_CreationTimestamp q then q else newest)
                    ps p))))"

definition ensureFetchTailer :: "Deps \<Rightarrow> TestRun \<Rightarrow> Pod option \<Rightarrow> string \<Rightarrow> unit M" where
  "ensureFetchTailer d run pod tid = (case pod of None \<Rightarrow> mret ()
     | Some p \<Rightarrow>
         if \<not> d_Logs d \<or> fetchNameOf run = [] then mret ()
         else if fst (startEnd (containerStatus (pd_InitContainerStatuses p) ContainerContentFetcher)) = None then mret ()
         else ensure_tailer tid)"

definition createWorker :: "Deps \<Rightarrow> TestRun \<Rightarrow> TestSpec \<Rightarrow> WorkerVars \<Rightarrow> TestRun M" where
  "createWorker d run spec wk =
     mbind (mget w_Now) (\<lambda>now. case CompileWorker (d_CompileTarget d run) spec run wk of
       Inl err \<Rightarrow> mret (finishWorker now (wv_Index wk) (error_result (ReasonCompileError @ '': '' @ err)) run)
     | Inr (job, aux) \<Rightarrow>
         mbind (mfor (\<lambda>k. ignore_exists (create_aux k)) aux) (\<lambda>_.
         mbind (mtry (ignore_exists (create_job job))) (\<lambda>r. case r of
           Inl (GoAPI (AInvalid e)) \<Rightarrow> mret (finishWorker now (wv_Index wk)
             (error_result (ReasonCompileError @ '': Job rejected by the API server: '' @ e)) run)
         | Inl e \<Rightarrow> mfail e
         | Inr _ \<Rightarrow>
             let step = zero_StepResult\<lparr>sr_Phase := StepPhaseQueued, sr_QueuedAt := Some now,
                   sr_Params := maps_copy (maps_copy [] (wv_Matrix wk)) (wv_Shard wk)\<rparr>
             in mret (set_step (WorkerStepKey (wv_Index wk))
                  (step\<lparr>sr_Stages := workerStages run step None None\<rparr>) run))))"

definition terminal_step :: "StepPhase \<Rightarrow> bool" where
  "terminal_step p \<longleftrightarrow> p \<in> {StepPhasePassed, StepPhaseFailed, StepPhaseError, StepPhaseAborted}"

text \<open>What a running worker's pod adds to its step: phase, start, address.\<close>

definition running_step :: "time \<Rightarrow> Pod \<Rightarrow> StepResult \<Rightarrow> StepResult" where
  "running_step now pod step =
     (let s1 = (if sr_Phase step \<noteq> StepPhaseRunning
                then step\<lparr>sr_Phase := StepPhaseRunning, sr_StartedAt := Some now\<rparr> else step)
      in if pd_PodIP pod \<noteq> [] \<and> pd_PodIP pod \<noteq> sr_PodIP s1 then s1\<lparr>sr_PodIP := pd_PodIP pod\<rparr> else s1)"

text \<open>A worker whose Job exists.\<close>

definition inspectWorker ::
  "Deps \<Rightarrow> TestRun \<Rightarrow> WorkerVars \<Rightarrow> Job \<Rightarrow> (bool \<times> Job option \<times> TestRun) M" where
  "inspectWorker d run wk job =
     (let i = wv_Index wk; key = WorkerStepKey i
      in mbind (findPodForJob job) (\<lambda>pod.
         mbind (ensureFetchTailer d run pod (workerFetchTailerID run i)) (\<lambda>_.
         mbind (mget w_Now) (\<lambda>now.
         let step0 = step_of run key;
             live = workerStages run step0 pod None;
             changed = (pod \<noteq> None \<and> live \<noteq> sr_Stages step0);
             step = (if changed then step0\<lparr>sr_Stages := live\<rparr> else step0);
             run1 = (if changed then set_step key step run else run)
         in case AnalyzePod pod now (unschedulableTimeout d) of
              Some f \<Rightarrow> mbind (endWorker d run1 i (error_result (if_Reason f @ '': '' @ if_Message f))) (\<lambda>r.
                mret (True, Some job, r))
            | None \<Rightarrow>
                if InspectJob (Some job) \<noteq> JobStillRunning then
                  (case workerResult d run1 i job pod of Inl e \<Rightarrow> mfail (GoErr e)
                   | Inr res \<Rightarrow>
                       let run2 = set_step key (step\<lparr>sr_Stages := workerStages run1 step pod (Some res)\<rparr>) run1
                       in mbind (endWorker d run2 i res) (\<lambda>r. mret (True, Some job, r)))
                else (case pod of
                    Some p \<Rightarrow>
                      if IsPodRunning pod then
                        mbind (if d_Logs d then ensure_tailer (workerTailerID run i) else mret ()) (\<lambda>_.
                        let step' = running_step now p step
                        in mret (False, None, if step' = step then run1 else set_step key step' run1))
                      else mret (False, None, run1)
                  | None \<Rightarrow> mret (False, None, run1))))))"

definition exists_live :: "Deps \<Rightarrow> nsname \<Rightarrow> (World \<Rightarrow> bool) \<Rightarrow> bool M" where
  "exists_live d key f = (if \<not> d_APIReader d then mret False else mbind api_read (\<lambda>_. mget f))"

definition reconcileWorker ::
  "Deps \<Rightarrow> TestRun \<Rightarrow> TestSpec \<Rightarrow> WorkerVars \<Rightarrow> (bool \<times> Job option \<times> TestRun) M" where
  "reconcileWorker d run spec wk =
     (let i = wv_Index wk; key = WorkerStepKey i; step = step_of run key;
          jobKey = (r_Namespace run, WorkerJobName run i)
      in if terminal_step (sr_Phase step) then mret (True, None, run)
         else mbind (get_job jobKey) (\<lambda>j. case j of
           Some job \<Rightarrow> inspectWorker d run wk job
         | None \<Rightarrow>
             if sr_Phase step \<noteq> StepPhaseNone then
               mbind (mtry (exists_live d jobKey (\<lambda>w. gm_has (w_Jobs w) jobKey))) (\<lambda>live.
                 if live = Inr True then mret (False, None, run)
                 else mbind (mget w_Now) (\<lambda>now. mret (True, None, finishWorker now i
                   (error_result (ReasonOrphanJobMissing @ '': worker Job was deleted before it finished'')) run)))
             else mbind (createWorker d run spec wk) (\<lambda>r. mret (False, None, r))))"

fun reconcile_workers ::
  "Deps \<Rightarrow> TestSpec \<Rightarrow> WorkerVars list \<Rightarrow> TestRun \<Rightarrow> nat \<Rightarrow> Job list \<Rightarrow> (TestRun \<times> nat \<times> Job list) M" where
  "reconcile_workers d spec [] run doneCount jobs = mret (run, doneCount, jobs)"
| "reconcile_workers d spec (wk # wks) run doneCount jobs =
     mbind (reconcileWorker d run spec wk) (\<lambda>(finished, job, run').
       reconcile_workers d spec wks run' (if finished then Suc doneCount else doneCount)
         (case job of None \<Rightarrow> jobs | Some j \<Rightarrow> jobs @ [j]))"

definition count_workers :: "TestRun \<Rightarrow> nat \<Rightarrow> StepPhase set \<Rightarrow> nat" where
  "count_workers run n ps = length (filter (\<lambda>i. sr_Phase (step_of run (WorkerStepKey i)) \<in> ps) [0..<n])"

definition aggregateWorkers :: "TestRun \<Rightarrow> nat \<Rightarrow> Phase \<times> string" where
  "aggregateWorkers run n =
     (let errs = count_workers run n {StepPhaseError};
          fails = count_workers run n {StepPhaseFailed, StepPhaseAborted}
      in if 0 < errs then (PhaseError, utoa errs @ '' of '' @ utoa n @ '' workers errored, '' @ utoa fails @ '' failed'')
         else if 0 < fails then (PhaseFailed, utoa fails @ '' of '' @ utoa n @ '' workers failed'')
         else (PhasePassed, ''all '' @ utoa n @ '' workers passed''))"

definition deleteWorkerJobs :: "Job list \<Rightarrow> unit M" where
  "deleteWorkerJobs jobs = mfor (\<lambda>j. log_only (deleteJobBackground j)) jobs"

definition promote_running :: "time \<Rightarrow> TestRun \<Rightarrow> TestRun" where
  "promote_running now run =
     (if run_phase run \<noteq> PhaseRunning then set_status (\<lambda>s. s\<lparr>ru_Phase := PhaseRunning, ru_Message := [],
        ru_StartedAt := (if ru_StartedAt s = None then Some now else ru_StartedAt s)\<rparr>) run else run)"

definition reconcileParallel :: "Deps \<Rightarrow> TestRun \<Rightarrow> duration M" where
  "reconcileParallel d run = (case ru_ResolvedSpec (r_Status run) of
     Snapshot spec \<Rightarrow>
       mbind (if ts_Services spec \<noteq> [] then ensureServices d run spec else mret (run, None)) (\<lambda>(run0, stop).
       case stop of Some requeue \<Rightarrow> mret requeue
       | None \<Rightarrow>
         (let workers = ParallelWorkers (ts_Parallel spec)
          in mbind (reconcile_workers d spec workers run0 0 []) (\<lambda>(run1, finished, jobs).
             mbind (mget w_Now) (\<lambda>now.
             let run2 = promote_running now run1
             in if finished < length workers then
                  mbind (if r_Status run2 \<noteq> r_Status run0 then status_update run2 else mret ()) (\<lambda>_.
                  mbind (deleteWorkerJobs jobs) (\<lambda>_. mret parallelPoll))
                else let (phase, msg) = aggregateWorkers run2 (length workers)
                     in mbind (terminalAndDeleteJob d run2 phase [] msg None) (\<lambda>_.
                        mbind (deleteWorkerJobs jobs) (\<lambda>_. mret 0))))))
   | NoSnapshot \<Rightarrow> mbind (transitionTerminal d run PhaseError ReasonCompileError
       ''resolvedSpec unmarshal: unexpected end of JSON input'') (\<lambda>_. mret 0)
   | BadSnapshot e \<Rightarrow> mbind (transitionTerminal d run PhaseError ReasonCompileError
       (''resolvedSpec unmarshal: '' @ e)) (\<lambda>_. mret 0))"

definition stopWorkers :: "Deps \<Rightarrow> TestRun \<Rightarrow> unit M" where
  "stopWorkers d run = (case ru_ResolvedSpec (r_Status run) of
     Snapshot spec \<Rightarrow>
       mfor (\<lambda>wk. mbind (if d_Logs d then mbind (stop_tailer (workerTailerID run (wv_Index wk))) (\<lambda>_.
                 stop_tailer (workerFetchTailerID run (wv_Index wk))) else mret ()) (\<lambda>_.
               mbind (mtry (get_job (r_Namespace run, WorkerJobName run (wv_Index wk)))) (\<lambda>j. case j of
                 Inr (Some job) \<Rightarrow> log_only (deleteJobBackground job) | _ \<Rightarrow> mret ())))
         (ParallelWorkers (ts_Parallel spec))
   | _ \<Rightarrow> mret ())"

section \<open>Properties\<close>

lemma count_workers_0: "count_workers run n ps = 0 \<longleftrightarrow> (\<forall>i < n. sr_Phase (step_of run (WorkerStepKey i)) \<notin> ps)"
  by (auto simp: count_workers_def filter_empty_conv)

lemma WorkerStepKey_inject [simp]: "WorkerStepKey i = WorkerStepKey j \<longleftrightarrow> i = j"
  by (simp add: WorkerStepKey_def)

text \<open>
  C32. The verdict of a parallel run: with every worker finished, it passes exactly when every
  worker passed, it is an error exactly when some worker errored, and failed otherwise (aborted
  workers count as failed).
\<close>

theorem aggregateWorkers_verdict:
  assumes "\<forall>i < n. terminal_step (sr_Phase (step_of run (WorkerStepKey i)))"
  shows "(fst (aggregateWorkers run n) = PhasePassed \<longleftrightarrow>
      (\<forall>i < n. sr_Phase (step_of run (WorkerStepKey i)) = StepPhasePassed)) \<and>
    (fst (aggregateWorkers run n) = PhaseError \<longleftrightarrow>
      (\<exists>i < n. sr_Phase (step_of run (WorkerStepKey i)) = StepPhaseError)) \<and>
    fst (aggregateWorkers run n) \<in> {PhasePassed, PhaseError, PhaseFailed}"
  using assms count_workers_0 [of run n "{StepPhaseError}"] count_workers_0 [of run n "{StepPhaseFailed, StepPhaseAborted}"]
  by (auto simp: aggregateWorkers_def Let_def terminal_step_def)

definition two_workers :: "StepPhase \<Rightarrow> TestRun" where
  "two_workers p = set_step (WorkerStepKey 1) (zero_StepResult\<lparr>sr_Phase := p\<rparr>)
     (set_step (WorkerStepKey 0) (zero_StepResult\<lparr>sr_Phase := StepPhasePassed\<rparr>) (sample_run ''r1''))"

lemma two_workers_steps [simp]:
  "step_of (two_workers p) (WorkerStepKey 0) = zero_StepResult\<lparr>sr_Phase := StepPhasePassed\<rparr>"
  "step_of (two_workers p) (WorkerStepKey (Suc 0)) = zero_StepResult\<lparr>sr_Phase := p\<rparr>"
  by (simp_all add: two_workers_def set_step_def step_of_def gm_at_def)

theorem aggregateWorkers_verdict_witness:
  "fst (aggregateWorkers (two_workers StepPhaseError) 2) = PhaseError"
proof -
  have "\<forall>i < 2. terminal_step (sr_Phase (step_of (two_workers StepPhaseError) (WorkerStepKey i)))"
    by (simp add: less_2_cases_iff terminal_step_def)
  moreover have "\<exists>i < 2. sr_Phase (step_of (two_workers StepPhaseError) (WorkerStepKey i)) = StepPhaseError"
    by (rule exI [of _ 1]) simp
  ultimately show ?thesis using aggregateWorkers_verdict [of 2 "two_workers StepPhaseError"] by blast
qed

text \<open>
  Recording a worker's verdict touches only what is its own: its step gets the verdict, the
  other workers' steps and the run's phase, snapshot and start stay, the test counts add up, and
  its artifacts are appended below \<open>workers/<i>/artifacts/\<close>.
\<close>

theorem finishWorker_frame:
  "sr_Phase (step_of (finishWorker now i res run) (WorkerStepKey i)) = StepPhaseFromPhase (rr_Phase res) \<and>
   (\<forall>j. j \<noteq> i \<longrightarrow> step_of (finishWorker now i res run) (WorkerStepKey j) = step_of run (WorkerStepKey j)) \<and>
   run_phase (finishWorker now i res run) = run_phase run \<and>
   ru_ResolvedSpec (r_Status (finishWorker now i res run)) = ru_ResolvedSpec (r_Status run) \<and>
   ru_TestCounts (r_Status (finishWorker now i res run)) = add_counts (ru_TestCounts (r_Status run)) (rr_TestCounts res) \<and>
   length (ru_ArtifactRefs (r_Status (finishWorker now i res run))) =
     length (ru_ArtifactRefs (r_Status run)) + length (rr_Artifacts res)"
  by (simp add: finishWorker_def step_of_def Let_def gm_at_def)

theorem finishWorker_frame_witness:
  "sr_Phase (step_of (finishWorker 7 1 (error_result ''x'') (two_workers StepPhaseRunning)) (WorkerStepKey 0)) = StepPhasePassed"
  using finishWorker_frame [of 7 1 "error_result ''x''" "two_workers StepPhaseRunning"] by simp

end
