(* ===== verification/Composite.thy ===== *)
theory Composite
  imports Parallel
begin

text \<open>
  Composite runs, \<open>src/internal/controller/composite.go\<close>: the parent creates one child TestRun per
  expected child of the step it is at, retries failed children, aggregates a step once all its
  children ended, and ends itself after the last step. A nil \<open>step.Execute\<close> dereferenced by
  \<open>ensureStepChildren\<close> is the error \<open>GoErr\<close> of a panic. \<open>fmt.Errorf\<close> with \<open>%w\<close> keeps the API error
  it wraps, which is what the callers look at.
\<close>

definition compositeRequeue :: duration where "compositeRequeue = 3 * 1000000000"

record expectedChild =
  ec_Key :: string
  ec_Name :: string
  ec_StepIdx :: nat
  ec_TestRef :: string
  ec_Index :: int
  ec_Count :: int
  ec_Config :: "(string, string) gomap"

definition childName :: "TestRun \<Rightarrow> nat \<Rightarrow> string \<Rightarrow> int \<Rightarrow> string" where
  "childName parent stepIdx testRef index =
     Bounded (r_Name parent @ ''-s'' @ utoa stepIdx @ ''-'' @ testRef @ ''-'' @ itoa index)"

definition expectedChildren :: "TestRun \<Rightarrow> Step \<Rightarrow> nat \<Rightarrow> expectedChild list" where
  "expectedChildren parent step stepIdx = (case st_Execute step of None \<Rightarrow> []
     | Some ex \<Rightarrow> concat (map (\<lambda>ref.
         let count = (if et_Count ref = 0 then 1 else et_Count ref)
         in map (\<lambda>n. \<lparr>ec_Key = ''s'' @ utoa stepIdx @ ''/'' @ et_Name ref @ ''['' @ itoa (int n) @ '']'',
              ec_Name = childName parent stepIdx (et_Name ref) (int n), ec_StepIdx = stepIdx,
              ec_TestRef = et_Name ref, ec_Index = int n, ec_Count = count,
              ec_Config = RenderChildConfig (et_Config ref) (int n) count\<rparr>) [0..<nat count]) (se_Tests ex)))"

definition listChildRuns :: "Deps \<Rightarrow> TestRun \<Rightarrow> TestRun list M" where
  "listChildRuns d run = mbind api_read (\<lambda>_. mget (\<lambda>w. sort_key r_Name
     (filter (\<lambda>c. r_Namespace c = r_Namespace run \<and> gm_get (r_Labels c) LabelParentRun = Some (r_Name run) \<and>
        (d_APIReader d \<or> run_key c \<notin> set (w_Lag w))) (map snd (w_Runs w)))))"

definition kidsForStep :: "TestRun list \<Rightarrow> nat \<Rightarrow> TestRun list" where
  "kidsForStep kids stepIdx = filter (\<lambda>r. gm_at [] (r_Labels r) LabelStep = utoa stepIdx) kids"

definition findChild :: "TestRun list \<Rightarrow> string \<Rightarrow> TestRun option" where
  "findChild kids name = find (\<lambda>k. r_Name k = name) kids"

definition stepRetries :: "Step \<Rightarrow> int" where
  "stepRetries step = (case st_Retry step of None \<Rightarrow> 0 | Some r \<Rightarrow> rp_Count r)"

definition attemptName :: "expectedChild \<Rightarrow> nat \<Rightarrow> string" where
  "attemptName e n = (if n = 0 then ec_Name e else Bounded (ec_Name e @ ''-r'' @ utoa n))"

text \<open>The downward loop of \<open>latestAttempt\<close>: the tries \<open>m - 1\<close>, ..., \<open>0\<close>.\<close>

fun latest_below :: "TestRun list \<Rightarrow> expectedChild \<Rightarrow> nat \<Rightarrow> (TestRun \<times> nat) option" where
  "latest_below kids e 0 = None"
| "latest_below kids e (Suc n) = (case findChild kids (attemptName e n) of
     Some c \<Rightarrow> Some (c, n) | None \<Rightarrow> latest_below kids e n)"

definition latestAttempt :: "TestRun list \<Rightarrow> expectedChild \<Rightarrow> int \<Rightarrow> (TestRun \<times> nat) option" where
  "latestAttempt kids e retries = latest_below kids e (nat (retries + 1))"

record childRetry =
  cr_child :: expectedChild
  cr_attempt :: nat

datatype child_state = ChildOpen | ChildRetry childRetry | ChildDone ChildOutcome

definition child_state :: "TestRun list \<Rightarrow> int \<Rightarrow> bool \<Rightarrow> expectedChild \<Rightarrow> child_state" where
  "child_state kids retries negative e = (case latestAttempt kids e retries of
     None \<Rightarrow> ChildOpen
   | Some (child, n) \<Rightarrow>
       if \<not> IsTerminalPhase (run_phase child) then ChildOpen
       else if int n < retries \<and> ChildNeedsRetry (run_phase child) negative
         then ChildRetry \<lparr>cr_child = e, cr_attempt = n + 1\<rparr>
       else ChildDone \<lparr>co_Phase = run_phase child\<rparr>)"

fun gather_loop ::
  "(expectedChild \<Rightarrow> child_state) \<Rightarrow> expectedChild list \<Rightarrow> ChildOutcome list \<Rightarrow> bool \<Rightarrow> childRetry list \<Rightarrow>
   ChildOutcome list \<times> bool \<times> childRetry list" where
  "gather_loop st [] outcomes finished again =
     (if \<not> finished then ([], False, again) else (outcomes, True, []))"
| "gather_loop st (e # es) outcomes finished again = (case st e of
     ChildOpen \<Rightarrow> gather_loop st es outcomes False again
   | ChildRetry r \<Rightarrow> gather_loop st es outcomes False (again @ [r])
   | ChildDone oc \<Rightarrow> gather_loop st es (outcomes @ [oc]) finished again)"

definition gatherOutcomes ::
  "TestRun list \<Rightarrow> expectedChild list \<Rightarrow> int \<Rightarrow> bool \<Rightarrow> ChildOutcome list \<times> bool \<times> childRetry list" where
  "gatherOutcomes kids expected retries negative =
     gather_loop (child_state kids retries negative) expected [] True []"

definition child_run :: "TestRun \<Rightarrow> nat \<Rightarrow> expectedChild \<Rightarrow> nat \<Rightarrow> TestRun" where
  "child_run parent stepIdx e attempt = \<lparr>r_Name = attemptName e attempt, r_Namespace = r_Namespace parent, r_UID = [],
     r_Labels = [(LabelParentRun, r_Name parent), (LabelStep, utoa stepIdx), (LabelExecIndex, itoa (ec_Index e)),
       (LabelAttempt, utoa attempt)],
     r_CreationTimestamp = 0, r_DeletionTimestamp = None, r_Finalizers = [],
     r_Spec = \<lparr>rs_TestRef = ec_TestRef e, rs_Config = ec_Config e, rs_Pod = None, rs_Tags = [],
       rs_Source = rs_Source (r_Spec parent), rs_Abort = None, rs_NotBefore = None\<rparr>,
     r_Status = zero_TestRunStatus\<rparr>"

definition createChild :: "TestRun \<Rightarrow> nat \<Rightarrow> expectedChild \<Rightarrow> nat \<Rightarrow> unit M" where
  "createChild parent stepIdx e attempt = ignore_exists (create_run (child_run parent stepIdx e attempt))"

fun ensure_children ::
  "TestRun \<Rightarrow> nat \<Rightarrow> int \<Rightarrow> TestRun list \<Rightarrow> int \<Rightarrow> int \<Rightarrow> expectedChild list \<Rightarrow> unit M" where
  "ensure_children parent stepIdx retries kids cap inFlight [] = mret ()"
| "ensure_children parent stepIdx retries kids cap inFlight (e # es) =
     (if cap \<le> inFlight then mret ()
      else if latestAttempt kids e retries \<noteq> None then ensure_children parent stepIdx retries kids cap inFlight es
      else mbind (createChild parent stepIdx e 0) (\<lambda>_.
        ensure_children parent stepIdx retries kids cap (inFlight + 1) es))"

definition in_flight :: "TestRun list \<Rightarrow> int" where
  "in_flight kids = int (length (filter (\<lambda>k. \<not> IsTerminalPhase (run_phase k)) kids))"

definition step_cap :: "StepExecute \<Rightarrow> expectedChild list \<Rightarrow> int" where
  "step_cap ex expected = (if se_Parallelism ex = 0 then int (length expected) else se_Parallelism ex)"

definition ensureStepChildren ::
  "TestRun \<Rightarrow> nat \<Rightarrow> Step \<Rightarrow> TestRun list \<Rightarrow> expectedChild list \<Rightarrow> unit M" where
  "ensureStepChildren parent stepIdx step kids expected = mbind (mget w_Now) (\<lambda>now.
     if (case (st_Delay step, ru_StartedAt (r_Status parent)) of
           (Some delay, Some begun) \<Rightarrow> 0 < delay \<and> now - begun < delay | _ \<Rightarrow> False)
     then mret ()
     else case st_Execute step of
       None \<Rightarrow> mfail (GoErr ''panic: invalid memory address or nil pointer dereference'')
     | Some ex \<Rightarrow> ensure_children parent stepIdx (stepRetries step) kids (step_cap ex expected) (in_flight kids) expected)"

definition abortStepChildren :: "TestRun \<Rightarrow> TestRun list \<Rightarrow> string \<Rightarrow> unit M" where
  "abortStepChildren parent kids why = mfor (\<lambda>k. requestAbort k
     \<lparr>ab_Reason = ''Parent'', ab_Message = why, ab_RequestedBy = r_Name parent\<rparr>) kids"

definition StepKey :: "nat \<Rightarrow> string" where "StepKey i = ''s'' @ utoa i"

definition recordStepAggregate :: "time \<Rightarrow> nat \<Rightarrow> StepVerdict \<Rightarrow> TestRun \<Rightarrow> TestRun" where
  "recordStepAggregate now stepIdx v run =
     (let sr = step_of run (StepKey stepIdx)
      in set_step (StepKey stepIdx) (sr\<lparr>sr_Phase := StepPhaseFromPhase (sv_Phase v),
           sr_StartedAt := (if sr_StartedAt sr = None then Some now else sr_StartedAt sr),
           sr_FinishedAt := Some now, sr_Message := sv_Message v\<rparr>) run)"

definition recordedStepVerdict :: "StepResult \<Rightarrow> StepVerdict option" where
  "recordedStepVerdict sr = (case sr_Phase sr of
     StepPhasePassed \<Rightarrow> Some \<lparr>sv_Phase = PhasePassed, sv_Message = sr_Message sr\<rparr>
   | StepPhaseFailed \<Rightarrow> Some \<lparr>sv_Phase = PhaseFailed, sv_Message = sr_Message sr\<rparr>
   | StepPhaseAborted \<Rightarrow> Some \<lparr>sv_Phase = PhaseAborted, sv_Message = sr_Message sr\<rparr>
   | StepPhaseError \<Rightarrow> Some \<lparr>sv_Phase = PhaseError, sv_Message = sr_Message sr\<rparr>
   | _ \<Rightarrow> None)"

definition child_result :: "TestRun \<Rightarrow> nat \<Rightarrow> int \<Rightarrow> StepResult" where
  "child_result child n retries = zero_StepResult\<lparr>sr_Phase := StepPhaseFromPhase (run_phase child),
     sr_QueuedAt := ru_QueuedAt (r_Status child), sr_StartedAt := ru_StartedAt (r_Status child),
     sr_FinishedAt := ru_FinishedAt (r_Status child),
     sr_Message := (if 0 < n then ''try '' @ utoa (n + 1) @ '' of '' @ itoa (retries + 1) @ '' ('' @ r_Name child @ '')'' else [])\<rparr>"

definition updatePerChildStepResults ::
  "TestRun list \<Rightarrow> expectedChild list \<Rightarrow> int \<Rightarrow> TestRun \<Rightarrow> TestRun" where
  "updatePerChildStepResults kids expected retries run = fold (\<lambda>e r. case latestAttempt kids e retries of
     None \<Rightarrow> r | Some (child, n) \<Rightarrow> set_step (ec_Key e) (child_result child n retries) r) expected run"

definition shouldSkip :: "StepVerdict option list \<Rightarrow> Step list \<Rightarrow> nat \<Rightarrow> bool" where
  "shouldSkip prior steps currIdx \<longleftrightarrow>
     st_Condition (steps ! currIdx) \<noteq> ConditionAlways \<and>
     list_ex (\<lambda>i. case prior ! i of None \<Rightarrow> False
       | Some v \<Rightarrow> \<not> (st_Optional (steps ! i) \<and> sv_Phase v = PhaseFailed) \<and>
           sv_Phase v \<in> {PhaseFailed, PhaseAborted, PhaseError}) [0..<currIdx]"

definition step_class :: "StepVerdict option list \<Rightarrow> bool list \<Rightarrow> nat \<Rightarrow> nat" where
  "step_class verdicts opt i = (case verdicts ! i of None \<Rightarrow> 2
     | Some v \<Rightarrow> if sv_Phase v = PhasePassed then 0
         else if i < length opt \<and> opt ! i \<and> sv_Phase v = PhaseFailed then 0 else 1)"

definition parentMessage :: "StepVerdict option list \<Rightarrow> bool list \<Rightarrow> string" where
  "parentMessage verdicts opt =
     (let count = (\<lambda>c. utoa (length (filter (\<lambda>i. step_class verdicts opt i = c) [0..<length verdicts])))
      in ''composite: '' @ count 0 @ '' passed, '' @ count 1 @ '' failed, '' @ count 2 @ '' skipped'')"

section \<open>The walk over the steps\<close>

datatype step_outcome = StepSkipped TestRun | StepVerdictOf StepVerdict TestRun | StepWait

text \<open>A step in flight: its status is written, then its timeout is looked at.\<close>

definition wait_step ::
  "TestRun \<Rightarrow> nat \<Rightarrow> Step \<Rightarrow> StepResult \<Rightarrow> TestRun list \<Rightarrow> expectedChild list \<Rightarrow> step_outcome M" where
  "wait_step run i step existing stepKids expected = mbind (mget w_Now) (\<lambda>now.
     let run1 = (if sr_Phase existing = StepPhaseNone
           then set_step (StepKey i) (zero_StepResult\<lparr>sr_Phase := StepPhaseRunning, sr_StartedAt := Some now\<rparr>) run else run);
         run2 = updatePerChildStepResults stepKids expected (stepRetries step) run1
     in mbind (status_update run2) (\<lambda>_.
        if (case (st_Timeout step, sr_StartedAt existing) of
              (Some timeout, Some begun) \<Rightarrow> 0 < timeout \<and> timeout < now - begun | _ \<Rightarrow> False)
        then mbind (abortStepChildren run2 stepKids ''step timeout exceeded'') (\<lambda>_.
          let v = \<lparr>sv_Phase = PhaseFailed, sv_Message = ''step timeout exceeded''\<rparr>
          in mret (StepVerdictOf v (recordStepAggregate now i v run2)))
        else mret StepWait))"

text \<open>One round of the loop: \<open>kids\<close> is the list of child runs last read.\<close>

definition composite_step ::
  "Deps \<Rightarrow> Step list \<Rightarrow> nat \<Rightarrow> StepVerdict option list \<Rightarrow> TestRun list \<Rightarrow> TestRun \<Rightarrow> (step_outcome \<times> TestRun list) M" where
  "composite_step d steps i verdicts kids run =
     (let step = steps ! i; existing = step_of run (StepKey i)
      in mbind (mget w_Now) (\<lambda>now.
         if shouldSkip verdicts steps i then
           mret (StepSkipped (if sr_Phase existing \<noteq> StepPhaseSkipped
             then set_step (StepKey i) (zero_StepResult\<lparr>sr_Phase := StepPhaseSkipped, sr_StartedAt := Some now,
                    sr_FinishedAt := Some now\<rparr>) run
             else run), kids)
         else case recordedStepVerdict existing of
           Some v \<Rightarrow> mret (StepVerdictOf v run, kids)
         | None \<Rightarrow>
             let expected = expectedChildren run step i
             in mbind (ensureStepChildren run i step (kidsForStep kids i) expected) (\<lambda>_.
                mbind (if length (kidsForStep kids i) < length expected then listChildRuns d run else mret kids) (\<lambda>kids'.
                let stepKids = kidsForStep kids' i
                in case gatherOutcomes stepKids expected (stepRetries step) (st_Negative step) of (outcomes, allDone, retries) \<Rightarrow>
                   mbind (mfor (\<lambda>rt. createChild run i (cr_child rt) (cr_attempt rt)) retries) (\<lambda>_.
                   if \<not> allDone then mbind (wait_step run i step existing stepKids expected) (\<lambda>r. mret (r, kids'))
                   else let v = Aggregate outcomes (st_Negative step)
                        in mret (StepVerdictOf v (updatePerChildStepResults stepKids expected (stepRetries step)
                             (recordStepAggregate now i v run)), kids'))))))"

text \<open>
  \<open>verdicts\<close> holds the verdicts of the steps before the current one (the slots after it are not
  read); \<open>Inl\<close> is the early return that requeues.
\<close>

fun composite_walk ::
  "Deps \<Rightarrow> Step list \<Rightarrow> nat \<Rightarrow> StepVerdict option list \<Rightarrow> TestRun list \<Rightarrow> TestRun \<Rightarrow>
   (unit + StepVerdict option list \<times> TestRun) M" where
  "composite_walk d steps 0 verdicts kids run = mret (Inr (verdicts, run))"
| "composite_walk d steps (Suc n) verdicts kids run =
     mbind (composite_step d steps (length verdicts) verdicts kids run) (\<lambda>(r, kids'). case r of
       StepWait \<Rightarrow> mret (Inl ())
     | StepSkipped run' \<Rightarrow> composite_walk d steps n (verdicts @ [None]) kids' run'
     | StepVerdictOf v run' \<Rightarrow> composite_walk d steps n (verdicts @ [Some v]) kids' run')"

definition promote_composite :: "time \<Rightarrow> TestRun \<Rightarrow> TestRun" where
  "promote_composite now run = set_status (\<lambda>s. s\<lparr>ru_Phase := PhaseRunning,
     ru_StartedAt := (if ru_StartedAt s = None then Some now else ru_StartedAt s)\<rparr>) run"

definition reconcileComposite :: "Deps \<Rightarrow> TestRun \<Rightarrow> duration M" where
  "reconcileComposite d run = (case ru_ResolvedSpec (r_Status run) of
     NoSnapshot \<Rightarrow> mbind (transitionTerminal d run PhaseError ReasonCompileError
       ''composite resolvedSpec unmarshal: unexpected end of JSON input'') (\<lambda>_. mret 0)
   | BadSnapshot e \<Rightarrow> mbind (transitionTerminal d run PhaseError ReasonCompileError
       (''composite resolvedSpec unmarshal: '' @ e)) (\<lambda>_. mret 0)
   | Snapshot snap \<Rightarrow>
       mbind (mget w_Now) (\<lambda>now.
       let promote = (run_phase run \<noteq> PhaseRunning);
           run1 = (if promote then promote_composite now run else run);
           steps = ts_Steps snap
       in mbind (if promote then status_update run1 else mret ()) (\<lambda>_.
          mbind (listChildRuns d run1) (\<lambda>kids.
          mbind (composite_walk d steps (length steps) [] kids run1) (\<lambda>r. case r of
            Inl _ \<Rightarrow> mret compositeRequeue
          | Inr (verdicts, run2) \<Rightarrow>
              let opt = map st_Optional steps
              in mbind (transitionTerminal d run2 (ParentPhase verdicts opt) [] (parentMessage verdicts opt)) (\<lambda>_.
                 mret 0))))))"

text \<open>The lookup of \<open>validateCompositeGraph\<close> reads Tests through the cache; a failed read is an absent Test.\<close>

definition live_lookup :: "World \<Rightarrow> Test \<Rightarrow> TestSpec \<Rightarrow> TestLookup" where
  "live_lookup w root spec name = (if name = t_Name root then Some spec
     else if (t_Namespace root, name) \<in> set (w_Lag w) then None
     else map_option t_Spec (gm_get (w_Tests w) (t_Namespace root, name)))"

definition validateCompositeGraph :: "Test \<Rightarrow> TestSpec \<Rightarrow> (graph_error, unit) result M" where
  "validateCompositeGraph root spec = mget (\<lambda>w. ResolveGraph (t_Name root) spec (live_lookup w root spec))"

end
