(* ===== verification/Reconcile.thy ===== *)
theory Reconcile
  imports Composite
begin

text \<open>
  The reconcile loop of TestRuns, the rest of \<open>src/internal/controller/testrun_controller.go\<close>: setup
  (\<open>waitForNotBefore\<close>, \<open>setup\<close>, \<open>waitForPriors\<close>), the Job of a plain run (\<open>observeOrCreateJob\<close>,
  \<open>createJob\<close>, \<open>inspectJob\<close>), abort, deletion (\<open>finalize\<close>) and the expiry of finished runs. A handler
  returns the requeue delay (0: none).
\<close>

section \<open>RFC 3339 in UTC\<close>

text \<open>The proleptic Gregorian date of a day number (0 is 1970-01-01): year, month, day.\<close>

definition civil_date :: "int \<Rightarrow> int \<times> int \<times> int" where
  "civil_date days =
     (let z = days + 719468; era = z div 146097; doe = z mod 146097;
          yoe = (doe - doe div 1460 + doe div 36524 - doe div 146096) div 365;
          doy = doe - (365 * yoe + yoe div 4 - yoe div 100);
          mp = (5 * doy + 2) div 153;
          m = (if mp < 10 then mp + 3 else mp - 9)
      in (yoe + era * 400 + (if m \<le> 2 then 1 else 0), m, doy - (153 * mp + 2) div 5 + 1))"

definition pad :: "nat \<Rightarrow> int \<Rightarrow> string" where
  "pad n k = (let s = itoa k in replicate (n - length s) (CHR ''0'') @ s)"

definition rfc3339 :: "time \<Rightarrow> string" where
  "rfc3339 t = (let secs = t div 1000000000; sod = secs mod 86400 in
     case civil_date (secs div 86400) of (y, m, d) \<Rightarrow>
       pad 4 y @ ''-'' @ pad 2 m @ ''-'' @ pad 2 d @ ''T'' @ pad 2 (sod div 3600) @ '':'' @
       pad 2 (sod mod 3600 div 60) @ '':'' @ pad 2 (sod mod 60) @ ''Z'')"

section \<open>Constants\<close>

definition FinalizerName :: string where "FinalizerName = ''kubetest.io/testrun-finalizer''"

definition conflictRequeue :: duration where "conflictRequeue = 200 * 1000000"

definition cacheLagRequeue :: duration where "cacheLagRequeue = 500 * 1000000"

definition expireRetry :: duration where "expireRetry = 60 * 1000000000"

definition ReasonTestNotFound :: string where "ReasonTestNotFound = ''TestNotFound''"

definition ReasonInvalidConfig :: string where "ReasonInvalidConfig = ''InvalidConfig''"

definition ReasonResolveFailed :: string where "ReasonResolveFailed = ''ResolveFailed''"

definition ReasonPolicyDenied :: string where "ReasonPolicyDenied = ''PolicyDenied''"

definition ReasonTestDataMissing :: string where "ReasonTestDataMissing = ''TestDataMissing''"

definition ReasonVolumeSourceMissing :: string where "ReasonVolumeSourceMissing = ''VolumeSourceMissing''"

text \<open>\<open>return r.transitionTerminal(...)\<close>: nothing to requeue.\<close>

definition end_run :: "Deps \<Rightarrow> TestRun \<Rightarrow> Phase \<Rightarrow> string \<Rightarrow> string \<Rightarrow> duration M" where
  "end_run d run phase reason msg = mbind (transitionTerminal d run phase reason msg) (\<lambda>_. mret 0)"

definition end_and_delete :: "Deps \<Rightarrow> TestRun \<Rightarrow> Phase \<Rightarrow> string \<Rightarrow> string \<Rightarrow> Job option \<Rightarrow> duration M" where
  "end_and_delete d run phase reason msg job = mbind (terminalAndDeleteJob d run phase reason msg job) (\<lambda>_. mret 0)"

text \<open>\<open>%q\<close> on an object name, which has no character that needs an escape.\<close>

definition quoted :: "string \<Rightarrow> string" where "quoted s = CHR 0x22 # s @ [CHR 0x22]"

section \<open>Setup\<close>

definition waitingForSchedule :: "TestRun \<Rightarrow> time \<Rightarrow> bool" where
  "waitingForSchedule run now \<longleftrightarrow> ru_ResolvedSpec (r_Status run) = NoSnapshot \<and>
     (case rs_NotBefore (r_Spec run) of None \<Rightarrow> False | Some t \<Rightarrow> now < t)"

text \<open>The status of a run that waits in the queue.\<close>

definition queued_waiting :: "time \<Rightarrow> string \<Rightarrow> TestRun \<Rightarrow> TestRun" where
  "queued_waiting now msg run =
     (let queued = (case ru_QueuedAt (r_Status run) of None \<Rightarrow> Some now | Some t \<Rightarrow> Some t)
      in set_status (\<lambda>s. s\<lparr>ru_Phase := PhaseQueued, ru_Message := msg, ru_QueuedAt := queued,
           ru_Stages := waitingStages queued msg\<rparr>) run)"

text \<open>\<open>Some delay\<close> while the run waits for its time.\<close>

definition waitForNotBefore :: "TestRun \<Rightarrow> duration option M" where
  "waitForNotBefore run = mbind (mget w_Now) (\<lambda>now.
     if \<not> waitingForSchedule run now then mret None
     else case rs_NotBefore (r_Spec run) of None \<Rightarrow> mret None
     | Some start \<Rightarrow>
         let msg = ''scheduled: starts at '' @ rfc3339 start
         in mbind (if run_phase run \<noteq> PhaseQueued \<or> ru_Message (r_Status run) \<noteq> msg \<or> ru_QueuedAt (r_Status run) = None
              then status_update (queued_waiting now msg run) else mret ()) (\<lambda>_.
            mret (Some (start - now))))"

definition waitForPriors :: "Deps \<Rightarrow> TestRun \<Rightarrow> TestRun list \<Rightarrow> duration M" where
  "waitForPriors d run priors = mbind (mget w_Now) (\<lambda>now.
     let msg = forbidMessage (activePriorNames priors run)
     in mbind (if run_phase run \<noteq> PhaseQueued \<or> ru_Message (r_Status run) \<noteq> msg \<or> ru_Stages (r_Status run) = []
          then status_update (queued_waiting now msg run) else mret ()) (\<lambda>_.
        mret (d_ConcurrencyWaitInterval d)))"

definition listPriorRuns :: "TestRun \<Rightarrow> TestRun list M" where
  "listPriorRuns run = mbind api_read (\<lambda>_. mget (\<lambda>w.
     filter (\<lambda>r. r_Namespace r = r_Namespace run \<and> rs_TestRef (r_Spec r) = rs_TestRef (r_Spec run) \<and>
       run_key r \<notin> set (w_Lag w)) (map snd (w_Runs w))))"

definition template_store :: "Deps \<Rightarrow> TemplateStore" where
  "template_store d = (case d_Templates d of None \<Rightarrow> MapStore_Get [] | Some s \<Rightarrow> s)"

definition resolveSpec :: "Deps \<Rightarrow> Test \<Rightarrow> TestRun \<Rightarrow> (setup_error, TestSpec) result" where
  "resolveSpec d test run =
     (case Resolve (d_Regexp d) (Some test) (Some run) (template_store d) \<lparr>op_Env = d_ResolverEnv d, op_RunID = []\<rparr> of
        Inl e \<Rightarrow> Inl (SetupResolve e)
      | Inr spec \<Rightarrow> (case ValidateResolved (Some spec) of Inl e \<Rightarrow> Inl (SetupValidate e) | Inr _ \<Rightarrow> Inr spec))"

definition toolFor :: "Deps \<Rightarrow> Test \<Rightarrow> string" where
  "toolFor d test = (case MergeTemplates (Some test) (template_store d) of
     Inl _ \<Rightarrow> gm_at [] (t_Labels test) LabelKubetestTool | Inr (_, tool) \<Rightarrow> tool)"

text \<open>The checks between resolution and queueing: the status reason and error, or a transient failure.\<close>

datatype setup_stop = EndRun string setup_error | TryAgain string

definition check_spec :: "Deps \<Rightarrow> TestRun \<Rightarrow> TestSpec \<Rightarrow> (setup_stop, unit) result" where
  "check_spec d run spec =
     (if Check (d_Policy d) (Some spec) (rs_Pod (r_Spec run)) \<noteq> []
      then Inl (EndRun ReasonPolicyDenied (SetupPolicy (Check (d_Policy d) (Some spec) (rs_Pod (r_Spec run)))))
      else case checkTestData (d_Objects d) (r_Namespace run) (cn_TestData (ts_Content spec)) of
        Inl (CheckFailed e) \<Rightarrow> Inl (TryAgain e)
      | Inl e \<Rightarrow> Inl (EndRun ReasonTestDataMissing (SetupData e))
      | Inr _ \<Rightarrow>
          let vols = (case rs_Pod (r_Spec run) of None \<Rightarrow> podVolumes (ts_Pod spec)
            | Some p \<Rightarrow> (case po_Volumes p of None \<Rightarrow> podVolumes (ts_Pod spec) | Some vs \<Rightarrow> vs))
          in case checkPodVolumes (d_Objects d) (r_Namespace run) vols of
               Inl (CheckFailed e) \<Rightarrow> Inl (TryAgain e)
             | Inl e \<Rightarrow> Inl (EndRun ReasonVolumeSourceMissing (SetupData e))
             | Inr _ \<Rightarrow> Inr ())"

definition set_up :: "Deps \<Rightarrow> Test \<Rightarrow> TestSpec \<Rightarrow> time \<Rightarrow> TestRun \<Rightarrow> TestRun" where
  "set_up d test spec now run = set_status (\<lambda>s. s\<lparr>ru_ResolvedSpec := Snapshot spec, ru_Tool := toolFor d test,
     ru_Phase := PhaseQueued, ru_Message := [],
     ru_QueuedAt := (if ru_QueuedAt s = None then Some now else ru_QueuedAt s)\<rparr>) run"

text \<open>The concurrency decision and the snapshot, once the spec is resolved and checked.\<close>

definition admit :: "Deps \<Rightarrow> TestRun \<Rightarrow> Test \<Rightarrow> TestSpec \<Rightarrow> duration M" where
  "admit d run test spec =
     mbind (listPriorRuns run) (\<lambda>all_priors.
     mbind (mget w_Now) (\<lambda>now.
     let priors = filter (\<lambda>p. \<not> waitingForSchedule p now) all_priors;
         action = DecideConcurrency priors (Some run) (ts_ConcurrencyPolicy spec)
     in if action = ConcurrencyWait then waitForPriors d run priors
        else mbind (if action = ConcurrencyReplacePrior
               then mfor (\<lambda>prior. abortRun prior run) (SelectPriorsToAbort priors (Some run)) else mret ()) (\<lambda>_.
             let run' = set_up d test spec now run
             in mbind (status_update run') (\<lambda>_.
                mbind (recordLatestRun run' True) (\<lambda>_. mret 0)))))"

definition setup_reason :: "setup_error \<Rightarrow> string" where
  "setup_reason e = (case e of SetupResolve (ErrUnknownConfigKey _) \<Rightarrow> ReasonInvalidConfig | _ \<Rightarrow> ReasonResolveFailed)"

definition setup_run :: "Deps \<Rightarrow> TestRun \<Rightarrow> duration M" where
  "setup_run d run =
     (let testKey = (r_Namespace run, rs_TestRef (r_Spec run))
      in mbind (get_test testKey) (\<lambda>t. case t of
        None \<Rightarrow>
          mbind (exists_live d testKey (\<lambda>w. gm_has (w_Tests w) testKey)) (\<lambda>live.
            if live then mret cacheLagRequeue
            else end_run d run PhaseError ReasonTestNotFound
              (''Test '' @ quoted (rs_TestRef (r_Spec run)) @ '' not found in namespace '' @ quoted (r_Namespace run)))
      | Some test \<Rightarrow>
          (case resolveSpec d test run of
             Inl e \<Rightarrow> end_run d run PhaseError (setup_reason e) (d_ErrorText d e)
           | Inr spec \<Rightarrow>
               (case check_spec d run spec of
                  Inl (EndRun reason e) \<Rightarrow> end_run d run PhaseError reason (d_ErrorText d e)
                | Inl (TryAgain e) \<Rightarrow> mfail (GoErr e)
                | Inr _ \<Rightarrow>
                    mbind (if ts_Steps spec = [] then mret (Inr ()) else validateCompositeGraph test spec) (\<lambda>g. case g of
                      Inl e \<Rightarrow> end_run d run PhaseError ReasonResolveFailed (d_ErrorText d (SetupGraph e))
                    | Inr _ \<Rightarrow> admit d run test spec)))))"

section \<open>The Job of a plain run\<close>

definition job_key :: "TestRun \<Rightarrow> nsname" where
  "job_key run = (r_Namespace run, r_Name run)"

definition createJob :: "Deps \<Rightarrow> TestRun \<Rightarrow> duration M" where
  "createJob d run = (case ru_ResolvedSpec (r_Status run) of
     NoSnapshot \<Rightarrow> end_run d run PhaseError ReasonCompileError ''resolvedSpec unmarshal: unexpected end of JSON input''
   | BadSnapshot e \<Rightarrow> end_run d run PhaseError ReasonCompileError (''resolvedSpec unmarshal: '' @ e)
   | Snapshot spec \<Rightarrow>
       mbind (if ts_Services spec \<noteq> [] then ensureServices d run spec else mret (run, None)) (\<lambda>(run0, wait).
       case wait of Some requeue \<Rightarrow> mret requeue
       | None \<Rightarrow> (case d_Compile d spec run0 of
           Inl err \<Rightarrow> end_run d run0 PhaseError ReasonCompileError err
         | Inr (job, aux) \<Rightarrow>
             mbind (mfor (\<lambda>k. ignore_exists (create_aux k)) aux) (\<lambda>_.
             mbind (mtry (ignore_exists (create_job job))) (\<lambda>r. case r of
               Inl (GoAPI (AInvalid e)) \<Rightarrow>
                 end_run d run0 PhaseError ReasonCompileError (''Job rejected by the API server: '' @ e)
             | Inl e \<Rightarrow> mfail e
             | Inr _ \<Rightarrow>
                 mbind (if ru_JobName (r_Status run0) \<noteq> j_Name job
                        then status_update (set_status (ru_JobName_update (\<lambda>_. j_Name job)) run0) else mret ()) (\<lambda>_.
                 mret 0))))))"

text \<open>The pod runs: the first observation makes the run running and counts it as active.\<close>

definition observe_running :: "Deps \<Rightarrow> TestRun \<Rightarrow> Pod \<Rightarrow> unit M" where
  "observe_running d run pod =
     mbind (if d_Logs d then ensure_tailer (tailerID run) else mret ()) (\<lambda>_.
     mbind (mget w_Now) (\<lambda>now.
     let begins = (run_phase run \<noteq> PhaseRunning);
         newIP = (pd_PodIP pod \<noteq> [] \<and> pd_PodIP pod \<noteq> ru_PodIP (r_Status run));
         run' = set_status (\<lambda>s. s\<lparr>ru_Phase := PhaseRunning,
           ru_StartedAt := (if ru_StartedAt s = None then Some now else ru_StartedAt s),
           ru_PodIP := (if pd_PodIP pod \<noteq> [] then pd_PodIP pod else ru_PodIP s)\<rparr>) run;
         tool = NormalizeTool (runTool run)
     in mbind (if begins \<or> newIP then status_update run' else mret ()) (\<lambda>_.
        if begins then mmod (\<lambda>w. w\<lparr>w_ActiveRuns := gm_set tool (gm_at 0 (w_ActiveRuns w) tool + 1) (w_ActiveRuns w)\<rparr>)
        else mret ())))"

definition set_stages :: "Stage list \<Rightarrow> TestRun \<Rightarrow> TestRun" where
  "set_stages st run = set_status (ru_Stages_update (\<lambda>_. st)) run"

text \<open>A finished Job: the wrapper's result, or what the pod says instead.\<close>

definition conclude_job :: "Deps \<Rightarrow> TestRun \<Rightarrow> Job \<Rightarrow> Pod option \<Rightarrow> duration M" where
  "conclude_job d run job pod =
     (let use = (\<lambda>res. let run' = applyRunResultToStatus run (Some res)
            in end_and_delete d (set_stages (stagesNow run' pod (Some res)) run') (rr_Phase res) [] (rr_ErrorMessage res) (Some job))
      in case d_Read d run of
        Inr res \<Rightarrow> use res
      | Inl (ErrResultMalformed e) \<Rightarrow> end_and_delete d run PhaseError ReasonMalformedResult e (Some job)
      | Inl ErrResultNotFound \<Rightarrow>
          (case ResultFromTermination (d_Unmarshal d) pod of
             Some res \<Rightarrow> use res
           | None \<Rightarrow> (case FallbackPhaseFromJobFailure (Some job) pod of (phase, reason, msg) \<Rightarrow>
               end_and_delete d run phase reason msg (Some job)))
      | Inl (ReadFailed e) \<Rightarrow> mfail (GoErr e))"

definition watch_job :: "Deps \<Rightarrow> TestRun \<Rightarrow> Pod option \<Rightarrow> duration M" where
  "watch_job d run pod = (case pod of None \<Rightarrow> mret (d_FallbackRequeue d)
     | Some p \<Rightarrow>
         let stages = stagesNow run pod None;
             changed = (stages \<noteq> ru_Stages (r_Status run));
             run1 = (if changed then set_stages stages run else run)
         in mbind (if changed then status_update run1 else mret ()) (\<lambda>_.
            mbind (if IsPodRunning pod then observe_running d run1 p else mret ()) (\<lambda>_.
            mret (d_FallbackRequeue d))))"

definition inspectJob :: "Deps \<Rightarrow> TestRun \<Rightarrow> Job \<Rightarrow> duration M" where
  "inspectJob d run job =
     mbind (findPodForJob job) (\<lambda>pod.
     mbind (ensureFetchTailer d run pod (fetchTailerID run)) (\<lambda>_.
     mbind (mget w_Now) (\<lambda>now.
     case AnalyzePod pod now (unschedulableTimeout d) of
       Some infra \<Rightarrow> end_and_delete d (set_stages (stagesNow run pod None) run) PhaseError (if_Reason infra) (if_Message infra) (Some job)
     | None \<Rightarrow>
         if InspectJob (Some job) = JobStillRunning then watch_job d run pod else conclude_job d run job pod)))"

definition observeOrCreateJob :: "Deps \<Rightarrow> TestRun \<Rightarrow> duration M" where
  "observeOrCreateJob d run =
     mbind (get_job (job_key run)) (\<lambda>j. case j of
       Some job \<Rightarrow> inspectJob d run job
     | None \<Rightarrow>
         if ru_JobName (r_Status run) \<noteq> [] then
           mbind (exists_live d (job_key run) (\<lambda>w. gm_has (w_Jobs w) (job_key run))) (\<lambda>live.
             if live then mret cacheLagRequeue
             else end_run d run PhaseError ReasonOrphanJobMissing
               ''Job was deleted before status persisted; run cannot continue'')
         else createJob d run)"

section \<open>Abort, deletion, expiry\<close>

definition reconcileAbort :: "Deps \<Rightarrow> TestRun \<Rightarrow> AbortRequest \<Rightarrow> duration M" where
  "reconcileAbort d run req = (case abortStatus req of (reason, msg) \<Rightarrow>
     if isCompositeRun run then
       mbind (listChildRuns d run) (\<lambda>kids.
       mbind (abortStepChildren run kids ''parent run aborted'') (\<lambda>_.
       end_and_delete d run PhaseAborted reason msg None))
     else if isParallelRun run then
       mbind (stopWorkers d run) (\<lambda>_. end_and_delete d run PhaseAborted reason msg None)
     else mbind (get_job (job_key run)) (\<lambda>job. end_and_delete d run PhaseAborted reason msg job))"

definition forget_persisted :: "nsname \<Rightarrow> unit M" where
  "forget_persisted key = mmod (\<lambda>w. w\<lparr>w_Persisted := filter (\<lambda>k. k \<noteq> key) (w_Persisted w)\<rparr>)"

definition finalize :: "Deps \<Rightarrow> TestRun \<Rightarrow> duration M" where
  "finalize d run =
     (if FinalizerName \<notin> set (r_Finalizers run) then mret 0
      else mbind (if d_Logs d then mbind (stop_tailer (tailerID run)) (\<lambda>_. stop_tailer (fetchTailerID run)) else mret ()) (\<lambda>_.
           mbind (forget_persisted (run_key run)) (\<lambda>_.
           mbind (stopWorkers d run) (\<lambda>_.
           mbind (get_job (job_key run)) (\<lambda>j.
           mbind (case j of Some job \<Rightarrow> deleteJobBackground job | None \<Rightarrow> mret ()) (\<lambda>_.
           mbind (update_finalizers (run\<lparr>r_Finalizers := filter (\<lambda>f. f \<noteq> FinalizerName) (r_Finalizers run)\<rparr>)) (\<lambda>_.
           mret 0)))))))"

definition expireFinished :: "Deps \<Rightarrow> TestRun \<Rightarrow> duration M" where
  "expireFinished d run =
     (if d_FinishedRunTTL d \<le> 0 \<or> \<not> d_RunStore d \<or> gm_at [] (r_Labels run) LabelParentRun \<noteq> [] then mret 0
      else case ru_FinishedAt (r_Status run) of None \<Rightarrow> mret 0
      | Some finished \<Rightarrow>
          mbind (mget w_Persisted) (\<lambda>persisted.
          mbind (mget w_Now) (\<lambda>now.
          if run_key run \<notin> set persisted then mret expireRetry
          else if 0 < finished + d_FinishedRunTTL d - now then mret (finished + d_FinishedRunTTL d - now)
          else mbind (if isCompositeRun run then listChildRuns d run else mret []) (\<lambda>kids.
            if list_ex (\<lambda>k. \<not> IsTerminalPhase (run_phase k) \<or> run_key k \<notin> set persisted) kids then mret expireRetry
            else mbind (ignore_notfound (delete_run run)) (\<lambda>_. mret 0)))))"

section \<open>The reconcile function\<close>

definition get_run :: "nsname \<Rightarrow> TestRun option M" where
  "get_run key = mbind api_read (\<lambda>_. mget (\<lambda>w. gm_get (w_Runs w) key))"

definition reconcile_live :: "Deps \<Rightarrow> TestRun \<Rightarrow> duration M" where
  "reconcile_live d run =
     (if IsTerminalPhase (run_phase run) then mbind (persistFinished d run) (\<lambda>_. expireFinished d run)
      else case rs_Abort (r_Spec run) of Some req \<Rightarrow> reconcileAbort d run req
      | None \<Rightarrow>
          if ru_ResolvedSpec (r_Status run) = NoSnapshot then
            mbind (waitForNotBefore run) (\<lambda>wait. case wait of Some delay \<Rightarrow> mret delay | None \<Rightarrow> setup_run d run)
          else if isCompositeRun run then reconcileComposite d run
          else if isParallelRun run then reconcileParallel d run
          else observeOrCreateJob d run)"

definition reconcile_found :: "Deps \<Rightarrow> nsname \<Rightarrow> TestRun option \<Rightarrow> duration M" where
  "reconcile_found d key r = (case r of
     None \<Rightarrow> mbind (forget_persisted key) (\<lambda>_. mret 0)
   | Some run \<Rightarrow>
       if r_DeletionTimestamp run \<noteq> None then finalize d run
       else if FinalizerName \<notin> set (r_Finalizers run) then
         mbind (update_finalizers (run\<lparr>r_Finalizers := r_Finalizers run @ [FinalizerName]\<rparr>)) (\<lambda>_. mret 0)
       else reconcile_live d run)"

definition reconcile :: "Deps \<Rightarrow> nsname \<Rightarrow> duration M" where
  "reconcile d key = mbind (get_run key) (reconcile_found d key)"

definition Reconcile :: "Deps \<Rightarrow> nsname \<Rightarrow> duration M" where
  "Reconcile d key = mbind (mtry (reconcile d key)) (\<lambda>r. case r of
     Inl (GoAPI AConflict) \<Rightarrow> mret conflictRequeue
   | Inl e \<Rightarrow> mfail e
   | Inr res \<Rightarrow> mret res)"

end
