(* ===== verification/Guarantees.thy ===== *)
theory Guarantees
  imports Reconcile
begin

text \<open>
  What each handler of the run controller leaves alone, proved once per view of the world. An
  \<open>object_view\<close> looks at neither Jobs, Pods, Services, log tailers, run history nor metrics, so the
  handlers that only deal with those keep it. A \<open>run_view\<close> does not look at webhook deliveries
  either (the TestRuns of the API server are one), an \<open>outbox_view\<close> not at TestRuns (the
  deliveries are one).
\<close>

locale object_view =
  fixes f :: "World \<Rightarrow> 'a"
  assumes no_faults: "f (u\<lparr>w_Faults := a\<rparr>) = f u" "f (u\<lparr>w_ReadFaults := b\<rparr>) = f u"
    and no_objects: "f (u\<lparr>w_Jobs := jobs\<rparr>) = f u" "f (u\<lparr>w_Pods := pods\<rparr>) = f u"
      "f (u\<lparr>w_ServiceObjects := svcs\<rparr>) = f u" "f (u\<lparr>w_Aux := aux\<rparr>) = f u"
    and no_latest: "f (u\<lparr>w_LatestRun := lr\<rparr>) = f u"
    and no_memory: "f (u\<lparr>w_Tailers := ts\<rparr>) = f u" "f (u\<lparr>w_History := h\<rparr>) = f u" "f (u\<lparr>w_Persisted := p\<rparr>) = f u"
    and no_metrics: "f (u\<lparr>w_RunsTotal := rt\<rparr>) = f u" "f (u\<lparr>w_ActiveRuns := ac\<rparr>) = f u"
      "f (u\<lparr>w_Durations := du\<rparr>) = f u"
begin

lemmas ignores = no_faults no_objects no_latest no_memory no_metrics

lemmas same_intros = keeps_api same.keeps_rules keeps_cases

lemma same_recordLatestRun: "keeps (same f) (recordLatestRun run b)"
  unfolding recordLatestRun_def by (intro same_intros; simp add: ignores)

lemma same_teardownServices: "keeps (same f) (teardownServices d run)"
  unfolding teardownServices_def by (intro same_intros; simp add: ignores)

lemma same_persistFinished: "keeps (same f) (persistFinished d run)"
  unfolding persistFinished_def by (intro same_intros; simp add: ignores)

lemma same_count_end: "f (count_end run phase u) = f u"
  by (simp add: count_end_def Let_def ignores)

lemma same_findPodForJob: "keeps (same f) (findPodForJob job)"
  unfolding findPodForJob_def by (intro same_intros; simp add: ignores)

lemma same_ensureFetchTailer: "keeps (same f) (ensureFetchTailer d run pod tid)"
  unfolding ensureFetchTailer_def by (intro same_intros; simp add: ignores)

lemma same_tailServiceLogs: "keeps (same f) (tailServiceLogs d run spec s pod)"
  unfolding tailServiceLogs_def by (intro same_intros; simp add: ignores)

lemma same_exists_live: "keeps (same f) (exists_live d key g)"
  unfolding exists_live_def by (intro same_intros; simp add: ignores)

lemma same_listChildRuns: "keeps (same f) (listChildRuns d run)"
  unfolding listChildRuns_def by (intro same_intros; simp add: ignores)

lemma same_listPriorRuns: "keeps (same f) (listPriorRuns run)"
  unfolding listPriorRuns_def by (intro same_intros; simp add: ignores)

lemma same_validateCompositeGraph: "keeps (same f) (validateCompositeGraph test spec)"
  unfolding validateCompositeGraph_def by (intro same_intros)

lemma same_forget_persisted: "keeps (same f) (forget_persisted key)"
  unfolding forget_persisted_def by (intro same_intros; simp add: ignores)

lemma same_get_run: "keeps (same f) (get_run key)"
  unfolding get_run_def by (intro same_intros; simp add: ignores)

lemmas same_reading = same_findPodForJob same_ensureFetchTailer same_exists_live same_listChildRuns same_listPriorRuns
  same_validateCompositeGraph same_get_run same_tailServiceLogs

lemma same_endWorker: "keeps (same f) (endWorker d run i res)"
  unfolding endWorker_def by (intro same_intros; simp add: ignores)

lemma same_createWorker: "keeps (same f) (createWorker d run spec wk)"
  unfolding createWorker_def by (intro same_intros; simp add: ignores)

lemma same_inspectWorker: "keeps (same f) (inspectWorker d run wk job)"
  unfolding inspectWorker_def by (intro same_intros same_reading same_endWorker; simp add: ignores)

lemma same_reconcileWorker: "keeps (same f) (reconcileWorker d run spec wk)"
  unfolding reconcileWorker_def
  by (intro same_intros same_reading same_createWorker same_inspectWorker; simp add: ignores)

lemma same_reconcile_workers: "keeps (same f) (reconcile_workers d spec wks run n jobs)"
proof (induction wks arbitrary: run n jobs)
  case (Cons wk wks)
  show ?case unfolding reconcile_workers.simps by (intro same.keeps_bind same_reconcileWorker keeps_case_prod Cons.IH)
qed (simp add: same.keeps_ret)

lemma same_deleteWorkerJobs: "keeps (same f) (deleteWorkerJobs jobs)"
  unfolding deleteWorkerJobs_def by (intro same_intros; simp add: ignores)

lemma same_stopWorkers: "keeps (same f) (stopWorkers d run)"
  unfolding stopWorkers_def by (intro same_intros; simp add: ignores)

lemmas same_handlers = same_recordLatestRun same_teardownServices same_persistFinished same_forget_persisted
  same_reading same_reconcile_workers same_deleteWorkerJobs same_stopWorkers

end

locale run_view = object_view +
  assumes no_outbox: "f (u\<lparr>w_Outbox := ob, w_Dispatched := di\<rparr>) = f u"
begin

lemma same_dispatchWebhooks: "keeps (same f) (dispatchWebhooks d run)"
  unfolding dispatchWebhooks_def by (intro same_intros; simp add: ignores no_outbox Let_def)

end

abbreviation run_store :: "World \<Rightarrow> (nsname, TestRun) gomap \<times> nat" where
  "run_store w \<equiv> (w_Runs w, w_NextUID w)"

interpretation runs: run_view run_store
  by unfold_locales simp_all

section \<open>Values a handler returns\<close>

definition returns :: "('a \<Rightarrow> bool) \<Rightarrow> 'a M \<Rightarrow> bool" where
  "returns Q m \<longleftrightarrow> (\<forall>w x w'. m w = (Inr x, w') \<longrightarrow> Q x)"

lemma returns_ret: "Q x \<Longrightarrow> returns Q (mret x)" and returns_fail: "returns Q (mfail e)"
  by (simp_all add: returns_def)

lemma returns_bind: "(\<And>x. returns Q (g x)) \<Longrightarrow> returns Q (mbind m g)"
  by (auto simp: returns_def mbind_def split: prod.splits sum.splits)

lemma returns_bind_val: "returns Q' m \<Longrightarrow> (\<And>x. Q' x \<Longrightarrow> returns Q (g x)) \<Longrightarrow> returns Q (mbind m g)"
  unfolding returns_def mbind_def by (force split: prod.splits sum.splits)

lemma returns_if: "(b \<Longrightarrow> returns Q m) \<Longrightarrow> (\<not> b \<Longrightarrow> returns Q n) \<Longrightarrow> returns Q (if b then m else n)"
  by simp

lemma returns_let: "returns Q (g x) \<Longrightarrow> returns Q (Let x g)"
  by simp

lemma returns_option:
  "(x = None \<Longrightarrow> returns Q m) \<Longrightarrow> (\<And>y. x = Some y \<Longrightarrow> returns Q (g y)) \<Longrightarrow> returns Q (case_option m g x)"
  by (cases x) auto

lemma returns_sum:
  "(\<And>y. x = Inl y \<Longrightarrow> returns Q (g y)) \<Longrightarrow> (\<And>y. x = Inr y \<Longrightarrow> returns Q (h y)) \<Longrightarrow> returns Q (case_sum g h x)"
  by (cases x) auto

lemma returns_prod: "(\<And>a b. x = (a, b) \<Longrightarrow> returns Q (g a b)) \<Longrightarrow> returns Q (case_prod g x)"
  by (cases x) auto

lemma returns_go_error:
  "(\<And>y. returns Q (g y)) \<Longrightarrow> (\<And>y. returns Q (h y)) \<Longrightarrow> returns Q (case_go_error g h x)"
  by (cases x) auto

lemma returns_api_error:
  "returns Q a \<Longrightarrow> returns Q b \<Longrightarrow> returns Q c \<Longrightarrow> (\<And>y. returns Q (g y)) \<Longrightarrow> (\<And>y. returns Q (h y)) \<Longrightarrow>
   returns Q (case_api_error a b c g h x)"
  by (cases x) auto

lemmas returns_rules = returns_ret returns_fail returns_if returns_let returns_option returns_sum returns_prod
  returns_go_error returns_api_error

lemma keeps_bind_returns:
  "keeps (preserves I) m \<Longrightarrow> returns Q m \<Longrightarrow> (\<And>x. Q x \<Longrightarrow> keeps (preserves I) (g x)) \<Longrightarrow> keeps (preserves I) (mbind m g)"
  by (erule pres.keeps_bind_val [where Q = Q]) (auto simp: returns_def)

section \<open>The course of a run's status\<close>

text \<open>
  How a status may move once the run is set up: the snapshot, the tool and the queue time stay,
  the start time stays once set, and the phase stays, becomes running or becomes terminal.
\<close>

definition advances :: "TestRunStatus \<Rightarrow> TestRunStatus \<Rightarrow> bool" where
  "advances s t \<longleftrightarrow> ru_ResolvedSpec t = ru_ResolvedSpec s \<and> ru_Tool t = ru_Tool s \<and> ru_QueuedAt t = ru_QueuedAt s \<and>
     (ru_StartedAt s \<noteq> None \<longrightarrow> ru_StartedAt t = ru_StartedAt s) \<and>
     (ru_Phase t = ru_Phase s \<or> ru_Phase t = PhaseRunning \<or> IsTerminalPhase (ru_Phase t))"

definition evolves :: "TestRun \<Rightarrow> TestRun \<Rightarrow> bool" where
  "evolves r r' \<longleftrightarrow> run_key r' = run_key r \<and> advances (r_Status r) (r_Status r')"

lemma advances_refl [simp]: "advances s s"
  by (simp add: advances_def)

lemma advances_trans: "advances s t \<Longrightarrow> advances t u \<Longrightarrow> advances s u"
  unfolding advances_def by (metis (full_types))

lemma evolves_refl [simp]: "evolves r r"
  by (simp add: evolves_def)

lemma evolves_trans: "evolves r s \<Longrightarrow> evolves s t \<Longrightarrow> evolves r t"
  by (auto simp: evolves_def intro: advances_trans)

lemma evolves_status:
  "advances (r_Status r) s \<Longrightarrow> evolves r (r\<lparr>r_Status := s\<rparr>)"
  by (simp add: evolves_def run_key_def)

lemma evolves_set_step [simp]: "evolves r (set_step key step r)"
  by (simp add: set_step_def evolves_def run_key_def advances_def)

lemma evolves_set_stages [simp]: "evolves r (set_stages st r)"
  by (simp add: set_stages_def evolves_def run_key_def advances_def)

lemma evolves_finishWorker [simp]: "evolves r (finishWorker now i res r)"
  by (simp add: finishWorker_def Let_def evolves_def run_key_def advances_def)

lemma evolves_ended [simp]: "IsTerminalPhase phase \<Longrightarrow> evolves r (ended r phase reason msg now)"
  by (auto simp: ended_def Let_def evolves_def run_key_def advances_def split: option.split)

lemma evolves_promote [simp]: "evolves r (promote_running now r)" "evolves r (promote_composite now r)"
  by (simp_all add: promote_running_def promote_composite_def evolves_def run_key_def advances_def)

lemma evolves_recordStepAggregate [simp]: "evolves r (recordStepAggregate now i v r)"
  by (simp add: recordStepAggregate_def Let_def)

lemma evolves_updatePerChild [simp]: "evolves r (updatePerChildStepResults kids expected n r)"
  unfolding updatePerChildStepResults_def
  by (induction expected arbitrary: r)
    (auto split: option.split intro: evolves_trans [OF evolves_set_step])

lemma evolves_applyRunResult [simp]: "evolves r (applyRunResultToStatus r res)"
  by (simp add: applyRunResultToStatus_def Let_def evolves_def run_key_def advances_def split: option.split)

section \<open>Returned runs\<close>

lemma returns_endWorker: "evolves r run \<Longrightarrow> returns (evolves r) (endWorker d run i res)"
  unfolding endWorker_def
  by (intro returns_bind returns_rules) (simp add: evolves_trans [OF _ evolves_finishWorker])

lemma returns_createWorker: "evolves r run \<Longrightarrow> returns (evolves r) (createWorker d run spec wk)"
  unfolding createWorker_def
  by (intro returns_bind returns_rules)
    (simp_all add: evolves_trans [OF _ evolves_finishWorker] evolves_trans [OF _ evolves_set_step])

abbreviation worker_out :: "TestRun \<Rightarrow> bool \<times> Job option \<times> TestRun \<Rightarrow> bool" where
  "worker_out r x \<equiv> evolves r (snd (snd x))"

lemma returns_inspectWorker: "evolves r run \<Longrightarrow> returns (worker_out r) (inspectWorker d run wk job)"
  unfolding inspectWorker_def
  by (intro returns_let returns_bind returns_rules returns_bind_val [OF returns_endWorker])
    (simp_all add: evolves_trans [OF _ evolves_set_step])

lemma returns_reconcileWorker: "evolves r run \<Longrightarrow> returns (worker_out r) (reconcileWorker d run spec wk)"
  unfolding reconcileWorker_def Let_def
  by (intro returns_if returns_ret returns_bind returns_option returns_inspectWorker
      returns_bind_val [OF returns_createWorker])
    (simp_all add: evolves_trans [OF _ evolves_finishWorker])

lemma returns_reconcile_workers:
  "evolves r run \<Longrightarrow> returns (\<lambda>x. evolves r (fst x)) (reconcile_workers d spec wks run n jobs)"
proof (induction wks arbitrary: run n jobs)
  case (Cons wk wks)
  show ?case unfolding reconcile_workers.simps
    by (rule returns_bind_val [OF returns_reconcileWorker [OF Cons.prems]], rule returns_prod, rule returns_prod)
      (simp add: Cons.IH)
qed (simp add: returns_ret)

lemma returns_ensureServices: "returns (\<lambda>x. snd x = None \<longrightarrow> fst x = run) (ensureServices d run spec)"
  unfolding ensureServices_def Let_def
  by (intro returns_bind returns_rules) simp_all

text \<open>What a round of the composite loop hands on.\<close>

fun outcome_run :: "TestRun \<Rightarrow> step_outcome \<Rightarrow> bool" where
  "outcome_run r (StepSkipped r') = evolves r r'"
| "outcome_run r (StepVerdictOf v r') = evolves r r'"
| "outcome_run r StepWait = True"

lemmas evolves_more = evolves_trans [OF _ evolves_set_step] evolves_trans [OF _ evolves_recordStepAggregate]
  evolves_trans [OF _ evolves_updatePerChild]

lemma returns_wait_step: "evolves r run \<Longrightarrow> returns (outcome_run r) (wait_step run i step existing kids expected)"
  unfolding wait_step_def Let_def
  by (intro returns_bind returns_rules)
    (auto intro: evolves_more)

lemma returns_composite_step:
  "evolves r run \<Longrightarrow> returns (\<lambda>x. outcome_run r (fst x)) (composite_step d steps i vs kids run)"
  unfolding composite_step_def Let_def
  by (intro returns_if returns_prod returns_option returns_bind_val [OF returns_wait_step] returns_bind returns_ret)
    (auto intro: evolves_more)

fun walk_run :: "TestRun \<Rightarrow> unit + StepVerdict option list \<times> TestRun \<Rightarrow> bool" where
  "walk_run r (Inl _) = True"
| "walk_run r (Inr (vs, r')) = evolves r r'"

lemma returns_composite_walk: "evolves r run \<Longrightarrow> returns (walk_run r) (composite_walk d steps n vs kids run)"
proof (induction n arbitrary: vs kids run)
  case (Suc n)
  show ?case unfolding composite_walk.simps
  proof (rule returns_bind_val [OF returns_composite_step [OF Suc.prems]], rule returns_prod)
    fix x :: "step_outcome \<times> TestRun list" and oc kids' assume "outcome_run r (fst x)" "x = (oc, kids')"
    then show "returns (walk_run r) (case oc of StepSkipped run' \<Rightarrow> composite_walk d steps n (vs @ [None]) kids' run'
        | StepVerdictOf v run' \<Rightarrow> composite_walk d steps n (vs @ [Some v]) kids' run' | StepWait \<Rightarrow> mret (Inl ()))"
      using Suc by (cases oc) (auto intro: returns_ret)
  qed
qed (simp add: returns_ret)

section \<open>Guards of the handlers\<close>

lemma keeps_setup_stop:
  "(\<And>y z. keeps R (f y z)) \<Longrightarrow> (\<And>y. keeps R (g y)) \<Longrightarrow> keeps R (case_setup_stop f g x)"
  by (cases x) auto

text \<open>
  The interface of an invariant \<open>I\<close> of TestRuns, Tests and deliveries with the handlers: which runs \<open>ok\<close> to
  write, that statuses which evolve from them are, and what the calls that touch TestRuns or
  deliveries keep. The handlers below all keep such an \<open>I\<close>.
\<close>

abbreviation object_part where
  "object_part w \<equiv> (run_store w, (w_Outbox w, w_Dispatched w, w_Webhooks w), w_Tests w, w_Lag w, w_Now w)"

interpretation object_store: object_view object_part
  by unfold_locales simp_all

locale handler_guard =
  fixes I :: "World \<Rightarrow> bool" and ok :: "TestRun \<Rightarrow> bool"
  assumes I_view: "object_part u = object_part v \<Longrightarrow> I u = I v"
    and ok_evolves: "ok r \<Longrightarrow> evolves r r' \<Longrightarrow> ok r'"
    and write_run: "ok r \<Longrightarrow> keeps (preserves I) (status_update r)"
    and safe_abort_create: "keeps (preserves I) (patch_abort key req)" "keeps (preserves I) (createChild p i e n)"
    and safe_dispatch: "keeps (preserves I) (dispatchWebhooks d r)"
begin

abbreviation safe :: "'b M \<Rightarrow> bool" where
  "safe m \<equiv> keeps (preserves I) m"

lemma safe_same: "keeps (same object_part) m \<Longrightarrow> safe m"
  by (erule keeps_same_preserves) (rule I_view)

lemma safe_status_update: "ok r \<Longrightarrow> evolves r run \<Longrightarrow> safe (status_update run)"
  by (rule write_run) (rule ok_evolves)

lemmas ok_stages = ok_evolves [OF _ evolves_set_stages]
  and ok_result = ok_evolves [OF _ evolves_applyRunResult]
  and ok_promote = ok_evolves [OF _ evolves_promote(1)] ok_evolves [OF _ evolves_promote(2)]

lemmas safe_basic = safe_abort_create pres.keeps_rules keeps_cases

lemmas safe_views = object_store.same_handlers [THEN safe_same] safe_dispatch

lemma safe_jobs: "safe (create_job j)" "safe (deleteJobBackground j)" "safe (get_job key')" "safe (get_test key')"
  "safe (get_pod key')" "safe (create_pod p)" "safe (create_service key')" "safe (create_aux key')"
  "safe (ensure_tailer tid)" "safe (stop_tailer tid)"
  by (rule safe_same, intro keeps_api; simp)+

lemma safe_counters: "safe (mmod (count_end run phase))" "safe (mmod (\<lambda>w. w\<lparr>w_Durations := h w\<rparr>))"
  "safe (mmod (\<lambda>w. w\<lparr>w_ActiveRuns := h' w\<rparr>))"
  by (rule safe_same, rule same_mmod, simp add: object_store.same_count_end)+

lemmas safe_intros = safe_views safe_jobs safe_counters safe_basic

lemma safe_transitionTerminal: "ok run \<Longrightarrow> safe (transitionTerminal d run phase reason msg)"
  unfolding transitionTerminal_def
  by (intro safe_status_update safe_intros) (auto elim: contrapos_np)

lemma safe_terminalAndDeleteJob: "ok run \<Longrightarrow> safe (terminalAndDeleteJob d run phase reason msg job)"
  unfolding terminalAndDeleteJob_def
  by (intro safe_transitionTerminal safe_intros) auto

lemma safe_ends: "ok run \<Longrightarrow> safe (end_run d run phase reason msg)"
  "ok run \<Longrightarrow> safe (end_and_delete d run phase reason msg job)"
  unfolding end_run_def end_and_delete_def
  by (intro safe_transitionTerminal safe_terminalAndDeleteJob safe_intros; simp)+

lemma safe_requestAbort: "safe (requestAbort r req)" "safe (abortRun r by_run)" "safe (abortStepChildren p kids why)"
  unfolding abortRun_def abortStepChildren_def requestAbort_def by (intro safe_intros)+

lemma safe_ensure_replicas: "ok run \<Longrightarrow> safe (ensure_replicas d run spec now reps waitingFor)"
proof (induction reps arbitrary: waitingFor)
  case (Cons rep reps)
  then show ?case unfolding ensure_replicas.simps
    by (intro safe_transitionTerminal safe_intros) auto
qed (simp add: pres.keeps_ret)

lemma safe_ensureServices: "ok run \<Longrightarrow> safe (ensureServices d run spec)"
  unfolding ensureServices_def
  by (intro safe_ensure_replicas safe_status_update safe_intros)
    (auto simp: evolves_def run_key_def advances_def)

lemma safe_start_services:
  assumes "ok run" "\<And>run0 requeue. safe (g (run0, Some requeue))" "safe (g (run, None))"
  shows "safe (mbind (if ts_Services spec \<noteq> [] then ensureServices d run spec else mret (run, None)) g)"
proof (rule keeps_bind_returns)
  show "returns (\<lambda>x. snd x = None \<longrightarrow> fst x = run)
    (if ts_Services spec \<noteq> [] then ensureServices d run spec else mret (run, None))"
    by (intro returns_if returns_ensureServices returns_ret) simp
  show "safe (if ts_Services spec \<noteq> [] then ensureServices d run spec else mret (run, None))"
    using assms(1) by (intro keeps_if safe_ensureServices pres.keeps_ret)
  show "safe (g x)" if "snd x = None \<longrightarrow> fst x = run" for x
    using that assms(2,3) by (cases x; cases "snd x") auto
qed

lemma safe_createJob: "ok run \<Longrightarrow> safe (createJob d run)"
  unfolding createJob_def
  by (intro safe_start_services safe_ends safe_status_update safe_intros)
    (auto simp: evolves_def run_key_def advances_def intro!: safe_ends safe_status_update safe_intros)

lemma safe_observe_running: "ok run \<Longrightarrow> safe (observe_running d run pod)"
  unfolding observe_running_def
  by (intro safe_status_update safe_intros) (auto simp: evolves_def run_key_def advances_def)

lemma safe_inspectJob: "ok run \<Longrightarrow> safe (inspectJob d run job)"
  unfolding inspectJob_def watch_job_def conclude_job_def
  by (intro safe_ends safe_observe_running safe_status_update safe_intros)
    (auto intro: ok_stages ok_result)

lemma safe_observeOrCreateJob: "ok run \<Longrightarrow> safe (observeOrCreateJob d run)"
  unfolding observeOrCreateJob_def
  by (intro safe_ends safe_inspectJob safe_createJob safe_intros)

lemma safe_reconcileParallel: "ok run \<Longrightarrow> safe (reconcileParallel d run)"
  unfolding reconcileParallel_def
  by (intro safe_start_services safe_transitionTerminal safe_intros keeps_bind_returns [OF _ returns_reconcile_workers [OF evolves_refl]])
    (auto intro!: safe_terminalAndDeleteJob safe_status_update safe_intros
      intro: ok_promote ok_evolves evolves_trans [OF _ evolves_promote(1)])

lemma safe_ensure_children: "safe (ensure_children parent i n kids cap inFlight es)"
  by (induction es arbitrary: inFlight) (auto intro!: safe_intros)

lemma safe_wait_step: "ok run \<Longrightarrow> safe (wait_step run i step existing kids expected)"
  unfolding wait_step_def
  by (intro safe_status_update safe_requestAbort safe_intros) (auto intro: evolves_more)

lemma safe_composite_step: "ok run \<Longrightarrow> safe (composite_step d steps i vs kids run)"
  unfolding composite_step_def ensureStepChildren_def
  by (intro safe_wait_step safe_ensure_children safe_intros)

lemma safe_composite_walk: "ok run \<Longrightarrow> safe (composite_walk d steps n vs kids run)"
proof (induction n arbitrary: vs kids run)
  case (Suc n)
  show ?case unfolding composite_walk.simps
  proof (rule keeps_bind_returns [OF safe_composite_step [OF Suc.prems] returns_composite_step [OF evolves_refl]], rule keeps_case_prod)
    fix x :: "step_outcome \<times> TestRun list" and r kids' assume "outcome_run run (fst x)" "x = (r, kids')"
    then show "safe (case r of StepSkipped run' \<Rightarrow> composite_walk d steps n (vs @ [None]) kids' run'
        | StepVerdictOf v run' \<Rightarrow> composite_walk d steps n (vs @ [Some v]) kids' run' | StepWait \<Rightarrow> mret (Inl ()))"
      using Suc by (cases r) (auto intro: ok_evolves pres.keeps_ret)
  qed
qed (simp add: pres.keeps_ret)

lemma safe_reconcileComposite: "ok run \<Longrightarrow> safe (reconcileComposite d run)"
  unfolding reconcileComposite_def
  by (intro safe_transitionTerminal safe_intros safe_status_update
      keeps_bind_returns [OF safe_composite_walk returns_composite_walk [OF evolves_refl]])
    (auto intro: ok_promote ok_evolves split: if_splits)

lemma safe_reconcileAbort: "ok run \<Longrightarrow> safe (reconcileAbort d run req)"
  unfolding reconcileAbort_def
  by (intro safe_ends safe_requestAbort safe_intros)

text \<open>Setting a run up is outside \<open>advances\<close>: it is the step that takes the snapshot.\<close>

lemma safe_setup:
  assumes ok: "\<And>r. run_key r = run_key run \<Longrightarrow> ok r"
  shows "safe (mbind (waitForNotBefore run) (\<lambda>wait. case wait of Some delay \<Rightarrow> mret delay | None \<Rightarrow> setup_run d run))"
proof -
  have upd: "safe (status_update r)" if "run_key r = run_key run" for r
    by (rule safe_status_update [OF ok evolves_refl]) (rule that)
  show ?thesis
    unfolding waitForNotBefore_def setup_run_def admit_def waitForPriors_def
    by (intro safe_ends safe_requestAbort safe_intros upd ok keeps_setup_stop)
      (simp_all add: queued_waiting_def set_up_def Let_def run_key_def)
qed

lemma safe_persistFinished: "safe (persistFinished d run)"
  by (rule safe_views)

text \<open>A reconcile of a run that has not ended.\<close>

lemma safe_active:
  assumes "ok run" "ru_ResolvedSpec (r_Status run) = NoSnapshot \<Longrightarrow> (\<And>r. run_key r = run_key run \<Longrightarrow> ok r)"
    and "\<not> IsTerminalPhase (run_phase run)"
  shows "safe (reconcile_live d run)"
  unfolding reconcile_live_def using assms
  by (intro safe_setup safe_reconcileAbort safe_reconcileComposite safe_reconcileParallel safe_observeOrCreateJob
      safe_intros) auto

end

end
