(* ===== verification/Lifecycle.thy ===== *)
theory Lifecycle
  imports Guarantees
begin

text \<open>
  The course of a TestRun through any reconcile, its own or another run's, with whatever API calls
  failing: a terminal status never changes, and the status of a run that is set up only
  \<open>advances\<close>. A run is an object with a UID: one that was deleted and created again under its name
  is another run.
\<close>

section \<open>Guarded statuses\<close>

text \<open>The run \<open>uid\<close>, if it is the one stored under \<open>k\<close>, has a status with \<open>P\<close>; the UID is not handed out again.\<close>

definition old_uid :: "World \<Rightarrow> string \<Rightarrow> bool" where
  "old_uid w uid \<longleftrightarrow> (\<forall>n \<ge> w_NextUID w. uid \<noteq> ''uid-'' @ utoa n)"

text \<open>Every object is stored under its own name, with a UID that was handed out before.\<close>

definition store_ok :: "World \<Rightarrow> bool" where
  "store_ok w \<longleftrightarrow> (\<forall>key r. gm_get (w_Runs w) key = Some r \<longrightarrow> run_key r = key \<and> old_uid w (r_UID r))"

definition guarded :: "nsname \<Rightarrow> string \<Rightarrow> (TestRunStatus \<Rightarrow> bool) \<Rightarrow> World \<Rightarrow> bool" where
  "guarded k uid P w \<longleftrightarrow> store_ok w \<and> old_uid w uid \<and>
     (\<forall>r. gm_get (w_Runs w) k = Some r \<longrightarrow> r_UID r = uid \<longrightarrow> P (r_Status r))"

lemmas guarded_defs = guarded_def store_ok_def old_uid_def

lemma store_okD: "store_ok w \<Longrightarrow> gm_get (w_Runs w) k = Some r \<Longrightarrow> run_key r = k \<and> old_uid w (r_UID r)"
  unfolding store_ok_def by blast

lemma guarded_store: "run_store u = run_store v \<Longrightarrow> guarded k uid P u = guarded k uid P v"
  by (simp add: guarded_defs)

text \<open>A reconcile reads the run, which may fail, and handles what it found.\<close>

lemma get_run_cases:
  "\<exists>fs. mbind (get_run key) g w = g (gm_get (w_Runs w) key) (w\<lparr>w_ReadFaults := fs\<rparr>) \<or>
     (\<exists>e. mbind (get_run key) g w = (Inl e, w\<lparr>w_ReadFaults := fs\<rparr>))"
proof (cases "w_ReadFaults w")
  case Nil
  then have "mbind (get_run key) g w = g (gm_get (w_Runs w) key) w" by (simp add: get_run_def mbind_def)
  moreover have "w\<lparr>w_ReadFaults := w_ReadFaults w\<rparr> = w" by simp
  ultimately show ?thesis by metis
next
  case (Cons x fs)
  then show ?thesis by (intro exI [of _ fs]) (cases x; simp add: get_run_def mbind_def api_read_def)
qed

lemma snd_Reconcile: "snd (Reconcile d key w) = snd (reconcile d key w)"
  by (auto simp: Reconcile_def mbind_def mtry_def split: prod.split sum.split go_error.split api_error.split)

lemma Reconcile_cases:
  "\<exists>fs. snd (Reconcile d key w) = w\<lparr>w_ReadFaults := fs\<rparr> \<or>
     snd (Reconcile d key w) = snd (reconcile_found d key (gm_get (w_Runs w) key) (w\<lparr>w_ReadFaults := fs\<rparr>))"
  using get_run_cases [of key "reconcile_found d key" w] by (auto simp: snd_Reconcile reconcile_def)

lemma preserves_call:
  assumes "\<And>u x. I (u\<lparr>w_Faults := x\<rparr>) = I u" "\<And>w. I w \<Longrightarrow> I (snd (g w))"
  shows "keeps (preserves I) (mbind api_write (\<lambda>_. g))"
proof (rule pres.keeps_bind)
  show "keeps (preserves I) api_write"
    by (rule keeps_same_preserves [where f = I]) (simp_all add: same_api_write assms(1))
  show "keeps (preserves I) g" using assms(2) by (simp add: keeps_def preserves_def)
qed

text \<open>
  A reconcile of \<open>key\<close> works on its copy of the run, whose status satisfies \<open>W\<close>. Writing it must not
  break what is claimed of the run \<open>uid\<close> at \<open>k\<close>.
\<close>

locale run_guard =
  fixes key k :: nsname and uid :: string and P W :: "TestRunStatus \<Rightarrow> bool"
  assumes W_advances: "W s \<Longrightarrow> advances s t \<Longrightarrow> W t"
    and write_ok: "key = k \<Longrightarrow> P s \<Longrightarrow> W t \<Longrightarrow> P t"
begin

definition ok :: "TestRun \<Rightarrow> bool" where
  "ok run \<longleftrightarrow> run_key run = key \<and> W (r_Status run)"

lemma ok_stays: "ok r \<Longrightarrow> evolves r r' \<Longrightarrow> ok r'"
  using W_advances by (auto simp: evolves_def ok_def)

lemma guarded_write:
  assumes "ok run" "gm_get (w_Runs w) (run_key run) = Some stored" "guarded k uid P w"
  shows "guarded k uid P (w\<lparr>w_Runs := gm_set (run_key run) (stored\<lparr>r_Status := r_Status run\<rparr>) (w_Runs w)\<rparr>)"
proof (cases "run_key run = k")
  case True
  then have "r_UID stored = uid \<Longrightarrow> P (r_Status run)"
    using assms write_ok [of "r_Status stored" "r_Status run"] unfolding guarded_def ok_def by metis
  then show ?thesis using assms True by (auto simp: guarded_defs run_key_def)
next
  case False
  then show ?thesis using assms by (auto simp: guarded_defs run_key_def)
qed

lemma guard_call:
  assumes "\<And>w. guarded k uid P w \<Longrightarrow> guarded k uid P (snd (g w))"
  shows "keeps (preserves (guarded k uid P)) (mbind api_write (\<lambda>_. g))"
  by (rule preserves_call, simp add: guarded_defs) (rule assms)

lemma guard_metadata: "keeps (preserves (guarded k uid P)) (update_finalizers run)"
  "keeps (preserves (guarded k uid P)) (delete_run run)" "keeps (preserves (guarded k uid P)) (patch_abort key' req)"
  unfolding update_finalizers_def delete_run_def patch_abort_def
  by (rule guard_call; auto simp: guarded_defs run_key_def split: option.splits if_splits)+

lemma guard_create_run: "keeps (preserves (guarded k uid P)) (createChild p i e n)"
  unfolding createChild_def create_run_def
  by (intro pres.keeps_ignore guard_call) (auto simp: guarded_defs run_key_def gm_has_def split: if_splits)

lemma guard_status_update: "ok run \<Longrightarrow> keeps (preserves (guarded k uid P)) (status_update run)"
  unfolding status_update_def
  by (rule guard_call) (auto simp: guarded_write split: option.split)

end

sublocale run_guard \<subseteq> handler_guard "guarded k uid P" ok
proof unfold_locales
  show "keeps (preserves (guarded k uid P)) (dispatchWebhooks d r)" for d r
    by (rule keeps_same_preserves [OF runs.same_dispatchWebhooks]) (simp add: guarded_defs)
qed (auto simp: guarded_defs guard_metadata guard_create_run guard_status_update intro: ok_stays)

context run_guard
begin

lemma safe_finalize: "safe (finalize d run)"
  unfolding finalize_def by (intro guard_metadata safe_intros)

lemma safe_expireFinished: "safe (expireFinished d run)"
  unfolding expireFinished_def by (intro guard_metadata safe_intros)

lemma safe_reconcile_live:
  assumes "run_key run = key" "\<not> IsTerminalPhase (run_phase run) \<Longrightarrow> W (r_Status run)"
    and "\<not> IsTerminalPhase (run_phase run) \<Longrightarrow> ru_ResolvedSpec (r_Status run) = NoSnapshot \<Longrightarrow> \<forall>s. W s"
  shows "safe (reconcile_live d run)"
proof (cases "IsTerminalPhase (run_phase run)")
  case True
  then show ?thesis unfolding reconcile_live_def by (simp add: pres.keeps_bind safe_persistFinished safe_expireFinished)
next
  case False
  then show ?thesis using assms by (intro safe_active) (auto simp: ok_def)
qed

lemma reconcile_guarded:
  assumes "guarded k uid P w"
    and "\<And>r. gm_get (w_Runs w) key = Some r \<Longrightarrow> \<not> IsTerminalPhase (run_phase r) \<Longrightarrow>
      W (r_Status r) \<and> (ru_ResolvedSpec (r_Status r) = NoSnapshot \<longrightarrow> (\<forall>s. W s))"
  shows "guarded k uid P (snd (Reconcile d key w))"
proof -
  have "run_key r = key" if "gm_get (w_Runs w) key = Some r" for r
    using assms(1) that unfolding guarded_def store_ok_def by blast
  then have "safe (reconcile_found d key (gm_get (w_Runs w) key))"
    unfolding reconcile_found_def using assms(2)
    by (intro guard_metadata safe_finalize safe_reconcile_live safe_intros) blast+
  moreover have "guarded k uid P (w\<lparr>w_ReadFaults := fs\<rparr>)" for fs
    using assms(1) by (simp add: guarded_defs)
  ultimately show ?thesis using Reconcile_cases [of d key w] by (auto simp: keeps_def preserves_def)
qed

end

section \<open>The system\<close>

text \<open>
  Three uses: a terminal status (its run is never written), a status that only advances, a run
  that is gone.
\<close>

interpretation frozen: run_guard key k uid "\<lambda>s. s = s0" "\<lambda>_. key \<noteq> k" for key k uid s0
  by unfold_locales simp_all

interpretation course: run_guard key k uid "advances s0" "\<lambda>t. key \<noteq> k \<or> advances s0 t" for key k uid s0
  by unfold_locales (auto intro: advances_trans)

interpretation gone: run_guard key k uid "\<lambda>_. False" "\<lambda>_. True" for key k uid
  by unfold_locales simp_all

text \<open>
  Everything that is not the operator: objects come and go, Jobs and Pods move, time passes, calls
  fail; users create runs and edit their specs. Only the operator writes the status of a run.
\<close>

definition env_step :: "World \<Rightarrow> World \<Rightarrow> bool" where
  "env_step u v \<longleftrightarrow> w_NextUID u \<le> w_NextUID v \<and>
     (\<forall>k r'. gm_get (w_Runs v) k = Some r' \<longrightarrow> run_key r' = k \<and>
       ((\<exists>r. gm_get (w_Runs u) k = Some r \<and> r_UID r' = r_UID r \<and> r_Status r' = r_Status r) \<or>
        (\<exists>n \<ge> w_NextUID u. n < w_NextUID v \<and> r_UID r' = ''uid-'' @ utoa n)))"

inductive system_step :: "Deps \<Rightarrow> World \<Rightarrow> World \<Rightarrow> bool" for d where
  operator: "system_step d w (snd (Reconcile d key w))"
| environment: "env_step u v \<Longrightarrow> system_step d u v"

inductive_cases system_stepE: "system_step d u v"

lemma old_uid_env: "env_step u v \<Longrightarrow> old_uid u uid \<Longrightarrow> old_uid v uid"
  by (auto simp: env_step_def old_uid_def)

lemma store_ok_env: "store_ok u \<Longrightarrow> env_step u v \<Longrightarrow> store_ok v"
  unfolding store_ok_def
proof (intro allI impI)
  fix key r' assume u: "\<forall>key r. gm_get (w_Runs u) key = Some r \<longrightarrow> run_key r = key \<and> old_uid u (r_UID r)"
    and env: "env_step u v" and r': "gm_get (w_Runs v) key = Some r'"
  from env r' consider r where "gm_get (w_Runs u) key = Some r" "r_UID r' = r_UID r"
    | n where "n < w_NextUID v" "r_UID r' = ''uid-'' @ utoa n"
    unfolding env_step_def by blast
  then have "old_uid v (r_UID r')"
    by cases (use u old_uid_env [OF env] in metis, simp add: old_uid_def)
  then show "run_key r' = key \<and> old_uid v (r_UID r')" using env r' unfolding env_step_def by blast
qed

lemma guarded_env:
  assumes "guarded k uid P u" "env_step u v"
  shows "guarded k uid P v"
proof -
  have "P (r_Status r')" if r': "gm_get (w_Runs v) k = Some r'" "r_UID r' = uid" for r'
  proof -
    have "\<not> (\<exists>n \<ge> w_NextUID u. uid = ''uid-'' @ utoa n)" using assms(1) by (auto simp: guarded_def old_uid_def)
    then obtain r where "gm_get (w_Runs u) k = Some r" "r_UID r = uid" "r_Status r' = r_Status r"
      using assms(2) r' unfolding env_step_def by metis
    then show ?thesis using assms(1) unfolding guarded_def by metis
  qed
  then show ?thesis using assms store_ok_env [OF _ assms(2)] old_uid_env [OF assms(2)] unfolding guarded_def by blast
qed

lemma guarded_mono: "guarded k uid P w \<Longrightarrow> (\<And>s. P s \<Longrightarrow> Q s) \<Longrightarrow> guarded k uid Q w"
  by (simp add: guarded_def)

text \<open>One reconcile: it is enough to look at the case that the run is there.\<close>

lemma reconcile_guard:
  assumes "guarded k uid P w"
    and "\<And>r. gm_get (w_Runs w) k = Some r \<Longrightarrow> r_UID r = uid \<Longrightarrow> P (r_Status r) \<Longrightarrow> guarded k uid P (snd (Reconcile d key w))"
  shows "guarded k uid P (snd (Reconcile d key w))"
proof (cases "\<exists>r. gm_get (w_Runs w) k = Some r \<and> r_UID r = uid")
  case True
  then show ?thesis using assms by (auto simp: guarded_def)
next
  case False
  then have "guarded k uid (\<lambda>_. False) w" using assms(1) by (auto simp: guarded_def)
  then have "guarded k uid (\<lambda>_. False) (snd (Reconcile d key w))" by (rule gone.reconcile_guarded) simp
  then show ?thesis by (rule guarded_mono) simp
qed

definition frozen_at :: "nsname \<Rightarrow> string \<Rightarrow> TestRunStatus \<Rightarrow> World \<Rightarrow> bool" where
  "frozen_at k uid s w \<longleftrightarrow> IsTerminalPhase (ru_Phase s) \<and> guarded k uid (\<lambda>t. t = s) w"

definition on_course :: "nsname \<Rightarrow> string \<Rightarrow> TestRunStatus \<Rightarrow> World \<Rightarrow> bool" where
  "on_course k uid s w \<longleftrightarrow> ru_ResolvedSpec s \<noteq> NoSnapshot \<and> guarded k uid (advances s) w"

lemma frozen_reconcile:
  assumes "IsTerminalPhase (ru_Phase s)" "guarded k uid (\<lambda>t. t = s) w"
  shows "guarded k uid (\<lambda>t. t = s) (snd (Reconcile d key w))"
proof (rule reconcile_guard [OF assms(2)])
  fix r assume r: "gm_get (w_Runs w) k = Some r" "r_Status r = s"
  show "guarded k uid (\<lambda>t. t = s) (snd (Reconcile d key w))"
    by (rule frozen.reconcile_guarded [OF assms(2)]) (use r assms(1) in auto)
qed

lemma course_reconcile:
  assumes "ru_ResolvedSpec s \<noteq> NoSnapshot" "guarded k uid (advances s) w"
  shows "guarded k uid (advances s) (snd (Reconcile d key w))"
proof (rule reconcile_guard [OF assms(2)])
  fix r assume r: "gm_get (w_Runs w) k = Some r" "advances s (r_Status r)"
  then have "ru_ResolvedSpec (r_Status r) \<noteq> NoSnapshot" using assms(1) by (simp add: advances_def)
  then show "guarded k uid (advances s) (snd (Reconcile d key w))"
    by (intro course.reconcile_guarded [OF assms(2)]) (use r in auto)
qed

lemma frozen_step: "frozen_at k uid s u \<Longrightarrow> system_step d u v \<Longrightarrow> frozen_at k uid s v"
  unfolding frozen_at_def by (elim conjE system_stepE) (auto intro: guarded_env frozen_reconcile)

lemma course_step: "on_course k uid s u \<Longrightarrow> system_step d u v \<Longrightarrow> on_course k uid s v"
  unfolding on_course_def by (elim conjE system_stepE) (auto intro: guarded_env course_reconcile)

interpretation frozen_system: invariant_system "frozen_at k uid s" "system_step d" "frozen_at k uid s" for k uid s d
  by unfold_locales (auto intro: frozen_step)

interpretation course_system: invariant_system "on_course k uid s" "system_step d" "on_course k uid s" for k uid s d
  by unfold_locales (auto intro: course_step)

section \<open>Properties\<close>

text \<open>
  C1. A finished run stays as it ended. Whatever reconciles run afterwards, of this run or of any
  other, with whichever API calls failing and whatever users and the cluster do in between, as long
  as the object exists its status is the one it ended with.
\<close>

theorem terminal_status_frozen:
  assumes "(system_step d)\<^sup>*\<^sup>* w w'" "store_ok w"
    and "gm_get (w_Runs w) k = Some r" "IsTerminalPhase (run_phase r)"
    and "gm_get (w_Runs w') k = Some r'" "r_UID r' = r_UID r"
  shows "r_Status r' = r_Status r"
proof -
  have "frozen_at k (r_UID r) (r_Status r) w"
    using assms store_okD [OF assms(2,3)] by (auto simp: frozen_at_def guarded_def)
  then have "frozen_at k (r_UID r) (r_Status r) w'" by (rule frozen_system.steps_inv [OF assms(1)])
  then show ?thesis using assms(5,6) by (simp add: frozen_at_def guarded_def)
qed

definition sample_deps :: Deps where
  "sample_deps = \<lparr>d_Logs = False, d_RunStore = False, d_SaveFinished = (\<lambda>_. True), d_SaveTestCases = None,
     d_Read = (\<lambda>_. Inl ErrResultNotFound), d_ReadWorker = None, d_Unmarshal = (\<lambda>_. None), d_Templates = None,
     d_ResolverEnv = [], d_Regexp = (\<lambda>_. None), d_Policy = \<lparr>pp_ServiceAccounts = [], pp_AllowHostPath = False\<rparr>,
     d_ErrorText = (\<lambda>_. ''error''), d_Webhooks = False, d_APIReader = True, d_FinishedRunTTL = 0,
     d_FallbackRequeue = 30000000000, d_ConcurrencyWaitInterval = 10000000000, d_UnschedulableTimeout = 0,
     d_Objects = (\<lambda>_ _. Inr None), d_Compile = (\<lambda>_ _. Inl ''none''), d_CompileTarget = (\<lambda>_ _ _ _ _. Inl ''none'')\<rparr>"

definition world_of :: "TestRun list \<Rightarrow> World" where
  "world_of rs = \<lparr>w_Now = 9, w_Faults = [], w_ReadFaults = [], w_Lag = [], w_NextUID = 0,
     w_Runs = map (\<lambda>r. (run_key r, r)) rs, w_Tests = [], w_LatestRun = [], w_Jobs = [], w_Pods = [], w_Aux = [],
     w_ServiceObjects = [], w_Webhooks = [], w_Tailers = [], w_History = [], w_Persisted = [], w_Dispatched = [],
     w_Outbox = [], w_RunsTotal = [], w_ActiveRuns = [], w_Durations = []\<rparr>"

text \<open>A run of plain Test \<open>t\<close> that is set up, and one whose abort is requested.\<close>

definition set_up_run :: "Phase \<Rightarrow> AbortRequest option \<Rightarrow> TestRun" where
  "set_up_run p abort = (sample_run ''r1'')\<lparr>r_Finalizers := [FinalizerName],
     r_Spec := (r_Spec (sample_run ''r1''))\<lparr>rs_Abort := abort\<rparr>,
     r_Status := zero_TestRunStatus\<lparr>ru_Phase := p, ru_ResolvedSpec := Snapshot zero_TestSpec\<rparr>\<rparr>"

lemmas eval_simps = Reconcile_def reconcile_def reconcile_found_def reconcile_live_def get_run_def mbind_def mtry_def
  persistFinished_def expireFinished_def set_up_run_def world_of_def sample_deps_def run_key_def
  sample_run_def zero_TestRunStatus_def IsTerminalPhase_def

lemma store_ok_sample: "store_ok (world_of [set_up_run p a])"
  by (auto simp: store_ok_def old_uid_def world_of_def run_key_def set_up_run_def sample_run_def)

lemma reconcile_finished:
  "snd (Reconcile sample_deps (''n'', ''r1'') (world_of [set_up_run PhasePassed None])) = world_of [set_up_run PhasePassed None]"
  by (simp add: eval_simps)

theorem terminal_status_frozen_witness:
  "\<exists>r'. gm_get (w_Runs (snd (Reconcile sample_deps (''n'', ''r1'') (world_of [set_up_run PhasePassed None])))) (''n'', ''r1'') = Some r' \<and>
     r_Status r' = r_Status (set_up_run PhasePassed None)"
proof -
  let ?w = "world_of [set_up_run PhasePassed None]"
  let ?w' = "snd (Reconcile sample_deps (''n'', ''r1'') ?w)"
  have step: "(system_step sample_deps)\<^sup>*\<^sup>* ?w ?w'" by (intro r_into_rtranclp system_step.operator)
  have r: "gm_get (w_Runs ?w) (''n'', ''r1'') = Some (set_up_run PhasePassed None)"
    by (simp add: world_of_def run_key_def set_up_run_def sample_run_def)
  obtain r' where r': "gm_get (w_Runs ?w') (''n'', ''r1'') = Some r'" "r_UID r' = r_UID (set_up_run PhasePassed None)"
    using r by (simp add: reconcile_finished)
  have "r_Status r' = r_Status (set_up_run PhasePassed None)"
    by (rule terminal_status_frozen [OF step store_ok_sample r _ r']) (simp add: set_up_run_def IsTerminalPhase_def)
  with r' show ?thesis by blast
qed

text \<open>
  C2. A run is set up once. From then on its snapshot of the Test, its tool and its queue time
  never change, its start time never changes once it is set, and its phase only moves on: it never
  goes back from running to queued.
\<close>

theorem setup_is_final:
  assumes "(system_step d)\<^sup>*\<^sup>* w w'" "store_ok w"
    and "gm_get (w_Runs w) k = Some r" "ru_ResolvedSpec (r_Status r) \<noteq> NoSnapshot"
    and "gm_get (w_Runs w') k = Some r'" "r_UID r' = r_UID r"
  shows "advances (r_Status r) (r_Status r')"
proof -
  have "on_course k (r_UID r) (r_Status r) w"
    using assms store_okD [OF assms(2,3)] by (auto simp: on_course_def guarded_def)
  then have "on_course k (r_UID r) (r_Status r) w'" by (rule course_system.steps_inv [OF assms(1)])
  then show ?thesis using assms(5,6) by (simp add: on_course_def guarded_def)
qed

definition abort_sample :: AbortRequest where
  "abort_sample = \<lparr>ab_Reason = ''User'', ab_Message = ''stop'', ab_RequestedBy = []\<rparr>"

lemma reconcile_aborted:
  "gm_get (w_Runs (snd (Reconcile sample_deps (''n'', ''r1'') (world_of [set_up_run PhaseRunning (Some abort_sample)]))))
     (''n'', ''r1'') = Some (ended (set_up_run PhaseRunning (Some abort_sample)) PhaseAborted ''AbortedByUser'' ''stop'' 9)"
  by (simp add: eval_simps reconcileAbort_def abortStatus_def abort_sample_def isCompositeRun_def isParallelRun_def
    zero_TestSpec_def get_job_def end_and_delete_def terminalAndDeleteJob_def transitionTerminal_def status_update_def
    recordLatestRun_def get_test_def teardownServices_def count_end_def ended_def Let_def dispatchWebhooks_def)

theorem setup_is_final_witness:
  "\<exists>r'. gm_get (w_Runs (snd (Reconcile sample_deps (''n'', ''r1'') (world_of [set_up_run PhaseRunning (Some abort_sample)]))))
       (''n'', ''r1'') = Some r' \<and> run_phase r' = PhaseAborted \<and>
     advances (r_Status (set_up_run PhaseRunning (Some abort_sample))) (r_Status r')"
proof -
  let ?r = "set_up_run PhaseRunning (Some abort_sample)"
  let ?w = "world_of [?r]"
  let ?w' = "snd (Reconcile sample_deps (''n'', ''r1'') ?w)"
  have step: "(system_step sample_deps)\<^sup>*\<^sup>* ?w ?w'" by (intro r_into_rtranclp system_step.operator)
  have r: "gm_get (w_Runs ?w) (''n'', ''r1'') = Some ?r"
    by (simp add: world_of_def run_key_def set_up_run_def sample_run_def)
  obtain r' where r': "gm_get (w_Runs ?w') (''n'', ''r1'') = Some r'" "r_UID r' = r_UID ?r" and p: "run_phase r' = PhaseAborted"
    by (simp add: reconcile_aborted ended_def Let_def)
  have "advances (r_Status ?r) (r_Status r')"
    by (rule setup_is_final [OF step store_ok_sample r _ r']) (simp add: set_up_run_def)
  with r' p show ?thesis by blast
qed

end
