(* ===== verification/Delivery.thy ===== *)
theory Delivery
  imports Lifecycle
begin

text \<open>
  Webhook deliveries over any sequence of reconciles: \<open>dispatchWebhooks\<close> is the only source of
  deliveries, and the operator's memory of what it announced (\<open>dispatchedRuns\<close>) keeps it from
  announcing the end of a run twice.
\<close>

definition delivery_key :: "Delivery \<Rightarrow> string" where
  "delivery_key dl = fst (dl_Run dl) @ ''/'' @ snd (dl_Run dl) @ ''#'' @ dl_Event dl"

definition hook_names :: "World \<Rightarrow> nsname list" where
  "hook_names w = map (\<lambda>h. (wh_Namespace h, wh_Name h)) (w_Webhooks w)"

text \<open>Every delivery is remembered, and no subscriber has the same one twice.\<close>

definition outbox_ok :: "World \<Rightarrow> bool" where
  "outbox_ok w \<longleftrightarrow> distinct (hook_names w) \<and> (\<forall>dl \<in> set (w_Outbox w). delivery_key dl \<in> set (w_Dispatched w)) \<and>
     distinct (map (\<lambda>dl. (dl_Hook dl, dl_Run dl, dl_Event dl)) (w_Outbox w))"

definition deliveries_of :: "World \<Rightarrow> TestRun \<Rightarrow> Delivery list" where
  "deliveries_of w run = map (\<lambda>h. \<lparr>dl_Hook = (wh_Namespace h, wh_Name h), dl_Event = phase_string (run_phase run),
       dl_Run = run_key run, dl_UID = r_UID run\<rparr>)
     (filter (\<lambda>h. wh_Namespace h = r_Namespace run \<and> EventMatches (wh_Events h) (phase_string (run_phase run))) (w_Webhooks w))"

lemma deliveries_key: "dl \<in> set (deliveries_of w run) \<Longrightarrow> delivery_key dl = webhookDedupKey run"
  by (auto simp: deliveries_of_def delivery_key_def webhookDedupKey_def run_key_def)

lemma distinct_map_filter: "distinct (map f xs) \<Longrightarrow> distinct (map f (filter P xs))"
  by (induction xs) auto

lemma deliveries_distinct:
  assumes "distinct (hook_names w)"
  shows "distinct (map (\<lambda>dl. (dl_Hook dl, dl_Run dl, dl_Event dl)) (deliveries_of w run))"
proof -
  have "distinct (map dl_Hook (deliveries_of w run))"
    using distinct_map_filter [OF assms [unfolded hook_names_def]] by (simp add: deliveries_of_def comp_def)
  then show ?thesis by (auto simp: distinct_map inj_on_def)
qed

lemma outbox_ok_announce:
  assumes "outbox_ok w" "webhookDedupKey run \<notin> set (w_Dispatched w)"
  shows "outbox_ok (w\<lparr>w_Outbox := w_Outbox w @ deliveries_of w run, w_Dispatched := webhookDedupKey run # w_Dispatched w\<rparr>)"
proof -
  have "(dl_Hook dl, dl_Run dl, dl_Event dl) \<noteq> (dl_Hook dn, dl_Run dn, dl_Event dn)"
    if "dl \<in> set (w_Outbox w)" "dn \<in> set (deliveries_of w run)" for dl dn
    using assms that deliveries_key [OF that(2)] by (auto simp: outbox_ok_def delivery_key_def)
  then show ?thesis using assms deliveries_distinct [of w run] deliveries_key
    by (fastforce simp: outbox_ok_def hook_names_def)
qed

lemma dispatch_cases:
  "\<exists>fs. snd (dispatchWebhooks d run w) = w\<lparr>w_ReadFaults := fs\<rparr> \<or>
     (webhookDedupKey run \<notin> set (w_Dispatched w) \<and>
      snd (dispatchWebhooks d run w) = (let u = w\<lparr>w_ReadFaults := fs\<rparr> in
        u\<lparr>w_Outbox := w_Outbox u @ deliveries_of u run, w_Dispatched := webhookDedupKey run # w_Dispatched u\<rparr>))"
proof (cases "d_Webhooks d \<and> webhookDedupKey run \<notin> set (w_Dispatched w)")
  case False
  then have "snd (dispatchWebhooks d run w) = w" by (auto simp: dispatchWebhooks_def mbind_get)
  then show ?thesis by (intro exI [of _ "w_ReadFaults w"]) simp
next
  case True
  let ?fs = "tl (w_ReadFaults w)"
  have api: "api_read w = (Inr (), w\<lparr>w_ReadFaults := ?fs\<rparr>) \<or> (\<exists>e. api_read w = (Inl e, w\<lparr>w_ReadFaults := ?fs\<rparr>))"
    by (cases "w_ReadFaults w") (auto simp: api_read_def split: option.split)
  from api True show ?thesis
    by (intro exI [of _ ?fs]) (auto simp: dispatchWebhooks_def mbind_apply mtry_apply deliveries_of_def Let_def)
qed

lemma outbox_ok_view: "w_Outbox u = w_Outbox v \<Longrightarrow> w_Dispatched u = w_Dispatched v \<Longrightarrow> w_Webhooks u = w_Webhooks v \<Longrightarrow>
   outbox_ok u = outbox_ok v"
  by (simp add: outbox_ok_def hook_names_def)

lemma announce_ok: "keeps (preserves outbox_ok) (dispatchWebhooks d run)"
  unfolding keeps_def preserves_def
proof (intro allI impI)
  fix w assume ok: "outbox_ok w"
  obtain fs where fs: "snd (dispatchWebhooks d run w) = w\<lparr>w_ReadFaults := fs\<rparr> \<or>
     (webhookDedupKey run \<notin> set (w_Dispatched w) \<and>
      snd (dispatchWebhooks d run w) = (let u = w\<lparr>w_ReadFaults := fs\<rparr> in
        u\<lparr>w_Outbox := w_Outbox u @ deliveries_of u run, w_Dispatched := webhookDedupKey run # w_Dispatched u\<rparr>))"
    using dispatch_cases by blast
  have "outbox_ok (w\<lparr>w_ReadFaults := fs\<rparr>)" using ok by (simp add: outbox_ok_def hook_names_def)
  with fs outbox_ok_announce [of "w\<lparr>w_ReadFaults := fs\<rparr>" run] show "outbox_ok (snd (dispatchWebhooks d run w))"
    by (auto simp: Let_def)
qed

abbreviation outbox_part :: "World \<Rightarrow> Delivery list \<times> string list \<times> Webhook list" where
  "outbox_part w \<equiv> (w_Outbox w, w_Dispatched w, w_Webhooks w)"

lemma outbox_same: "keeps (same outbox_part) m \<Longrightarrow> keeps (preserves outbox_ok) m"
  by (erule keeps_same_preserves) (simp add: outbox_ok_def hook_names_def)

lemma outbox_metadata: "keeps (preserves outbox_ok) (update_finalizers r)" "keeps (preserves outbox_ok) (delete_run r)"
  by (rule outbox_same, intro keeps_api; simp)+

interpretation outbox: handler_guard outbox_ok "\<lambda>_. True"
proof unfold_locales
  show "keeps (preserves outbox_ok) (status_update r)" "keeps (preserves outbox_ok) (patch_abort key req)"
    for r key req
    by (rule outbox_same, intro keeps_api; simp)+
  show "keeps (preserves outbox_ok) (createChild p i e n)" for p i e n
    unfolding createChild_def by (rule outbox_same, intro same.keeps_rules keeps_api; simp)
qed (simp_all add: announce_ok outbox_ok_def hook_names_def)

lemma outbox_reconcile: "keeps (preserves outbox_ok) (Reconcile d key)"
proof -
  have expire: "keeps (preserves outbox_ok) (expireFinished d run)" for run
    unfolding expireFinished_def by (intro outbox_metadata outbox.safe_intros)
  have live: "keeps (preserves outbox_ok) (reconcile_live d run)" for run
  proof (cases "IsTerminalPhase (run_phase run)")
    case True
    then show ?thesis by (simp add: reconcile_live_def pres.keeps_bind expire outbox.safe_persistFinished)
  next
    case False
    then show ?thesis by (intro outbox.safe_active) simp_all
  qed
  show ?thesis unfolding Reconcile_def reconcile_def reconcile_found_def finalize_def
    by (intro live outbox_metadata outbox.safe_intros)
qed

text \<open>Between reconciles everything may change but the deliveries made and the memory of them.\<close>

inductive delivery_step :: "Deps \<Rightarrow> World \<Rightarrow> World \<Rightarrow> bool" for d where
  operator: "delivery_step d w (snd (Reconcile d key w))"
| environment: "w_Outbox v = w_Outbox u \<Longrightarrow> w_Dispatched v = w_Dispatched u \<Longrightarrow> distinct (hook_names v) \<Longrightarrow> delivery_step d u v"

lemma outbox_step: "outbox_ok u \<Longrightarrow> delivery_step d u v \<Longrightarrow> outbox_ok v"
  using outbox_reconcile by (auto simp: delivery_step.simps keeps_def preserves_def outbox_ok_def)

interpretation delivery_system: invariant_system outbox_ok "delivery_step d" outbox_ok for d
  by unfold_locales (auto intro: outbox_step)

section \<open>Properties\<close>

text \<open>
  C4. Webhooks fire at most once. Over any sequence of reconciles and changes of the cluster in
  one lifetime of the operator, no subscriber is sent the same event of the same run twice.
\<close>

theorem webhook_at_most_once:
  assumes "(delivery_step d)\<^sup>*\<^sup>* w w'" "w_Outbox w = []" "distinct (hook_names w)"
  shows "distinct (map (\<lambda>dl. (dl_Hook dl, dl_Run dl, dl_Event dl)) (w_Outbox w'))"
proof -
  have "outbox_ok w" using assms by (simp add: outbox_ok_def)
  then have "outbox_ok w'" by (rule delivery_system.steps_inv [OF assms(1)])
  then show ?thesis by (simp add: outbox_ok_def)
qed

definition one_hook :: "World \<Rightarrow> World" where
  "one_hook w = w\<lparr>w_Webhooks := [\<lparr>wh_Name = ''h'', wh_Namespace = ''n'', wh_Events = []\<rparr>]\<rparr>"

theorem webhook_at_most_once_witness:
  "distinct (map (\<lambda>dl. (dl_Hook dl, dl_Run dl, dl_Event dl))
     (w_Outbox (snd (Reconcile (sample_deps\<lparr>d_Webhooks := True\<rparr>) (''n'', ''r1'')
       (one_hook (world_of [set_up_run PhaseRunning (Some abort_sample)]))))))"
proof (rule webhook_at_most_once)
  show "(delivery_step (sample_deps\<lparr>d_Webhooks := True\<rparr>))\<^sup>*\<^sup>* (one_hook (world_of [set_up_run PhaseRunning (Some abort_sample)]))
    (snd (Reconcile (sample_deps\<lparr>d_Webhooks := True\<rparr>) (''n'', ''r1'') (one_hook (world_of [set_up_run PhaseRunning (Some abort_sample)]))))"
    by (intro r_into_rtranclp delivery_step.operator)
qed (simp_all add: one_hook_def world_of_def hook_names_def)

text \<open>
  The memory of announcements outlives the run. It is keyed by name and phase and is kept when
  the run is deleted, so when a run of the same name is created later and ends the same way, none
  of its webhooks fire (the memory of persisted runs is cleared at both places).
\<close>

theorem recreated_run_not_announced:
  assumes "webhookDedupKey old_run \<in> set (w_Dispatched w)" "run_key new_run = run_key old_run"
    and "run_phase new_run = run_phase old_run" "w' = snd (finalize d old_run w)"
  shows "w_Dispatched w' = w_Dispatched w \<and> dispatchWebhooks d' new_run w' = (Inr (), w')"
proof -
  have "keeps (same w_Dispatched) (finalize d old_run)"
    unfolding finalize_def stopWorkers_def forget_persisted_def
    by (intro keeps_api same.keeps_rules keeps_cases; simp)
  then have same: "w_Dispatched w' = w_Dispatched w" using assms(4) by (simp add: keeps_def same_def)
  have "webhookDedupKey new_run = webhookDedupKey old_run"
    using assms(2,3) by (simp add: webhookDedupKey_def run_key_def)
  then show ?thesis using assms(1) same by (simp add: dispatchWebhooks_def mbind_get)
qed

theorem recreated_run_not_announced_witness:
  "dispatchWebhooks (sample_deps\<lparr>d_Webhooks := True\<rparr>) ((set_up_run PhasePassed None)\<lparr>r_UID := ''u2''\<rparr>)
     (snd (finalize sample_deps (set_up_run PhasePassed None) ((world_of [])\<lparr>w_Dispatched := [''n/r1#passed'']\<rparr>))) =
   (Inr (), snd (finalize sample_deps (set_up_run PhasePassed None) ((world_of [])\<lparr>w_Dispatched := [''n/r1#passed'']\<rparr>)))"
  using recreated_run_not_announced [of "set_up_run PhasePassed None" "(world_of [])\<lparr>w_Dispatched := [''n/r1#passed'']\<rparr>"
      "(set_up_run PhasePassed None)\<lparr>r_UID := ''u2''\<rparr>" _ sample_deps "sample_deps\<lparr>d_Webhooks := True\<rparr>"]
  by (simp add: webhookDedupKey_def set_up_run_def sample_run_def run_key_def)

end
