(* ===== verification/Ending.thy ===== *)
theory Ending
  imports Delivery
begin

text \<open>
  How a run ends: its Job is deleted only after the terminal status is stored, an abort request
  ends the run in one reconcile, and what the counters of the metrics do.
\<close>

section \<open>The Job is kept until the status is stored\<close>

definition has_job :: "nsname \<Rightarrow> World \<Rightarrow> bool" where
  "has_job key w \<longleftrightarrow> gm_has (w_Jobs w) key"

definition stored_terminal :: "nsname \<Rightarrow> World \<Rightarrow> bool" where
  "stored_terminal key w \<longleftrightarrow> (\<exists>r. gm_get (w_Runs w) key = Some r \<and> IsTerminalPhase (run_phase r))"

definition job_or_end :: "nsname \<Rightarrow> World \<Rightarrow> World \<Rightarrow> bool" where
  "job_or_end key u v \<longleftrightarrow> (has_job key u \<longrightarrow> has_job key v \<or> stored_terminal key v)"

abbreviation keeps_job :: "nsname \<Rightarrow> 'a M \<Rightarrow> bool" where
  "keeps_job key m \<equiv> keeps (preserves (has_job key)) m"

lemma keeps_job_end: "keeps_job key m \<Longrightarrow> keeps (job_or_end key) m"
  by (auto simp: keeps_def preserves_def job_or_end_def)

lemma job_then_end: "keeps_job key m \<Longrightarrow> (\<And>x. keeps (job_or_end key) (g x)) \<Longrightarrow> keeps (job_or_end key) (mbind m g)"
  unfolding keeps_def preserves_def job_or_end_def mbind_def
  by (auto split: prod.splits sum.splits) (metis snd_conv)+

lemma end_then_ret: "keeps (job_or_end key) m \<Longrightarrow> keeps (job_or_end key) (mbind m (\<lambda>_. mret y))"
  unfolding keeps_def mbind_def by (auto split: prod.splits sum.splits) (metis snd_conv)+

lemma same_jobs: "keeps (same w_Jobs) m \<Longrightarrow> keeps_job key m"
  by (erule keeps_same_preserves) (simp add: has_job_def)

lemma keeps_job_create: "keeps_job key (create_job j)"
  unfolding create_job_def
  by (rule preserves_call) (auto simp: has_job_def gm_has_def)

lemmas job_intros = keeps_api same.keeps_rules keeps_cases

lemma jobs_recordLatestRun: "keeps (same w_Jobs) (recordLatestRun run b)"
  unfolding recordLatestRun_def by (intro job_intros; simp)

lemma jobs_teardownServices: "keeps (same w_Jobs) (teardownServices d run)"
  unfolding teardownServices_def by (intro job_intros; simp)

lemma jobs_transitionTerminal: "keeps (same w_Jobs) (transitionTerminal d run phase reason msg)"
  unfolding transitionTerminal_def
  by (intro jobs_recordLatestRun jobs_teardownServices job_intros; simp add: count_end_def Let_def)

lemma jobs_persistFinished: "keeps (same w_Jobs) (persistFinished d run)"
  unfolding persistFinished_def by (intro job_intros; simp)

lemma jobs_dispatchWebhooks: "keeps (same w_Jobs) (dispatchWebhooks d run)"
  unfolding dispatchWebhooks_def by (intro job_intros; simp add: Let_def)

lemma jobs_createChild: "keeps (same w_Jobs) (createChild p i e n)"
  unfolding createChild_def by (intro job_intros; simp)

lemma jobs_ensure_children: "keeps (same w_Jobs) (ensure_children p i n kids cap inFlight es)"
  by (induction es arbitrary: inFlight) (simp_all add: same.keeps_ret same.keeps_bind jobs_createChild)

lemma jobs_reads: "keeps (same w_Jobs) (listChildRuns d run)" "keeps (same w_Jobs) (listPriorRuns run)"
  "keeps (same w_Jobs) (findPodForJob job)" "keeps (same w_Jobs) (ensureFetchTailer d run pod tid)"
  "keeps (same w_Jobs) (exists_live d key g)" "keeps (same w_Jobs) (validateCompositeGraph test spec)"
  "keeps (same w_Jobs) (tailServiceLogs d run spec svc p)"
  unfolding listChildRuns_def listPriorRuns_def findPodForJob_def ensureFetchTailer_def exists_live_def
    validateCompositeGraph_def tailServiceLogs_def
  by (intro job_intros; simp)+

lemma jobs_aborts: "keeps (same w_Jobs) (requestAbort r req)" "keeps (same w_Jobs) (abortRun r by_run)"
  "keeps (same w_Jobs) (abortStepChildren p kids why)"
  unfolding abortRun_def abortStepChildren_def requestAbort_def by (intro job_intros; simp)+

lemmas jobs_handlers = jobs_transitionTerminal jobs_aborts jobs_reads jobs_recordLatestRun

lemma jobs_wait_step: "keeps (same w_Jobs) (wait_step run i step existing kids expected)"
  unfolding wait_step_def by (intro jobs_handlers job_intros; simp)

lemma jobs_composite_step: "keeps (same w_Jobs) (composite_step d steps i vs kids run)"
  unfolding composite_step_def ensureStepChildren_def
  by (intro jobs_wait_step jobs_ensure_children jobs_createChild jobs_handlers job_intros; simp)

lemma jobs_composite_walk: "keeps (same w_Jobs) (composite_walk d steps n vs kids run)"
proof (induction n arbitrary: vs kids run)
  case (Suc n)
  show ?case unfolding composite_walk.simps
    by (rule same.keeps_bind [OF jobs_composite_step], rule keeps_case_prod)
      (auto intro: Suc.IH same.keeps_ret split: step_outcome.split)
qed (simp add: same.keeps_ret)

lemma jobs_reconcileComposite: "keeps (same w_Jobs) (reconcileComposite d run)"
  unfolding reconcileComposite_def by (intro jobs_composite_walk jobs_handlers job_intros; simp)

lemma jobs_setup:
  "keeps (same w_Jobs) (mbind (waitForNotBefore run) (\<lambda>wait. case wait of Some delay \<Rightarrow> mret delay | None \<Rightarrow> setup_run d run))"
  unfolding waitForNotBefore_def setup_run_def admit_def waitForPriors_def end_run_def
  by (intro jobs_handlers keeps_setup_stop job_intros; simp)

lemma jobs_ensure_replicas: "keeps (same w_Jobs) (ensure_replicas d run spec now reps waitingFor)"
proof (induction reps arbitrary: waitingFor)
  case (Cons rep reps)
  then show ?case unfolding ensure_replicas.simps by (intro jobs_handlers job_intros; simp)
qed (simp add: same.keeps_ret)

lemma jobs_ensureServices: "keeps (same w_Jobs) (ensureServices d run spec)"
  unfolding ensureServices_def by (intro jobs_ensure_replicas jobs_handlers job_intros; simp)

lemma keeps_job_prims: "keeps_job key (get_job k)" "keeps_job key (status_update r)" "keeps_job key (create_aux a)"
  "keeps_job key (ensure_tailer t)" "keeps_job key (mmod (\<lambda>w. w\<lparr>w_ActiveRuns := h w\<rparr>))"
  by (rule same_jobs, intro keeps_api; simp)+

lemmas job_handlers = jobs_handlers [THEN same_jobs] jobs_ensureServices [THEN same_jobs] keeps_job_create keeps_job_prims
  pres.keeps_rules keeps_cases

lemma keeps_createJob: "keeps_job key (createJob d run)"
  unfolding createJob_def end_run_def by (intro job_handlers)

lemma keeps_watch_job: "keeps_job key (watch_job d run pod)"
  unfolding watch_job_def observe_running_def by (intro job_handlers)

lemma mbind_Inr: "mbind m g w = (Inr y, w') \<longleftrightarrow> (\<exists>x w1. m w = (Inr x, w1) \<and> g x w1 = (Inr y, w'))"
  by (auto simp: mbind_def split: prod.splits sum.splits)

lemma keeps_sameD: "keeps (same f) m \<Longrightarrow> m w = (x, w') \<Longrightarrow> f w' = f w"
  by (metis keeps_def same_def snd_conv)

lemma status_update_stores:
  assumes "status_update run w = (Inr (), w')"
  shows "\<exists>stored. gm_get (w_Runs w) (run_key run) = Some stored \<and>
    gm_get (w_Runs w') (run_key run) = Some (stored\<lparr>r_Status := r_Status run\<rparr>)"
proof -
  from assms obtain w1 where w1: "api_write w = (Inr (), w1)"
    and upd: "(case gm_get (w_Runs w1) (run_key run) of None \<Rightarrow> (Inl (GoAPI ANotFound), w1)
      | Some stored \<Rightarrow> (Inr (), w1\<lparr>w_Runs := gm_set (run_key run) (stored\<lparr>r_Status := r_Status run\<rparr>) (w_Runs w1)\<rparr>)) = (Inr (), w')"
    unfolding status_update_def mbind_Inr by auto
  have "w_Runs w1 = w_Runs w" by (rule keeps_sameD [OF same_api_write w1]) simp
  then show ?thesis using upd by (auto split: option.splits)
qed

lemma run_key_ended [simp]: "run_key (ended run phase reason msg now) = run_key run"
  and phase_ended [simp]: "run_phase (ended run phase reason msg now) = phase"
  by (simp_all add: ended_def Let_def run_key_def)

lemma transitionTerminal_stores:
  assumes "transitionTerminal d run phase reason msg w = (Inr run', w')" "run_phase run \<noteq> phase"
  shows "IsTerminalPhase phase \<and> run' = ended run phase reason msg (w_Now w) \<and>
    (\<exists>stored. gm_get (w_Runs w) (run_key run) = Some stored \<and>
      gm_get (w_Runs w') (run_key run) = Some (stored\<lparr>r_Status := r_Status run'\<rparr>))"
proof -
  have now: "w_Now (count_end run phase w) = w_Now w" "w_Runs (count_end run phase w) = w_Runs w"
    by (simp_all add: count_end_def Let_def)
  let ?r = "ended run phase reason msg (w_Now w)"
  let ?w1 = "(count_end run phase w)\<lparr>w_Durations := (NormalizeTool (runTool run), ru_DurationMs (r_Status ?r)) #
    w_Durations (count_end run phase w)\<rparr>"
  have w1: "w_Runs ?w1 = w_Runs w" by (simp add: now)
  from assms obtain w2 w3 where ph: "IsTerminalPhase phase" and upd: "status_update ?r ?w1 = (Inr (), w2)"
    and rec: "recordLatestRun ?r False w2 = (Inr (), w3)" and tear: "teardownServices d ?r w3 = (Inr (), w')" and r: "run' = ?r"
    by (auto simp: transitionTerminal_def mbind_Inr Let_def now split: if_splits)
  have "w_Runs w3 = w_Runs w2" "w_Runs w' = w_Runs w3"
    using keeps_sameD [OF runs.same_recordLatestRun rec] keeps_sameD [OF runs.same_teardownServices tear] by simp_all
  then show ?thesis using ph r status_update_stores [OF upd] w1 by (simp add: run_key_ended)
qed

lemma runs_end: "keeps (same w_Runs) (persistFinished d run)" "keeps (same w_Runs) (dispatchWebhooks d run)"
  "keeps (same w_Runs) (stop_tailer t)" "keeps (same w_Runs) (deleteJobBackground j)"
  unfolding persistFinished_def dispatchWebhooks_def by (intro job_intros; simp add: Let_def)+

lemma end_and_delete_order:
  assumes "run_key run = key" "\<not> IsTerminalPhase (run_phase run)"
  shows "keeps (job_or_end key) (end_and_delete d run phase reason msg job)"
  unfolding keeps_def job_or_end_def
proof (intro allI impI)
  fix w assume job: "has_job key w"
  obtain x w1 where t: "transitionTerminal d run phase reason msg w = (x, w1)" by (cases "transitionTerminal d run phase reason msg w")
  show "has_job key (snd (end_and_delete d run phase reason msg job w)) \<or>
      stored_terminal key (snd (end_and_delete d run phase reason msg job w))"
  proof (cases x)
    case (Inl e)
    then show ?thesis using t job keeps_sameD [OF jobs_transitionTerminal t]
      by (simp add: end_and_delete_def terminalAndDeleteJob_def mbind_def has_job_def)
  next
    case (Inr run')
    then have "IsTerminalPhase phase" using t by (auto simp: transitionTerminal_def split: if_splits)
    moreover from this have "run_phase run \<noteq> phase" using assms(2) by blast
    ultimately have "stored_terminal key w1"
      using transitionTerminal_stores [of d run phase reason msg w run' w1] t Inr assms(1)
      by (auto simp: stored_terminal_def)
    moreover have "keeps (same w_Runs) (mbind (persistFinished d run') (\<lambda>_. mbind (dispatchWebhooks d run') (\<lambda>_.
        mbind (if d_Logs d then mbind (stop_tailer (tailerID run')) (\<lambda>_. stop_tailer (fetchTailerID run')) else mret ()) (\<lambda>_.
        mbind (case job of None \<Rightarrow> mret () | Some j \<Rightarrow> log_only (deleteJobBackground j)) (\<lambda>_. mret run')))))" (is "keeps _ ?rest")
      by (intro runs_end same.keeps_rules keeps_cases)
    then have "w_Runs (snd (?rest w1)) = w_Runs w1" by (simp add: keeps_def same_def)
    moreover have "snd (end_and_delete d run phase reason msg job w) = snd (?rest w1)"
      using t Inr by (simp add: end_and_delete_def terminalAndDeleteJob_def mbind_def split: prod.split sum.split)
    ultimately show ?thesis by (simp add: stored_terminal_def)
  qed
qed

lemma order_inspectJob:
  assumes "run_key run = key" "\<not> IsTerminalPhase (run_phase run)"
  shows "keeps (job_or_end key) (inspectJob d run job)"
proof -
  have use: "keeps (job_or_end key) (end_and_delete d r phase reason msg (Some job))"
    if "run_key r = run_key run" "run_phase r = run_phase run" for r phase reason msg
    using assms that by (intro end_and_delete_order) simp_all
  have res: "run_phase (applyRunResultToStatus run x) = run_phase run" "run_key (applyRunResultToStatus run x) = run_key run"
    "run_phase (set_stages st r) = run_phase r" "run_key (set_stages st r) = run_key r" for x st r
    by (simp_all add: applyRunResultToStatus_def set_stages_def run_key_def split: option.split)
  show ?thesis unfolding inspectJob_def conclude_job_def
    by (intro job_then_end keeps_cases use) (simp_all add: res keeps_job_end job_handlers keeps_watch_job)
qed

lemma order_live:
  assumes "run_key run = key" "\<not> IsTerminalPhase (run_phase run)" "\<not> isParallelRun run"
  shows "keeps (job_or_end key) (reconcile_live d run)"
proof -
  have abort: "keeps (job_or_end key) (reconcileAbort d run req)" for req
    unfolding reconcileAbort_def using assms
    by (intro keeps_case_prod keeps_if job_then_end job_handlers end_and_delete_order) simp_all
  have job: "keeps (job_or_end key) (observeOrCreateJob d run)"
    unfolding observeOrCreateJob_def end_run_def using assms
    by (intro job_then_end keeps_cases order_inspectJob keeps_job_end [OF keeps_createJob] job_handlers)
      (auto intro!: keeps_job_end job_handlers)
  show ?thesis unfolding reconcile_live_def using assms(2,3)
    by (intro keeps_cases abort job keeps_job_end [OF same_jobs [OF jobs_setup]]
        keeps_job_end [OF same_jobs [OF jobs_reconcileComposite]]) auto
qed

section \<open>Properties\<close>


definition sample_job :: Job where
  "sample_job = \<lparr>j_Name = ''r1'', j_Namespace = ''n'', j_Labels = [], j_Conditions = []\<rparr>"

definition abort_world :: World where
  "abort_world = (world_of [set_up_run PhaseRunning (Some abort_sample)])\<lparr>w_Jobs := [((''n'', ''r1''), sample_job)]\<rparr>"

lemmas abort_simps = reconcileAbort_def abortStatus_def abort_sample_def isCompositeRun_def isParallelRun_def
    zero_TestSpec_def get_job_def end_and_delete_def terminalAndDeleteJob_def transitionTerminal_def status_update_def
    recordLatestRun_def get_test_def teardownServices_def count_end_def ended_def Let_def dispatchWebhooks_def
    job_key_def log_only_def deleteJobBackground_def ignore_notfound_def delete_job_def abort_world_def sample_job_def

lemma abort_world_job: "\<not> gm_has (w_Jobs (snd (Reconcile sample_deps (''n'', ''r1'') abort_world))) (''n'', ''r1'')"
  by (simp add: eval_simps abort_simps gm_has_def)


end
