(* ===== verification/Abort.thy ===== *)
theory Abort
  imports Ending
begin

text \<open>
  Progress: while no API call fails, an abort request ends the run in one reconcile. \<open>calm\<close> is a
  world with no fault ahead, \<open>smooth\<close> a handler that then returns without an error.
\<close>

definition calm :: "World \<Rightarrow> bool" where
  "calm w \<longleftrightarrow> w_Faults w = [] \<and> w_ReadFaults w = []"

definition smooth :: "'a M \<Rightarrow> bool" where
  "smooth m \<longleftrightarrow> (\<forall>w. calm w \<longrightarrow> (\<exists>x w'. m w = (Inr x, w') \<and> calm w'))"

abbreviation keeps_calm :: "'a M \<Rightarrow> bool" where
  "keeps_calm m \<equiv> keeps (preserves calm) m"

lemma smoothE:
  assumes "smooth m" "calm w"
  obtains x w' where "m w = (Inr x, w')" "calm w'"
  using assms by (auto simp: smooth_def)

lemma smooth_ret: "smooth (mret x)" and smooth_get: "smooth (mget g)"
  by (simp_all add: smooth_def)

lemma smooth_bind: "smooth m \<Longrightarrow> (\<And>x. smooth (g x)) \<Longrightarrow> smooth (mbind m g)"
  unfolding smooth_def mbind_def by (metis (mono_tags, lifting) case_prod_conv sum.case(2))

lemma smooth_for: "(\<And>x. smooth (g x)) \<Longrightarrow> smooth (mfor g xs)"
  by (induction xs) (simp_all add: smooth_ret smooth_bind)

lemma smooth_try: "keeps_calm m \<Longrightarrow> smooth (mtry m)"
  by (simp add: smooth_def keeps_def preserves_def mtry_apply)

lemma smooth_log: "keeps_calm m \<Longrightarrow> smooth (log_only m)"
  unfolding log_only_def by (intro smooth_bind smooth_try smooth_ret)

lemma smooth_mod: "(\<And>w. calm w \<Longrightarrow> calm (g w)) \<Longrightarrow> smooth (mmod g)"
  by (simp add: smooth_def)

lemma smooth_if: "(b \<Longrightarrow> smooth m) \<Longrightarrow> (\<not> b \<Longrightarrow> smooth n) \<Longrightarrow> smooth (if b then m else n)"
  by simp

lemma smooth_let: "smooth (g x) \<Longrightarrow> smooth (Let x g)"
  by simp

lemma smooth_option:
  "(x = None \<Longrightarrow> smooth m) \<Longrightarrow> (\<And>y. x = Some y \<Longrightarrow> smooth (g y)) \<Longrightarrow> smooth (case_option m g x)"
  by (cases x) auto

lemma smooth_sum: "(\<And>y. x = Inl y \<Longrightarrow> smooth (g y)) \<Longrightarrow> (\<And>y. x = Inr y \<Longrightarrow> smooth (h y)) \<Longrightarrow> smooth (case_sum g h x)"
  by (cases x) auto

lemma smooth_snapshot:
  "smooth m \<Longrightarrow> (\<And>y. smooth (g y)) \<Longrightarrow> (\<And>y. smooth (h y)) \<Longrightarrow> smooth (case_snapshot m g h x)"
  by (cases x) auto

lemma smooth_api: "smooth api_read" "smooth api_write"
  by (simp_all add: smooth_def calm_def)

lemma smooth_reads: "smooth (get_job key)" "smooth (get_test key)" "smooth (listChildRuns d run)"
  unfolding get_job_def get_test_def listChildRuns_def by (intro smooth_bind smooth_api smooth_get)+

lemmas smooth_rules = smooth_ret smooth_get smooth_bind smooth_for smooth_try smooth_log smooth_if smooth_let
  smooth_option smooth_sum smooth_snapshot smooth_api smooth_reads

lemma calm_read: "keeps_calm api_read"
  by (simp add: keeps_def preserves_def calm_def)

lemma calm_call: "(\<And>w. calm w \<Longrightarrow> calm (snd (g w))) \<Longrightarrow> keeps_calm (mbind api_write (\<lambda>_. g))"
  by (auto simp: keeps_def preserves_def mbind_def calm_def)

lemma calm_calls: "keeps_calm (delete_pod key)" "keeps_calm (delete_service key)" "keeps_calm (delete_job key)"
  "keeps_calm (patch_abort key req)"
  unfolding delete_pod_def delete_service_def delete_job_def patch_abort_def
  by (rule calm_call; simp add: calm_def split: option.split)+

lemma calm_reads: "keeps_calm (get_job key)" "keeps_calm (get_test key)"
  unfolding get_job_def get_test_def by (intro pres.keeps_rules calm_read)+

lemma calm_deleteJob: "keeps_calm (deleteJobBackground j)"
  unfolding deleteJobBackground_def by (intro pres.keeps_rules calm_calls)

lemma smooth_tailers: "smooth (ensure_tailer t)" "smooth (stop_tailer t)"
  unfolding ensure_tailer_def stop_tailer_def by (rule smooth_mod; simp add: calm_def)+

lemma smooth_patch: "smooth (ignore_notfound (patch_abort key req))"
  by (auto simp: smooth_def ignore_notfound_def patch_abort_def mbind_def mtry_def calm_def split: option.split)

lemma smooth_abortStepChildren: "smooth (abortStepChildren p kids why)"
  unfolding abortStepChildren_def requestAbort_def by (intro smooth_rules smooth_patch)

lemma smooth_stopWorkers: "smooth (stopWorkers d run)"
  unfolding stopWorkers_def
  by (intro smooth_rules smooth_tailers calm_reads calm_deleteJob)

lemma smooth_recordLatestRun: "smooth (recordLatestRun run b)"
  unfolding recordLatestRun_def
  by (intro smooth_rules calm_reads pres.keeps_rules calm_call [THEN pres.keeps_log])
    (auto simp: keeps_def preserves_def calm_def mbind_def)

lemma smooth_teardownServices: "smooth (teardownServices d run)"
  unfolding teardownServices_def
  by (intro smooth_rules smooth_tailers pres.keeps_rules calm_calls)

lemma smooth_persistFinished: "smooth (persistFinished d run)"
  unfolding persistFinished_def by (intro smooth_rules smooth_mod; simp add: calm_def)

lemma smooth_dispatchWebhooks: "smooth (dispatchWebhooks d run)"
  unfolding dispatchWebhooks_def by (intro smooth_rules smooth_mod calm_read; simp add: calm_def Let_def)

lemma transitionTerminal_smooth:
  assumes "calm w" "gm_get (w_Runs w) (run_key run) = Some stored" "IsTerminalPhase phase" "run_phase run \<noteq> phase"
  shows "\<exists>w'. transitionTerminal d run phase reason msg w = (Inr (ended run phase reason msg (w_Now w)), w') \<and> calm w' \<and>
    gm_get (w_Runs w') (run_key run) = Some (stored\<lparr>r_Status := r_Status (ended run phase reason msg (w_Now w))\<rparr>)"
proof -
  let ?r = "ended run phase reason msg (w_Now w)"
  let ?w1 = "(count_end run phase w)\<lparr>w_Durations := (NormalizeTool (runTool run), ru_DurationMs (r_Status ?r)) #
    w_Durations (count_end run phase w)\<rparr>"
  let ?w2 = "?w1\<lparr>w_Runs := gm_set (run_key run) (stored\<lparr>r_Status := r_Status ?r\<rparr>) (w_Runs w)\<rparr>"
  have c: "w_Now (count_end run phase w) = w_Now w" "w_Runs (count_end run phase w) = w_Runs w" "calm (count_end run phase w)"
    using assms(1) by (simp_all add: count_end_def Let_def calm_def)
  then have calm2: "calm ?w2" by (simp add: calm_def)
  have upd: "status_update ?r ?w1 = (Inr (), ?w2)"
    using c assms(2) by (simp add: status_update_def mbind_def calm_def)
  obtain x w3 where w3: "recordLatestRun ?r False ?w2 = (Inr x, w3)" "calm w3"
    by (rule smoothE [OF smooth_recordLatestRun calm2])
  obtain y w4 where w4: "teardownServices d ?r w3 = (Inr y, w4)" "calm w4"
    by (rule smoothE [OF smooth_teardownServices w3(2)])
  have "w_Runs w4 = w_Runs ?w2"
    using keeps_sameD [OF runs.same_recordLatestRun w3(1)] keeps_sameD [OF runs.same_teardownServices w4(1)] by simp
  moreover have "transitionTerminal d run phase reason msg w = (Inr ?r, w4)"
    using assms(3,4) c(1) upd w3(1) w4(1) by (simp add: transitionTerminal_def mbind_def Let_def)
  ultimately show ?thesis using w4(2) by simp
qed

lemma end_and_delete_smooth:
  assumes "calm w" "gm_get (w_Runs w) (run_key run) = Some stored" "IsTerminalPhase phase" "run_phase run \<noteq> phase"
  shows "\<exists>w'. end_and_delete d run phase reason msg job w = (Inr 0, w') \<and>
    gm_get (w_Runs w') (run_key run) = Some (stored\<lparr>r_Status := r_Status (ended run phase reason msg (w_Now w))\<rparr>)"
proof -
  let ?r = "ended run phase reason msg (w_Now w)"
  let ?rest = "mbind (persistFinished d ?r) (\<lambda>_. mbind (dispatchWebhooks d ?r) (\<lambda>_.
        mbind (if d_Logs d then mbind (stop_tailer (tailerID ?r)) (\<lambda>_. stop_tailer (fetchTailerID ?r)) else mret ()) (\<lambda>_.
        mbind (case job of None \<Rightarrow> mret () | Some j \<Rightarrow> log_only (deleteJobBackground j)) (\<lambda>_. mret ?r))))"
  obtain w1 where w1: "transitionTerminal d run phase reason msg w = (Inr ?r, w1)" "calm w1"
    "gm_get (w_Runs w1) (run_key run) = Some (stored\<lparr>r_Status := r_Status ?r\<rparr>)"
    using transitionTerminal_smooth [OF assms] by blast
  have "smooth ?rest"
    by (intro smooth_rules smooth_persistFinished smooth_dispatchWebhooks smooth_tailers calm_deleteJob)
  then obtain x w2 where w2: "?rest w1 = (Inr x, w2)" using w1(2) by (rule smoothE)
  have "keeps (same w_Runs) ?rest" by (intro runs_end same.keeps_rules keeps_cases)
  then have "w_Runs w2 = w_Runs w1" by (rule keeps_sameD) (rule w2)
  moreover have "end_and_delete d run phase reason msg job w = (Inr 0, w2)"
    using w1(1) w2 by (simp add: end_and_delete_def terminalAndDeleteJob_def mbind_def split: prod.splits sum.splits)
  ultimately show ?thesis using w1(3) by simp
qed

text \<open>What precedes the end leaves the run itself and the clock alone.\<close>

definition run_there :: "nsname \<Rightarrow> time \<Rightarrow> World \<Rightarrow> bool" where
  "run_there key now w \<longleftrightarrow> gm_get (w_Runs w) key \<noteq> None \<and> w_Now w = now"

lemma there_call:
  "(\<And>w. run_there key now w \<Longrightarrow> run_there key now (snd (g w))) \<Longrightarrow> keeps (preserves (run_there key now)) (mbind api_write (\<lambda>_. g))"
  by (rule preserves_call) (simp_all add: run_there_def)

lemma there_abort: "keeps (preserves (run_there key now)) (abortStepChildren p kids why)"
  unfolding abortStepChildren_def requestAbort_def patch_abort_def
  by (intro pres.keeps_rules keeps_cases there_call) (simp add: run_there_def split: option.split)

lemma there_same: "keeps (same (\<lambda>w. (w_Runs w, w_Now w))) m \<Longrightarrow> keeps (preserves (run_there key now)) m"
  by (erule keeps_same_preserves) (simp add: run_there_def)

lemma there_before: "keeps (preserves (run_there key now)) (listChildRuns d run)"
  "keeps (preserves (run_there key now)) (stopWorkers d run)" "keeps (preserves (run_there key now)) (get_job k)"
  unfolding listChildRuns_def stopWorkers_def
  by (rule there_same, intro keeps_api same.keeps_rules keeps_cases; simp)+

text \<open>A smooth prelude, then the end.\<close>

lemma before_end:
  assumes "smooth m" "keeps (preserves (run_there (run_key run) now)) m" "calm w" "run_there (run_key run) now w"
    and "IsTerminalPhase phase" "run_phase run \<noteq> phase"
  shows "\<exists>w' stored. mbind m (\<lambda>x. end_and_delete d run phase reason msg (job x)) w = (Inr 0, w') \<and>
    gm_get (w_Runs w') (run_key run) = Some (stored\<lparr>r_Status := r_Status (ended run phase reason msg now)\<rparr>)"
proof -
  obtain x w1 where w1: "m w = (Inr x, w1)" "calm w1" by (rule smoothE [OF assms(1,3)])
  then have "run_there (run_key run) now w1" using assms(2,4) by (metis keeps_def preserves_def snd_conv)
  then obtain stored where "gm_get (w_Runs w1) (run_key run) = Some stored" "w_Now w1 = now" by (auto simp: run_there_def)
  from end_and_delete_smooth [OF w1(2) this(1) assms(5,6), of d reason msg "job x"] this(2)
  show ?thesis using w1(1) by (auto simp: mbind_def)
qed

lemma mbind_assoc: "mbind (mbind m g) h = mbind m (\<lambda>x. mbind (g x) h)"
  by (rule ext) (simp add: mbind_def split: prod.split sum.split)

lemma reconcileAbort_ends:
  assumes "calm w" "run_there (run_key run) now w" "\<not> IsTerminalPhase (run_phase run)" "abortStatus req = (reason, msg)"
  shows "\<exists>w' stored. reconcileAbort d run req w = (Inr 0, w') \<and>
    gm_get (w_Runs w') (run_key run) = Some (stored\<lparr>r_Status := r_Status (ended run PhaseAborted reason msg now)\<rparr>)"
proof -
  have ph: "IsTerminalPhase PhaseAborted" "run_phase run \<noteq> PhaseAborted"
    using assms(3) by (auto simp: IsTerminalPhase_def)
  have "smooth (mbind (listChildRuns d run) (\<lambda>kids. abortStepChildren run kids ''parent run aborted''))"
    "keeps (preserves (run_there (run_key run) now)) (mbind (listChildRuns d run) (\<lambda>kids. abortStepChildren run kids ''parent run aborted''))"
    by (intro smooth_rules smooth_abortStepChildren, intro pres.keeps_bind there_before there_abort)
  note kids = before_end [OF this assms(1,2) ph, where job = "\<lambda>_. None" and d = d and reason = reason and msg = msg]
  note workers = before_end [OF smooth_stopWorkers there_before(2) assms(1,2) ph,
      where job = "\<lambda>_. None" and d = d and reason = reason and msg = msg]
  note plain = before_end [OF smooth_reads(1) there_before(3) assms(1,2) ph,
      where job = "\<lambda>x. x" and d = d and reason = reason and msg = msg]
  show ?thesis unfolding reconcileAbort_def using kids workers [of d run] plain [of "job_key run"] by (simp add: assms(4) mbind_assoc)
qed

section \<open>Properties\<close>

text \<open>
  C6. An abort request is honoured at once: while no API call fails, one reconcile of a run whose
  \<open>spec.abort\<close> is set, plain, parallel or composite, in whatever phase before its end, leaves it
  aborted, finished now, with the reason and requester in its message.
\<close>

theorem abort_ends_run:
  assumes "calm w" "store_ok w" "gm_get (w_Runs w) key = Some r" "r_DeletionTimestamp r = None"
    and "FinalizerName \<in> set (r_Finalizers r)" "\<not> IsTerminalPhase (run_phase r)" "rs_Abort (r_Spec r) = Some req"
  shows "\<exists>w' r'. Reconcile d key w = (Inr 0, w') \<and> gm_get (w_Runs w') key = Some r' \<and>
    run_phase r' = PhaseAborted \<and> ru_FinishedAt (r_Status r') = Some (w_Now w) \<and>
    ru_Message (r_Status r') = end_message (fst (abortStatus req)) (snd (abortStatus req)) (ru_Message (r_Status r))"
proof -
  have key: "run_key r = key" using store_okD [OF assms(2,3)] by simp
  have "get_run key w = (Inr (Some r), w)"
    using assms(1,3) by (simp add: get_run_def mbind_def calm_def)
  then have "reconcile d key w = reconcileAbort d r req w"
    using assms(4-7) by (simp add: reconcile_def reconcile_found_def reconcile_live_def mbind_def)
  moreover obtain reason msg where rm: "abortStatus req = (reason, msg)" by (cases "abortStatus req")
  moreover have "run_there (run_key r) (w_Now w) w" using assms(3) key by (simp add: run_there_def)
  note ends = reconcileAbort_ends [OF assms(1) this assms(6) rm, of d]
  then obtain w' stored where "reconcileAbort d r req w = (Inr 0, w')"
    "gm_get (w_Runs w') key = Some (stored\<lparr>r_Status := r_Status (ended r PhaseAborted reason msg (w_Now w))\<rparr>)"
    using key by auto
  ultimately show ?thesis by (auto simp: Reconcile_def mbind_def mtry_def ended_def Let_def)
qed

theorem abort_ends_run_witness:
  "\<exists>w' r'. Reconcile sample_deps (''n'', ''r1'') abort_world = (Inr 0, w') \<and>
     gm_get (w_Runs w') (''n'', ''r1'') = Some r' \<and> run_phase r' = PhaseAborted \<and>
     ru_FinishedAt (r_Status r') = Some 9 \<and> ru_Message (r_Status r') = ''AbortedByUser: stop''"
proof -
  have "store_ok abort_world"
    using store_ok_sample [of PhaseRunning "Some abort_sample"] by (simp add: abort_world_def store_ok_def old_uid_def)
  moreover have "calm abort_world" "w_Now abort_world = 9"
    "gm_get (w_Runs abort_world) (''n'', ''r1'') = Some (set_up_run PhaseRunning (Some abort_sample))"
    by (simp_all add: calm_def abort_world_def world_of_def run_key_def set_up_run_def sample_run_def)
  moreover have "end_message (fst (abortStatus abort_sample)) (snd (abortStatus abort_sample)) [] = ''AbortedByUser: stop''"
    by (simp add: abortStatus_def abort_sample_def end_message_def)
  ultimately show ?thesis
    using abort_ends_run [of abort_world "(''n'', ''r1'')" "set_up_run PhaseRunning (Some abort_sample)" abort_sample sample_deps]
    by (simp add: set_up_run_def sample_run_def IsTerminalPhase_def zero_TestRunStatus_def)
qed

end
