(* ===== verification/Exclusion.thy ===== *)
theory Exclusion
  imports Abort
begin

text \<open>
  The concurrency policy over the whole system: with \<open>concurrencyPolicy: Forbid\<close>, at no time are two
  runs of the Test under way, whatever is reconciled in which order. The informer cache must show
  the TestRuns (\<open>w_Lag\<close> names none): the check reads it.
\<close>

section \<open>Runs under way\<close>

definition run_of :: "nsname \<Rightarrow> TestRun \<Rightarrow> bool" where
  "run_of test r \<longleftrightarrow> r_Namespace r = fst test \<and> rs_TestRef (r_Spec r) = snd test"

definition under_way :: "nsname \<Rightarrow> World \<Rightarrow> nsname \<Rightarrow> bool" where
  "under_way test w k \<longleftrightarrow> (\<exists>r. gm_get (w_Runs w) k = Some r \<and> run_of test r \<and> started r)"

definition only_at :: "nsname \<Rightarrow> nsname \<Rightarrow> World \<Rightarrow> bool" where
  "only_at test k0 w \<longleftrightarrow> (\<forall>k. under_way test w k \<longrightarrow> k = k0)"

definition exclusive :: "nsname \<Rightarrow> World \<Rightarrow> bool" where
  "exclusive test w \<longleftrightarrow> (\<exists>k0. only_at test k0 w)"

text \<open>What the argument needs of the rest of the world: unique UIDs, the Test's policy, no lag.\<close>

definition uids_ok :: "World \<Rightarrow> bool" where
  "uids_ok w \<longleftrightarrow> store_ok w \<and>
     (\<forall>k k' r r'. gm_get (w_Runs w) k = Some r \<longrightarrow> gm_get (w_Runs w) k' = Some r' \<longrightarrow> r_UID r = r_UID r' \<longrightarrow> k = k')"

definition forbids :: "nsname \<Rightarrow> World \<Rightarrow> bool" where
  "forbids test w \<longleftrightarrow> (\<forall>t. gm_get (w_Tests w) test = Some t \<longrightarrow> ts_ConcurrencyPolicy (t_Spec t) = PolicyForbid) \<and> w_Lag w = []"

lemma exclusive_iff:
  "exclusive test w \<longleftrightarrow> (\<forall>k k'. under_way test w k \<longrightarrow> under_way test w k' \<longrightarrow> k = k')"
  unfolding exclusive_def only_at_def by metis

section \<open>What the calls keep\<close>

text \<open>\<open>free key\<close>: the run stored at \<open>key\<close> may be written, it is where the run under way is or of another Test.\<close>

definition free_key :: "nsname \<Rightarrow> nsname \<Rightarrow> nsname \<Rightarrow> World \<Rightarrow> bool" where
  "free_key test k0 key w \<longleftrightarrow> key = k0 \<or> (\<exists>r. gm_get (w_Runs w) key = Some r \<and> \<not> run_of test r)"

definition base_ok :: "nsname \<Rightarrow> nsname \<Rightarrow> World \<Rightarrow> bool" where
  "base_ok test k0 w \<longleftrightarrow> uids_ok w \<and> forbids test w \<and> only_at test k0 w"

lemmas excl_defs = base_ok_def uids_ok_def store_ok_def old_uid_def forbids_def only_at_def under_way_def free_key_def

text \<open>A change of one stored run that keeps its identity.\<close>

lemma base_ok_replace:
  assumes "base_ok test k0 w" "gm_get (w_Runs w) key = Some r" "run_key r' = run_key r" "r_UID r' = r_UID r"
    and "run_of test r' \<Longrightarrow> started r' \<Longrightarrow> key = k0 \<or> (run_of test r \<and> started r)"
  shows "base_ok test k0 (w\<lparr>w_Runs := gm_set key r' (w_Runs w)\<rparr>)"
proof -
  have "uids_ok (w\<lparr>w_Runs := gm_set key r' (w_Runs w)\<rparr>)"
    using assms(1-4) by (auto simp: base_ok_def uids_ok_def store_ok_def old_uid_def)
  moreover have "only_at test k0 (w\<lparr>w_Runs := gm_set key r' (w_Runs w)\<rparr>)"
    using assms(1,2,5) by (auto simp: base_ok_def only_at_def under_way_def)
  ultimately show ?thesis using assms(1) by (simp add: base_ok_def forbids_def)
qed

lemma base_ok_delete: "base_ok test k0 w \<Longrightarrow> base_ok test k0 (w\<lparr>w_Runs := gm_del key (w_Runs w)\<rparr>)"
  by (auto simp: excl_defs)

lemma base_ok_create:
  assumes "base_ok test k0 w" "gm_get (w_Runs w) (run_key r) = None" "\<not> started r"
  shows "base_ok test k0 (w\<lparr>w_NextUID := Suc (w_NextUID w), w_Runs := gm_set (run_key r)
    (r\<lparr>r_UID := ''uid-'' @ utoa (w_NextUID w), r_CreationTimestamp := w_Now w\<rparr>) (w_Runs w)\<rparr>)"
  using assms
  by (auto simp: excl_defs run_key_def started_def) (metis le_refl)+

lemma base_ok_patch:
  assumes "base_ok test k0 w" "gm_get (w_Runs w) key = Some r"
  shows "base_ok test k0 (w\<lparr>w_Runs := gm_set key (r\<lparr>r_Spec := (r_Spec r)\<lparr>rs_Abort := a\<rparr>\<rparr>) (w_Runs w)\<rparr>)"
    "base_ok test k0 (w\<lparr>w_Runs := gm_set key (r\<lparr>r_Finalizers := fs\<rparr>) (w_Runs w)\<rparr>)"
    "base_ok test k0 (w\<lparr>w_Runs := gm_set key (r\<lparr>r_DeletionTimestamp := t\<rparr>) (w_Runs w)\<rparr>)"
  using assms by (auto intro!: base_ok_replace simp: run_key_def run_of_def started_def)

lemma base_call:
  assumes "\<And>w. base_ok test k0 w \<Longrightarrow> base_ok test k0 (snd (g w))"
  shows "keeps (preserves (base_ok test k0)) (mbind api_write (\<lambda>_. g))"
  by (rule preserves_call, simp add: excl_defs) (rule assms)

lemma base_metadata: "keeps (preserves (base_ok test k0)) (update_finalizers r)" "keeps (preserves (base_ok test k0)) (delete_run r)"
  "keeps (preserves (base_ok test k0)) (patch_abort key req)"
  unfolding update_finalizers_def delete_run_def patch_abort_def
  by (rule base_call; auto simp: base_ok_patch base_ok_delete split: option.split)+

lemma child_not_started: "\<not> started (child_run p i e n)"
  by (simp add: child_run_def started_def zero_TestRunStatus_def)

lemma base_createChild: "keeps (preserves (base_ok test k0)) (createChild p i e n)"
  unfolding createChild_def create_run_def
  by (intro pres.keeps_ignore base_call) (use base_ok_create [OF _ _ child_not_started] in \<open>simp add: gm_has_def\<close>)

lemma base_same: "keeps (same object_part) m \<Longrightarrow> keeps (preserves (base_ok test k0)) m"
  by (erule keeps_same_preserves) (simp add: excl_defs)

lemma base_dispatch: "keeps (preserves (base_ok test k0)) (dispatchWebhooks d r)"
  unfolding keeps_def preserves_def
proof (intro allI impI)
  fix w assume "base_ok test k0 w"
  then show "base_ok test k0 (snd (dispatchWebhooks d r w))"
    using dispatch_cases [of d r w] by (auto simp: excl_defs Let_def)
qed

lemma base_write:
  assumes "run_key run = key" "ru_ResolvedSpec (r_Status run) = NoSnapshot"
  shows "keeps (preserves (base_ok test k0)) (status_update run)"
  unfolding status_update_def
proof (rule base_call)
  fix w assume ok: "base_ok test k0 w"
  show "base_ok test k0 (snd (case gm_get (w_Runs w) (run_key run) of None \<Rightarrow> (Inl (GoAPI ANotFound), w)
     | Some stored \<Rightarrow> (Inr (), w\<lparr>w_Runs := gm_set (run_key run) (stored\<lparr>r_Status := r_Status run\<rparr>) (w_Runs w)\<rparr>)))"
    using ok assms by (auto split: option.split intro!: base_ok_replace simp: run_key_def started_def)
qed

text \<open>A run that is not set up: what it writes before it is admitted does not make it under way.\<close>

interpretation waiting_run: handler_guard "base_ok test k0" "\<lambda>run. run_key run = key \<and> ru_ResolvedSpec (r_Status run) = NoSnapshot"
  for test k0 key
  by unfold_locales
    (auto simp: base_write base_metadata base_createChild base_dispatch evolves_def advances_def, auto simp: excl_defs)

text \<open>A run that may be written freely.\<close>

definition base_free :: "nsname \<Rightarrow> nsname \<Rightarrow> nsname \<Rightarrow> World \<Rightarrow> bool" where
  "base_free test k0 key w \<longleftrightarrow> base_ok test k0 w \<and> free_key test k0 key w"

lemma free_call:
  assumes "\<And>w. base_free test k0 key w \<Longrightarrow> base_free test k0 key (snd (g w))"
  shows "keeps (preserves (base_free test k0 key)) (mbind api_write (\<lambda>_. g))"
  by (rule preserves_call, simp add: base_free_def excl_defs) (rule assms)

lemma free_write:
  assumes "run_key run = key"
  shows "keeps (preserves (base_free test k0 key)) (status_update run)"
  unfolding status_update_def
proof (rule free_call)
  fix w assume ok: "base_free test k0 key w"
  show "base_free test k0 key (snd (case gm_get (w_Runs w) (run_key run) of None \<Rightarrow> (Inl (GoAPI ANotFound), w)
     | Some stored \<Rightarrow> (Inr (), w\<lparr>w_Runs := gm_set (run_key run) (stored\<lparr>r_Status := r_Status run\<rparr>) (w_Runs w)\<rparr>)))"
    using ok assms
    by (auto split: option.split intro!: base_ok_replace simp: base_free_def run_key_def free_key_def run_of_def)
qed

lemma free_patch: "keeps (preserves (base_free test k0 key)) (patch_abort key' req)"
  unfolding patch_abort_def
  by (rule free_call) (auto simp: base_free_def base_ok_patch free_key_def run_of_def split: option.split)

lemma free_createChild: "keeps (preserves (base_free test k0 key)) (createChild p i e n)"
  unfolding createChild_def create_run_def
  by (intro pres.keeps_ignore free_call)
    (use base_ok_create [OF _ _ child_not_started] in \<open>auto simp: base_free_def free_key_def gm_has_def\<close>)

lemma free_dispatch: "keeps (preserves (base_free test k0 key)) (dispatchWebhooks d r)"
  unfolding keeps_def preserves_def
proof (intro allI impI)
  fix w assume "base_free test k0 key w"
  then show "base_free test k0 key (snd (dispatchWebhooks d r w))"
    using dispatch_cases [of d r w] by (auto simp: base_free_def excl_defs Let_def)
qed

interpretation free_run: handler_guard "base_free test k0 key" "\<lambda>run. run_key run = key" for test k0 key
  by unfold_locales
    (auto simp: free_write free_patch free_createChild free_dispatch evolves_def, auto simp: base_free_def excl_defs)

section \<open>Admission\<close>

lemma bind_keeps_policy: "ts_ConcurrencyPolicy (bindInlineMainFile s) = ts_ConcurrencyPolicy s"
  by (simp add: bindInlineMainFile_def Let_def split: prod.split)

lemma resolved_policy:
  assumes "resolveSpec d t run = Inr spec" "ts_ConcurrencyPolicy (t_Spec t) \<noteq> []"
  shows "ts_ConcurrencyPolicy spec = ts_ConcurrencyPolicy (t_Spec t)"
proof -
  from assms(1) have "Resolve (d_Regexp d) (Some t) (Some run) (template_store d) \<lparr>op_Env = d_ResolverEnv d, op_RunID = []\<rparr> = Inr spec"
    by (auto simp: resolveSpec_def split: sum.splits)
  then obtain m tool config where m: "MergeTemplates (Some t) (template_store d) = Inr (m, tool)"
    and ev: "evalStringsInSpec m (resolve_scope m config t run \<lparr>op_Env = d_ResolverEnv d, op_RunID = []\<rparr>) = Inr spec"
    by (rule Resolve_Inr)
  have "ts_ConcurrencyPolicy spec = ts_ConcurrencyPolicy m"
    using arg_cong [OF evalStringsInSpec_fixed [OF ev], of ts_ConcurrencyPolicy] by (simp add: fixed_part_def)
  moreover have "ts_ConcurrencyPolicy m = ts_ConcurrencyPolicy (t_Spec t)"
  proof -
    obtain merged where "m = bindInlineMainFile (mergeTestInto merged (t_Spec t))"
      using m by (auto simp: MergeTemplates_def rbind_Inr split: prod.splits)
    then show ?thesis using assms(2) bind_keeps_policy [of "mergeTestInto merged (t_Spec t)"]
      by (simp add: mergeTestInto_def over_list_def)
  qed
  ultimately show ?thesis by simp
qed

lemma proceed_alone:
  assumes "base_ok test k0 w" "gm_get (w_Runs w) key = Some run" "run_of test run"
    and prior: "priors = filter (\<lambda>p. \<not> waitingForSchedule p now) (filter (\<lambda>r. r_Namespace r = r_Namespace run \<and>
      rs_TestRef (r_Spec r) = rs_TestRef (r_Spec run) \<and> run_key r \<notin> set (w_Lag w)) (map snd (w_Runs w)))"
    and go: "DecideConcurrency priors (Some run) PolicyForbid \<noteq> ConcurrencyWait"
  shows "base_ok test key w"
proof -
  have no_block: "\<not> forbidBlocks p (Some run)" if "p \<in> set priors" for p
    using go that by (auto simp: DecideConcurrency_def list_ex_iff split: if_splits)
  have "k = key" if "under_way test w k" for k
  proof (rule ccontr)
    assume other: "k \<noteq> key"
    from that obtain p where p: "gm_get (w_Runs w) k = Some p" "run_of test p" "started p" by (auto simp: under_way_def)
    have "p \<in> set (map snd (w_Runs w))" using map_of_SomeD [OF p(1)] by (simp add: rev_image_eqI)
    moreover have "w_Lag w = []" using assms(1) by (simp add: base_ok_def forbids_def)
    moreover have "\<not> waitingForSchedule p now" using p(3) by (simp add: waitingForSchedule_def started_def)
    ultimately have "p \<in> set priors" using prior p(2) assms(3) by (auto simp: run_of_def)
    moreover have "r_UID p \<noteq> r_UID run"
      using assms(1,2) p(1) other unfolding base_ok_def uids_ok_def by blast
    then have "forbidBlocks p (Some run)" using p(3) by (simp add: forbidBlocks_def is_self_def started_def)
    ultimately show False using no_block by blast
  qed
  then show ?thesis using assms(1) by (simp add: base_ok_def only_at_def)
qed

definition exclusive_ok :: "nsname \<Rightarrow> World \<Rightarrow> bool" where
  "exclusive_ok test w \<longleftrightarrow> uids_ok w \<and> forbids test w \<and> exclusive test w"

lemma exclusive_ok_iff: "exclusive_ok test w \<longleftrightarrow> (\<exists>k0. base_ok test k0 w)"
  by (auto simp: exclusive_ok_def exclusive_def base_ok_def)

lemma exclusiveI: "base_ok test k0 w \<Longrightarrow> exclusive_ok test w"
  unfolding exclusive_ok_iff by blast

lemma free_exclusive: "base_free test k0 key w \<Longrightarrow> exclusive_ok test w"
  unfolding base_free_def by (blast intro: exclusiveI)

lemma keeps_presD: "keeps (preserves I) m \<Longrightarrow> I w \<Longrightarrow> I (snd (m w))"
  by (simp add: keeps_def preserves_def)

lemma base_ok_faults: "base_ok test k0 (w\<lparr>w_ReadFaults := fs\<rparr>) = base_ok test k0 w"
  by (simp add: excl_defs)

lemma listPriorRuns_cases:
  obtains v where "\<And>k. base_ok test k v = base_ok test k w" "w_Now v = w_Now w"
    "(\<exists>e. listPriorRuns run w = (Inl e, v)) \<or>
     listPriorRuns run w = (Inr (filter (\<lambda>r. r_Namespace r = r_Namespace run \<and> rs_TestRef (r_Spec r) = rs_TestRef (r_Spec run) \<and>
       run_key r \<notin> set (w_Lag w)) (map snd (w_Runs w))), v)"
proof (cases "w_ReadFaults w")
  case Nil
  then show ?thesis using that [of w] by (simp add: listPriorRuns_def mbind_def)
next
  case (Cons x fs)
  then show ?thesis using that [of "w\<lparr>w_ReadFaults := fs\<rparr>"] base_ok_faults
    by (cases x) (auto simp: listPriorRuns_def mbind_def api_read_def)
qed

lemma admit_exclusive:
  assumes "base_ok test k0 w" "gm_get (w_Runs w) (run_key run) = Some run" "run_of test run"
    and "ru_ResolvedSpec (r_Status run) = NoSnapshot" "ts_ConcurrencyPolicy spec = PolicyForbid"
  shows "exclusive_ok test (snd (admit d run t spec w))"
proof -
  let ?all = "filter (\<lambda>r. r_Namespace r = r_Namespace run \<and> rs_TestRef (r_Spec r) = rs_TestRef (r_Spec run) \<and>
      run_key r \<notin> set (w_Lag w)) (map snd (w_Runs w))"
  let ?priors = "filter (\<lambda>p. \<not> waitingForSchedule p (w_Now w)) ?all"
  let ?rest = "\<lambda>m. mbind m (\<lambda>_. mbind (status_update (set_up d t spec (w_Now w) run)) (\<lambda>_.
      mbind (recordLatestRun (set_up d t spec (w_Now w) run) True) (\<lambda>_. mret 0)))"
  obtain v where v: "\<And>k. base_ok test k v = base_ok test k w" "w_Now v = w_Now w"
    and list: "(\<exists>e. listPriorRuns run w = (Inl e, v)) \<or> listPriorRuns run w = (Inr ?all, v)"
    by (rule listPriorRuns_cases [where test = test and w = w and run = run]) (rule that)
  have wait: "keeps (preserves (base_ok test k0)) (waitForPriors d run ?priors)"
    unfolding waitForPriors_def using assms(4)
    by (intro waiting_run.safe_intros base_write) (auto simp: queued_waiting_def Let_def)
  have go: "keeps (preserves (base_free test (run_key run) (run_key run))) (?rest m)"
    if "keeps (preserves (base_free test (run_key run) (run_key run))) m" for m :: "unit M"
    by (intro that free_run.safe_intros free_write) (simp add: set_up_def run_key_def)
  have abort: "keeps (preserves (base_free test (run_key run) (run_key run))) (if b then mfor (\<lambda>p. abortRun p run) ps else mret ())" for b ps
    by (intro free_run.safe_requestAbort free_run.safe_intros)
  from list show ?thesis
  proof
    assume "\<exists>e. listPriorRuns run w = (Inl e, v)"
    then show ?thesis using assms(1) v(1) exclusiveI [of test k0 v] by (auto simp: admit_def mbind_def)
  next
    assume all: "listPriorRuns run w = (Inr ?all, v)"
    show ?thesis
    proof (cases "DecideConcurrency ?priors (Some run) PolicyForbid = ConcurrencyWait")
      case True
      then have "admit d run t spec w = waitForPriors d run ?priors v"
        using all v(2) assms(5) by (simp add: admit_def mbind_def Let_def)
      moreover have "base_ok test k0 (snd (waitForPriors d run ?priors v))"
        using wait assms(1) v(1) by (simp add: keeps_def preserves_def)
      ultimately show ?thesis using exclusiveI by (simp only:)
    next
      case False
      let ?abort = "if DecideConcurrency ?priors (Some run) PolicyForbid = ConcurrencyReplacePrior
               then mfor (\<lambda>prior. abortRun prior run) (SelectPriorsToAbort ?priors (Some run)) else mret ()"
      have "base_ok test (run_key run) w" using proceed_alone [OF assms(1-3) refl False] .
      then have "base_free test (run_key run) (run_key run) v" using v(1) by (simp add: base_free_def free_key_def)
      then have "base_free test (run_key run) (run_key run) (snd (?rest ?abort v))"
        by (rule keeps_presD [OF go [OF abort]])
      then have "exclusive_ok test (snd (?rest ?abort v))" by (rule free_exclusive)
      moreover have "admit d run t spec w = ?rest ?abort v"
        using False all v(2) assms(5) by (simp add: admit_def mbind_def Let_def)
      ultimately show ?thesis by (simp only:)
    qed
  qed
qed

lemma get_test_cases:
  obtains v where "v = w \<or> (\<exists>fs. v = w\<lparr>w_ReadFaults := fs\<rparr>)"
    "(\<exists>e. get_test key w = (Inl e, v)) \<or> get_test key w = (Inr (if key \<in> set (w_Lag w) then None else gm_get (w_Tests w) key), v)"
proof (cases "w_ReadFaults w")
  case Nil
  then show ?thesis using that [of w] by (simp add: get_test_def mbind_def)
next
  case (Cons x fs)
  then show ?thesis using that [OF disjI2 [OF exI [of _ fs]], OF refl]
    by (cases x) (auto simp: get_test_def mbind_def api_read_def)
qed

lemma exclusive_if_base: "keeps (preserves (base_ok test k0)) m \<Longrightarrow> base_ok test k0 w \<Longrightarrow> exclusive_ok test (snd (m w))"
  unfolding keeps_def preserves_def exclusive_ok_iff by blast

lemma setup_exclusive:
  assumes ok: "base_ok test k0 w" and stored: "gm_get (w_Runs w) (run_key run) = Some run" and T: "run_of test run"
    and new: "ru_ResolvedSpec (r_Status run) = NoSnapshot"
  shows "exclusive_ok test (snd (setup_run d run w))"
proof -
  let ?key = "(r_Namespace run, rs_TestRef (r_Spec run))"
  have key: "?key = test" using T by (simp add: run_of_def prod_eq_iff)
  have ends: "keeps (preserves (base_ok test k0)) (end_run d run ph reason msg)" for ph reason msg
    using new by (intro waiting_run.safe_ends) simp
  obtain v where v: "v = w \<or> (\<exists>fs. v = w\<lparr>w_ReadFaults := fs\<rparr>)" and get: "(\<exists>e. get_test ?key w = (Inl e, v)) \<or>
      get_test ?key w = (Inr (if ?key \<in> set (w_Lag w) then None else gm_get (w_Tests w) ?key), v)"
    by (rule get_test_cases [where w = w and key = ?key]) (rule that)
  have okv: "base_ok test k0 v" "gm_get (w_Runs v) (run_key run) = Some run"
    using v ok stored by (auto simp: base_ok_faults)
  have admits: "exclusive_ok test (snd (admit d run t spec v))"
    if "gm_get (w_Tests w) test = Some t" "resolveSpec d t run = Inr spec" for t spec
  proof -
    have "ts_ConcurrencyPolicy (t_Spec t) = PolicyForbid" using ok that(1) by (simp add: base_ok_def forbids_def)
    then have "ts_ConcurrencyPolicy spec = PolicyForbid" using resolved_policy [OF that(2)] by (simp add: PolicyForbid_def)
    then show ?thesis by (rule admit_exclusive [OF okv T new])
  qed
  have missing: "keeps (preserves (base_ok test k0)) (mbind (exists_live d ?key (\<lambda>w. gm_has (w_Tests w) ?key)) (\<lambda>live.
      if live then mret cacheLagRequeue else end_run d run PhaseError ReasonTestNotFound msg))" for msg
    by (intro ends waiting_run.safe_intros)
  from get show ?thesis
  proof
    assume "\<exists>e. get_test ?key w = (Inl e, v)"
    then show ?thesis using exclusiveI [OF okv(1)] by (auto simp: setup_run_def mbind_def Let_def)
  next
    assume got: "get_test ?key w = (Inr (if ?key \<in> set (w_Lag w) then None else gm_get (w_Tests w) ?key), v)"
    have lag: "w_Lag w = []" using ok by (simp add: base_ok_def forbids_def)
    show ?thesis
    proof (cases "gm_get (w_Tests w) test")
      case None
      then show ?thesis using got lag key exclusive_if_base [OF missing okv(1)]
        by (simp add: setup_run_def Let_def mbind_apply [of "get_test test"])
    next
      case (Some t)
      show ?thesis
        using got lag key Some exclusive_if_base [OF ends okv(1)] admits [OF Some] exclusiveI [OF okv(1)]
        by (auto simp: setup_run_def Let_def mbind_apply [of "get_test test"] mbind_get validateCompositeGraph_def
            split: sum.split setup_stop.split)
    qed
  qed
qed

section \<open>Reconciles\<close>

lemma waitForNotBefore_None: "waitForNotBefore run w = (Inr None, w') \<Longrightarrow> w' = w"
  by (auto simp: waitForNotBefore_def mbind_Inr Let_def split: if_splits option.splits)

lemma queue_exclusive:
  assumes ok: "base_ok test k0 w" and stored: "gm_get (w_Runs w) (run_key run) = Some run" and T: "run_of test run"
    and new: "ru_ResolvedSpec (r_Status run) = NoSnapshot"
  shows "exclusive_ok test (snd (mbind (waitForNotBefore run)
    (\<lambda>wait. case wait of Some delay \<Rightarrow> mret delay | None \<Rightarrow> setup_run d run) w))"
proof -
  have "keeps (preserves (base_ok test k0)) (waitForNotBefore run)"
    unfolding waitForNotBefore_def using new
    by (intro waiting_run.safe_intros base_write) (auto simp: queued_waiting_def Let_def)
  then have base: "base_ok test k0 (snd (waitForNotBefore run w))" using ok by (rule keeps_presD)
  obtain x w' where wait: "waitForNotBefore run w = (x, w')" by (cases "waitForNotBefore run w")
  show ?thesis
  proof (cases "x = Inr None")
    case True
    then have "w' = w" using wait waitForNotBefore_None by blast
    then show ?thesis using True wait setup_exclusive [OF ok stored T new] by (simp add: mbind_def)
  next
    case False
    then show ?thesis using wait exclusiveI [OF base] by (auto simp: mbind_def split: sum.split option.split)
  qed
qed

lemma live_exclusive:
  assumes ok: "base_ok test k0 w" and stored: "gm_get (w_Runs w) (run_key run) = Some run"
  shows "exclusive_ok test (snd (reconcile_live d run w))"
proof (cases "IsTerminalPhase (run_phase run)")
  case True
  have "keeps (preserves (base_ok test k0)) (mbind (persistFinished d run) (\<lambda>_. expireFinished d run))"
    unfolding expireFinished_def by (intro base_metadata waiting_run.safe_persistFinished waiting_run.safe_intros)
  then show ?thesis using True exclusive_if_base [OF _ ok] by (simp add: reconcile_live_def)
next
  case active: False
  show ?thesis
  proof (cases "run_of test run \<and> ru_ResolvedSpec (r_Status run) = NoSnapshot")
    case True
    then show ?thesis
    proof (cases "rs_Abort (r_Spec run)")
      case None
      then show ?thesis using True active queue_exclusive [OF ok stored] by (simp add: reconcile_live_def)
    next
      case (Some req)
      have "keeps (preserves (base_ok test k0)) (reconcileAbort d run req)"
        by (rule waiting_run.safe_reconcileAbort) (use True in simp)
      then show ?thesis using Some active exclusive_if_base [OF _ ok] by (simp add: reconcile_live_def)
    qed
  next
    case False
    have "run_of test run \<Longrightarrow> under_way test w (run_key run)"
      using False active stored by (auto simp: under_way_def started_def)
    then have "base_free test k0 (run_key run) w"
      using ok stored unfolding base_free_def free_key_def base_ok_def only_at_def by blast
    then have "base_free test k0 (run_key run) (snd (reconcile_live d run w))"
      by (rule keeps_presD [rotated]) (intro free_run.safe_active; simp add: active)
    then show ?thesis by (rule free_exclusive)
  qed
qed

lemma exclusive_reconcile:
  assumes "exclusive_ok test w"
  shows "exclusive_ok test (snd (Reconcile d key w))"
proof -
  from assms obtain k0 where ok: "base_ok test k0 w" unfolding exclusive_ok_iff by blast
  obtain fs where fs: "snd (Reconcile d key w) = w\<lparr>w_ReadFaults := fs\<rparr> \<or>
     snd (Reconcile d key w) = snd (reconcile_found d key (gm_get (w_Runs w) key) (w\<lparr>w_ReadFaults := fs\<rparr>))"
    using Reconcile_cases by blast
  let ?w1 = "w\<lparr>w_ReadFaults := fs\<rparr>"
  have ok1: "base_ok test k0 ?w1" using ok by (simp add: base_ok_faults)
  have other: "keeps (preserves (base_ok test k0)) (mbind (forget_persisted key) (\<lambda>_. mret (0 :: duration)))"
    "keeps (preserves (base_ok test k0)) (finalize d run)"
    "keeps (preserves (base_ok test k0)) (mbind (update_finalizers run) (\<lambda>_. mret (0 :: duration)))"
    for run unfolding finalize_def by (intro base_metadata waiting_run.safe_intros)+
  have "exclusive_ok test (snd (reconcile_found d key (gm_get (w_Runs w) key) ?w1))"
  proof (cases "gm_get (w_Runs w) key")
    case None
    then show ?thesis using exclusive_if_base [OF other(1) ok1] by (simp add: reconcile_found_def)
  next
    case (Some run)
    then have "run_key run = key" using ok by (auto simp: base_ok_def uids_ok_def dest: store_okD)
    then show ?thesis
      using Some live_exclusive [OF ok1, of run d] exclusive_if_base [OF other(2) ok1] exclusive_if_base [OF other(3) ok1]
      by (simp add: reconcile_found_def)
  qed
  then show ?thesis using fs exclusiveI [OF ok1] by auto
qed

section \<open>The system\<close>

text \<open>
  The environment of the operator here: the API server keeps UIDs unique, the Test keeps its policy,
  a run created by a user is not set up, and nobody else changes a run's status or its \<open>testRef\<close>.
\<close>

definition forbid_env :: "nsname \<Rightarrow> World \<Rightarrow> World \<Rightarrow> bool" where
  "forbid_env test u v \<longleftrightarrow> uids_ok v \<and> forbids test v \<and>
     (\<forall>k r'. gm_get (w_Runs v) k = Some r' \<longrightarrow> \<not> started r' \<or>
       (\<exists>r. gm_get (w_Runs u) k = Some r \<and> r_Status r' = r_Status r \<and> run_of test r' = run_of test r))"

inductive forbid_step :: "nsname \<Rightarrow> Deps \<Rightarrow> World \<Rightarrow> World \<Rightarrow> bool" for test d where
  operator: "forbid_step test d w (snd (Reconcile d key w))"
| environment: "forbid_env test u v \<Longrightarrow> forbid_step test d u v"

lemma under_way_env: "forbid_env test u v \<Longrightarrow> under_way test v k \<Longrightarrow> under_way test u k"
  unfolding forbid_env_def under_way_def started_def by metis

lemma exclusive_step: "exclusive_ok test u \<Longrightarrow> forbid_step test d u v \<Longrightarrow> exclusive_ok test v"
proof (erule forbid_step.cases)
  fix u' v' assume "exclusive_ok test u" "u = u'" "v = v'" and env: "forbid_env test u' v'"
  then have "exclusive test u'" by (simp add: exclusive_ok_def)
  then have "exclusive test v'" using under_way_env [OF env] unfolding exclusive_iff by blast
  then show "exclusive_ok test v" using env \<open>v = v'\<close> by (simp add: exclusive_ok_def forbid_env_def)
qed (auto intro: exclusive_reconcile)

interpretation forbid_system: invariant_system "exclusive_ok test" "forbid_step test d" "exclusive_ok test" for test d
  by unfold_locales (auto intro: exclusive_step)

section \<open>Properties\<close>


definition two_queued :: World where
  "two_queued = (world_of [(queued_run ''r1'' 1)\<lparr>r_Finalizers := [FinalizerName]\<rparr>,
       (queued_run ''r2'' 2)\<lparr>r_Finalizers := [FinalizerName]\<rparr>])
     \<lparr>w_Tests := [((''n'', ''t''), sample_test\<lparr>t_Spec := (t_Spec sample_test)\<lparr>ts_ConcurrencyPolicy := PolicyForbid\<rparr>\<rparr>)]\<rparr>"


end
