(* ===== verification/Composition.thy ===== *)
theory Composition
  imports Composite
begin

text \<open>
  Properties of the composite controller: which steps are skipped, when a step is done, which
  children are tried again, how many children are created at once.
\<close>

section \<open>Skipping\<close>

lemma shouldSkip_iff:
  "shouldSkip prior steps i \<longleftrightarrow> st_Condition (steps ! i) \<noteq> ConditionAlways \<and>
     (\<exists>j < i. \<exists>v. prior ! j = Some v \<and> \<not> (st_Optional (steps ! j) \<and> sv_Phase v = PhaseFailed) \<and>
       sv_Phase v \<in> {PhaseFailed, PhaseAborted, PhaseError})"
  by (auto simp: shouldSkip_def list_ex_iff split: option.splits)

section \<open>Gathering\<close>

definition done_outcome :: "child_state \<Rightarrow> ChildOutcome list" where
  "done_outcome s = (case s of ChildDone oc \<Rightarrow> [oc] | _ \<Rightarrow> [])"

definition retry_of :: "child_state \<Rightarrow> childRetry list" where
  "retry_of s = (case s of ChildRetry r \<Rightarrow> [r] | _ \<Rightarrow> [])"

definition is_done :: "child_state \<Rightarrow> bool" where
  "is_done s = (case s of ChildDone _ \<Rightarrow> True | _ \<Rightarrow> False)"

lemma done_outcome_simps [simp]:
  "done_outcome ChildOpen = []" "done_outcome (ChildRetry r) = []" "done_outcome (ChildDone oc) = [oc]"
  by (simp_all add: done_outcome_def)

lemma retry_of_simps [simp]:
  "retry_of ChildOpen = []" "retry_of (ChildRetry r) = [r]" "retry_of (ChildDone oc) = []"
  by (simp_all add: retry_of_def)

lemma is_done_simps [simp]:
  "\<not> is_done ChildOpen" "\<not> is_done (ChildRetry r)" "is_done (ChildDone oc)"
  by (simp_all add: is_done_def)

lemma gather_loop_eq:
  "gather_loop st es outcomes fin again =
    (if fin \<and> list_all (\<lambda>e. is_done (st e)) es then (outcomes @ concat (map (\<lambda>e. done_outcome (st e)) es), True, [])
     else ([], False, again @ concat (map (\<lambda>e. retry_of (st e)) es)))"
proof (induction es arbitrary: outcomes fin again)
  case (Cons e es)
  then show ?case by (cases "st e") simp_all
qed simp

lemma latest_below_Some:
  "latest_below kids e m = Some (c, n) \<Longrightarrow> n < m \<and> findChild kids (attemptName e n) = Some c \<and>
     (\<forall>i. n < i \<and> i < m \<longrightarrow> findChild kids (attemptName e i) = None)"
proof (induction m)
  case (Suc m)
  show ?case
  proof (cases "findChild kids (attemptName e m)")
    case None
    then show ?thesis using Suc by (auto simp: less_Suc_eq)
  next
    case (Some d)
    then show ?thesis using Suc.prems by auto
  qed
qed simp

lemma findChild_Some: "findChild kids name = Some c \<Longrightarrow> c \<in> set kids \<and> r_Name c = name"
  by (auto simp: findChild_def find_Some_iff)

lemma latestAttempt_Some:
  assumes "latestAttempt kids e retries = Some (c, n)"
  shows "int n \<le> retries \<and> c \<in> set kids \<and> r_Name c = attemptName e n"
  using latest_below_Some [OF assms [unfolded latestAttempt_def]] findChild_Some by fastforce

section \<open>Creating children\<close>

definition run_names :: "World \<Rightarrow> nsname set" where
  "run_names w = dom (gm_get (w_Runs w))"

text \<open>\<open>creates n E\<close>: at most \<open>n\<close> TestRuns come into being, each one of \<open>E\<close>, and no other TestRun changes.\<close>

definition creates :: "int \<Rightarrow> nsname set \<Rightarrow> World \<Rightarrow> World \<Rightarrow> bool" where
  "creates n E u v \<longleftrightarrow> (\<forall>k \<in> run_names u. gm_get (w_Runs v) k = gm_get (w_Runs u) k) \<and> run_names v - run_names u \<subseteq> E \<and>
     finite (run_names v - run_names u) \<and> int (card (run_names v - run_names u)) \<le> n"

lemma creates_0: "0 \<le> n \<Longrightarrow> w_Runs u = w_Runs v \<Longrightarrow> creates n E u v"
  by (simp add: creates_def run_names_def)

lemma creates_trans:
  assumes "creates m E u v" "creates n E v w"
  shows "creates (m + n) E u w"
proof -
  have sub: "run_names w - run_names u \<subseteq> (run_names v - run_names u) \<union> (run_names w - run_names v)" by blast
  have fin: "finite ((run_names v - run_names u) \<union> (run_names w - run_names v))"
    using assms by (auto simp: creates_def)
  have keep: "run_names u \<subseteq> run_names v"
    using assms(1) unfolding creates_def run_names_def by (metis domIff subsetI)
  have "card (run_names w - run_names u) \<le> card (run_names v - run_names u) + card (run_names w - run_names v)"
    using card_mono [OF fin sub] card_Un_le [of "run_names v - run_names u" "run_names w - run_names v"] by linarith
  then have "int (card (run_names w - run_names u)) \<le> m + n" using assms by (simp add: creates_def)
  moreover have "gm_get (w_Runs w) k = gm_get (w_Runs u) k" if "k \<in> run_names u" for k
    using that keep assms unfolding creates_def by (metis subsetD)
  moreover have "run_names w - run_names u \<subseteq> E" using sub assms unfolding creates_def by blast
  ultimately show ?thesis using finite_subset [OF sub fin] by (simp add: creates_def)
qed

lemma createChild_creates:
  "creates 1 {(r_Namespace parent, attemptName e n)} w (snd (createChild parent i e n w))"
proof -
  let ?key = "(r_Namespace parent, attemptName e n)"
  have key: "run_key (child_run parent i e n) = ?key" by (simp add: child_run_def run_key_def)
  have new: "creates 1 {?key} w w'" if "?key \<notin> run_names w" "w_Runs w' = gm_set ?key r (w_Runs w)" for w' r
  proof -
    have "run_names w' - run_names w = {?key}" using that by (auto simp: run_names_def)
    then show ?thesis using that by (auto simp: creates_def run_names_def)
  qed
  show ?thesis
  proof (cases "?key \<in> run_names w")
    case True
    then show ?thesis
      by (intro creates_0) (auto simp: createChild_def ignore_exists_def create_run_def mbind_def mtry_def key gm_has_def
        api_write_def run_names_def split: option.split api_error.split list.splits)
  next
    case False
    show ?thesis
    proof (cases "w_Runs (snd (createChild parent i e n w)) = w_Runs w")
      case True then show ?thesis by (intro creates_0) simp_all
    next
      case f: False
      with False obtain r where "w_Runs (snd (createChild parent i e n w)) = gm_set ?key r (w_Runs w)"
        by (auto simp: createChild_def ignore_exists_def create_run_def mbind_def mtry_def key gm_has_def
          api_write_def run_names_def split: option.splits api_error.splits list.splits if_splits)
      with False show ?thesis by (rule new)
    qed
  qed
qed

lemma creates_mono: "creates m E u v \<Longrightarrow> m \<le> n \<Longrightarrow> E \<subseteq> F \<Longrightarrow> creates n F u v"
  by (auto simp: creates_def)

lemma ensure_children_creates:
  "creates (max 0 (cap - n)) {(r_Namespace parent, ec_Name e) | e. e \<in> set es \<and> latestAttempt kids e retries = None}
     w (snd (ensure_children parent i retries kids cap n es w))"
proof (induction es arbitrary: n w)
  case Nil
  then show ?case by (simp add: mret_def creates_0)
next
  case (Cons e es)
  let ?F = "{(r_Namespace parent, ec_Name e') | e'. e' \<in> set (e # es) \<and> latestAttempt kids e' retries = None}"
  show ?case
  proof (cases "cap \<le> n \<or> latestAttempt kids e retries \<noteq> None")
    case True
    have "creates (max 0 (cap - n)) ?F w (snd (ensure_children parent i retries kids cap n es w))"
      by (rule creates_mono [OF Cons.IH]) auto
    with True show ?thesis
      by (cases "cap \<le> n") (auto simp: mret_def creates_0 simp del: not_None_eq)
  next
    case False
    let ?w = "snd (createChild parent i e 0 w)"
    from False have one: "creates 1 ?F w ?w"
      by (intro creates_mono [OF createChild_creates]) (auto simp: attemptName_def simp del: not_None_eq)
    have rest: "creates (cap - n - 1) ?F ?w (snd (ensure_children parent i retries kids cap (n + 1) es ?w))"
      using False by (intro creates_mono [OF Cons.IH]) auto
    show ?thesis
    proof (cases "fst (createChild parent i e 0 w)")
      case (Inl x)
      have "creates (max 0 (cap - n)) ?F w ?w" by (rule creates_mono [OF one]) (use False in auto)
      with Inl False show ?thesis by (auto simp: mbind_def split: prod.split)
    next
      case (Inr x)
      have "creates (max 0 (cap - n)) ?F w (snd (ensure_children parent i retries kids cap (n + 1) es ?w))"
        by (rule creates_mono [OF creates_trans [OF one rest]]) (use False in auto)
      with Inr False show ?thesis by (auto simp: mbind_def split: prod.split)
    qed
  qed
qed

section \<open>Names of children\<close>

lemma split_first_inject:
  "x \<notin> set u \<Longrightarrow> x \<notin> set v \<Longrightarrow> u @ x # s = v @ x # t \<longleftrightarrow> u = v \<and> s = t"
proof (induction u arbitrary: v)
  case Nil then show ?case by (cases v) auto
next
  case (Cons a u) then show ?case by (cases v) auto
qed

lemma split_last_inject:
  assumes "x \<notin> set s" "x \<notin> set t"
  shows "u @ x # s = v @ x # t \<longleftrightarrow> u = v \<and> s = t"
proof -
  have "u @ x # s = v @ x # t \<longleftrightarrow> rev s @ x # rev u = rev t @ x # rev v"
    by (subst rev_is_rev_conv [symmetric]) simp
  then show ?thesis using assms by (auto simp: split_first_inject)
qed

lemma dash_not_in_utoa: "CHR ''-'' \<notin> set (utoa n)"
  by (rule not_digit_not_in_utoa) (simp add: is_digit_def byte_def)

section \<open>Properties\<close>

definition sample_step :: "bool \<Rightarrow> Step" where
  "sample_step opt = \<lparr>st_Name = [], st_Condition = [], st_Optional = opt, st_Negative = False, st_Retry = None,
     st_Timeout = None, st_Delay = None, st_Execute = None\<rparr>"

definition sample_child :: expectedChild where
  "sample_child = \<lparr>ec_Key = ''s0/c[0]'', ec_Name = ''c'', ec_StepIdx = 0, ec_TestRef = ''c'', ec_Index = 0, ec_Count = 1, ec_Config = []\<rparr>"

definition sample_parent :: TestRun where
  "sample_parent = \<lparr>r_Name = ''p'', r_Namespace = ''ns'', r_UID = [], r_Labels = [], r_CreationTimestamp = 0,
     r_DeletionTimestamp = None, r_Finalizers = [],
     r_Spec = \<lparr>rs_TestRef = ''suite'', rs_Config = [], rs_Pod = None, rs_Tags = [], rs_Source = [], rs_Abort = None,
       rs_NotBefore = None\<rparr>,
     r_Status = zero_TestRunStatus\<rparr>"

text \<open>
  C7. A composite step is gathered exactly: it is done when every expected child's newest try has
  ended and needs no further try, and then there is one outcome per expected child, in order.
  Otherwise nothing is aggregated, and what is created again is exactly the next try of the children
  that ended in a phase the step retries, never beyond the step's retry count.
\<close>

theorem gatherOutcomes_exact:
  "gatherOutcomes kids es retries neg =
     (if \<forall>e \<in> set es. \<exists>c n. latestAttempt kids e retries = Some (c, n) \<and> IsTerminalPhase (run_phase c) \<and>
           \<not> (int n < retries \<and> ChildNeedsRetry (run_phase c) neg)
      then (map (\<lambda>e. \<lparr>co_Phase = run_phase (fst (the (latestAttempt kids e retries)))\<rparr>) es, True, [])
      else ([], False, concat (map (\<lambda>e. case latestAttempt kids e retries of
          Some (c, n) \<Rightarrow> if IsTerminalPhase (run_phase c) \<and> int n < retries \<and> ChildNeedsRetry (run_phase c) neg
            then [\<lparr>cr_child = e, cr_attempt = n + 1\<rparr>] else []
        | None \<Rightarrow> []) es)))"
proof -
  let ?st = "child_state kids retries neg"
  let ?ended = "\<lambda>e. \<exists>c n. latestAttempt kids e retries = Some (c, n) \<and> IsTerminalPhase (run_phase c) \<and>
    \<not> (int n < retries \<and> ChildNeedsRetry (run_phase c) neg)"
  have fin: "is_done (?st e) \<longleftrightarrow> ?ended e" for e by (auto simp: child_state_def split: option.split)
  have out: "done_outcome (?st e) = [\<lparr>co_Phase = run_phase (fst (the (latestAttempt kids e retries)))\<rparr>]" if "?ended e" for e
    using that by (auto simp: child_state_def)
  have again: "retry_of (?st e) = (case latestAttempt kids e retries of
      Some (c, n) \<Rightarrow> if IsTerminalPhase (run_phase c) \<and> int n < retries \<and> ChildNeedsRetry (run_phase c) neg
        then [\<lparr>cr_child = e, cr_attempt = n + 1\<rparr>] else [] | None \<Rightarrow> [])" for e
    by (auto simp: child_state_def split: option.split)
  have outs: "concat (map (\<lambda>e. done_outcome (?st e)) es) =
      map (\<lambda>e. \<lparr>co_Phase = run_phase (fst (the (latestAttempt kids e retries)))\<rparr>) es" if "\<forall>e \<in> set es. ?ended e"
    using that by (induction es) (simp_all add: out)
  show ?thesis
    using outs by (cases "\<forall>e \<in> set es. ?ended e") (simp_all only: gatherOutcomes_def gather_loop_eq list_all_iff fin again
      if_True if_False simp_thms append_Nil)
qed

theorem gatherOutcomes_exact_witness:
  "gatherOutcomes [set_status (\<lambda>s. s\<lparr>ru_Phase := PhaseFailed\<rparr>) (sample_parent\<lparr>r_Name := ''c''\<rparr>)] [sample_child] 1 False =
     ([], False, [\<lparr>cr_child = sample_child, cr_attempt = 1\<rparr>])"
proof -
  have "latestAttempt [set_status (\<lambda>s. s\<lparr>ru_Phase := PhaseFailed\<rparr>) (sample_parent\<lparr>r_Name := ''c''\<rparr>)] sample_child 1 =
      Some (set_status (\<lambda>s. s\<lparr>ru_Phase := PhaseFailed\<rparr>) (sample_parent\<lparr>r_Name := ''c''\<rparr>), 0)"
    by (simp add: latestAttempt_def numeral_eq_Suc attemptName_def sample_child_def Bounded_def MaxLen_def
      findChild_def utoa.simps)
  then show ?thesis
    unfolding gatherOutcomes_exact by (simp add: IsTerminalPhase_def ChildNeedsRetry_def)
qed


text \<open>
  Children of a composite run never share a name by accident: as long as the names need no
  shortening, the name determines the step, the Test and the index, so \<open>findChild\<close> pairs each
  expected child with its own run (a Test \<open>api\<close> and a Test \<open>api-smoke\<close> in one step included).
\<close>

theorem childName_injective:
  assumes "childName parent i ref (int m) = childName parent j ref' (int n)"
    and "length (r_Name parent @ ''-s'' @ utoa i @ ''-'' @ ref @ ''-'' @ itoa (int m)) \<le> MaxLen"
    and "length (r_Name parent @ ''-s'' @ utoa j @ ''-'' @ ref' @ ''-'' @ itoa (int n)) \<le> MaxLen"
  shows "i = j \<and> ref = ref' \<and> m = n"
proof -
  have "utoa i @ CHR ''-'' # (ref @ CHR ''-'' # utoa m) = utoa j @ CHR ''-'' # (ref' @ CHR ''-'' # utoa n)"
    using assms by (simp add: childName_def Bounded_def itoa_def)
  then show ?thesis by (simp add: split_first_inject split_last_inject dash_not_in_utoa)
qed

theorem childName_injective_witness:
  "childName sample_parent 0 ''api'' 1 \<noteq> childName sample_parent 0 ''api-1'' 0"
  using childName_injective [of sample_parent 0 "''api''" 1 0 "''api-1''" 0]
  by (auto simp: sample_parent_def MaxLen_def itoa_def utoa.simps)

text \<open>
  An optional step that ends with an error (not a failure) skips every later step whose
  condition is not \<open>always\<close>, required ones included, and yet does not count against the run: with no
  other verdict the composite run is reported as passed.
\<close>

theorem optional_error_skips_and_passes:
  assumes "sv_Phase v \<in> {PhaseError, PhaseAborted}" "st_Condition s2 \<noteq> ConditionAlways"
  shows "shouldSkip [Some v] [s1, s2] 1 \<and> ParentPhase [Some v, None] [True, st_Optional s2] = PhasePassed"
  using assms by (auto simp: shouldSkip_iff ParentPhase_def)

theorem optional_error_skips_and_passes_witness:
  "shouldSkip [Some \<lparr>sv_Phase = PhaseError, sv_Message = []\<rparr>] [sample_step True, sample_step False] 1 \<and>
   ParentPhase [Some \<lparr>sv_Phase = PhaseError, sv_Message = []\<rparr>, None] [True, False] = PhasePassed"
  using optional_error_skips_and_passes [of "\<lparr>sv_Phase = PhaseError, sv_Message = []\<rparr>" "sample_step False" "sample_step True"]
  by (simp add: sample_step_def ConditionAlways_def)

text \<open>
  Two references to one Test in a step are one child: the expected children of the second
  reference have the names of the first's, so one TestRun, created with the first reference's
  configuration, answers for both.
\<close>

theorem duplicate_reference_shares_child:
  assumes "st_Execute step = Some \<lparr>se_Parallelism = par, se_Tests = [\<lparr>et_Name = t, et_Count = 1, et_Config = c1\<rparr>,
    \<lparr>et_Name = t, et_Count = 1, et_Config = c2\<rparr>]\<rparr>"
  shows "\<exists>e1 e2. expectedChildren parent step i = [e1, e2] \<and> ec_Name e1 = ec_Name e2 \<and> ec_Config e1 = RenderChildConfig c1 0 1 \<and>
    ec_Config e2 = RenderChildConfig c2 0 1 \<and> attemptName e1 n = attemptName e2 n"
  using assms by (simp add: expectedChildren_def attemptName_def Let_def)

theorem duplicate_reference_shares_child_witness:
  "\<exists>e1 e2. expectedChildren sample_parent ((sample_step False)\<lparr>st_Execute := Some \<lparr>se_Parallelism = 0,
      se_Tests = [\<lparr>et_Name = ''api'', et_Count = 1, et_Config = [(''url'', ''a'')]\<rparr>,
        \<lparr>et_Name = ''api'', et_Count = 1, et_Config = [(''url'', ''b'')]\<rparr>]\<rparr>\<rparr>) 0 = [e1, e2] \<and> ec_Name e1 = ec_Name e2"
  using duplicate_reference_shares_child [of "(sample_step False)\<lparr>st_Execute := Some \<lparr>se_Parallelism = 0,
      se_Tests = [\<lparr>et_Name = ''api'', et_Count = 1, et_Config = [(''url'', ''a'')]\<rparr>,
        \<lparr>et_Name = ''api'', et_Count = 1, et_Config = [(''url'', ''b'')]\<rparr>]\<rparr>\<rparr>"] by fastforce

end
