(* ===== verification/LogRing.thy ===== *)
theory LogRing
  imports GoStrings
begin

text \<open>
  The replay buffer of a log tailer, \<open>src/internal/logstream/ring.go\<close>: the last \<open>capacity\<close> bytes of
  everything appended, kept in a slice that is overwritten in place once it is full. What a client
  of the buffer may rely on is the locale \<open>replay_buffer\<close>; the ring implements it. \<open>totalWritten\<close> is an
  \<open>int64\<close> in the code, which counts bytes and does not wrap in practice. The mutex makes every
  method atomic.
\<close>

record ringBuffer =
  rb_capacity :: nat
  rb_buf :: "char list"
  rb_tail :: nat
  rb_full :: bool
  rb_totalWritten :: int
  rb_overflowed :: bool

definition newRingBuffer :: "int \<Rightarrow> ringBuffer" where
  "newRingBuffer capacity =
     \<lparr>rb_capacity = nat (if capacity \<le> 0 then 1 else capacity), rb_buf = [], rb_tail = 0, rb_full = False,
      rb_totalWritten = 0, rb_overflowed = False\<rparr>"

definition appendByte :: "char \<Rightarrow> ringBuffer \<Rightarrow> ringBuffer" where
  "appendByte b r =
     (if \<not> rb_full r then
        let r' = r\<lparr>rb_buf := rb_buf r @ [b]\<rparr>
        in if length (rb_buf r') = rb_capacity r' then r'\<lparr>rb_full := True, rb_tail := 0\<rparr> else r'
      else r\<lparr>rb_buf := (rb_buf r)[rb_tail r := b], rb_tail := (rb_tail r + 1) mod rb_capacity r,
             rb_overflowed := True\<rparr>)"

definition Append :: "char list \<Rightarrow> ringBuffer \<Rightarrow> ringBuffer \<times> int" where
  "Append p r =
     (let r' = fold appendByte p r; total = rb_totalWritten r' + int (length p)
      in (r'\<lparr>rb_totalWritten := total\<rparr>, total))"

definition RingSnapshot :: "ringBuffer \<Rightarrow> char list \<times> int \<times> bool" where
  "RingSnapshot r =
     (let n = length (rb_buf r)
      in if n = 0 then ([], rb_totalWritten r, rb_overflowed r)
         else (if \<not> rb_full r then rb_buf r else drop (rb_tail r) (rb_buf r) @ take (rb_tail r) (rb_buf r),
               rb_totalWritten r - int n, rb_overflowed r))"

definition TotalWritten :: "ringBuffer \<Rightarrow> int" where
  "TotalWritten r = rb_totalWritten r"

section \<open>What a replay buffer promises\<close>

definition last_bytes :: "nat \<Rightarrow> 'a list \<Rightarrow> 'a list" where
  "last_bytes n h = drop (length h - n) h"

locale replay_buffer =
  fixes new :: "int \<Rightarrow> 'r"
    and app :: "char list \<Rightarrow> 'r \<Rightarrow> 'r"
    and snap :: "'r \<Rightarrow> char list \<times> int \<times> bool"
    and window :: "'r \<Rightarrow> nat"
    and holds :: "'r \<Rightarrow> char list \<Rightarrow> bool"
  assumes holds_new: "holds (new c) []"
    and holds_app: "holds r h \<Longrightarrow> holds (app p r) (h @ p)"
    and window_app: "window (app p r) = window r"
    and snap_holds: "holds r h \<Longrightarrow>
      snap r = (last_bytes (window r) h, int (length h - window r), window r < length h)"
begin

lemma holds_appends: "holds r h \<Longrightarrow> holds (fold app ps r) (h @ concat ps)"
proof (induction ps arbitrary: r h)
  case (Cons p ps)
  from Cons.IH [OF holds_app [OF Cons.prems, of p]] show ?case by simp
qed simp

lemma window_appends: "window (fold app ps r) = window r"
  by (induction ps arbitrary: r) (simp_all add: window_app)

lemma snap_appends:
  "snap (fold app ps (new c)) =
     (last_bytes (window (new c)) (concat ps), int (length (concat ps) - window (new c)),
      window (new c) < length (concat ps))"
  using snap_holds [OF holds_appends [OF holds_new]] by (simp add: window_appends)

text \<open>A snapshot followed by what is appended later is a suffix of the whole log.\<close>

lemma replay_then_live:
  assumes "holds r h"
  shows "\<exists>pre. h @ p = pre @ fst (snap r) @ p \<and> int (length pre) = fst (snd (snap r)) \<and> (snd (snd (snap r)) \<longleftrightarrow> pre \<noteq> [])"
  using snap_holds [OF assms]
  by (intro exI [of _ "take (length h - window r) h"]) (auto simp: last_bytes_def)

end

section \<open>The ring keeps the promise\<close>

text \<open>\<open>ring_holds r h\<close>: the ring \<open>r\<close> is what it should be after the bytes \<open>h\<close>.\<close>

definition ring_holds :: "ringBuffer \<Rightarrow> char list \<Rightarrow> bool" where
  "ring_holds r h \<longleftrightarrow> 0 < rb_capacity r \<and> rb_totalWritten r = int (length h) \<and>
     (rb_overflowed r \<longleftrightarrow> rb_capacity r < length h) \<and>
     (if rb_full r
      then length (rb_buf r) = rb_capacity r \<and> rb_tail r < rb_capacity r \<and> rb_capacity r \<le> length h \<and>
        drop (rb_tail r) (rb_buf r) @ take (rb_tail r) (rb_buf r) = last_bytes (rb_capacity r) h
      else rb_buf r = h \<and> length h < rb_capacity r)"

lemma last_bytes_snoc: "0 < n \<Longrightarrow> n \<le> length h \<Longrightarrow> last_bytes n (h @ [b]) = tl (last_bytes n h) @ [b]"
  by (simp add: last_bytes_def tl_drop Suc_diff_le drop_Suc flip: drop_Suc)

lemma overwrite_rotates:
  assumes "t < length xs"
  shows "drop (Suc t mod length xs) (xs[t := b]) @ take (Suc t mod length xs) (xs[t := b]) =
    tl (drop t xs @ take t xs) @ [b]"
proof (cases "Suc t < length xs")
  case True
  with assms show ?thesis by (simp add: drop_update_cancel take_Suc_conv_app_nth tl_drop drop_Suc flip: drop_Suc)
next
  case False
  obtain ys y where xs: "xs = ys @ [y]" using assms by (cases xs rule: rev_cases) auto
  with assms False have "t = length ys" by simp
  with xs show ?thesis by simp
qed

lemma ring_holds_byte:
  assumes "ring_holds r h"
  shows "ring_holds ((appendByte b r)\<lparr>rb_totalWritten := int (length (h @ [b]))\<rparr>) (h @ [b])"
proof (cases "rb_full r")
  case True
  with assms show ?thesis
    using overwrite_rotates [of "rb_tail r" "rb_buf r" b]
    by (auto simp: ring_holds_def appendByte_def last_bytes_snoc)
next
  case False
  with assms show ?thesis by (auto simp: ring_holds_def appendByte_def Let_def last_bytes_def)
qed

lemma appendByte_total [simp]: "rb_totalWritten (appendByte b r) = rb_totalWritten r"
  "appendByte b (r\<lparr>rb_totalWritten := n\<rparr>) = (appendByte b r)\<lparr>rb_totalWritten := n\<rparr>"
  by (simp_all add: appendByte_def Let_def)

lemma appendBytes_total [simp]: "rb_totalWritten (fold appendByte p r) = rb_totalWritten r"
  "fold appendByte p (r\<lparr>rb_totalWritten := n\<rparr>) = (fold appendByte p r)\<lparr>rb_totalWritten := n\<rparr>"
  by (induction p arbitrary: r) simp_all

lemma ring_holds_bytes:
  "ring_holds r h \<Longrightarrow> ring_holds ((fold appendByte p r)\<lparr>rb_totalWritten := int (length (h @ p))\<rparr>) (h @ p)"
proof (induction p arbitrary: r h)
  case Nil
  then show ?case by (simp add: ring_holds_def)
next
  case (Cons b p)
  from Cons.IH [OF ring_holds_byte [OF Cons.prems]] show ?case by simp
qed

lemma ring_holds_Append: "ring_holds r h \<Longrightarrow> ring_holds (fst (Append p r)) (h @ p)"
proof -
  assume "ring_holds r h"
  moreover from this have "rb_totalWritten r = int (length h)" by (simp add: ring_holds_def)
  ultimately show ?thesis using ring_holds_bytes [of r h p] by (simp add: Append_def Let_def)
qed

lemma capacity_Append: "rb_capacity (fst (Append p r)) = rb_capacity r"
proof -
  have "rb_capacity (fold appendByte p r) = rb_capacity r"
    by (induction p arbitrary: r) (simp_all add: appendByte_def Let_def)
  then show ?thesis by (simp add: Append_def Let_def)
qed

lemma RingSnapshot_holds:
  assumes "ring_holds r h"
  shows "RingSnapshot r = (last_bytes (rb_capacity r) h, int (length h - rb_capacity r), rb_capacity r < length h)"
  using assms by (auto simp: ring_holds_def RingSnapshot_def Let_def last_bytes_def of_nat_diff)

interpretation ring: replay_buffer newRingBuffer "\<lambda>p r. fst (Append p r)" RingSnapshot rb_capacity ring_holds
  by unfold_locales
    (simp_all add: ring_holds_Append capacity_Append RingSnapshot_holds, simp add: ring_holds_def newRingBuffer_def)

text \<open>
  C30. The ring refines "the last \<open>capacity\<close> bytes of the log": after any sequence of appends a
  snapshot is exactly that suffix in order, its start offset is the number of bytes no longer held,
  and the overflow flag says whether there are any. A capacity below one is one.
\<close>

theorem ring_refines_log:
  "RingSnapshot (fold (\<lambda>p r. fst (Append p r)) ps (newRingBuffer c)) =
     (last_bytes (nat (max 1 c)) (concat ps), int (length (concat ps) - nat (max 1 c)), nat (max 1 c) < length (concat ps))"
  using ring.snap_appends [of ps c] by (simp add: newRingBuffer_def max_def)

end
