(* ===== verification/GoTime.thy ===== *)
theory GoTime
  imports GoStrings
begin

text \<open>
  \<open>time.Parse(time.RFC3339Nano, s)\<close>, the layout \<open>2006-01-02T15:04:05.999999999Z07:00\<close>, as the log tailer
  uses it. An instant is the number of nanoseconds since the zero \<open>time.Time\<close> (year 1), so \<open>0\<close> is the
  instant whose \<open>IsZero\<close> holds, and comparing instants is comparing numbers. The parser is as
  lenient as Go's: the hour may have one digit, the fraction is optional and may follow a comma, an
  offset may be 24 hours or 60 minutes.
\<close>

type_synonym instant = int

definition leap_year :: "nat \<Rightarrow> bool" where
  "leap_year y \<longleftrightarrow> y mod 4 = 0 \<and> (y mod 100 \<noteq> 0 \<or> y mod 400 = 0)"

definition daysIn :: "nat \<Rightarrow> nat \<Rightarrow> nat" where
  "daysIn m y = (if m = 2 then (if leap_year y then 29 else 28) else if m \<in> {4, 6, 9, 11} then 30 else 31)"

text \<open>Days from 1 January of year 1 to a date.\<close>

definition days_to :: "nat \<Rightarrow> nat \<Rightarrow> nat \<Rightarrow> int" where
  "days_to y m d =
     (let p = int y - 1
      in 365 * p + p div 4 - p div 100 + p div 400 + int (sum_list (map (\<lambda>i. daysIn i y) [1..<m])) + int d - 1)"

text \<open>\<open>getnum\<close>: two digits, or one where the width is not fixed.\<close>

definition getnum :: "bool \<Rightarrow> string \<Rightarrow> (nat \<times> string) option" where
  "getnum fixed s = (case s of
     [] \<Rightarrow> None
   | c # r \<Rightarrow> if \<not> is_digit c then None
       else (case r of
         d # r' \<Rightarrow> if is_digit d then Some (10 * digit_val c + digit_val d, r')
           else if fixed then None else Some (digit_val c, r)
       | [] \<Rightarrow> if fixed then None else Some (digit_val c, [])))"

definition skip_char :: "char \<Rightarrow> string \<Rightarrow> string option" where
  "skip_char c s = (case s of [] \<Rightarrow> None | x # r \<Rightarrow> if x = c then Some r else None)"

definition get_year :: "string \<Rightarrow> (nat \<times> string) option" where
  "get_year s = (if length s < 4 \<or> \<not> list_all is_digit (take 4 s) then None else Some (digits_val (take 4 s), drop 4 s))"

text \<open>The fraction: all digits are read, nine count.\<close>

definition get_fraction :: "string \<Rightarrow> nat \<times> string" where
  "get_fraction s = (case s of
     p # c # r \<Rightarrow> if p \<in> {CHR ''.'', CHR '',''} \<and> is_digit c then
         let ds = takeWhile is_digit (c # r); ns = take 9 ds
         in (digits_val ns * 10 ^ (9 - length ns), dropWhile is_digit (c # r))
       else (0, s)
   | _ \<Rightarrow> (0, s))"

text \<open>The zone, as seconds east of UTC.\<close>

definition get_zone :: "string \<Rightarrow> (int \<times> string) option" where
  "get_zone s =
     (if has_prefix ''Z'' s then Some (0, tl s)
      else if length s < 6 \<or> s ! 3 \<noteq> CHR '':'' then None
      else case (getnum True (take 2 (drop 1 s)), getnum True (take 2 (drop 4 s))) of
        (Some (hr, _), Some (mm, _)) \<Rightarrow>
          if 24 < hr \<or> 60 < mm then None
          else let off = int ((hr * 60 + mm) * 60)
               in if hd s = CHR ''+'' then Some (off, drop 6 s)
                  else if hd s = CHR ''-'' then Some (- off, drop 6 s)
                  else None
      | _ \<Rightarrow> None)"

definition instant_of :: "nat \<Rightarrow> nat \<Rightarrow> nat \<Rightarrow> nat \<Rightarrow> nat \<Rightarrow> nat \<Rightarrow> nat \<Rightarrow> int \<Rightarrow> instant" where
  "instant_of y mo d h mi s ns zone =
     ((((days_to y mo d * 24 + int h) * 60 + int mi) * 60 + int s) - zone) * 1000000000 + int ns"

text \<open>
  \<open>time.Parse\<close> on a layout with date, time of day, optional fraction and zone: \<open>sep\<close> skips what the layout
  has between date and time, \<open>zn\<close> reads the zone.
\<close>

definition parse_layout :: "(string \<Rightarrow> string option) \<Rightarrow> (string \<Rightarrow> (int \<times> string) option) \<Rightarrow> string \<Rightarrow> instant option" where
  "parse_layout sep zn s0 =
     Option.bind (get_year s0) (\<lambda>(year, s1).
     Option.bind (skip_char (CHR ''-'') s1) (\<lambda>s2. Option.bind (getnum True s2) (\<lambda>(month, s3).
     if month = 0 \<or> 12 < month then None else
     Option.bind (skip_char (CHR ''-'') s3) (\<lambda>s4. Option.bind (getnum True s4) (\<lambda>(day, s5).
     Option.bind (sep s5) (\<lambda>s6. Option.bind (getnum False s6) (\<lambda>(hour, s7).
     if 24 \<le> hour then None else
     Option.bind (skip_char (CHR '':'') s7) (\<lambda>s8. Option.bind (getnum True s8) (\<lambda>(minute, s9).
     if 60 \<le> minute then None else
     Option.bind (skip_char (CHR '':'') s9) (\<lambda>s10. Option.bind (getnum True s10) (\<lambda>(second, s11).
     if 60 \<le> second then None else
     case get_fraction s11 of (ns, s12) \<Rightarrow>
     Option.bind (zn s12) (\<lambda>(zone, s13).
     if s13 \<noteq> [] \<or> day < 1 \<or> daysIn month year < day then None
     else Some (instant_of year month day hour minute second ns zone)))))))))))))"

definition parseRFC3339Nano :: "string \<Rightarrow> instant option" where
  "parseRFC3339Nano = parse_layout (skip_char (CHR ''T'')) get_zone"

text \<open>Evaluation on concrete texts.\<close>

lemmas time_eval = parseRFC3339Nano_def parse_layout_def get_year_def skip_char_def getnum_def get_fraction_def get_zone_def
  instant_of_def days_to_def daysIn_def leap_year_def digits_val_def digit_val_def is_digit_def byte_def upt_rec
  numeral_2_eq_2 numeral_3_eq_3

lemma parse_sample: "parseRFC3339Nano ''2024-02-29T12:00:01.5+02:00'' = Some (63844797601500000000)"
  by (simp add: time_eval)

end
