(* ===== verification/GoPath.thy ===== *)
theory GoPath
  imports GoStrings
begin

text \<open>
  \<open>strings.Split\<close> for a separator of one byte, and the lexical operations of Go's package \<open>path\<close> that
  the program uses: \<open>Clean\<close>, \<open>IsAbs\<close> and \<open>Join\<close>.
\<close>

section \<open>Splitting\<close>

text \<open>\<open>strings.Split(s, sep)\<close> for a separator of one byte.\<close>

fun split_on :: "char \<Rightarrow> string \<Rightarrow> string list" where
  "split_on c [] = [[]]"
| "split_on c (x # s) = (if x = c then [] # split_on c s
     else case split_on c s of [] \<Rightarrow> [[x]] | p # ps \<Rightarrow> (x # p) # ps)"

lemma split_on_nonempty [simp]: "split_on c s \<noteq> []"
  by (induction s) (auto split: list.split)

lemma split_on_append: "split_on c (p @ c # q) = split_on c p @ split_on c q"
proof (induction p)
  case (Cons x p)
  then show ?case by (cases "split_on c p") auto
qed simp

lemma split_on_plain: "c \<notin> set s \<Longrightarrow> split_on c s = [s]"
  by (induction s) auto

lemma join_split_on: "join [c] (split_on c s) = s"
proof (induction s)
  case (Cons x s)
  obtain p ps where ps: "split_on c s = p # ps" by (cases "split_on c s") auto
  with Cons show ?case by (cases ps) auto
qed simp

lemma split_on_no_sep: "x \<in> set (split_on c s) \<Longrightarrow> c \<notin> set x"
proof (induction s arbitrary: x)
  case (Cons y s)
  then show ?case by (cases "split_on c s") (auto split: if_splits)
qed simp

lemma split_on_inject: "split_on c s = split_on c t \<longleftrightarrow> s = t"
  by (metis join_split_on)

section \<open>Paths\<close>

definition path_IsAbs :: "string \<Rightarrow> bool" where
  "path_IsAbs p = has_prefix ''/'' p"

text \<open>The segments of a cleaned path; the second argument is what is kept so far, reversed.\<close>

fun clean_segs :: "bool \<Rightarrow> string list \<Rightarrow> string list \<Rightarrow> string list" where
  "clean_segs rooted st [] = rev st"
| "clean_segs rooted st (s # ss) =
     (if s = [] \<or> s = ''.'' then clean_segs rooted st ss
      else if s = ''..'' then
        (case st of
           [] \<Rightarrow> clean_segs rooted (if rooted then [] else [''..'']) ss
         | t # ts \<Rightarrow> clean_segs rooted (if t = ''..'' then ''..'' # st else ts) ss)
      else clean_segs rooted (s # st) ss)"

definition path_Clean :: "string \<Rightarrow> string" where
  "path_Clean p =
     (let rooted = path_IsAbs p; segs = clean_segs rooted [] (split_on (CHR ''/'') p)
      in if rooted then CHR ''/'' # join ''/'' segs else if segs = [] then ''.'' else join ''/'' segs)"

definition path_Join :: "string list \<Rightarrow> string" where
  "path_Join elems = (let es = filter (\<lambda>e. e \<noteq> []) elems in if es = [] then [] else path_Clean (join ''/'' es))"

text \<open>A plain segment is kept by \<open>Clean\<close>.\<close>

definition plain_seg :: "string \<Rightarrow> bool" where
  "plain_seg s \<longleftrightarrow> s \<noteq> [] \<and> s \<noteq> ''.'' \<and> s \<noteq> ''..''"

lemma clean_segs_plain: "list_all plain_seg ss \<Longrightarrow> clean_segs rooted st ss = rev st @ ss"
  by (induction ss arbitrary: st) (auto simp: plain_seg_def)

text \<open>The segments of a cleaned rooted path are plain.\<close>

lemma clean_segs_rooted: "list_all plain_seg st \<Longrightarrow> list_all plain_seg (clean_segs True st ss)"
proof (induction ss arbitrary: st)
  case Nil
  then show ?case by (simp add: list_all_iff)
next
  case (Cons s ss)
  show ?case
  proof (cases st)
    case Nil
    then show ?thesis using Cons by (simp add: plain_seg_def)
  next
    case (Cons t ts)
    then show ?thesis using Cons.IH Cons.prems by (auto simp: plain_seg_def)
  qed
qed

lemma clean_segs_sub: "set (clean_segs rooted st ss) \<subseteq> set st \<union> set ss \<union> {''..''}"
proof (induction ss arbitrary: st)
  case (Cons s ss)
  show ?case
  proof (cases st)
    case Nil
    then show ?thesis using Cons.IH [of "[]"] Cons.IH [of "[''..'']"] Cons.IH [of "[s]"] by auto
  next
    case st: (Cons t ts)
    then show ?thesis using Cons.IH [of st] Cons.IH [of ts] Cons.IH [of "''..'' # st"] Cons.IH [of "s # st"] by auto
  qed
qed auto

lemma split_on_join:
  assumes "ss \<noteq> []" "\<And>s. s \<in> set ss \<Longrightarrow> c \<notin> set s"
  shows "split_on c (join [c] ss) = ss"
  using assms
proof (induction ss)
  case (Cons s ss)
  show ?case
  proof (cases ss)
    case Nil
    then show ?thesis using Cons.prems by (simp add: split_on_plain)
  next
    case (Cons t ts)
    have "join [c] (s # ss) = s @ c # join [c] ss" by (simp add: Cons)
    then have "split_on c (join [c] (s # ss)) = split_on c s @ split_on c (join [c] ss)" by (simp only: split_on_append)
    then show ?thesis using Cons.IH Cons.prems Cons by (simp add: split_on_plain)
  qed
qed simp

lemma path_Clean_rooted_segs:
  assumes "path_IsAbs p"
  obtains segs where "path_Clean p = CHR ''/'' # join ''/'' segs" "list_all plain_seg segs" "\<And>s. s \<in> set segs \<Longrightarrow> CHR ''/'' \<notin> set s"
proof
  let ?segs = "clean_segs True [] (split_on (CHR ''/'') p)"
  show "path_Clean p = CHR ''/'' # join ''/'' ?segs" using assms by (simp add: path_Clean_def)
  show "list_all plain_seg ?segs" by (rule clean_segs_rooted) simp
  show "CHR ''/'' \<notin> set s" if "s \<in> set ?segs" for s
    using that clean_segs_sub [of True "[]" "split_on (CHR ''/'') p"] split_on_no_sep by fastforce
qed

lemma path_Clean_idem_rooted:
  assumes "path_IsAbs p"
  shows "path_Clean (path_Clean p) = path_Clean p"
proof -
  obtain segs where segs: "path_Clean p = CHR ''/'' # join ''/'' segs" "list_all plain_seg segs"
      "\<And>s. s \<in> set segs \<Longrightarrow> CHR ''/'' \<notin> set s"
    using path_Clean_rooted_segs [OF assms] by metis
  have "split_on (CHR ''/'') (CHR ''/'' # join ''/'' segs) = [] # (if segs = [] then [[]] else segs)"
    using segs(3) by (auto simp: split_on_join)
  then show ?thesis using segs(1,2) by (simp add: path_Clean_def path_IsAbs_def clean_segs_plain)
qed

end
