(* ===== verification/Storage.thy ===== *)
theory Storage
  imports GoPath "HOL-Library.Char_ord" "HOL-Library.List_Lexorder"
begin

text \<open>
  Object storage, \<open>src/pkg/storage\<close>: the layout of the bucket (\<open>keys.go\<close>), the contract of the four
  interfaces (\<open>interfaces.go\<close>) as the locale \<open>blob_store\<close>, and the in-memory store (\<open>fake.go\<close>), which
  implements it. Errors of \<open>ParseRunKeys\<close> are values; the store's injected errors are texts.
\<close>

section \<open>Keys\<close>

definition trim_suffix :: "string \<Rightarrow> string \<Rightarrow> string" where
  "trim_suffix p s = (if has_suffix p s then take (length s - length p) s else s)"

type_synonym RunKeys = string

definition ForRun :: "string \<Rightarrow> string \<Rightarrow> RunKeys" where
  "ForRun ns uid = (if ns = [] \<or> uid = [] then [] else ''runs/'' @ ns @ ''/'' @ uid @ ''/'')"

definition Valid :: "RunKeys \<Rightarrow> bool" where "Valid k \<longleftrightarrow> k \<noteq> []"

definition RunPrefix :: "RunKeys \<Rightarrow> string" where "RunPrefix k = k"

definition ResultKey :: "RunKeys \<Rightarrow> string" where "ResultKey k = k @ ''result.json''"

definition Logs :: "RunKeys \<Rightarrow> string" where "Logs k = k @ ''logs/''"

text \<open>\<open>%08d\<close>: at least eight digits, filled up with zeros.\<close>

definition pad8 :: "nat \<Rightarrow> string" where
  "pad8 n = replicate (8 - length (utoa n)) (CHR ''0'') @ utoa n"

definition LogChunk :: "RunKeys \<Rightarrow> nat \<Rightarrow> string" where
  "LogChunk k n = Logs k @ pad8 n @ ''.log''"

definition LogCursor :: "RunKeys \<Rightarrow> string" where "LogCursor k = k @ ''logcursor.json''"

definition StageKeys :: "RunKeys \<Rightarrow> string \<Rightarrow> RunKeys" where
  "StageKeys k name = k @ ''stages/'' @ name @ ''/''"

definition Artifacts :: "RunKeys \<Rightarrow> string" where "Artifacts k = k @ ''artifacts/''"

definition ServiceKeys :: "RunKeys \<Rightarrow> string \<Rightarrow> RunKeys" where
  "ServiceKeys k replica = Artifacts k @ ''services/'' @ replica @ ''/''"

definition WorkerKeys :: "RunKeys \<Rightarrow> int \<Rightarrow> RunKeys" where
  "WorkerKeys k i = Artifacts k @ ''workers/'' @ itoa i @ ''/''"

definition Artifact :: "RunKeys \<Rightarrow> string \<Rightarrow> string" where
  "Artifact k relPath = Artifacts k @ relPath"

datatype keys_error = BadWorkerIndex string | WantRunPrefix string | RelativeSegment string

function ParseRunKeys :: "string \<Rightarrow> (keys_error, RunKeys) result" where
  "ParseRunKeys prefix = (case cut ''artifacts/workers/'' prefix of
     Some (base, idx) \<Rightarrow>
       (case ParseRunKeys base of Inl e \<Rightarrow> Inl e
        | Inr run \<Rightarrow> (case parse_int64 (trim_suffix ''/'' idx) of
            None \<Rightarrow> Inl (BadWorkerIndex prefix)
          | Some i \<Rightarrow> if i < 0 \<or> \<not> has_suffix ''/'' idx \<or> count_list idx (CHR ''/'') \<noteq> 1 then Inl (BadWorkerIndex prefix)
              else Inr (WorkerKeys run i)))
   | None \<Rightarrow>
       let parts = split_on (CHR ''/'') prefix
       in if length parts \<noteq> 4 \<or> parts ! 0 \<noteq> ''runs'' \<or> parts ! 3 \<noteq> [] then Inl (WantRunPrefix prefix)
          else if list_ex (\<lambda>p. p \<in> {[], ''.'', ''..''}) [parts ! 1, parts ! 2] then Inl (RelativeSegment prefix)
          else Inr (ForRun (parts ! 1) (parts ! 2)))"
  by pat_completeness auto
termination
  by (relation "measure length") (auto dest: cut_Some)

declare ParseRunKeys.simps [simp del]

section \<open>The contract of a store\<close>

text \<open>
  The laws of \<open>Uploader\<close>, \<open>Downloader\<close>, \<open>Lister\<close> and \<open>Remover\<close> for one bucket, over what the bucket
  holds: a failed call changes nothing it holds, a put is seen by later gets, a missing key is \<open>None\<close>
  (\<open>ErrNotFound\<close>), a listing is sorted and complete, an empty prefix is refused.
\<close>

type_synonym 's put_op = "string \<Rightarrow> string \<Rightarrow> 's \<Rightarrow> (string, unit) result \<times> 's"

locale blob_store =
  fixes put :: "'s put_op"
    and get :: "string \<Rightarrow> 's \<Rightarrow> (string, string option) result \<times> 's"
    and list_keys :: "string \<Rightarrow> 's \<Rightarrow> (string, string list) result \<times> 's"
    and remove_prefix :: "string \<Rightarrow> 's \<Rightarrow> (string, unit) result \<times> 's"
    and held :: "'s \<Rightarrow> string \<rightharpoonup> string"
    and ok :: "'s \<Rightarrow> bool"
  assumes put_held: "ok s \<Longrightarrow> put k v s = (pr, s') \<Longrightarrow>
      ok s' \<and> held s' = (if pr = Inr () then (held s)(k \<mapsto> v) else held s)"
    and get_held: "ok s \<Longrightarrow> get k s = (gr, s') \<Longrightarrow> ok s' \<and> held s' = held s \<and> (\<forall>x. gr = Inr x \<longrightarrow> x = held s k)"
    and list_held: "ok s \<Longrightarrow> list_keys p s = (lr, s') \<Longrightarrow> ok s' \<and> held s' = held s \<and>
      (\<forall>ks. lr = Inr ks \<longrightarrow> sorted ks \<and> distinct ks \<and> set ks = {k \<in> dom (held s). has_prefix p k})"
    and remove_held: "ok s \<Longrightarrow> remove_prefix p s = (rr, s') \<Longrightarrow>
      ok s' \<and> held s' = (if rr = Inr () then held s |` {k. \<not> has_prefix p k} else held s)"
    and remove_empty: "fst (remove_prefix [] s) \<noteq> Inr ()"
begin

lemma put_get:
  assumes "ok s" "put k v s = (Inr (), s')" "get k s' = (Inr x, s'')"
  shows "x = Some v"
  using put_held [OF assms(1,2)] get_held [OF _ assms(3)] by simp

lemma put_frame: "ok s \<Longrightarrow> put k v s = (r, s') \<Longrightarrow> j \<noteq> k \<Longrightarrow> held s' j = held s j"
  using put_held [of s k v r s'] by simp

lemma list_sorted:
  "ok s \<Longrightarrow> list_keys p s = (Inr ks, s') \<Longrightarrow> ks = sorted_list_of_set {k \<in> dom (held s). has_prefix p k}"
  using list_held [of s p "Inr ks" s'] by (metis sorted_list_of_set.idem_if_sorted_distinct)

lemma remove_frame: "ok s \<Longrightarrow> remove_prefix p s = (r, s') \<Longrightarrow> \<not> has_prefix p k \<Longrightarrow> held s' k = held s k"
  using remove_held [of s p r s'] by simp

end

text \<open>A store during a time in which no upload fails.\<close>

locale reliable_store = blob_store +
  fixes up :: "'a \<Rightarrow> bool"
  assumes up_put: "ok s \<Longrightarrow> up s \<Longrightarrow> \<exists>s'. put k v s = (Inr (), s') \<and> up s'"
begin

lemma put_up:
  assumes "ok s" "up s"
  obtains s' where "put k v s = (Inr (), s')" "ok s'" "up s'" "held s' = (held s)(k \<mapsto> v)"
  using up_put [OF assms, of k v] put_held [OF assms(1)] by fastforce

end

section \<open>The in-memory store\<close>

record Fake =
  fk_objects :: "(string, string) gomap"
  fk_PutErrors :: "string option list"
  fk_GetErrors :: "string option list"
  fk_RemoveErrors :: "string option list"
  fk_PutCalls :: nat
  fk_GetCalls :: nat
  fk_RemoveCalls :: nat

definition NewFake :: Fake where
  "NewFake = \<lparr>fk_objects = [], fk_PutErrors = [], fk_GetErrors = [], fk_RemoveErrors = [], fk_PutCalls = 0,
     fk_GetCalls = 0, fk_RemoveCalls = 0\<rparr>"

definition fakeKey :: "string \<Rightarrow> string \<Rightarrow> string" where
  "fakeKey bucket key = bucket @ ''/'' @ key"

text \<open>The head of an error queue; a \<open>nil\<close> entry lets the call succeed.\<close>

definition next_error :: "string option list \<Rightarrow> string option" where
  "next_error es = (case es of [] \<Rightarrow> None | e # _ \<Rightarrow> e)"

definition FakePut :: "string \<Rightarrow> Fake put_op" where
  "FakePut bucket key body f =
     (let f1 = f\<lparr>fk_PutCalls := fk_PutCalls f + 1, fk_PutErrors := tl (fk_PutErrors f)\<rparr>
      in case next_error (fk_PutErrors f) of
           Some e \<Rightarrow> (Inl e, f1)
         | None \<Rightarrow> (Inr (), f1\<lparr>fk_objects := gm_set (fakeKey bucket key) body (fk_objects f1)\<rparr>))"

definition FakeGet :: "string \<Rightarrow> string \<Rightarrow> Fake \<Rightarrow> (string, string option) result \<times> Fake" where
  "FakeGet bucket key f =
     (let f1 = f\<lparr>fk_GetCalls := fk_GetCalls f + 1, fk_GetErrors := tl (fk_GetErrors f)\<rparr>
      in case next_error (fk_GetErrors f) of
           Some e \<Rightarrow> (Inl e, f1)
         | None \<Rightarrow> (Inr (gm_get (fk_objects f1) (fakeKey bucket key)), f1))"

definition Object :: "string \<Rightarrow> string \<Rightarrow> Fake \<Rightarrow> string option" where
  "Object bucket key f = gm_get (fk_objects f) (fakeKey bucket key)"

definition Keys :: "string \<Rightarrow> Fake \<Rightarrow> string list" where
  "Keys bucket f = sort (map (\<lambda>(k, _). drop (length bucket + 1) k)
     (filter (\<lambda>(k, _). has_prefix (bucket @ ''/'') k) (fk_objects f)))"

definition Reset :: "Fake \<Rightarrow> Fake" where
  "Reset f = NewFake"

definition FakeList :: "string \<Rightarrow> string \<Rightarrow> Fake \<Rightarrow> (string, string list) result \<times> Fake" where
  "FakeList bucket prefix f =
     (if prefix = [] then (Inl ''fake: List requires a non-empty prefix'', f)
      else (Inr (sort (map (\<lambda>(k, _). drop (length bucket + 1) k)
             (filter (\<lambda>(k, _). has_prefix (fakeKey bucket prefix) k) (fk_objects f)))), f))"

definition FakeRemovePrefix :: "string \<Rightarrow> string \<Rightarrow> Fake \<Rightarrow> (string, unit) result \<times> Fake" where
  "FakeRemovePrefix bucket prefix f =
     (if prefix = [] then (Inl ''fake: RemovePrefix requires a non-empty prefix'', f)
      else let f1 = f\<lparr>fk_RemoveCalls := fk_RemoveCalls f + 1, fk_RemoveErrors := tl (fk_RemoveErrors f)\<rparr>
           in case next_error (fk_RemoveErrors f) of
                Some e \<Rightarrow> (Inl e, f1)
              | None \<Rightarrow> (Inr (), f1\<lparr>fk_objects :=
                  filter (\<lambda>(k, _). \<not> has_prefix (fakeKey bucket prefix) k) (fk_objects f1)\<rparr>))"

section \<open>The store keeps the contract\<close>

definition fake_ok :: "Fake \<Rightarrow> bool" where
  "fake_ok f \<longleftrightarrow> gm_ok (fk_objects f)"

lemma fakeKey_inject [simp]: "fakeKey b k = fakeKey b j \<longleftrightarrow> k = j"
  by (simp add: fakeKey_def)

lemma has_prefix_fakeKey [simp]: "has_prefix (fakeKey b p) (fakeKey b k) \<longleftrightarrow> has_prefix p k"
  by (auto simp: has_prefix_iff fakeKey_def)

lemma has_prefix_fakeKeyE:
  assumes "has_prefix (fakeKey b p) x"
  obtains k where "x = fakeKey b k"
  using assms by (auto simp: has_prefix_iff fakeKey_def)

lemma drop_fakeKey [simp]: "drop (Suc (length b)) (fakeKey b k) = k"
  by (simp add: fakeKey_def)

lemma map_of_filter_key: "map_of (filter (\<lambda>(k, _). P k) m) k = (if P k then map_of m k else None)"
  by (induction m) auto

lemma listed_keys:
  assumes "gm_ok m"
  shows "distinct (map (\<lambda>(k, _). drop (Suc (length b)) k) (filter (\<lambda>(k, _). has_prefix (fakeKey b p) k) m)) \<and>
    set (map (\<lambda>(k, _). drop (Suc (length b)) k) (filter (\<lambda>(k, _). has_prefix (fakeKey b p) k) m)) =
      {k. map_of m (fakeKey b k) \<noteq> None \<and> has_prefix p k}"
proof -
  let ?K = "filter (has_prefix (fakeKey b p)) (map fst m)"
  have eq: "map (\<lambda>(k, _). drop (Suc (length b)) k) (filter (\<lambda>(k, _). has_prefix (fakeKey b p) k) m) =
      map (drop (Suc (length b))) ?K"
    by (induction m) auto
  have inj: "inj_on (drop (Suc (length b))) (set ?K)"
    by (rule inj_onI) (auto elim!: has_prefix_fakeKeyE)
  have "drop (Suc (length b)) ` set ?K = {k. fakeKey b k \<in> fst ` set m \<and> has_prefix p k}"
  proof (intro equalityI subsetI)
    fix k assume "k \<in> drop (Suc (length b)) ` set ?K"
    then obtain x where x: "x \<in> fst ` set m" "has_prefix (fakeKey b p) x" "k = drop (Suc (length b)) x" by auto
    from x(2) obtain j where "x = fakeKey b j" by (rule has_prefix_fakeKeyE)
    with x show "k \<in> {k. fakeKey b k \<in> fst ` set m \<and> has_prefix p k}" by simp
  next
    fix k assume "k \<in> {k. fakeKey b k \<in> fst ` set m \<and> has_prefix p k}"
    then show "k \<in> drop (Suc (length b)) ` set ?K" by (intro image_eqI [of _ _ "fakeKey b k"]) simp_all
  qed
  then show ?thesis using assms inj unfolding eq by (simp add: distinct_map gm_ok_def map_of_eq_None_iff)
qed

interpretation fake: blob_store "FakePut b" "FakeGet b" "FakeList b" "FakeRemovePrefix b" "\<lambda>f k. Object b k f" fake_ok
  for b
proof (unfold_locales, goal_cases)
  case (1 s k v pr s')
  then show ?case by (auto simp: FakePut_def Let_def fake_ok_def Object_def fun_eq_iff split: option.splits)
next
  case (2 s k gr s')
  then show ?case by (auto simp: FakeGet_def Let_def fake_ok_def Object_def split: option.splits)
next
  case (3 s p lr s')
  then show ?case using listed_keys [of "fk_objects s" b p]
    by (auto simp: FakeList_def fake_ok_def Object_def dom_def split: if_splits)
next
  case (4 s p rr s')
  then show ?case
    by (auto simp: FakeRemovePrefix_def Let_def fake_ok_def Object_def restrict_map_def fun_eq_iff gm_ok_def
      map_of_filter_key distinct_map_filter split: option.splits if_splits)
next
  case (5 s)
  then show ?case by (simp add: FakeRemovePrefix_def)
qed

interpretation fake_up: reliable_store "FakePut b" "FakeGet b" "FakeList b" "FakeRemovePrefix b" "\<lambda>f k. Object b k f" fake_ok
  "\<lambda>f. fk_PutErrors f = []"
  for b
  by unfold_locales (auto simp: FakePut_def next_error_def Let_def)

section \<open>Parsing keys\<close>

text \<open>A path segment: not empty, not relative, without a slash.\<close>

definition segment :: "string \<Rightarrow> bool" where
  "segment s \<longleftrightarrow> s \<noteq> [] \<and> s \<noteq> ''.'' \<and> s \<noteq> ''..'' \<and> CHR ''/'' \<notin> set s"

lemma split_ForRun:
  assumes "segment ns" "segment uid"
  shows "split_on (CHR ''/'') (ForRun ns uid @ rest) = ''runs'' # ns # uid # split_on (CHR ''/'') rest"
proof -
  have "ForRun ns uid @ rest = ''runs'' @ CHR ''/'' # (ns @ CHR ''/'' # (uid @ CHR ''/'' # rest))"
    using assms by (simp add: ForRun_def segment_def)
  then show ?thesis using assms by (simp only: split_on_append) (simp add: split_on_plain segment_def)
qed

text \<open>Where the marker of a worker's subtree can be: before a segment \<open>workers\<close>, after one ending in \<open>artifacts\<close>.\<close>

lemma marker_split:
  "split_on (CHR ''/'') (p @ ''artifacts/workers/'' @ q) =
     split_on (CHR ''/'') (p @ ''artifacts'') @ ''workers'' # split_on (CHR ''/'') q"
  using split_on_append [of "CHR ''/''" "p @ ''artifacts''" "''workers/'' @ q"]
    split_on_append [of "CHR ''/''" "''workers''" q] by simp

lemma split_on_last: "CHR ''/'' \<notin> set t \<Longrightarrow> \<exists>xs u. split_on (CHR ''/'') (p @ t) = xs @ [u @ t]"
proof (induction p)
  case (Cons x p)
  then obtain xs u where "split_on (CHR ''/'') (p @ t) = xs @ [u @ t]" by blast
  then show ?case by (cases "x = CHR ''/''"; cases xs) auto
qed (simp add: split_on_plain)

lemma no_marker_ForRun:
  assumes "segment ns" "segment uid" "uid \<noteq> ''workers''"
  shows "ForRun ns uid \<noteq> p @ ''artifacts/workers/'' @ q"
proof
  assume eq: "ForRun ns uid = p @ ''artifacts/workers/'' @ q"
  obtain xs u where last: "split_on (CHR ''/'') (p @ ''artifacts'') = xs @ [u @ ''artifacts'']"
    using split_on_last [of "''artifacts''" p] by auto
  have "[''runs'', ns, uid, []] = xs @ [u @ ''artifacts''] @ ''workers'' # split_on (CHR ''/'') q"
    using split_ForRun [OF assms(1,2), of "[]"] eq marker_split [of p q] last by simp
  then show False using assms(3)
    by (cases xs; cases "tl xs"; cases "tl (tl xs)"; cases "split_on (CHR ''/'') q") auto
qed

lemma index_of_unique:
  assumes "s = a @ sep @ b" "\<And>p q. s = p @ sep @ q \<Longrightarrow> p = a"
  shows "index_of sep s = Some (length a)"
proof -
  have here: "has_prefix sep (drop (length a) s)" using assms(1) by simp
  then obtain i where i: "index_of sep s = Some i" using index_of_None [of sep s "length a"] by auto
  from index_of_Some [OF i] have "s = take i s @ sep @ drop (i + length sep) s"
    by (metis add.commute append_take_drop_id drop_drop)
  then have "take i s = a" by (rule assms(2))
  then have "i = length a" using index_of_Some [OF i] by auto
  with i show ?thesis by simp
qed

lemma cut_ForRun:
  assumes "segment ns" "segment uid" "uid \<noteq> ''workers''"
  shows "cut ''artifacts/workers/'' (ForRun ns uid) = None"
proof (rule ccontr)
  assume "\<not> ?thesis"
  then obtain a b where "cut ''artifacts/workers/'' (ForRun ns uid) = Some (a, b)" by auto
  from cut_Some [OF this] no_marker_ForRun [OF assms] show False by blast
qed

lemma cut_WorkerKeys:
  assumes "segment ns" "segment uid" "uid \<noteq> ''workers''"
  shows "cut ''artifacts/workers/'' (WorkerKeys (ForRun ns uid) (int i)) = Some (ForRun ns uid, utoa i @ ''/'')"
proof -
  let ?s = "WorkerKeys (ForRun ns uid) (int i)"
  have s: "?s = ForRun ns uid @ ''artifacts/workers/'' @ utoa i @ ''/''"
    by (simp add: WorkerKeys_def Artifacts_def itoa_def)
  have slash: "CHR ''/'' \<notin> set (utoa i)" by (rule not_digit_not_in_utoa) (simp add: is_digit_def byte_def)
  have w: "utoa i \<noteq> ''workers''" using utoa_digits [of i] by (auto simp: is_digit_def byte_def)
  have parts: "split_on (CHR ''/'') ?s = [''runs'', ns, uid, ''artifacts'', ''workers'', utoa i, []]"
    using split_ForRun [OF assms(1,2), of "''artifacts/workers/'' @ utoa i @ ''/''"] marker_split [of "[]" "utoa i @ ''/''"]
      split_on_append [of "CHR ''/''" "utoa i" "[]"] slash s by (simp add: split_on_plain)
  have "p = ForRun ns uid" if "?s = p @ ''artifacts/workers/'' @ q" for p q
  proof -
    obtain xs u where last: "split_on (CHR ''/'') (p @ ''artifacts'') = xs @ [u @ ''artifacts'']"
      using split_on_last [of "''artifacts''" p] by auto
    have "[''runs'', ns, uid, ''artifacts'', ''workers'', utoa i, []] =
        xs @ [u @ ''artifacts''] @ ''workers'' # split_on (CHR ''/'') q"
      using parts that marker_split [of p q] last by simp
    then have "xs @ [u @ ''artifacts''] = [''runs'', ns, uid, ''artifacts'']"
      using assms(3) w
      by (cases xs; cases "tl xs"; cases "tl (tl xs)"; cases "tl (tl (tl xs))"; cases "tl (tl (tl (tl xs)))";
          cases "split_on (CHR ''/'') q") auto
    then have "split_on (CHR ''/'') (p @ ''artifacts'') = split_on (CHR ''/'') (ForRun ns uid @ ''artifacts'')"
      using last split_ForRun [OF assms(1,2), of "''artifacts''"] by simp
    then show ?thesis by (simp add: split_on_inject)
  qed
  from index_of_unique [OF s this] show ?thesis by (simp add: cut_def s)
qed

lemma parse_int64_utoa: "i < 2 ^ 63 \<Longrightarrow> parse_int64 (utoa i) = Some (int i)"
proof -
  assume i: "i < 2 ^ 63"
  have "\<not> has_prefix ''-'' (utoa i) \<and> \<not> has_prefix ''+'' (utoa i)"
    using utoa_digits [of i] by (cases "utoa i") (auto simp: is_digit_def byte_def)
  then show ?thesis using i utoa_digits [of i]
    by (auto simp: parse_int64_def Let_def all_digits_def)
qed

lemma ParseRunKeys_ForRun:
  assumes "segment ns" "segment uid" "uid \<noteq> ''workers''"
  shows "ParseRunKeys (ForRun ns uid) = Inr (ForRun ns uid)"
  using assms cut_ForRun [OF assms] split_ForRun [OF assms(1,2), of "[]"]
  by (subst ParseRunKeys.simps) (simp add: segment_def)

lemma WorkerKeys_parsed:
  assumes "segment ns" "segment uid" "uid \<noteq> ''workers''" "i < 2 ^ 63"
  shows "ParseRunKeys (WorkerKeys (ForRun ns uid) (int i)) = Inr (WorkerKeys (ForRun ns uid) (int i))"
proof -
  have slash: "CHR ''/'' \<notin> set (utoa i)" by (rule not_digit_not_in_utoa) (simp add: is_digit_def byte_def)
  show ?thesis
    using cut_WorkerKeys [OF assms(1-3), of i] ParseRunKeys_ForRun [OF assms(1-3)] slash parse_int64_utoa [OF assms(4)]
    by (subst ParseRunKeys.simps) (simp add: trim_suffix_def has_suffix_def)
qed

text \<open>
  Round trip of storage prefixes: what \<open>ForRun\<close> and \<open>Worker\<close> build from a namespace and a UID is
  accepted by \<open>ParseRunKeys\<close> and parsed back to itself, so the wrapper writes where the operator reads.
\<close>

theorem ParseRunKeys_roundtrip:
  assumes "segment ns" "segment uid" "uid \<noteq> ''workers''" "i < 2 ^ 63"
  shows "ParseRunKeys (ForRun ns uid) = Inr (ForRun ns uid) \<and>
    ParseRunKeys (WorkerKeys (ForRun ns uid) (int i)) = Inr (WorkerKeys (ForRun ns uid) (int i))"
  using ParseRunKeys_ForRun [OF assms(1-3)] WorkerKeys_parsed [OF assms] by blast

theorem ParseRunKeys_roundtrip_witness:
  "ParseRunKeys (WorkerKeys (ForRun ''team-a'' ''7f3c'') 3) = Inr ''runs/team-a/7f3c/artifacts/workers/3/''"
  using ParseRunKeys_roundtrip [of "''team-a''" "''7f3c''" 3]
  by (simp add: segment_def WorkerKeys_def Artifacts_def ForRun_def itoa_def utoa.simps digit_char_def byte_def char_of_def)

lemma cut_first:
  assumes "cut sep s = Some (a, b)" "sep \<noteq> []"
  shows "a \<noteq> p @ sep @ q"
proof
  assume a: "a = p @ sep @ q"
  from assms(1) obtain i where i: "index_of sep s = Some i" "a = take i s" by (auto simp: cut_def split: option.splits)
  have "s = a @ sep @ b" by (rule cut_Some [OF assms(1)])
  with a have "has_prefix sep (drop (length p) s)" by simp
  moreover have "length p < i"
  proof -
    have "length (p @ sep @ q) \<le> i" using a i(2) by (metis length_take min.cobounded2)
    with assms(2) show ?thesis by (cases sep) auto
  qed
  ultimately show False using index_of_first [OF i(1)] by blast
qed

text \<open>
  A prefix received over the wire cannot reach outside a run: what \<open>ParseRunKeys\<close> accepts is the
  subtree of one run, the given text itself, or of one worker of it.
\<close>

theorem ParseRunKeys_sound:
  assumes "ParseRunKeys p = Inr k"
  shows "\<exists>ns uid. segment ns \<and> segment uid \<and>
    (k = p \<and> p = ForRun ns uid \<or> (\<exists>i \<ge> 0. k = WorkerKeys (ForRun ns uid) i \<and> has_prefix (ForRun ns uid @ ''artifacts/workers/'') p))"
  using assms
proof (induction p arbitrary: k rule: ParseRunKeys.induct)
  case (1 p)
  show ?case
  proof (cases "cut ''artifacts/workers/'' p")
    case None
    let ?parts = "split_on (CHR ''/'') p"
    from "1.prems" None have four: "length ?parts = 4" "?parts ! 0 = ''runs''" "?parts ! 3 = []"
      and seg: "?parts ! 1 \<notin> {[], ''.'', ''..''}" "?parts ! 2 \<notin> {[], ''.'', ''..''}"
      and k: "k = ForRun (?parts ! 1) (?parts ! 2)"
      by (auto simp: ParseRunKeys.simps [of p] Let_def split: if_splits)
    have parts: "?parts = [''runs'', ?parts ! 1, ?parts ! 2, []]"
      using four by (auto intro!: nth_equalityI simp: less_Suc_eq numeral_eq_Suc)
    have "CHR ''/'' \<notin> set x" if "x \<in> set ?parts" for x using that split_on_no_sep by blast
    then have "segment (?parts ! 1) \<and> segment (?parts ! 2)" using seg four(1) by (simp add: segment_def)
    moreover have "p = join ''/'' [''runs'', ?parts ! 1, ?parts ! 2, []]"
      by (subst parts [symmetric]) (rule join_split_on [symmetric])
    with k seg have "p = k" by (simp add: ForRun_def)
    ultimately show ?thesis using k by blast
  next
    case (Some ab)
    obtain base idx where ab: "ab = (base, idx)" by (cases ab)
    with "1.prems" Some obtain run i where r: "ParseRunKeys base = Inr run" "0 \<le> i" "k = WorkerKeys run i"
      by (fastforce simp: ParseRunKeys.simps [of p] not_less split: sum.splits option.splits if_splits)
    have p: "p = base @ ''artifacts/workers/'' @ idx" using cut_Some Some ab by blast
    have "\<not> has_prefix (ForRun ns uid @ ''artifacts/workers/'') base" for ns uid
      using cut_first [OF Some [unfolded ab]] by (auto simp: has_prefix_iff)
    with "1.IH" [OF Some ab [symmetric] r(1)] obtain ns uid where "segment ns" "segment uid" "run = base" "base = ForRun ns uid"
      by blast
    with r p show ?thesis by (auto simp: has_prefix_iff)
  qed
qed

theorem ParseRunKeys_sound_witness:
  "\<exists>ns uid. segment ns \<and> segment uid \<and> (ForRun ''n'' ''u'' = ForRun ns uid \<or>
     (\<exists>i \<ge> 0. ForRun ''n'' ''u'' = WorkerKeys (ForRun ns uid) i))"
proof -
  have "segment ''n''" "segment ''u''" by (simp_all add: segment_def)
  from ParseRunKeys_sound [OF ParseRunKeys_ForRun [OF this]] show ?thesis by auto
qed

section \<open>The layout of the bucket\<close>

lemma digits_val_bound: "list_all is_digit s \<Longrightarrow> digits_val s < 10 ^ length s"
proof (induction s)
  case (Cons c s)
  then have "digit_val c \<le> 9" by (auto simp: is_digit_def digit_val_def)
  then have "digit_val c * 10 ^ length s \<le> 9 * 10 ^ length s" by simp
  moreover have "digits_val s < 10 ^ length s" using Cons by simp
  ultimately have "digit_val c * 10 ^ length s + digits_val s < 9 * 10 ^ length s + 10 ^ length s" by linarith
  then show ?case by (simp add: digits_val_Cons)
qed (simp add: digits_val_def)

lemma byte_of_nat: "byte c = int (of_char c)"
  by (simp add: byte_def of_char_def)

lemma digit_less: "is_digit c \<Longrightarrow> is_digit d \<Longrightarrow> c < d \<longleftrightarrow> digit_val c < digit_val d"
  by (auto simp: is_digit_def digit_val_def byte_of_nat less_char_def)

lemma digit_eq: "is_digit c \<Longrightarrow> is_digit d \<Longrightarrow> digit_val c = digit_val d \<Longrightarrow> c = d"
  by (auto simp: is_digit_def digit_val_def byte_of_nat dest: arg_cong [of _ _ int])

text \<open>Digit strings of one length are ordered as the numbers they stand for.\<close>

lemma digits_order:
  assumes "length s = length t" "list_all is_digit s" "list_all is_digit t"
  shows "s < t \<longleftrightarrow> digits_val s < digits_val t"
  using assms
proof (induction s t rule: list_induct2)
  case (Cons c s d t)
  then have b: "digits_val s < 10 ^ length s" "digits_val t < 10 ^ length s"
    using digits_val_bound [of s] digits_val_bound [of t] by auto
  have step: "x * n + u < y * n + v \<longleftrightarrow> x < y \<or> x = y \<and> u < v" if "u < n" "v < n" for x y u v n :: nat
  proof (cases "x < y")
    case True
    then have "(x + 1) * n \<le> y * n" by (intro mult_le_mono1) simp
    with that True show ?thesis by simp
  next
    case False
    then consider "x = y" | "y + 1 \<le> x" by linarith
    then show ?thesis
    proof cases
      case 2
      then have "(y + 1) * n \<le> x * n" by (rule mult_le_mono1)
      with that False 2 show ?thesis by simp
    qed simp
  qed
  show ?case using Cons step [OF b, of "digit_val c" "digit_val d"] digit_less [of c d] digit_eq [of c d]
    by (auto simp: digits_val_Cons)
qed (simp add: digits_val_def)

lemma append_less_same: "(p @ x) < (p @ y) \<longleftrightarrow> x < (y :: 'a :: linorder list)"
  by (induction p) auto

lemma append_less_tail: "length x = length y \<Longrightarrow> x @ s < y @ s \<longleftrightarrow> x < (y :: 'a :: linorder list)"
  by (induction x y rule: list_induct2) auto

lemma digits_val_zeros: "digits_val (replicate n (CHR ''0'') @ s) = digits_val s"
  by (induction n) (simp_all add: digits_val_Cons digit_val_def byte_def)

lemma length_utoa_8: "n < 10 ^ 8 \<Longrightarrow> length (utoa n) \<le> 8"
proof -
  have len: "length (utoa n) \<le> k" if "n < 10 ^ k" "0 < k" for k
    using that
  proof (induction n arbitrary: k rule: utoa.induct)
    case (1 n)
    show ?case
    proof (cases "n < 10")
      case True
      then show ?thesis using 1 by (subst utoa.simps) simp
    next
      case False
      with 1 obtain m where "k = Suc m" "0 < m" by (cases k; cases "k - 1") auto
      with False 1 show ?thesis by (subst utoa.simps) (simp add: div_less_iff_less_mult mult.commute)
    qed
  qed
  show "n < 10 ^ 8 \<Longrightarrow> length (utoa n) \<le> 8" using len [of 8] by simp
qed

lemma pad8_digits: "list_all is_digit (pad8 n)"
  using utoa_digits [of n] by (auto simp: pad8_def list_all_iff is_digit_def byte_def)

lemma pad8_order: "m < 10 ^ 8 \<Longrightarrow> n < 10 ^ 8 \<Longrightarrow> pad8 m < pad8 n \<longleftrightarrow> m < n"
  using digits_order [OF _ pad8_digits pad8_digits, of m n] length_utoa_8 [of m] length_utoa_8 [of n]
  by (simp add: pad8_def digits_val_zeros)

text \<open>
  Listing order is writing order: below \<open>10\<^sup>8\<close> chunks the keys of the log chunks are ordered as
  the chunk numbers.
\<close>

theorem LogChunk_order:
  assumes "m < 10 ^ 8" "n < 10 ^ 8"
  shows "LogChunk k m < LogChunk k n \<longleftrightarrow> m < n"
proof -
  have "length (pad8 m) = length (pad8 n)" using assms length_utoa_8 by (simp add: pad8_def)
  then show ?thesis using pad8_order [OF assms] by (simp add: LogChunk_def append_less_same append_less_tail)
qed

theorem LogChunk_order_witness: "LogChunk ''runs/n/u/'' 9 < LogChunk ''runs/n/u/'' 10"
  using LogChunk_order [of 9 10 "''runs/n/u/''"] by simp

text \<open>
  Runs do not meet in the bucket: the subtrees of two runs that differ in namespace or UID share
  no key, and within a run no artifact, whatever its relative path, is the verdict file, the log
  cursor or a log chunk.
\<close>

theorem run_subtrees_disjoint:
  assumes "segment ns" "segment uid" "segment ns'" "segment uid'" "(ns, uid) \<noteq> (ns', uid')"
  shows "\<not> (has_prefix (ForRun ns uid) key \<and> has_prefix (ForRun ns' uid') key) \<and>
    Artifact k path \<notin> {ResultKey k, LogCursor k, LogChunk k n}"
proof
  show "\<not> (has_prefix (ForRun ns uid) key \<and> has_prefix (ForRun ns' uid') key)"
  proof
    assume "has_prefix (ForRun ns uid) key \<and> has_prefix (ForRun ns' uid') key"
    then obtain r r' where "key = ForRun ns uid @ r" "key = ForRun ns' uid' @ r'" unfolding has_prefix_iff by blast
    then have "''runs'' # ns # uid # split_on (CHR ''/'') r = ''runs'' # ns' # uid' # split_on (CHR ''/'') r'"
      using split_ForRun assms by metis
    with assms(5) show False by simp
  qed
  show "Artifact k path \<notin> {ResultKey k, LogCursor k, LogChunk k n}"
    by (simp add: Artifact_def Artifacts_def ResultKey_def LogCursor_def LogChunk_def Logs_def)
qed

theorem run_subtrees_disjoint_witness:
  "\<not> (has_prefix (ForRun ''n'' ''u1'') ''runs/n/u1/result.json'' \<and> has_prefix (ForRun ''n'' ''u2'') ''runs/n/u1/result.json'') \<and>
   Artifact ''runs/n/u1/'' ''result.json'' \<notin> {ResultKey ''runs/n/u1/'', LogCursor ''runs/n/u1/'', LogChunk ''runs/n/u1/'' 0}"
  by (rule run_subtrees_disjoint) (simp_all add: segment_def)

lemma LogChunk_inject [simp]: "LogChunk k m = LogChunk k n \<longleftrightarrow> m = n"
proof
  assume "LogChunk k m = LogChunk k n"
  then have "digits_val (pad8 m) = digits_val (pad8 n)" by (simp add: LogChunk_def)
  then show "m = n" by (simp add: pad8_def digits_val_zeros)
qed simp

lemma LogCursor_LogChunk [simp]: "LogCursor k \<noteq> LogChunk k n" "LogChunk k n \<noteq> LogCursor k"
  by (simp_all add: LogCursor_def LogChunk_def Logs_def)

end
