(* ===== verification/Tailer.thy ===== *)
theory Tailer
  imports LogRing GoTime Storage
begin

text \<open>
  Log tailing, \<open>src/internal/logstream\<close>: positions and the replay filter (\<open>position.go\<close>), the tailer
  (\<open>tailer.go\<close>) and the registry (\<open>registry.go\<close>). A tailer is a record; its run loop is a step function on
  the events the loop selects on. The object store is the operations \<open>put\<close> (of one bucket) on a state
  of any type; the JSON of a cursor is the parameter \<open>enc\<close>. A channel is the list of the frames it
  buffers. \<open>chunkSeq\<close> is a \<open>uint64\<close> and \<open>atLast\<close> an \<open>int\<close> in the code; both count.
\<close>

section \<open>Positions\<close>

record Position =
  pos_Last :: instant
  pos_AtLast :: nat

definition zero_Position :: Position where
  "zero_Position = \<lparr>pos_Last = 0, pos_AtLast = 0\<rparr>"

definition advance :: "instant \<Rightarrow> Position \<Rightarrow> Position" where
  "advance ts p = (if ts = pos_Last p then p\<lparr>pos_AtLast := pos_AtLast p + 1\<rparr> else \<lparr>pos_Last = ts, pos_AtLast = 1\<rparr>)"

record Cursor =
  cu_NextSeq :: nat
  cu_Position :: Position

record replayFilter =
  rf_upTo :: Position
  rf_seen :: nat

definition keep :: "instant \<Rightarrow> replayFilter \<Rightarrow> bool \<times> replayFilter" where
  "keep ts f =
     (if ts < pos_Last (rf_upTo f) then (False, f)
      else if ts = pos_Last (rf_upTo f) then
        let f' = f\<lparr>rf_seen := rf_seen f + 1\<rparr> in (pos_AtLast (rf_upTo f') < rf_seen f', f')
      else (True, f))"

section \<open>The tailer\<close>

definition DefaultRingBytes :: int where "DefaultRingBytes = 64 * 1024"
definition DefaultChunkBytes :: int where "DefaultChunkBytes = 512 * 1024"
definition DefaultFlushInterval :: int where "DefaultFlushInterval = 5 * 1000000000"
definition DefaultSubscriberQueue :: int where "DefaultSubscriberQueue = 32"
definition DefaultReadBufferBytes :: int where "DefaultReadBufferBytes = 4 * 1024"
definition DefaultReopenMaxAttempts :: int where "DefaultReopenMaxAttempts = 5"
definition DefaultReopenBackoff :: int where "DefaultReopenBackoff = 200 * 1000000"

definition ReasonEOF :: string where "ReasonEOF = ''eof''"
definition ReasonOverflow :: string where "ReasonOverflow = ''overflow''"
definition ReasonUnsubscribed :: string where "ReasonUnsubscribed = ''unsubscribed''"
definition MarkerReplayTruncated :: string where "MarkerReplayTruncated = ''replay-truncated''"

text \<open>\<open>Config\<close>; whether there is an \<open>Uploader\<close> is a flag, the bucket is part of the store operation.\<close>

record TailerConfig =
  tc_Keys :: RunKeys
  tc_Resume :: "Cursor option"
  tc_Uploader :: bool
  tc_RingBytes :: int
  tc_ChunkBytes :: int
  tc_FlushInterval :: int
  tc_SubscriberQueue :: int
  tc_ReadBufferBytes :: int
  tc_ReopenMaxAttempts :: int
  tc_ReopenBackoff :: int

definition or_default :: "int \<Rightarrow> int \<Rightarrow> int" where
  "or_default d x = (if x = 0 then d else x)"

definition applyDefaults :: "TailerConfig \<Rightarrow> TailerConfig" where
  "applyDefaults cfg = cfg\<lparr>tc_RingBytes := or_default DefaultRingBytes (tc_RingBytes cfg),
     tc_ChunkBytes := or_default DefaultChunkBytes (tc_ChunkBytes cfg),
     tc_FlushInterval := or_default DefaultFlushInterval (tc_FlushInterval cfg),
     tc_SubscriberQueue := or_default DefaultSubscriberQueue (tc_SubscriberQueue cfg),
     tc_ReadBufferBytes := or_default DefaultReadBufferBytes (tc_ReadBufferBytes cfg),
     tc_ReopenMaxAttempts := or_default DefaultReopenMaxAttempts (tc_ReopenMaxAttempts cfg),
     tc_ReopenBackoff := or_default DefaultReopenBackoff (tc_ReopenBackoff cfg)\<rparr>"

record Frame =
  fr_Data :: string
  fr_Marker :: string

record Subscription =
  sb_id :: nat
  sb_frames :: "Frame list"
  sb_reason :: string

definition close_sub :: "string \<Rightarrow> Subscription \<Rightarrow> Subscription" where
  "close_sub reason s = (if sb_reason s = [] then s\<lparr>sb_reason := reason\<rparr> else s)"

datatype line_state = LineHeader | LineKeep | LineDrop

text \<open>The line state the run loop owns: \<open>line\<close>, \<open>hdr\<close>, \<open>pos\<close> and \<open>filter\<close> of the tailer.\<close>

record lineReader =
  lr_line :: line_state
  lr_hdr :: string
  lr_pos :: Position
  lr_filter :: replayFilter

text \<open>
  \<open>tl_objs\<close> are the subscriptions handed out, \<open>tl_subs\<close> the ids of those registered; \<open>tl_uploaded\<close> is
  what the tailer added to the metric \<open>LogStreamBytesTotal\<close>.
\<close>

record Tailer =
  tl_cfg :: TailerConfig
  tl_ring :: ringBuffer
  tl_objs :: "(nat, Subscription) gomap"
  tl_subs :: "nat list"
  tl_nextSubID :: nat
  tl_stopped :: bool
  tl_pending :: string
  tl_chunkSeq :: nat
  tl_in :: lineReader
  tl_uploaded :: nat

definition New :: "TailerConfig \<Rightarrow> Tailer" where
  "New cfg0 =
     (let cfg = applyDefaults cfg0
      in \<lparr>tl_cfg = cfg, tl_ring = newRingBuffer (tc_RingBytes cfg), tl_objs = [], tl_subs = [], tl_nextSubID = 0,
          tl_stopped = False, tl_pending = [],
          tl_chunkSeq = (case tc_Resume cfg of None \<Rightarrow> 0 | Some c \<Rightarrow> cu_NextSeq c),
          tl_in = \<lparr>lr_line = LineHeader, lr_hdr = [],
            lr_pos = (case tc_Resume cfg of None \<Rightarrow> zero_Position | Some c \<Rightarrow> cu_Position c),
            lr_filter = \<lparr>rf_upTo = zero_Position, rf_seen = 0\<rparr>\<rparr>,
          tl_uploaded = 0\<rparr>)"

section \<open>Subscribers\<close>

definition Subscribe :: "Tailer \<Rightarrow> nat \<times> Tailer" where
  "Subscribe t =
     (let i = tl_nextSubID t;
          sub = \<lparr>sb_id = i, sb_frames = [], sb_reason = []\<rparr>;
          t1 = t\<lparr>tl_nextSubID := i + 1\<rparr>
      in if tl_stopped t then (i, t1\<lparr>tl_objs := gm_set i (close_sub ReasonEOF sub) (tl_objs t1)\<rparr>)
         else case RingSnapshot (tl_ring t) of (snap, _, overflowed) \<Rightarrow>
           let frames = (if snap = [] then []
                 else [\<lparr>fr_Data = snap, fr_Marker = (if overflowed then MarkerReplayTruncated else [])\<rparr>])
           in (i, t1\<lparr>tl_objs := gm_set i (sub\<lparr>sb_frames := frames\<rparr>) (tl_objs t1), tl_subs := tl_subs t1 @ [i]\<rparr>))"

definition with_sub :: "(Subscription \<Rightarrow> Subscription) \<Rightarrow> nat \<Rightarrow> (nat, Subscription) gomap \<Rightarrow> (nat, Subscription) gomap" where
  "with_sub f i m = (case gm_get m i of None \<Rightarrow> m | Some s \<Rightarrow> gm_set i (f s) m)"

definition Unsubscribe :: "nat \<Rightarrow> Tailer \<Rightarrow> Tailer" where
  "Unsubscribe i t =
     (if i \<in> set (tl_subs t)
      then t\<lparr>tl_subs := removeAll i (tl_subs t), tl_objs := with_sub (close_sub ReasonUnsubscribed) i (tl_objs t)\<rparr>
      else t)"

text \<open>A subscriber takes the next frame out of its channel.\<close>

definition receive :: "nat \<Rightarrow> Tailer \<Rightarrow> Tailer" where
  "receive i t = t\<lparr>tl_objs := with_sub (\<lambda>s. s\<lparr>sb_frames := tl (sb_frames s)\<rparr>) i (tl_objs t)\<rparr>"

text \<open>
  \<open>publish\<close> is two critical sections: the ring (and the pending chunk), then, under \<open>subsMu\<close>, the
  fan-out. A subscriber whose channel is full is dropped.
\<close>

definition publish_record :: "string \<Rightarrow> Tailer \<Rightarrow> Tailer" where
  "publish_record data t = t\<lparr>tl_ring := fst (Append data (tl_ring t)), tl_pending := tl_pending t @ data\<rparr>"

definition queue_full :: "Tailer \<Rightarrow> nat \<Rightarrow> bool" where
  "queue_full t i = (case gm_get (tl_objs t) i of None \<Rightarrow> True
     | Some s \<Rightarrow> tc_SubscriberQueue (tl_cfg t) \<le> int (length (sb_frames s)))"

definition send_frame :: "Frame \<Rightarrow> nat \<Rightarrow> Tailer \<Rightarrow> Tailer" where
  "send_frame fr i t =
     (if queue_full t i
      then t\<lparr>tl_subs := removeAll i (tl_subs t), tl_objs := with_sub (close_sub ReasonOverflow) i (tl_objs t)\<rparr>
      else t\<lparr>tl_objs := with_sub (\<lambda>s. s\<lparr>sb_frames := sb_frames s @ [fr]\<rparr>) i (tl_objs t)\<rparr>)"

definition publish_fanout :: "string \<Rightarrow> Tailer \<Rightarrow> Tailer" where
  "publish_fanout data t = fold (send_frame \<lparr>fr_Data = data, fr_Marker = []\<rparr>) (tl_subs t) t"

definition publish :: "string \<Rightarrow> Tailer \<Rightarrow> Tailer" where
  "publish data t = (if data = [] then t else publish_fanout data (publish_record data t))"

section \<open>Reading lines\<close>

definition maxTimestampLen :: nat where "maxTimestampLen = 35"

definition isTimestampByte :: "char \<Rightarrow> bool" where
  "isTimestampByte c \<longleftrightarrow> is_digit c \<or> c \<in> set ''-:.TZ+''"

text \<open>One byte at a line start: \<open>Some\<close> when it is taken as part of a timestamp (or ends one).\<close>

definition header_byte :: "char \<Rightarrow> lineReader \<Rightarrow> lineReader option" where
  "header_byte c t =
     (case (if c = CHR '' '' \<and> lr_hdr t \<noteq> [] then parseRFC3339Nano (lr_hdr t) else None) of
        Some ts \<Rightarrow> (case keep ts (lr_filter t) of (new, f) \<Rightarrow>
          let t1 = t\<lparr>lr_hdr := [], lr_line := LineDrop, lr_filter := f\<rparr>
          in Some (if new then t1\<lparr>lr_pos := advance ts (lr_pos t1), lr_line := LineKeep\<rparr> else t1))
      | None \<Rightarrow>
          if isTimestampByte c \<and> length (lr_hdr t) < maxTimestampLen then Some (t\<lparr>lr_hdr := lr_hdr t @ [c]\<rparr>)
          else None)"

text \<open>The part of the data up to and with the next newline.\<close>

definition line_part :: "string \<Rightarrow> nat" where
  "line_part data = (if newline \<in> set data then length (takeWhile (\<lambda>c. c \<noteq> newline) data) + 1 else length data)"

lemma line_part_pos: "data \<noteq> [] \<Longrightarrow> 0 < line_part data"
  by (simp add: line_part_def)

function consume_loop :: "string \<Rightarrow> string \<Rightarrow> lineReader \<Rightarrow> string \<times> lineReader" where
  "consume_loop data out t = (case data of [] \<Rightarrow> (out, t)
     | c # rest \<Rightarrow>
         (case (if lr_line t = LineHeader then header_byte c t else None) of
            Some t' \<Rightarrow> consume_loop rest out t'
          | None \<Rightarrow>
              let out1 = (if lr_line t = LineHeader then out @ lr_hdr t else out);
                  t1 = (if lr_line t = LineHeader then t\<lparr>lr_hdr := [], lr_line := LineKeep\<rparr> else t);
                  n = line_part data
              in consume_loop (drop n data) (if lr_line t1 = LineKeep then out1 @ take n data else out1)
                   (if newline \<in> set data then t1\<lparr>lr_line := LineHeader\<rparr> else t1)))"
  by pat_completeness auto
termination
  by (relation "measure (\<lambda>(data, _). length data)") (auto simp: line_part_pos intro!: diff_less)

declare consume_loop.simps [simp del]

definition consume :: "string \<Rightarrow> Tailer \<Rightarrow> Tailer" where
  "consume data t = (case consume_loop data [] (tl_in t) of (out, r) \<Rightarrow> publish out (t\<lparr>tl_in := r\<rparr>))"

definition flushPartialLine :: "Tailer \<Rightarrow> Tailer" where
  "flushPartialLine t =
     (if lr_hdr (tl_in t) \<noteq> [] then (publish (lr_hdr (tl_in t)) t)\<lparr>tl_in := (tl_in t)\<lparr>lr_hdr := []\<rparr>\<rparr> else t)"

section \<open>Chunks\<close>

definition saveCursor :: "'s put_op \<Rightarrow> (Cursor \<Rightarrow> string) \<Rightarrow> Tailer \<Rightarrow> 's \<Rightarrow> 's" where
  "saveCursor put enc t s =
     (if pos_Last (lr_pos (tl_in t)) = 0 then s
      else snd (put (LogCursor (tc_Keys (tl_cfg t))) (enc \<lparr>cu_NextSeq = tl_chunkSeq t, cu_Position = lr_pos (tl_in t)\<rparr>) s))"

definition flushPending :: "'s put_op \<Rightarrow> (Cursor \<Rightarrow> string) \<Rightarrow> Tailer \<Rightarrow> 's \<Rightarrow> Tailer \<times> 's" where
  "flushPending put enc t s =
     (if tl_pending t = [] \<or> \<not> tc_Uploader (tl_cfg t) then (t, s)
      else let body = tl_pending t;
               (r, s1) = put (LogChunk (tc_Keys (tl_cfg t)) (tl_chunkSeq t)) body s;
               t1 = t\<lparr>tl_chunkSeq := tl_chunkSeq t + 1, tl_pending := []\<rparr>
           in case r of Inl _ \<Rightarrow> (t1, s1)
              | Inr _ \<Rightarrow> let t2 = t1\<lparr>tl_uploaded := tl_uploaded t1 + length body\<rparr> in (t2, saveCursor put enc t2 s1))"

definition finalize_tailer :: "'s put_op \<Rightarrow> (Cursor \<Rightarrow> string) \<Rightarrow> Tailer \<Rightarrow> 's \<Rightarrow> Tailer \<times> 's" where
  "finalize_tailer put enc t s =
     (case flushPending put enc t s of (t1, s1) \<Rightarrow>
       (t1\<lparr>tl_stopped := True, tl_subs := [],
           tl_objs := fold (with_sub (close_sub ReasonEOF)) (tl_subs t1) (tl_objs t1)\<rparr>, s1))"

section \<open>The run loop\<close>

text \<open>
  \<open>Opening\<close>: inside \<open>startPump\<close> (or the back-off before it); \<open>Reading\<close>: the select loop. The events are what
  the goroutine waits for: the outcome of \<open>OpenSource\<close>, cancellation, the flush ticker, and what the
  pump read.
\<close>

datatype conn_state = Opening | Reading | Exited

datatype run_event = EvOpen bool | EvCancel | EvTick | EvRead string | EvReadErr bool

record runLoop =
  rl_tailer :: Tailer
  rl_conn :: conn_state
  rl_attempts :: int

text \<open>\<open>startPump\<close> before it opens a source: where to start, and the filter for what is replayed.\<close>

definition since_arg :: "Tailer \<Rightarrow> instant option" where
  "since_arg t = (if pos_Last (lr_pos (tl_in t)) = 0 then None else Some (pos_Last (lr_pos (tl_in t))))"

definition prepare_source :: "Tailer \<Rightarrow> Tailer" where
  "prepare_source t = t\<lparr>tl_in := (tl_in t)\<lparr>lr_filter := \<lparr>rf_upTo = lr_pos (tl_in t), rf_seen = 0\<rparr>,
     lr_line := LineHeader, lr_hdr := []\<rparr>\<rparr>"

definition exit_run :: "'s put_op \<Rightarrow> (Cursor \<Rightarrow> string) \<Rightarrow> Tailer \<Rightarrow> int \<Rightarrow> 's \<Rightarrow> runLoop \<times> 's" where
  "exit_run put enc t attempts s = (case finalize_tailer put enc t s of (t', s') \<Rightarrow>
     (\<lparr>rl_tailer = t', rl_conn = Exited, rl_attempts = attempts\<rparr>, s'))"

definition open_event :: "'s put_op \<Rightarrow> (Cursor \<Rightarrow> string) \<Rightarrow> bool \<Rightarrow> runLoop \<Rightarrow> 's \<Rightarrow> runLoop \<times> 's" where
  "open_event put enc success l s =
     (let t = prepare_source (rl_tailer l); attempts = rl_attempts l + 1
      in if success then (l\<lparr>rl_tailer := t, rl_conn := Reading\<rparr>, s)
         else if tc_ReopenMaxAttempts (tl_cfg t) \<le> attempts then exit_run put enc t attempts s
         else (l\<lparr>rl_tailer := t, rl_attempts := attempts\<rparr>, s))"

definition read_event :: "'s put_op \<Rightarrow> (Cursor \<Rightarrow> string) \<Rightarrow> string \<Rightarrow> runLoop \<Rightarrow> 's \<Rightarrow> runLoop \<times> 's" where
  "read_event put enc data l s =
     (if data = [] then (l, s)
      else let t = consume data (rl_tailer l)
           in case (if tc_ChunkBytes (tl_cfg t) \<le> int (length (tl_pending t)) then flushPending put enc t s else (t, s)) of
                (t', s') \<Rightarrow> (l\<lparr>rl_tailer := t', rl_attempts := 0\<rparr>, s'))"

definition run_step :: "'s put_op \<Rightarrow> (Cursor \<Rightarrow> string) \<Rightarrow> run_event \<Rightarrow> runLoop \<times> 's \<Rightarrow> runLoop \<times> 's" where
  "run_step put enc ev ls = (case ls of (l, s) \<Rightarrow>
     (case rl_conn l of
        Exited \<Rightarrow> (l, s)
      | Opening \<Rightarrow>
          (case ev of EvOpen success \<Rightarrow> open_event put enc success l s
           | EvCancel \<Rightarrow> exit_run put enc (rl_tailer l) (rl_attempts l) s
           | _ \<Rightarrow> (l, s))
      | Reading \<Rightarrow>
          (case ev of
             EvOpen _ \<Rightarrow> (l, s)
           | EvCancel \<Rightarrow> exit_run put enc (flushPartialLine (rl_tailer l)) (rl_attempts l) s
           | EvTick \<Rightarrow> (case flushPending put enc (rl_tailer l) s of (t, s') \<Rightarrow> (l\<lparr>rl_tailer := t\<rparr>, s'))
           | EvRead data \<Rightarrow> read_event put enc data l s
           | EvReadErr retriable \<Rightarrow>
               if \<not> retriable then exit_run put enc (flushPartialLine (rl_tailer l)) (rl_attempts l) s
               else let attempts = rl_attempts l + 1
                    in if tc_ReopenMaxAttempts (tl_cfg (rl_tailer l)) \<le> attempts
                       then exit_run put enc (rl_tailer l) attempts s
                       else (l\<lparr>rl_conn := Opening, rl_attempts := attempts\<rparr>, s))))"

definition Start :: "TailerConfig \<Rightarrow> runLoop" where
  "Start cfg = \<lparr>rl_tailer = New cfg, rl_conn = Opening, rl_attempts = 0\<rparr>"

section \<open>The registry\<close>

datatype registry_error = InvalidStorageKeys | ErrRegistryClosed

text \<open>The tailers by id; \<open>None\<close> after \<open>Shutdown\<close>.\<close>

record Registry =
  rg_tailers :: "(string, runLoop) gomap option"
  rg_uploader :: bool
  rg_remover :: bool
  rg_cursors :: bool
  rg_TailerConfig :: TailerConfig

definition StageFlushInterval :: int where "StageFlushInterval = 1000000000"

definition loadCursor ::
  "(string \<Rightarrow> 's \<Rightarrow> (string, string option) result \<times> 's) \<Rightarrow> (string \<Rightarrow> Cursor option) \<Rightarrow> Registry \<Rightarrow> RunKeys \<Rightarrow> 's \<Rightarrow>
   Cursor option \<times> 's" where
  "loadCursor get dec r keys s =
     (if \<not> rg_cursors r then (None, s)
      else case get (LogCursor keys) s of (res, s') \<Rightarrow>
        (case res of Inr (Some body) \<Rightarrow> (dec body, s') | _ \<Rightarrow> (None, s')))"

definition registry_config :: "Registry \<Rightarrow> RunKeys \<Rightarrow> string \<Rightarrow> Cursor option \<Rightarrow> TailerConfig" where
  "registry_config r keys container resume =
     (let cfg = rg_TailerConfig r;
          flush = (if container \<noteq> [] \<and> (tc_FlushInterval cfg = 0 \<or> StageFlushInterval < tc_FlushInterval cfg)
            then StageFlushInterval else tc_FlushInterval cfg)
      in cfg\<lparr>tc_FlushInterval := flush, tc_Keys := keys, tc_Resume := resume, tc_Uploader := rg_uploader r\<rparr>)"

definition EnsureContainerTailer ::
  "(string \<Rightarrow> 's \<Rightarrow> (string, string option) result \<times> 's) \<Rightarrow> (string \<Rightarrow> 's \<Rightarrow> (string, unit) result \<times> 's) \<Rightarrow>
   (string \<Rightarrow> Cursor option) \<Rightarrow> string \<Rightarrow> RunKeys \<Rightarrow> string \<Rightarrow> Registry \<Rightarrow> 's \<Rightarrow>
   (registry_error, unit) result \<times> Registry \<times> 's" where
  "EnsureContainerTailer get remove_prefix dec i keys container r s =
     (if \<not> Valid keys then (Inl InvalidStorageKeys, r, s)
      else case rg_tailers r of
        None \<Rightarrow> (Inl ErrRegistryClosed, r, s)
      | Some ts \<Rightarrow>
          if gm_has ts i then (Inr (), r, s)
          else case loadCursor get dec r keys s of (resume, s1) \<Rightarrow>
            let s2 = (if resume = None \<and> rg_remover r \<and> rg_uploader r then snd (remove_prefix (Logs keys) s1) else s1)
            in (Inr (), r\<lparr>rg_tailers := Some (gm_set i (Start (registry_config r keys container resume)) ts)\<rparr>, s2))"

definition EnsureTailer ::
  "(string \<Rightarrow> 's \<Rightarrow> (string, string option) result \<times> 's) \<Rightarrow> (string \<Rightarrow> 's \<Rightarrow> (string, unit) result \<times> 's) \<Rightarrow>
   (string \<Rightarrow> Cursor option) \<Rightarrow> string \<Rightarrow> RunKeys \<Rightarrow> Registry \<Rightarrow> 's \<Rightarrow> (registry_error, unit) result \<times> Registry \<times> 's" where
  "EnsureTailer get remove_prefix dec i keys r s = EnsureContainerTailer get remove_prefix dec i keys [] r s"

definition Stop :: "'s put_op \<Rightarrow> (Cursor \<Rightarrow> string) \<Rightarrow> runLoop \<Rightarrow> 's \<Rightarrow> 's" where
  "Stop put enc l s = snd (run_step put enc EvCancel (l, s))"

definition StopTailer :: "'s put_op \<Rightarrow> (Cursor \<Rightarrow> string) \<Rightarrow> string \<Rightarrow> Registry \<Rightarrow> 's \<Rightarrow> Registry \<times> 's" where
  "StopTailer put enc i r s = (case rg_tailers r of None \<Rightarrow> (r, s)
     | Some ts \<Rightarrow> (case gm_get ts i of None \<Rightarrow> (r, s)
         | Some l \<Rightarrow> (r\<lparr>rg_tailers := Some (gm_del i ts)\<rparr>, Stop put enc l s)))"

definition Shutdown :: "'s put_op \<Rightarrow> (Cursor \<Rightarrow> string) \<Rightarrow> Registry \<Rightarrow> 's \<Rightarrow> Registry \<times> 's" where
  "Shutdown put enc r s = (case rg_tailers r of None \<Rightarrow> (r, s)
     | Some ts \<Rightarrow> (r\<lparr>rg_tailers := None\<rparr>, fold (\<lambda>(_, l). Stop put enc l) ts s))"

definition Active :: "Registry \<Rightarrow> string list" where
  "Active r = (case rg_tailers r of None \<Rightarrow> [] | Some ts \<Rightarrow> map fst ts)"

end
