(* ===== verification/TailerLines.thy ===== *)
theory TailerLines
  imports Tailer
begin

text \<open>
  What \<open>consume\<close> publishes: it is a machine that reads one byte at a time, so the result does not
  depend on how the stream is cut into reads; on whole lines it publishes the contents of the lines
  the replay filter keeps; over reconnects every line is published exactly once.
\<close>

section \<open>One byte at a time\<close>

definition scan_byte :: "char \<Rightarrow> lineReader \<Rightarrow> string \<times> lineReader" where
  "scan_byte c t =
     (let after = (if c = newline then LineHeader else LineKeep)
      in case lr_line t of
        LineHeader \<Rightarrow> (case header_byte c t of Some t' \<Rightarrow> ([], t')
          | None \<Rightarrow> (lr_hdr t @ [c], t\<lparr>lr_hdr := [], lr_line := after\<rparr>))
      | LineKeep \<Rightarrow> ([c], t\<lparr>lr_line := after\<rparr>)
      | LineDrop \<Rightarrow> ([], if c = newline then t\<lparr>lr_line := LineHeader\<rparr> else t))"

fun scan :: "string \<Rightarrow> lineReader \<Rightarrow> string \<times> lineReader" where
  "scan [] t = ([], t)"
| "scan (c # cs) t = (case scan_byte c t of (o1, t1) \<Rightarrow> case scan cs t1 of (o2, t2) \<Rightarrow> (o1 @ o2, t2))"

lemma scan_append: "scan (a @ b) t = (case scan a t of (o1, t1) \<Rightarrow> case scan b t1 of (o2, t2) \<Rightarrow> (o1 @ o2, t2))"
  by (induction a arbitrary: t) (simp_all split: prod.split)

lemma line_part_Cons: "line_part (c # cs) = (if c = newline then 1 else Suc (line_part cs))"
  by (auto simp: line_part_def)

lemma reader_same [simp]: "lr_line t = v \<Longrightarrow> t\<lparr>lr_line := v\<rparr> = t"
  by (cases t) simp

lemma scan_keep:
  assumes "lr_line t = LineKeep"
  shows "scan data t =
    (take (line_part data) data @ fst (scan (drop (line_part data) data) (if newline \<in> set data then t\<lparr>lr_line := LineHeader\<rparr> else t)),
     snd (scan (drop (line_part data) data) (if newline \<in> set data then t\<lparr>lr_line := LineHeader\<rparr> else t)))"
  using assms
  by (induction data) (auto simp: line_part_Cons scan_byte_def line_part_def split: prod.splits)

lemma scan_drop:
  assumes "lr_line t = LineDrop"
  shows "scan data t = scan (drop (line_part data) data) (if newline \<in> set data then t\<lparr>lr_line := LineHeader\<rparr> else t)"
  using assms
  by (induction data) (auto simp: line_part_Cons scan_byte_def line_part_def split: prod.splits)

lemma consume_loop_scan: "consume_loop data out t = (out @ fst (scan data t), snd (scan data t))"
proof (induction data out t rule: consume_loop.induct)
  case (1 data out t)
  show ?case
  proof (cases data)
    case Nil
    then show ?thesis by (simp add: consume_loop.simps)
  next
    case (Cons c rest)
    show ?thesis
    proof (cases "if lr_line t = LineHeader then header_byte c t else None")
      case (Some t')
      then have "scan data t = scan rest t'"
        using Cons by (auto simp: scan_byte_def split: if_splits prod.split)
      then show ?thesis using 1(2) [OF Cons Some] Some Cons by (simp add: consume_loop.simps [of "c # rest" out])
    next
      case None
      let ?t = "t\<lparr>lr_hdr := [], lr_line := LineKeep\<rparr>" and ?n = "line_part data"
      have fall: "scan data t = (lr_hdr t @ fst (scan data ?t), snd (scan data ?t))" if "lr_line t = LineHeader"
        using that None Cons by (simp add: scan_byte_def split: prod.split)
      let ?out1 = "if lr_line t = LineHeader then out @ lr_hdr t else out" and ?t1 = "if lr_line t = LineHeader then ?t else t"
      have unfold: "consume_loop data out t = consume_loop (drop ?n data)
          (if lr_line ?t1 = LineKeep then ?out1 @ take ?n data else ?out1)
          (if newline \<in> set data then ?t1\<lparr>lr_line := LineHeader\<rparr> else ?t1)"
        by (subst consume_loop.simps) (simp only: Cons list.case None option.case Let_def)
      show ?thesis unfolding unfold 1(1) [OF Cons None refl refl refl]
        by (cases "lr_line t") (simp_all add: fall scan_keep [of ?t data] scan_keep [of t data] scan_drop [of t data])
    qed
  qed
qed

lemma consume_scan: "consume data t = publish (fst (scan data (tl_in t))) (t\<lparr>tl_in := snd (scan data (tl_in t))\<rparr>)"
  by (simp add: consume_def consume_loop_scan split_beta)

section \<open>What publishing changes\<close>

lemma with_sub_ok [simp]: "gm_ok m \<Longrightarrow> gm_ok (with_sub f i m)"
  by (simp add: with_sub_def split: option.split)

lemma send_frames_frame:
  "fold (send_frame fr) is t = t\<lparr>tl_subs := tl_subs (fold (send_frame fr) is t), tl_objs := tl_objs (fold (send_frame fr) is t)\<rparr>"
proof (induction "is" arbitrary: t)
  case (Cons i "is")
  show ?case by (subst fold.simps, subst o_apply, subst Cons) (simp add: send_frame_def)
qed simp

lemma publish_frame:
  "publish data t = t\<lparr>tl_subs := tl_subs (publish data t), tl_objs := tl_objs (publish data t),
     tl_ring := (if data = [] then tl_ring t else fst (Append data (tl_ring t))), tl_pending := tl_pending t @ data\<rparr>"
  unfolding publish_def publish_fanout_def by (subst send_frames_frame) (simp add: publish_record_def)

lemma publish_simps [simp]:
  "tl_in (publish data t) = tl_in t" "tl_pending (publish data t) = tl_pending t @ data"
  "tl_cfg (publish data t) = tl_cfg t" "tl_chunkSeq (publish data t) = tl_chunkSeq t"
  "tl_ring (publish data t) = (if data = [] then tl_ring t else fst (Append data (tl_ring t)))"
  "tl_stopped (publish data t) = tl_stopped t" "tl_nextSubID (publish data t) = tl_nextSubID t"
  "tl_uploaded (publish data t) = tl_uploaded t"
  by (subst publish_frame, simp)+

section \<open>Whole lines\<close>

text \<open>A line of the pod log as the kubelet sends it: a timestamp, a space, the content and a newline.\<close>

type_synonym log_line = "string \<times> string"

definition stamp :: "log_line \<Rightarrow> instant" where
  "stamp l = (case parseRFC3339Nano (fst l) of Some ts \<Rightarrow> ts | None \<Rightarrow> 0)"

definition content :: "log_line \<Rightarrow> string" where
  "content l = snd l @ [newline]"

definition raw_line :: "log_line \<Rightarrow> string" where
  "raw_line l = fst l @ CHR '' '' # content l"

definition good_line :: "log_line \<Rightarrow> bool" where
  "good_line l \<longleftrightarrow> fst l \<noteq> [] \<and> list_all isTimestampByte (fst l) \<and> length (fst l) \<le> maxTimestampLen \<and>
     parseRFC3339Nano (fst l) \<noteq> None \<and> 0 \<le> stamp l \<and> newline \<notin> set (snd l)"

lemma timestamp_not_space: "isTimestampByte c \<Longrightarrow> c \<noteq> CHR '' ''"
  by (auto simp: isTimestampByte_def is_digit_def byte_def)

lemma scan_header:
  assumes "lr_line t = LineHeader" "list_all isTimestampByte h" "length (lr_hdr t) + length h \<le> maxTimestampLen"
  shows "scan h t = ([], t\<lparr>lr_hdr := lr_hdr t @ h\<rparr>)"
  using assms
proof (induction h arbitrary: t)
  case (Cons c h)
  then have "header_byte c t = Some (t\<lparr>lr_hdr := lr_hdr t @ [c]\<rparr>)"
    using timestamp_not_space [of c] by (simp add: header_byte_def)
  with Cons show ?case by (simp add: scan_byte_def)
qed simp

text \<open>The reader after the timestamp of a line, and after the line.\<close>

definition after_line :: "log_line \<Rightarrow> lineReader \<Rightarrow> lineReader" where
  "after_line l t = (case keep (stamp l) (lr_filter t) of (new, f) \<Rightarrow>
     t\<lparr>lr_line := LineHeader, lr_hdr := [], lr_filter := f, lr_pos := (if new then advance (stamp l) (lr_pos t) else lr_pos t)\<rparr>)"

lemma line_part_content: "newline \<notin> set s \<Longrightarrow> line_part (s @ newline # r) = Suc (length s)"
  by (simp add: line_part_def takeWhile_append)

lemma scan_content:
  assumes "newline \<notin> set (snd l)"
  shows "lr_line t = LineKeep \<Longrightarrow> scan (content l) t = (content l, t\<lparr>lr_line := LineHeader\<rparr>)"
    and "lr_line t = LineDrop \<Longrightarrow> scan (content l) t = ([], t\<lparr>lr_line := LineHeader\<rparr>)"
  using assms line_part_content [of "snd l" "[]"]
  by (simp_all add: scan_keep [of t "snd l @ [newline]"] scan_drop [of t "snd l @ [newline]"] content_def)

lemma scan_line:
  assumes "good_line l" "lr_line t = LineHeader" "lr_hdr t = []"
  shows "scan (raw_line l) t = (if fst (keep (stamp l) (lr_filter t)) then content l else [], after_line l t)"
proof -
  let ?t = "t\<lparr>lr_hdr := fst l\<rparr>"
  obtain new f where k: "keep (stamp l) (lr_filter t) = (new, f)" by force
  have "scan (fst l) t = ([], ?t)" using assms by (subst scan_header) (simp_all add: good_line_def)
  moreover have "header_byte (CHR '' '') ?t = Some (t\<lparr>lr_hdr := [], lr_line := (if new then LineKeep else LineDrop), lr_filter := f,
      lr_pos := (if new then advance (stamp l) (lr_pos t) else lr_pos t)\<rparr>)"
    using assms k by (auto simp: good_line_def header_byte_def stamp_def Let_def)
  moreover have "newline \<notin> set (snd l)" using assms by (simp add: good_line_def)
  ultimately show ?thesis using assms(2) k
    by (cases new) (simp_all add: raw_line_def scan_append scan_byte_def after_line_def scan_content)
qed

definition raw_lines :: "log_line list \<Rightarrow> string" where
  "raw_lines ls = concat (map raw_line ls)"

fun kept :: "replayFilter \<Rightarrow> log_line list \<Rightarrow> log_line list" where
  "kept f [] = []"
| "kept f (l # ls) = (case keep (stamp l) f of (new, f') \<Rightarrow> if new then l # kept f' ls else kept f' ls)"

definition at_line_start :: "lineReader \<Rightarrow> bool" where
  "at_line_start t \<longleftrightarrow> lr_line t = LineHeader \<and> lr_hdr t = []"

lemma at_line_start_after [simp]: "at_line_start (after_line l t)"
  by (simp add: at_line_start_def after_line_def split: prod.split)

lemma scan_lines:
  assumes "list_all good_line ls" "at_line_start t"
  shows "scan (raw_lines ls) t = (concat (map content (kept (lr_filter t) ls)), fold after_line ls t)"
  using assms
proof (induction ls arbitrary: t)
  case (Cons l ls)
  have "lr_filter (after_line l t) = snd (keep (stamp l) (lr_filter t))" by (simp add: after_line_def split: prod.split)
  moreover have "scan (raw_line l) t = (if fst (keep (stamp l) (lr_filter t)) then content l else [], after_line l t)"
    using Cons.prems by (simp add: scan_line at_line_start_def)
  moreover have "raw_lines (l # ls) = raw_line l @ raw_lines ls" by (simp add: raw_lines_def)
  ultimately show ?case using Cons.prems Cons.IH [OF _ at_line_start_after, of l t] by (simp add: scan_append split_beta)
qed (simp add: raw_lines_def)

lemma fold_after_line_pos:
  "lr_pos (fold after_line ls t) = fold (\<lambda>l. advance (stamp l)) (kept (lr_filter t) ls) (lr_pos t)"
  by (induction ls arbitrary: t) (simp_all add: after_line_def split: prod.split)

lemma fold_after_line_start: "at_line_start t \<Longrightarrow> at_line_start (fold after_line ls t)"
  by (induction ls arbitrary: t) simp_all

section \<open>Over reconnects\<close>

text \<open>The position of a tailer that has published the first \<open>n\<close> lines of a log.\<close>

definition pos_after :: "log_line list \<Rightarrow> Position" where
  "pos_after ls = fold (\<lambda>l. advance (stamp l)) ls zero_Position"

definition ordered_log :: "log_line list \<Rightarrow> bool" where
  "ordered_log ls \<longleftrightarrow> list_all good_line ls \<and> sorted (map stamp ls)"

abbreviation at_stamp :: "instant \<Rightarrow> log_line list \<Rightarrow> nat" where
  "at_stamp ts ls \<equiv> length (filter (\<lambda>l. stamp l = ts) ls)"

lemma pos_after_snoc: "pos_after (ls @ [l]) = advance (stamp l) (pos_after ls)"
  by (simp add: pos_after_def)

lemma pos_after_spec:
  assumes "ordered_log ls"
  shows "pos_AtLast (pos_after ls) = at_stamp (pos_Last (pos_after ls)) ls \<and> (\<forall>l \<in> set ls. stamp l \<le> pos_Last (pos_after ls)) \<and>
    (ls = [] \<longrightarrow> pos_Last (pos_after ls) = 0) \<and> (ls \<noteq> [] \<longrightarrow> pos_Last (pos_after ls) = stamp (last ls))"
  using assms
proof (induction ls rule: rev_induct)
  case Nil
  then show ?case by (simp add: pos_after_def zero_Position_def)
next
  case (snoc l ls)
  then have IH: "pos_AtLast (pos_after ls) = at_stamp (pos_Last (pos_after ls)) ls"
    "\<forall>x \<in> set ls. stamp x \<le> pos_Last (pos_after ls)" "ls = [] \<Longrightarrow> pos_Last (pos_after ls) = 0"
    "ls \<noteq> [] \<Longrightarrow> pos_Last (pos_after ls) = stamp (last ls)"
    by (auto simp: ordered_log_def sorted_append)
  have le: "\<forall>x \<in> set ls. stamp x \<le> stamp l" "0 \<le> stamp l"
    using snoc.prems by (auto simp: ordered_log_def sorted_append good_line_def)
  show ?case
  proof (cases "stamp l = pos_Last (pos_after ls)")
    case True
    with IH show ?thesis by (auto simp: pos_after_snoc advance_def)
  next
    case False
    with IH le have "\<forall>x \<in> set ls. stamp x \<noteq> stamp l"
      by (metis last_in_set list.set_cases order_antisym_conv empty_iff list.set(1))
    then have "at_stamp (stamp l) ls = 0" by (auto simp: filter_empty_conv)
    with False le show ?thesis by (auto simp: pos_after_snoc advance_def)
  qed
qed

lemma at_stamp_mono: "i \<le> j \<Longrightarrow> at_stamp ts (take i ls) \<le> at_stamp ts (take j ls)"
  by (metis filter_append le_add1 length_append min.absorb1 take_add le_Suc_ex)

lemma at_stamp_Suc: "j < length ls \<Longrightarrow> at_stamp ts (take (Suc j) ls) = at_stamp ts (take j ls) + (if stamp (ls ! j) = ts then 1 else 0)"
  by (simp add: take_Suc_conv_app_nth)

text \<open>Lines the tailer has published are at or before its position, the others at or after it.\<close>

lemma position_splits:
  assumes "ordered_log log" "n \<le> length log" "j < length log"
  shows "j < n \<Longrightarrow> stamp (log ! j) \<le> pos_Last (pos_after (take n log))"
    and "n \<le> j \<Longrightarrow> pos_Last (pos_after (take n log)) \<le> stamp (log ! j)"
proof -
  have ord: "ordered_log (take n log)" using assms(1)
    by (simp add: ordered_log_def list_all_length sorted_wrt_take flip: take_map)
  note spec = pos_after_spec [OF ord]
  show "stamp (log ! j) \<le> pos_Last (pos_after (take n log))" if "j < n"
  proof -
    have "log ! j \<in> set (take n log)" using that assms by (auto simp: in_set_conv_nth intro!: exI [of _ j])
    then show ?thesis using spec by blast
  qed
  show "n \<le> j \<Longrightarrow> pos_Last (pos_after (take n log)) \<le> stamp (log ! j)"
  proof (cases "n = 0")
    case True
    then show ?thesis using spec assms by (simp add: ordered_log_def list_all_length good_line_def)
  next
    case False
    assume "n \<le> j"
    have ne: "take n log \<noteq> []" using False assms(2,3) by auto
    moreover have "last (take n log) = log ! (n - 1)" using ne False assms(2) by (simp add: last_conv_nth min_def)
    moreover have "stamp (log ! (n - 1)) \<le> stamp (log ! j)"
      using assms False \<open>n \<le> j\<close> sorted_nth_mono [of "map stamp log" "n - 1" j] by (simp add: ordered_log_def)
    ultimately show ?thesis using spec by simp
  qed
qed

lemma kept_from:
  fixes log n
  defines "P \<equiv> pos_after (take n log)"
  assumes log: "ordered_log log" "n \<le> length log" "m \<le> length log" "j \<le> m"
  shows "kept \<lparr>rf_upTo = P, rf_seen = at_stamp (pos_Last P) (take j log)\<rparr> (take (m - j) (drop j log)) =
    take (m - max n j) (drop (max n j) log)"
  using log(4)
proof (induction "m - j" arbitrary: j)
  case (Suc d)
  let ?L = "pos_Last P"
  have j: "j < m" "j < length log" using Suc.hyps(2) log by auto
  have ord: "ordered_log (take n log)" using log(1)
    by (simp add: ordered_log_def list_all_length sorted_wrt_take flip: take_map)
  have P: "pos_AtLast P = at_stamp ?L (take n log)" using pos_after_spec [OF ord] by (simp add: P_def)
  have IH: "kept \<lparr>rf_upTo = P, rf_seen = at_stamp ?L (take (Suc j) log)\<rparr> (take (m - Suc j) (drop (Suc j) log)) =
      take (m - max n (Suc j)) (drop (max n (Suc j)) log)"
    using Suc.hyps(2) by (intro Suc.hyps(1)) auto
  have lines: "take (m - j) (drop j log) = log ! j # take (m - Suc j) (drop (Suc j) log)"
    using j by (metis Cons_nth_drop_Suc Suc_diff_Suc take_Suc_Cons)
  note splits = position_splits [OF log(1,2) j(2), folded P_def]
  have new: "fst (keep (stamp (log ! j)) \<lparr>rf_upTo = P, rf_seen = at_stamp ?L (take j log)\<rparr>) \<longleftrightarrow> n \<le> j"
  proof (cases "stamp (log ! j) = ?L")
    case True
    then have "at_stamp ?L (take (Suc j) log) = at_stamp ?L (take j log) + 1" using j by (simp add: at_stamp_Suc)
    moreover have "j < n \<Longrightarrow> at_stamp ?L (take (Suc j) log) \<le> at_stamp ?L (take n log)" by (rule at_stamp_mono) simp
    moreover have "n \<le> j \<Longrightarrow> at_stamp ?L (take n log) \<le> at_stamp ?L (take j log)" by (rule at_stamp_mono)
    ultimately show ?thesis using True P by (cases "n \<le> j") (auto simp: keep_def Let_def)
  next
    case False
    then show ?thesis using splits by (cases "n \<le> j") (auto simp: keep_def)
  qed
  moreover have "snd (keep (stamp (log ! j)) \<lparr>rf_upTo = P, rf_seen = at_stamp ?L (take j log)\<rparr>) =
      \<lparr>rf_upTo = P, rf_seen = at_stamp ?L (take (Suc j) log)\<rparr>"
    using j by (simp add: keep_def Let_def at_stamp_Suc)
  ultimately have step: "kept \<lparr>rf_upTo = P, rf_seen = at_stamp ?L (take j log)\<rparr> (take (m - j) (drop j log)) =
      (if n \<le> j then [log ! j] else []) @ take (m - max n (Suc j)) (drop (max n (Suc j)) log)"
    unfolding lines by (simp add: IH split_beta)
  show ?case
  proof (cases "n \<le> j")
    case True
    then show ?thesis using step lines by (simp add: max_def)
  next
    case False
    then have "max n (Suc j) = n" "max n j = n" by simp_all
    with False show ?thesis using step by simp
  qed
qed simp

text \<open>
  A stream reopened after \<open>n\<close> lines that starts at line \<open>k\<close>, before the first line with the timestamp
  of the position, and is cut after line \<open>m\<close>: what is published is exactly what is new.
\<close>

lemma kept_replayed:
  assumes "ordered_log log" "n \<le> length log" "m \<le> length log" "k \<le> m"
    and "\<forall>i < k. stamp (log ! i) < pos_Last (pos_after (take n log))"
  shows "kept \<lparr>rf_upTo = pos_after (take n log), rf_seen = 0\<rparr> (take (m - k) (drop k log)) = take (m - n) (drop n log)"
proof -
  have "k \<le> n"
  proof (rule ccontr)
    assume "\<not> k \<le> n"
    then have "n < k" "n < length log" using assms by auto
    with assms(5) position_splits(2) [OF assms(1,2), of n] show False by force
  qed
  moreover have "filter (\<lambda>l. stamp l = pos_Last (pos_after (take n log))) (take k log) = []"
    using assms(5) by (force simp: filter_empty_conv in_set_conv_nth)
  ultimately show ?thesis using kept_from [OF assms(1-4)] by (simp add: max_def)
qed

end
