(* ===== verification/TailerRun.thy ===== *)
theory TailerRun
  imports TailerLines
begin

text \<open>
  The run loop of a tailer over any sequence of events: what it publishes, what it stores, that it
  ends, and that a reconnect loses and repeats nothing.
\<close>

section \<open>What the loop publishes\<close>

definition emits :: "run_event \<Rightarrow> runLoop \<Rightarrow> string" where
  "emits ev l =
     (if rl_conn l \<noteq> Reading then []
      else case ev of EvRead data \<Rightarrow> fst (scan data (tl_in (rl_tailer l)))
        | EvCancel \<Rightarrow> lr_hdr (tl_in (rl_tailer l))
        | EvReadErr retriable \<Rightarrow> if retriable then [] else lr_hdr (tl_in (rl_tailer l))
        | _ \<Rightarrow> [])"

fun emitted :: "'s put_op \<Rightarrow> (Cursor \<Rightarrow> string) \<Rightarrow> run_event list \<Rightarrow> runLoop \<times> 's \<Rightarrow> string" where
  "emitted put enc [] ls = []"
| "emitted put enc (e # es) ls = emits e (fst ls) @ emitted put enc es (run_step put enc e ls)"

definition run_events :: "'s put_op \<Rightarrow> (Cursor \<Rightarrow> string) \<Rightarrow> run_event list \<Rightarrow> runLoop \<times> 's \<Rightarrow> runLoop \<times> 's" where
  "run_events put enc es ls = fold (run_step put enc) es ls"

lemma emitted_append:
  "emitted put enc (es @ fs) ls = emitted put enc es ls @ emitted put enc fs (run_events put enc es ls)"
  by (induction es arbitrary: ls) (simp_all add: run_events_def)

text \<open>The log as stored: the chunks from number \<open>a\<close> on, in order.\<close>

definition stored :: "(string \<rightharpoonup> string) \<Rightarrow> RunKeys \<Rightarrow> nat \<Rightarrow> nat \<Rightarrow> string" where
  "stored H k a b = concat (map (\<lambda>i. the (H (LogChunk k i))) [a..<b])"

definition log_kept :: "(string \<rightharpoonup> string) \<Rightarrow> nat \<Rightarrow> Tailer \<Rightarrow> string \<Rightarrow> bool" where
  "log_kept H a t h \<longleftrightarrow> a \<le> tl_chunkSeq t \<and> (\<forall>i. a \<le> i \<and> i < tl_chunkSeq t \<longrightarrow> H (LogChunk (tc_Keys (tl_cfg t)) i) \<noteq> None) \<and>
     stored H (tc_Keys (tl_cfg t)) a (tl_chunkSeq t) @ tl_pending t = h \<and> ring_holds (tl_ring t) h"

lemma log_kept_cong:
  "tl_cfg t = tl_cfg u \<Longrightarrow> tl_ring t = tl_ring u \<Longrightarrow> tl_pending t = tl_pending u \<Longrightarrow> tl_chunkSeq t = tl_chunkSeq u \<Longrightarrow>
   log_kept H a t h \<longleftrightarrow> log_kept H a u h"
  by (simp add: log_kept_def)

lemma log_kept_publish: "log_kept H a t h \<Longrightarrow> log_kept H a (publish p t) (h @ p)"
  using ring.holds_app [of "tl_ring t" h p] by (auto simp: log_kept_def)

lemma log_kept_consume: "log_kept H a t h \<Longrightarrow> log_kept H a (consume d t) (h @ fst (scan d (tl_in t)))"
  unfolding consume_scan by (rule log_kept_publish) (simp add: log_kept_def)

lemma log_kept_partial: "log_kept H a t h \<Longrightarrow> log_kept H a (flushPartialLine t) (h @ lr_hdr (tl_in t))"
  using log_kept_publish [of H a t h "lr_hdr (tl_in t)"]
  by (cases "lr_hdr (tl_in t) = []") (simp_all add: flushPartialLine_def log_kept_def)

lemma stored_upd: "b \<le> n \<Longrightarrow> stored (H(LogChunk k n \<mapsto> v)) k a b = stored H k a b"
  unfolding stored_def by (intro arg_cong [of _ _ concat] map_cong) auto

lemma stored_snoc: "a \<le> n \<Longrightarrow> stored (H(LogChunk k n \<mapsto> v)) k a (Suc n) = stored H k a n @ v"
  using stored_upd [of n n H k v a] by (simp add: stored_def)

lemma stored_cursor: "stored (H(LogCursor k \<mapsto> v)) k a b = stored H k a b"
  by (simp add: stored_def)

definition drained :: "runLoop \<Rightarrow> bool" where
  "drained l \<longleftrightarrow> (rl_conn l = Exited \<and> tc_Uploader (tl_cfg (rl_tailer l)) \<longrightarrow> tl_pending (rl_tailer l) = [])"

context reliable_store
begin

definition log_inv :: "nat \<Rightarrow> runLoop \<times> 'a \<Rightarrow> string \<Rightarrow> bool" where
  "log_inv a ls h \<longleftrightarrow> ok (snd ls) \<and> up (snd ls) \<and> log_kept (held (snd ls)) a (rl_tailer (fst ls)) h"

lemma saveCursor_ok:
  assumes "ok s" "up s"
  shows "ok (saveCursor put enc t s) \<and> up (saveCursor put enc t s) \<and>
    (held (saveCursor put enc t s) = held s \<or> (\<exists>v. held (saveCursor put enc t s) = (held s)(LogCursor (tc_Keys (tl_cfg t)) \<mapsto> v)))"
proof (cases "pos_Last (lr_pos (tl_in t)) = 0")
  case True
  with assms show ?thesis by (simp add: saveCursor_def)
next
  case False
  let ?v = "enc \<lparr>cu_NextSeq = tl_chunkSeq t, cu_Position = lr_pos (tl_in t)\<rparr>"
  obtain s' where "put (LogCursor (tc_Keys (tl_cfg t))) ?v s = (Inr (), s')" "ok s'" "up s'"
    "held s' = (held s)(LogCursor (tc_Keys (tl_cfg t)) \<mapsto> ?v)"
    by (rule put_up [OF assms])
  with False show ?thesis by (auto simp: saveCursor_def)
qed

lemma flushPending_inv:
  assumes "ok s" "up s" "log_kept (held s) a t h" "flushPending put enc t s = (t', s')"
  shows "ok s' \<and> up s' \<and> log_kept (held s') a t' h \<and> tl_in t' = tl_in t \<and> tl_cfg t' = tl_cfg t \<and>
    (tc_Uploader (tl_cfg t) \<longrightarrow> tl_pending t' = [])"
proof (cases "tl_pending t = [] \<or> \<not> tc_Uploader (tl_cfg t)")
  case True
  with assms show ?thesis by (auto simp: flushPending_def)
next
  case False
  let ?k = "tc_Keys (tl_cfg t)" and ?n = "tl_chunkSeq t"
  obtain s1 where s1: "put (LogChunk ?k ?n) (tl_pending t) s = (Inr (), s1)" "ok s1" "up s1"
    "held s1 = (held s)(LogChunk ?k ?n \<mapsto> tl_pending t)"
    using put_up [OF assms(1,2)] by metis
  let ?t = "t\<lparr>tl_chunkSeq := ?n + 1, tl_pending := [], tl_uploaded := tl_uploaded t + length (tl_pending t)\<rparr>"
  have t': "t' = ?t" "s' = saveCursor put enc ?t s1"
    using assms(4) False s1(1) by (auto simp: flushPending_def Let_def)
  have kept1: "log_kept (held s1) a ?t h"
    using assms(3) s1(4) by (auto simp: log_kept_def stored_snoc less_Suc_eq)
  moreover have "log_kept (H(LogCursor ?k \<mapsto> v)) a ?t h" if "log_kept H a ?t h" for H v
    using that by (simp add: log_kept_def stored_cursor)
  ultimately show ?thesis using saveCursor_ok [OF s1(2,3), of enc ?t] t' by auto
qed

lemma finalize_inv:
  assumes "ok s" "up s" "log_kept (held s) a t h"
  shows "log_inv a (exit_run put enc t n s) h \<and> rl_conn (fst (exit_run put enc t n s)) = Exited \<and>
    (tc_Uploader (tl_cfg t) \<longrightarrow> tl_pending (rl_tailer (fst (exit_run put enc t n s))) = [])"
proof -
  obtain t1 s1 where f: "flushPending put enc t s = (t1, s1)" by force
  from flushPending_inv [OF assms f] show ?thesis
    by (auto simp: exit_run_def finalize_tailer_def f log_inv_def log_kept_def)
qed

lemma run_step_inv:
  assumes "log_inv a ls h"
  shows "log_inv a (run_step put enc ev ls) (h @ emits ev (fst ls))"
proof -
  obtain l s where ls: "ls = (l, s)" by force
  let ?t = "rl_tailer l"
  from assms ls have inv: "ok s" "up s" "log_kept (held s) a ?t h" by (auto simp: log_inv_def)
  have exit: "log_inv a (exit_run put enc t n s) g" if "log_kept (held s) a t g" for t n g
    using finalize_inv [OF inv(1,2) that] by blast
  have prep: "log_kept (held s) a (prepare_source ?t) h" using inv(3) by (simp add: prepare_source_def log_kept_def)
  note partial = log_kept_partial [OF inv(3)]
  have stay: "log_inv a (l', s) h" if "rl_tailer l' = ?t" for l' using that inv by (simp add: log_inv_def)
  show ?thesis
  proof (cases "rl_conn l")
    case Opening
    then show ?thesis using exit [OF inv(3)] exit [OF prep] inv prep stay
      by (cases ev) (auto simp: run_step_def ls emits_def open_event_def Let_def log_inv_def)
  next
    case Exited
    then show ?thesis using assms by (simp add: run_step_def ls emits_def)
  next
    case Reading
    show ?thesis
    proof (cases ev)
      case (EvRead d)
      let ?c = "consume d ?t"
      have kept: "log_kept (held s) a ?c (h @ fst (scan d (tl_in ?t)))" by (rule log_kept_consume [OF inv(3)])
      obtain t1 s1 where f: "flushPending put enc ?c s = (t1, s1)" by force
      from flushPending_inv [OF inv(1,2) kept f] kept EvRead Reading inv f show ?thesis
        by (auto simp: run_step_def ls emits_def read_event_def Let_def log_inv_def)
    next
      case EvTick
      obtain t1 s1 where f: "flushPending put enc ?t s = (t1, s1)" by force
      from flushPending_inv [OF inv f] EvTick Reading f show ?thesis
        by (auto simp: run_step_def ls emits_def log_inv_def)
    next
      case (EvReadErr r)
      with Reading exit [OF inv(3)] exit [OF partial] stay show ?thesis
        by (auto simp: run_step_def ls emits_def Let_def)
    qed (use Reading assms exit [OF partial] in \<open>auto simp: run_step_def ls emits_def\<close>)
  qed
qed

lemma run_events_inv:
  "log_inv a ls h \<Longrightarrow> log_inv a (run_events put enc es ls) (h @ emitted put enc es ls)"
proof (induction es arbitrary: ls h)
  case (Cons e es)
  from Cons.IH [OF run_step_inv [OF Cons.prems]] show ?case by (simp add: run_events_def)
qed (simp add: run_events_def)

lemma start_inv:
  "ok s \<Longrightarrow> up s \<Longrightarrow> log_inv (case tc_Resume cfg of None \<Rightarrow> 0 | Some c \<Rightarrow> cu_NextSeq c) (Start cfg, s) []"
  using ring.holds_new by (auto simp: log_inv_def log_kept_def Start_def New_def Let_def stored_def applyDefaults_def)

lemma run_step_drained:
  assumes "log_inv a ls h" "drained (fst ls)"
  shows "drained (fst (run_step put enc ev ls))"
proof -
  obtain l s where ls: "ls = (l, s)" by force
  let ?t = "rl_tailer l"
  from assms ls have inv: "ok s" "up s" "log_kept (held s) a ?t h" by (auto simp: log_inv_def)
  have exit: "drained (fst (exit_run put enc t n s))" if "log_kept (held s) a t g" for t n g
  proof -
    obtain t1 s1 where f: "flushPending put enc t s = (t1, s1)" by force
    from flushPending_inv [OF inv(1,2) that f] show ?thesis
      by (auto simp: exit_run_def finalize_tailer_def f drained_def)
  qed
  have prep: "log_kept (held s) a (prepare_source ?t) h" using inv(3) by (simp add: prepare_source_def log_kept_def)
  show ?thesis
    using exit [OF inv(3)] exit [OF prep] exit [OF log_kept_partial [OF inv(3)]] assms(2)
    by (cases "rl_conn l"; cases ev)
      (auto simp: run_step_def ls open_event_def read_event_def Let_def split_beta drained_def split: if_splits)
qed

lemma run_events_drained:
  "log_inv a ls h \<Longrightarrow> drained (fst ls) \<Longrightarrow> drained (fst (run_events put enc es ls))"
proof (induction es arbitrary: ls h)
  case (Cons e es)
  from Cons.IH [OF run_step_inv [OF Cons.prems(1)] run_step_drained [OF Cons.prems]] show ?case
    by (simp add: run_events_def)
qed (simp add: run_events_def)

end

section \<open>The configuration stays\<close>

lemma flushPending_cfg [simp]: "tl_cfg (fst (flushPending put enc t s)) = tl_cfg t"
  by (auto simp: flushPending_def Let_def split: sum.splits prod.splits)

lemma exit_run_cfg [simp]: "tl_cfg (rl_tailer (fst (exit_run put enc t n s))) = tl_cfg t"
  by (simp add: exit_run_def finalize_tailer_def split_beta)

lemma run_step_cfg: "tl_cfg (rl_tailer (fst (run_step put enc ev ls))) = tl_cfg (rl_tailer (fst ls))"
  by (cases ls; cases "rl_conn (fst ls)"; cases ev)
    (auto simp: run_step_def open_event_def read_event_def prepare_source_def consume_scan flushPartialLine_def Let_def split_beta)

lemma run_events_cfg: "tl_cfg (rl_tailer (fst (run_events put enc es ls))) = tl_cfg (rl_tailer (fst ls))"
  by (induction es arbitrary: ls) (simp_all add: run_events_def run_step_cfg)

lemma Start_cfg [simp]: "tl_cfg (rl_tailer (Start cfg)) = applyDefaults cfg"
  by (simp add: Start_def New_def Let_def)

lemma applyDefaults_simps [simp]:
  "tc_Keys (applyDefaults cfg) = tc_Keys cfg" "tc_Uploader (applyDefaults cfg) = tc_Uploader cfg"
  "tc_Resume (applyDefaults cfg) = tc_Resume cfg"
  by (simp_all add: applyDefaults_def)

section \<open>Nothing published is lost\<close>

definition first_chunk :: "TailerConfig \<Rightarrow> nat" where
  "first_chunk cfg = (case tc_Resume cfg of None \<Rightarrow> 0 | Some c \<Rightarrow> cu_NextSeq c)"

definition small_cfg :: TailerConfig where
  "small_cfg = \<lparr>tc_Keys = ''runs/n/u/'', tc_Resume = None, tc_Uploader = True, tc_RingBytes = 2, tc_ChunkBytes = 0,
     tc_FlushInterval = 0, tc_SubscriberQueue = 0, tc_ReadBufferBytes = 0, tc_ReopenMaxAttempts = 0, tc_ReopenBackoff = 0\<rparr>"

lemmas loop_eval = run_step_def Start_def New_def applyDefaults_def or_default_def open_event_def read_event_def prepare_source_def
  consume_scan scan_byte_def header_byte_def isTimestampByte_def is_digit_def byte_def newline_def exit_run_def finalize_tailer_def
  flushPartialLine_def flushPending_def saveCursor_def zero_Position_def FakePut_def NewFake_def next_error_def Let_def

text \<open>
  The store has the log: while uploads succeed, after any sequence of reads, reconnects, flushes
  and cancellation, the chunks written so far, in order, followed by the pending bytes, are exactly
  what was published, and the replay buffer holds its end; once the loop has exited nothing is
  pending.
\<close>

theorem stored_log_complete:
  assumes "fake_ok f" "fk_PutErrors f = []"
  shows "case run_events (FakePut b) enc es (Start cfg, f) of (l, f') \<Rightarrow>
    stored (\<lambda>k. Object b k f') (tc_Keys cfg) (first_chunk cfg) (tl_chunkSeq (rl_tailer l)) @ tl_pending (rl_tailer l) =
      emitted (FakePut b) enc es (Start cfg, f) \<and>
    fst (RingSnapshot (tl_ring (rl_tailer l))) =
      last_bytes (rb_capacity (tl_ring (rl_tailer l))) (emitted (FakePut b) enc es (Start cfg, f)) \<and>
    (rl_conn l = Exited \<and> tc_Uploader cfg \<longrightarrow> tl_pending (rl_tailer l) = [])"
proof -
  obtain l f' where run: "run_events (FakePut b) enc es (Start cfg, f) = (l, f')" by force
  have start: "fake_up.log_inv b (first_chunk cfg) (Start cfg, f) []"
    using fake_up.start_inv [OF assms, of b cfg] by (simp add: first_chunk_def)
  from fake_up.run_events_inv [OF start, of enc es] run
  have "log_kept (\<lambda>k. Object b k f') (first_chunk cfg) (rl_tailer l) (emitted (FakePut b) enc es (Start cfg, f))"
    by (simp add: fake_up.log_inv_def)
  moreover have "drained l" using fake_up.run_events_drained [OF start, of enc es] run
    by (simp add: drained_def Start_def)
  moreover have "tl_cfg (rl_tailer l) = applyDefaults cfg"
    using run_events_cfg [of "FakePut b" enc es "(Start cfg, f)"] run by simp
  ultimately show ?thesis using ring.snap_holds [of "tl_ring (rl_tailer l)" "emitted (FakePut b) enc es (Start cfg, f)"]
    by (simp add: run log_kept_def drained_def)
qed

theorem stored_log_complete_witness:
  "case run_events (FakePut ''b'') (\<lambda>_. []) [EvOpen True, EvRead ''boom'', EvReadErr False] (Start small_cfg, NewFake) of (l, f') \<Rightarrow>
     stored (\<lambda>k. Object ''b'' k f') ''runs/n/u/'' 0 1 = ''boom'' \<and> fst (RingSnapshot (tl_ring (rl_tailer l))) = ''om''"
proof -
  let ?es = "[EvOpen True, EvRead ''boom'', EvReadErr False]"
  obtain l f' where run: "run_events (FakePut ''b'') (\<lambda>_. []) ?es (Start small_cfg, NewFake) = (l, f')" by force
  then have l: "l = fst (run_events (FakePut ''b'') (\<lambda>_. []) ?es (Start small_cfg, NewFake))" by simp
  have "emitted (FakePut ''b'') (\<lambda>_. []) ?es (Start small_cfg, NewFake) = ''boom''" "rl_conn l = Exited" "tl_chunkSeq (rl_tailer l) = 1"
    "rb_capacity (tl_ring (rl_tailer l)) = 2"
    unfolding l by (simp_all add: run_events_def small_cfg_def emits_def loop_eval capacity_Append newRingBuffer_def)
  moreover have "fake_ok NewFake" "fk_PutErrors NewFake = []" by (simp_all add: fake_ok_def NewFake_def)
  moreover have "tc_Keys small_cfg = ''runs/n/u/''" "tc_Uploader small_cfg" "first_chunk small_cfg = 0"
    by (simp_all add: small_cfg_def first_chunk_def)
  ultimately show ?thesis
    using stored_log_complete [of NewFake "''b''" small_cfg "\<lambda>_. []" ?es] run
    by (auto simp: last_bytes_def simp del: emitted.simps)
qed

section \<open>Reconnects\<close>

lemma flushPending_in [simp]: "tl_in (fst (flushPending put enc t s)) = tl_in t"
  by (auto simp: flushPending_def Let_def split: sum.splits prod.splits)

text \<open>Reads, with flushes in between, and the bytes they bring.\<close>

fun bytes_of :: "run_event list \<Rightarrow> string" where
  "bytes_of [] = []"
| "bytes_of (EvRead d # es) = d @ bytes_of es"
| "bytes_of (e # es) = bytes_of es"

definition reads :: "run_event list \<Rightarrow> bool" where
  "reads es \<longleftrightarrow> list_all (\<lambda>e. e = EvTick \<or> (\<exists>d. e = EvRead d)) es"

lemma run_reads:
  assumes "reads es" "rl_conn l = Reading"
  shows "emitted put enc es (l, s) = fst (scan (bytes_of es) (tl_in (rl_tailer l))) \<and>
    tl_in (rl_tailer (fst (run_events put enc es (l, s)))) = snd (scan (bytes_of es) (tl_in (rl_tailer l))) \<and>
    rl_conn (fst (run_events put enc es (l, s))) = Reading \<and>
    rl_attempts (fst (run_events put enc es (l, s))) = (if bytes_of es = [] then rl_attempts l else 0)"
  using assms
proof (induction es arbitrary: l s)
  case (Cons e es)
  obtain l1 s1 where step: "run_step put enc e (l, s) = (l1, s1)" by force
  have rest: "reads es" using Cons.prems(1) by (simp add: reads_def)
  consider "e = EvTick" | d where "e = EvRead d" using Cons.prems(1) by (auto simp: reads_def)
  then show ?case
  proof cases
    case 1
    then have "rl_conn l1 = Reading" "tl_in (rl_tailer l1) = tl_in (rl_tailer l)" "rl_attempts l1 = rl_attempts l"
      using step Cons.prems(2) by (auto simp: run_step_def split_beta)
    with Cons.IH [OF rest, of l1 s1] 1 step Cons.prems(2) show ?thesis by (simp add: run_events_def emits_def)
  next
    case (2 d)
    then have l1: "rl_conn l1 = Reading" "tl_in (rl_tailer l1) = snd (scan d (tl_in (rl_tailer l)))"
      "rl_attempts l1 = (if d = [] then rl_attempts l else 0)"
      using step Cons.prems(2) by (auto simp: run_step_def read_event_def Let_def split_beta consume_scan split: if_splits)
    with Cons.IH [OF rest l1(1), of s1] 2 step Cons.prems(2) show ?thesis
      by (simp add: run_events_def emits_def scan_append split_beta)
  qed
qed (simp add: run_events_def)

text \<open>
  A connection: it opens, delivers the raw lines \<open>k\<close> to \<open>m\<close> of the pod's log in any reads, and breaks with
  an error that is worth a retry.
\<close>

definition session :: "run_event list \<Rightarrow> run_event list" where
  "session es = EvOpen True # es @ [EvReadErr True]"

lemma run_session:
  assumes "ordered_log log" "n \<le> length log" "m \<le> length log" "k < m"
    and "\<forall>i < k. stamp (log ! i) < pos_Last (pos_after (take n log))"
    and "reads es" "bytes_of es = raw_lines (take (m - k) (drop k log))"
    and "rl_conn l = Opening" "lr_pos (tl_in (rl_tailer l)) = pos_after (take n log)"
    and "1 < tc_ReopenMaxAttempts (tl_cfg (rl_tailer l))"
  shows "emitted put enc (session es) (l, s) = concat (map content (take (m - n) (drop n log))) \<and>
    rl_conn (fst (run_events put enc (session es) (l, s))) = Opening \<and>
    lr_pos (tl_in (rl_tailer (fst (run_events put enc (session es) (l, s))))) = pos_after (take (max n m) log)"
proof -
  let ?r = "\<lparr>lr_line = LineHeader, lr_hdr = [], lr_pos = pos_after (take n log),
    lr_filter = \<lparr>rf_upTo = pos_after (take n log), rf_seen = 0\<rparr>\<rparr>"
  obtain l1 s1 where opened: "run_step put enc (EvOpen True) (l, s) = (l1, s1)" by force
  then have l1: "rl_conn l1 = Reading" "tl_in (rl_tailer l1) = ?r" "tl_cfg (rl_tailer l1) = tl_cfg (rl_tailer l)"
    using assms(8,9) by (auto simp: run_step_def open_event_def prepare_source_def Let_def)
  let ?lines = "take (m - k) (drop k log)" and ?new = "take (m - n) (drop n log)"
  have "list_all good_line ?lines" using assms(1) by (auto simp: ordered_log_def list_all_iff dest: in_set_takeD in_set_dropD)
  moreover have kept: "kept (lr_filter ?r) ?lines = ?new" using kept_replayed [OF assms(1-3) _ assms(5)] assms(4) by simp
  ultimately have scan: "scan (raw_lines ?lines) ?r = (concat (map content ?new), fold after_line ?lines ?r)"
    using scan_lines [of ?lines ?r] by (simp add: at_line_start_def)
  have pos: "lr_pos (fold after_line ?lines ?r) = pos_after (take (max n m) log)"
  proof -
    have "take (max n m) log = take n log @ ?new"
      using take_add [of n "m - n" log] by (cases "n \<le> m") (simp_all add: max_def)
    then show ?thesis unfolding fold_after_line_pos kept by (simp add: pos_after_def)
  qed
  have "raw_lines ?lines \<noteq> []"
    using assms(3,4) by (cases "drop k log"; cases "m - k") (auto simp: raw_lines_def raw_line_def)
  obtain l2 s2 where mid: "run_events put enc es (l1, s1) = (l2, s2)" by force
  note reads = run_reads [OF assms(6) l1(1), of put enc s1]
  have l2: "rl_conn l2 = Reading" "rl_attempts l2 = 0" "lr_pos (tl_in (rl_tailer l2)) = pos_after (take (max n m) log)"
    "tl_cfg (rl_tailer l2) = tl_cfg (rl_tailer l)"
    using reads mid l1 assms(7) scan pos \<open>raw_lines ?lines \<noteq> []\<close> run_events_cfg [of put enc es "(l1, s1)"] by auto
  have last: "run_step put enc (EvReadErr True) (l2, s2) = (l2\<lparr>rl_conn := Opening, rl_attempts := 1\<rparr>, s2)"
    using l2 assms(10) by (simp add: run_step_def)
  have "emitted put enc (session es) (l, s) = fst (scan (bytes_of es) ?r)"
    using opened assms(8) reads l1 mid by (simp add: session_def emits_def emitted_append)
  moreover have "run_events put enc (session es) (l, s) = (l2\<lparr>rl_conn := Opening, rl_attempts := 1\<rparr>, s2)"
    using opened mid last by (simp add: session_def run_events_def)
  ultimately show ?thesis using assms(7) scan l2 by simp
qed

text \<open>Connections \<open>(k, m, es)\<close> one after the other; what each starts with is what \<open>sinceTime\<close> promises.\<close>

fun connections :: "log_line list \<Rightarrow> nat \<Rightarrow> (nat \<times> nat \<times> run_event list) list \<Rightarrow> bool" where
  "connections log n [] = True"
| "connections log n ((k, m, es) # cs) = (k < m \<and> m \<le> length log \<and>
     (\<forall>i < k. stamp (log ! i) < pos_Last (pos_after (take n log))) \<and> reads es \<and>
     bytes_of es = raw_lines (take (m - k) (drop k log)) \<and> connections log (max n m) cs)"

definition reached :: "nat \<Rightarrow> (nat \<times> nat \<times> run_event list) list \<Rightarrow> nat" where
  "reached n cs = fold (\<lambda>(k, m, es) n. max n m) cs n"

lemma reached_ge: "n \<le> reached n cs"
proof (induction cs arbitrary: n)
  case (Cons c cs)
  obtain k m es where "c = (k, m, es)" by (cases c)
  then show ?case using Cons [of "max n m"] by (simp add: reached_def)
qed (simp add: reached_def)

lemma take_drop_chain: "a \<le> b \<Longrightarrow> b \<le> c \<Longrightarrow> take (b - a) (drop a xs) @ take (c - b) (drop b xs) = take (c - a) (drop a xs)"
  using take_add [of "b - a" "c - b" "drop a xs"] by simp

lemma run_sessions:
  assumes "ordered_log log" "connections log n cs" "n \<le> length log" "rl_conn l = Opening"
    and "lr_pos (tl_in (rl_tailer l)) = pos_after (take n log)" "1 < tc_ReopenMaxAttempts (tl_cfg (rl_tailer l))"
  shows "emitted put enc (concat (map (\<lambda>(k, m, es). session es) cs)) (l, s) =
    concat (map content (take (reached n cs - n) (drop n log)))"
  using assms(2-)
proof (induction cs arbitrary: n l s)
  case (Cons c cs)
  obtain k m es where c: "c = (k, m, es)" by (cases c)
  let ?n = "max n m"
  obtain l1 s1 where run: "run_events put enc (session es) (l, s) = (l1, s1)" by force
  have one: "emitted put enc (session es) (l, s) = concat (map content (take (m - n) (drop n log)))"
    "rl_conn l1 = Opening" "lr_pos (tl_in (rl_tailer l1)) = pos_after (take ?n log)"
    using run_session [OF assms(1) Cons.prems(2), of m k es l put enc s] Cons.prems c run by auto
  moreover have "tl_cfg (rl_tailer l1) = tl_cfg (rl_tailer l)"
    using run_events_cfg [of put enc "session es" "(l, s)"] run by simp
  ultimately have rest: "emitted put enc (concat (map (\<lambda>(k, m, es). session es) cs)) (l1, s1) =
      concat (map content (take (reached ?n cs - ?n) (drop ?n log)))"
    using Cons.IH [of ?n l1 s1] Cons.prems c by simp
  have "take (m - n) (drop n log) @ take (reached ?n cs - ?n) (drop ?n log) = take (reached ?n cs - n) (drop n log)"
  proof (cases "n \<le> m")
    case True
    then show ?thesis using take_drop_chain [of n m "reached m cs" log] reached_ge [of m cs] by simp
  next
    case False
    then show ?thesis by simp
  qed
  then have "concat (map content (take (m - n) (drop n log))) @ concat (map content (take (reached ?n cs - ?n) (drop ?n log))) =
      concat (map content (take (reached ?n cs - n) (drop n log)))"
    by (metis concat_append map_append)
  then show ?case using one(1) rest run c by (simp add: emitted_append reached_def)
qed (simp add: reached_def)


definition sample_log :: "log_line list" where
  "sample_log = [(''2024-01-01T00:00:00Z'', ''a''), (''2024-01-01T00:00:00Z'', ''b'')]"

definition plain_cfg :: TailerConfig where
  "plain_cfg = \<lparr>tc_Keys = ''runs/n/u/'', tc_Resume = None, tc_Uploader = True, tc_RingBytes = 0, tc_ChunkBytes = 0,
     tc_FlushInterval = 0, tc_SubscriberQueue = 0, tc_ReadBufferBytes = 0, tc_ReopenMaxAttempts = 0, tc_ReopenBackoff = 0\<rparr>"

lemma sample_log_ordered: "ordered_log sample_log"
  by (simp add: ordered_log_def sample_log_def good_line_def stamp_def isTimestampByte_def maxTimestampLen_def newline_def time_eval)


section \<open>Giving up\<close>

text \<open>An attempt that brings no data: the source does not open, or it opens and breaks.\<close>

definition failed_attempt :: "bool \<Rightarrow> run_event list" where
  "failed_attempt opens = (if opens then [EvOpen True, EvReadErr True] else [EvOpen False])"

lemma run_failed_attempt:
  assumes "rl_conn l = Opening"
  shows "let l' = fst (run_events put enc (failed_attempt b) (l, s)) in
    tl_cfg (rl_tailer l') = tl_cfg (rl_tailer l) \<and>
    (if tc_ReopenMaxAttempts (tl_cfg (rl_tailer l)) \<le> rl_attempts l + 1 then rl_conn l' = Exited
     else rl_conn l' = Opening \<and> rl_attempts l' = rl_attempts l + 1)"
  using assms
  by (auto simp: failed_attempt_def run_events_def run_step_def open_event_def prepare_source_def exit_run_def
    finalize_tailer_def Let_def split_beta)

lemma exited_stays: "rl_conn (fst ls) = Exited \<Longrightarrow> run_events put enc es ls = ls"
  by (induction es) (simp_all add: run_events_def run_step_def split_beta)

lemma run_events_append: "run_events put enc (es @ fs) ls = run_events put enc fs (run_events put enc es ls)"
  by (simp add: run_events_def)

text \<open>
  C31. The tailer gives up: as many attempts in a row without data as the reopen budget allows end
  the loop, whether the source did not open or broke at once, and its subscribers are closed.
\<close>

theorem reopen_budget_ends:
  assumes "tc_ReopenMaxAttempts (tl_cfg (rl_tailer l)) \<le> rl_attempts l + int (length bs)" "rl_conn l = Opening" "bs \<noteq> []"
  shows "rl_conn (fst (run_events put enc (concat (map failed_attempt bs)) (l, s))) = Exited"
  using assms
proof (induction bs arbitrary: l s)
  case (Cons b bs)
  obtain l1 s1 where run: "run_events put enc (failed_attempt b) (l, s) = (l1, s1)" by force
  from run_failed_attempt [OF Cons.prems(2), of put enc b s] run
  have l1: "tl_cfg (rl_tailer l1) = tl_cfg (rl_tailer l)"
    "if tc_ReopenMaxAttempts (tl_cfg (rl_tailer l)) \<le> rl_attempts l + 1 then rl_conn l1 = Exited
     else rl_conn l1 = Opening \<and> rl_attempts l1 = rl_attempts l + 1"
    by (simp_all add: Let_def)
  have "rl_conn (fst (run_events put enc (concat (map failed_attempt bs)) (l1, s1))) = Exited"
  proof (cases "rl_conn l1 = Exited")
    case True
    then show ?thesis using exited_stays [of "(l1, s1)"] by simp
  next
    case False
    with l1 have "bs \<noteq> []" "rl_conn l1 = Opening" "tc_ReopenMaxAttempts (tl_cfg (rl_tailer l1)) \<le> rl_attempts l1 + int (length bs)"
      using Cons.prems(1) by (auto split: if_splits)
    then show ?thesis using Cons.IH [of l1 s1] by blast
  qed
  then show ?case using run by (simp add: run_events_append)
qed simp

theorem reopen_budget_ends_witness:
  "rl_conn (fst (run_events (FakePut ''b'') (\<lambda>_. []) (concat (map failed_attempt [True, False, True, False, False])) (Start plain_cfg, NewFake))) = Exited"
  using reopen_budget_ends [of "Start plain_cfg" "[True, False, True, False, False]"]
  by (simp add: plain_cfg_def Start_def New_def applyDefaults_def or_default_def DefaultReopenMaxAttempts_def Let_def)

end
