(* ===== verification/ChunkReader.thy ===== *)
theory ChunkReader
  imports Storage GoTime
begin

text \<open>
  Reading a stored log, \<open>src/internal/apiserver/chunk_reader.go\<close>: \<open>stream\<close> lists the chunks under the log
  prefix, hands those not sent yet to the client, and, when it follows a live run, polls until the
  run has ended. The client is a state the callback \<open>emit\<close> changes. What happens around a round (what
  others wrote to the store before it, the clock, whether the context is done, what \<open>IsTerminal\<close> says) is
  its \<open>poll_input\<close>; the value \<open>None\<close> of
  \<open>stream_rounds\<close> means that the loop is still polling after the given rounds.
\<close>

type_synonym 's get_op = "string \<Rightarrow> 's \<Rightarrow> (string, string option) result \<times> 's"
type_synonym 's list_op = "string \<Rightarrow> 's \<Rightarrow> (string, string list) result \<times> 's"

datatype emit_error = ClientGone | EmitFailed string

type_synonym 'c emit_op = "string \<Rightarrow> 'c \<Rightarrow> emit_error option \<times> 'c"

datatype stream_error = ListFailed string | ReadChunkFailed string string | EmitError string | ContextDone | MissingStore

record chunkStream =
  ck_Store :: bool
  ck_Prefix :: string
  ck_KeepPolling :: bool
  ck_PollDeadline :: int
  ck_HasIsTerminal :: bool

definition stream_defaults :: "chunkStream \<Rightarrow> chunkStream" where
  "stream_defaults c = c\<lparr>ck_PollDeadline := (if ck_PollDeadline c = 0 then 5 * 60 * 1000000000 else ck_PollDeadline c)\<rparr>"

definition readChunk :: "'s get_op \<Rightarrow> string \<Rightarrow> 's \<Rightarrow> (string, string) result \<times> 's" where
  "readChunk get key s = (case get key s of (r, s') \<Rightarrow>
     (case r of Inl e \<Rightarrow> (Inl e, s') | Inr None \<Rightarrow> (Inl ''storage: object not found'', s') | Inr (Some body) \<Rightarrow> (Inr body, s')))"

text \<open>The loop over the listed keys: the keys sent, whether one was emitted, the error if any.\<close>

datatype drain_error = DrainEOF | DrainError stream_error

fun drain_keys ::
  "'s get_op \<Rightarrow> 'c emit_op \<Rightarrow> string list \<Rightarrow> string list \<Rightarrow> bool \<Rightarrow> 's \<Rightarrow> 'c \<Rightarrow> (drain_error, bool) result \<times> string list \<times> 's \<times> 'c" where
  "drain_keys get emit [] sent emitted s c = (Inr emitted, sent, s, c)"
| "drain_keys get emit (k # ks) sent emitted s c =
     (if k \<in> set sent then drain_keys get emit ks sent emitted s c
      else case readChunk get k s of (r, s1) \<Rightarrow>
        (case r of Inl e \<Rightarrow> (Inl (DrainError (ReadChunkFailed k e)), sent, s1, c)
         | Inr body \<Rightarrow> (case emit body c of (e, c1) \<Rightarrow>
             (case e of Some ClientGone \<Rightarrow> (Inl DrainEOF, sent, s1, c1)
              | Some (EmitFailed x) \<Rightarrow> (Inl (DrainError (EmitError x)), sent, s1, c1)
              | None \<Rightarrow> drain_keys get emit ks (sent @ [k]) True s1 c1))))"

definition drainOnce ::
  "'s get_op \<Rightarrow> 's list_op \<Rightarrow> 'c emit_op \<Rightarrow> string \<Rightarrow> string list \<Rightarrow> 's \<Rightarrow> 'c \<Rightarrow>
   (drain_error, bool) result \<times> string list \<times> 's \<times> 'c" where
  "drainOnce get lst emit prefix sent s c = (case lst prefix s of (r, s1) \<Rightarrow>
     (case r of Inl e \<Rightarrow> (Inl (DrainError (ListFailed e)), sent, s1, c)
      | Inr ks \<Rightarrow> drain_keys get emit ks sent False s1 c))"

record 's poll_input =
  pi_writes :: "'s \<Rightarrow> 's"
  pi_cancelled :: bool
  pi_now :: int
  pi_terminal :: bool
  pi_cancelled_in_sleep :: bool

record stream_state =
  sm_sent :: "string list"
  sm_lastProgressAt :: int
  sm_terminalSeen :: bool

datatype round_end = RoundStop "(stream_error, unit) result" | RoundAgain stream_state

definition after_drain :: "chunkStream \<Rightarrow> 's poll_input \<Rightarrow> bool \<Rightarrow> stream_state \<Rightarrow> round_end" where
  "after_drain cs i emitted st =
     (let st1 = (if emitted then st\<lparr>sm_lastProgressAt := pi_now i\<rparr> else st)
      in if \<not> ck_KeepPolling cs then RoundStop (Inr ())
         else if sm_terminalSeen st1 then RoundStop (Inr ())
         else if ck_HasIsTerminal cs \<and> pi_terminal i then RoundAgain (st1\<lparr>sm_terminalSeen := True\<rparr>)
         else if \<not> emitted \<and> ck_PollDeadline cs < pi_now i - sm_lastProgressAt st1 then RoundStop (Inr ())
         else if pi_cancelled_in_sleep i then RoundStop (Inl ContextDone)
         else RoundAgain st1)"

definition stream_round ::
  "'s get_op \<Rightarrow> 's list_op \<Rightarrow> 'c emit_op \<Rightarrow> chunkStream \<Rightarrow> 's poll_input \<Rightarrow> stream_state \<Rightarrow> 's \<Rightarrow> 'c \<Rightarrow> round_end \<times> 's \<times> 'c" where
  "stream_round get lst emit cs i st s c =
     (if pi_cancelled i then (RoundStop (Inl ContextDone), s, c)
      else case drainOnce get lst emit (ck_Prefix cs) (sm_sent st) (pi_writes i s) c of (r, sent, s1, c1) \<Rightarrow>
        (case r of
           Inl DrainEOF \<Rightarrow> (RoundStop (Inr ()), s1, c1)
         | Inl (DrainError e) \<Rightarrow> (RoundStop (Inl e), s1, c1)
         | Inr emitted \<Rightarrow> (after_drain cs i emitted (st\<lparr>sm_sent := sent\<rparr>), s1, c1)))"

fun stream_rounds ::
  "'s get_op \<Rightarrow> 's list_op \<Rightarrow> 'c emit_op \<Rightarrow> chunkStream \<Rightarrow> 's poll_input list \<Rightarrow> stream_state \<Rightarrow> 's \<Rightarrow> 'c \<Rightarrow>
   (stream_error, unit) result option \<times> 's \<times> 'c" where
  "stream_rounds get lst emit cs [] st s c = (None, s, c)"
| "stream_rounds get lst emit cs (i # is) st s c = (case stream_round get lst emit cs i st s c of (e, s1, c1) \<Rightarrow>
     (case e of RoundStop r \<Rightarrow> (Some r, s1, c1) | RoundAgain st1 \<Rightarrow> stream_rounds get lst emit cs is st1 s1 c1))"

definition stream ::
  "'s get_op \<Rightarrow> 's list_op \<Rightarrow> 'c emit_op \<Rightarrow> chunkStream \<Rightarrow> int \<Rightarrow> 's poll_input list \<Rightarrow> 's \<Rightarrow> 'c \<Rightarrow>
   (stream_error, unit) result option \<times> 's \<times> 'c" where
  "stream get lst emit cs now is s c =
     (if \<not> ck_Store cs then (Some (Inl MissingStore), s, c)
      else stream_rounds get lst emit (stream_defaults cs) is
        \<lparr>sm_sent = [], sm_lastProgressAt = now, sm_terminalSeen = False\<rparr> s c)"

section \<open>A store that can be read\<close>

locale readable_store = blob_store +
  fixes readable :: "'a \<Rightarrow> bool"
  assumes readable_get: "ok s \<Longrightarrow> readable s \<Longrightarrow> \<exists>s'. get k s = (Inr (held s k), s') \<and> readable s'"
    and readable_list: "ok s \<Longrightarrow> readable s \<Longrightarrow> p \<noteq> [] \<Longrightarrow> \<exists>ks s'. list_keys p s = (Inr ks, s') \<and> readable s'"
begin

definition fine :: "'a \<Rightarrow> (string \<rightharpoonup> string) \<Rightarrow> bool" where
  "fine s H \<longleftrightarrow> ok s \<and> readable s \<and> held s = H"

lemma readChunk_fine:
  assumes "fine s H" "H k = Some v"
  shows "\<exists>s'. readChunk get k s = (Inr v, s') \<and> fine s' H"
proof -
  obtain s' where "get k s = (Inr (Some v), s')" "readable s'"
    using readable_get [of s k] assms by (auto simp: fine_def)
  then show ?thesis using get_held [of s k _ s'] assms by (auto simp: readChunk_def fine_def)
qed

end

definition collect :: "string emit_op" where
  "collect body c = (None, c @ body)"

text \<open>The chunks a listing gives for what the store holds.\<close>

definition listing :: "(string \<rightharpoonup> string) \<Rightarrow> string \<Rightarrow> string list" where
  "listing H p = sorted_list_of_set {k \<in> dom H. has_prefix p k}"

text \<open>What one pass sends: the listed keys not sent before.\<close>

definition unsent :: "string list \<Rightarrow> string list \<Rightarrow> string list" where
  "unsent sent ks = filter (\<lambda>k. k \<notin> set sent) ks"

context readable_store
begin

lemma drain_keys_fine:
  assumes "fine s H" "distinct ks" "\<forall>k \<in> set ks. H k \<noteq> None"
  shows "\<exists>s'. fine s' H \<and> drain_keys get collect ks sent em s c =
    (Inr (em \<or> unsent sent ks \<noteq> []), sent @ unsent sent ks, s', c @ concat (map (\<lambda>k. the (H k)) (unsent sent ks)))"
  using assms
proof (induction ks arbitrary: s sent em c)
  case (Cons k ks)
  show ?case
  proof (cases "k \<in> set sent")
    case True
    with Cons.IH [of s sent em c] Cons.prems show ?thesis by (simp add: unsent_def)
  next
    case False
    from Cons.prems obtain v where v: "H k = Some v" by auto
    from readChunk_fine [OF Cons.prems(1) v] obtain s1 where s1: "readChunk get k s = (Inr v, s1)" "fine s1 H" by blast
    have eq: "unsent (sent @ [k]) ks = unsent sent ks" using Cons.prems(2) by (auto simp: unsent_def intro!: filter_cong)
    from Cons.IH [OF s1(2), of "sent @ [k]" True "c @ v"] Cons.prems False s1(1) v show ?thesis
      by (auto simp: collect_def eq) (auto simp: unsent_def)
  qed
qed (simp add: unsent_def)

lemma drainOnce_fine:
  assumes "fine s H" "p \<noteq> []"
  shows "\<exists>s'. fine s' H \<and> drainOnce get list_keys collect p sent s c =
    (Inr (unsent sent (listing H p) \<noteq> []), sent @ unsent sent (listing H p), s',
     c @ concat (map (\<lambda>k. the (H k)) (unsent sent (listing H p))))"
proof -
  obtain ks s1 where l: "list_keys p s = (Inr ks, s1)" "readable s1"
    using readable_list [of s p] assms(1,2) by (auto simp: fine_def)
  from list_held [OF _ l(1)] assms(1)
  have "fine s1 H" "distinct ks" "\<forall>k \<in> set ks. H k \<noteq> None" "ks = listing H p"
    using l(2) list_sorted [OF _ l(1)] by (auto simp: fine_def listing_def)
  from drain_keys_fine [OF this(1-3), of sent False c] this(4) l(1) show ?thesis
    by (auto simp: drainOnce_def)
qed

end

interpretation fake_read: readable_store "FakePut b" "FakeGet b" "FakeList b" "FakeRemovePrefix b" "\<lambda>f k. Object b k f" fake_ok
  "\<lambda>f. fk_GetErrors f = []"
  for b
  by unfold_locales (auto simp: FakeGet_def FakeList_def next_error_def Let_def Object_def)

end
