(* ===== verification/LogRoundtrip.thy ===== *)
theory LogRoundtrip
  imports TailerRun ChunkReader
begin

text \<open>
  The operator's tailer writes a log, the API server's chunk stream reads it: together they deliver
  what was published, archived or live.
\<close>

section \<open>What the reader sees of the writer's chunks\<close>

definition has_chunks :: "(string \<rightharpoonup> string) \<Rightarrow> RunKeys \<Rightarrow> nat \<Rightarrow> (nat \<Rightarrow> string) \<Rightarrow> bool" where
  "has_chunks H k n chunk \<longleftrightarrow> (\<forall>i < n. H (LogChunk k i) = Some (chunk i)) \<and>
     (\<forall>key. has_prefix (Logs k) key \<and> H key \<noteq> None \<longrightarrow> (\<exists>i < n. key = LogChunk k i))"

lemma has_prefix_LogChunk [simp]: "has_prefix (Logs k) (LogChunk k i)"
  by (simp add: LogChunk_def)

lemma Logs_nonempty [simp]: "Logs k \<noteq> []"
  by (simp add: Logs_def)

lemma listing_chunks:
  assumes "has_chunks H k n chunk" "n \<le> 10 ^ 8"
  shows "listing H (Logs k) = map (LogChunk k) [0..<n]"
proof -
  have "{x \<in> dom H. has_prefix (Logs k) x} = set (map (LogChunk k) [0..<n])"
    using assms(1) by (auto simp: has_chunks_def)
  moreover have "sorted (map (LogChunk k) [0..<n])"
    unfolding sorted_iff_nth_mono using assms(2) LogChunk_order by (auto simp: le_less)
  moreover have "distinct (map (LogChunk k) [0..<n])" by (simp add: distinct_map inj_on_def)
  ultimately show ?thesis unfolding listing_def by (metis sorted_list_of_set.idem_if_sorted_distinct)
qed

lemma unsent_chunks:
  assumes "m \<le> n"
  shows "unsent (map (LogChunk k) [0..<m]) (map (LogChunk k) [0..<n]) = map (LogChunk k) [m..<n]"
proof -
  have "[0..<n] = [0..<m] @ [m..<n]" using assms by (metis le_add_diff_inverse upt_add_eq_append zero_le)
  then show ?thesis by (auto simp: unsent_def filter_map o_def image_iff)
qed

text \<open>One round of the stream on a store with \<open>n\<close> chunks, \<open>m\<close> of them sent.\<close>

lemma stream_round_chunks:
  assumes "fake_read.fine b (pi_writes i s) H" "has_chunks H k n chunk" "n \<le> 10 ^ 8" "m \<le> n"
    and "\<not> pi_cancelled i" "ck_Prefix cs = Logs k" "sm_sent st = map (LogChunk k) [0..<m]"
  shows "\<exists>s'. fake_read.fine b s' H \<and> stream_round (FakeGet b) (FakeList b) collect cs i st s c =
    (after_drain cs i (m < n) (st\<lparr>sm_sent := map (LogChunk k) [0..<n]\<rparr>), s', c @ concat (map chunk [m..<n]))"
proof -
  note new = listing_chunks [OF assms(2,3)] unsent_chunks [OF assms(4), of k]
  have "map (\<lambda>x. the (H x)) (map (LogChunk k) [m..<n]) = map chunk [m..<n]"
    using assms(2) by (auto simp: has_chunks_def)
  then have data: "concat (map (\<lambda>x. the (H x)) (map (LogChunk k) [m..<n])) = concat (map chunk [m..<n])" by (rule arg_cong)
  have some: "(map (LogChunk k) [m..<n] \<noteq> []) = (m < n)" by auto
  have sent: "map (LogChunk k) [0..<m] @ map (LogChunk k) [m..<n] = map (LogChunk k) [0..<n]"
    using assms(4) by (metis le_add_diff_inverse map_append upt_add_eq_append zero_le)
  obtain s' where "fake_read.fine b s' H" "drainOnce (FakeGet b) (FakeList b) collect (Logs k) (map (LogChunk k) [0..<m]) (pi_writes i s) c =
      (Inr (m < n), map (LogChunk k) [0..<n], s', c @ concat (map chunk [m..<n]))"
    using fake_read.drainOnce_fine [OF assms(1), of "Logs k" "map (LogChunk k) [0..<m]" c] unfolding new data sent some by auto
  then show ?thesis using assms(5-7) by (auto simp: stream_round_def)
qed

section \<open>The writer stays in its prefix\<close>

definition own_keys :: "RunKeys \<Rightarrow> nat \<Rightarrow> (string \<rightharpoonup> string) \<Rightarrow> bool" where
  "own_keys k n H \<longleftrightarrow> (\<forall>key. has_prefix (Logs k) key \<and> H key \<noteq> None \<longrightarrow> (\<exists>i < n. key = LogChunk k i))"

lemma own_keys_chunk: "own_keys k n H \<Longrightarrow> own_keys k (Suc n) (H(LogChunk k n \<mapsto> v))"
  by (auto simp: own_keys_def less_Suc_eq)

lemma own_keys_cursor: "own_keys k n H \<Longrightarrow> own_keys k n (H(LogCursor k \<mapsto> v))"
  by (auto simp: own_keys_def has_prefix_iff Logs_def LogCursor_def)

context reliable_store
begin

definition own_inv :: "runLoop \<times> 'a \<Rightarrow> bool" where
  "own_inv ls \<longleftrightarrow> own_keys (tc_Keys (tl_cfg (rl_tailer (fst ls)))) (tl_chunkSeq (rl_tailer (fst ls))) (held (snd ls))"

lemma flushPending_own:
  assumes "ok s" "up s" "own_keys (tc_Keys (tl_cfg t)) (tl_chunkSeq t) (held s)" "flushPending put enc t s = (t', s')"
  shows "own_keys (tc_Keys (tl_cfg t')) (tl_chunkSeq t') (held s')"
proof (cases "tl_pending t = [] \<or> \<not> tc_Uploader (tl_cfg t)")
  case True
  with assms show ?thesis by (auto simp: flushPending_def)
next
  case False
  let ?k = "tc_Keys (tl_cfg t)" and ?n = "tl_chunkSeq t"
  obtain s1 where s1: "put (LogChunk ?k ?n) (tl_pending t) s = (Inr (), s1)" "ok s1" "up s1"
    "held s1 = (held s)(LogChunk ?k ?n \<mapsto> tl_pending t)"
    using put_up [OF assms(1,2)] by metis
  let ?t = "t\<lparr>tl_chunkSeq := ?n + 1, tl_pending := [], tl_uploaded := tl_uploaded t + length (tl_pending t)\<rparr>"
  have t': "t' = ?t" "s' = saveCursor put enc ?t s1"
    using assms(4) False s1(1) by (auto simp: flushPending_def Let_def)
  show ?thesis using saveCursor_ok [OF s1(2,3), of enc ?t] own_keys_chunk [OF assms(3)] own_keys_cursor s1(4) t' by auto
qed

lemma exit_run_own:
  assumes "ok s" "up s" "own_keys (tc_Keys (tl_cfg t)) (tl_chunkSeq t) (held s)"
  shows "own_inv (exit_run put enc t n s)"
proof -
  obtain t1 s1 where f: "flushPending put enc t s = (t1, s1)" by force
  from flushPending_own [OF assms f] show ?thesis by (simp add: exit_run_def finalize_tailer_def f own_inv_def)
qed

lemma run_step_own:
  assumes "log_inv a ls h" "own_inv ls"
  shows "own_inv (run_step put enc ev ls)"
proof -
  obtain l s where ls: "ls = (l, s)" by force
  let ?t = "rl_tailer l"
  have own: "own_keys (tc_Keys (tl_cfg ?t)) (tl_chunkSeq ?t) (held s)" using assms(2) ls by (simp add: own_inv_def)
  have ok: "ok s" "up s" using assms(1) ls by (auto simp: log_inv_def)
  have exit: "own_inv (exit_run put enc t n s)" if "tl_cfg t = tl_cfg ?t" "tl_chunkSeq t = tl_chunkSeq ?t" for t n
    using exit_run_own [OF ok] own that by simp
  have flush: "own_inv (l', snd (flushPending put enc t s))"
    if "rl_tailer l' = fst (flushPending put enc t s)" "tl_cfg t = tl_cfg ?t" "tl_chunkSeq t = tl_chunkSeq ?t" for t l'
    using flushPending_own [OF ok, of t enc] own that by (simp add: own_inv_def prod_eq_iff)
  have same: "own_inv (l', s)" if "tl_cfg (rl_tailer l') = tl_cfg ?t" "tl_chunkSeq (rl_tailer l') = tl_chunkSeq ?t" for l'
    using own that by (simp add: own_inv_def)
  show ?thesis
    by (cases "rl_conn l"; cases ev)
      (auto simp: run_step_def ls open_event_def read_event_def prepare_source_def consume_scan flushPartialLine_def
        Let_def split_beta intro!: exit flush same)
qed

lemma run_events_own: "log_inv a ls h \<Longrightarrow> own_inv ls \<Longrightarrow> own_inv (run_events put enc es ls)"
proof (induction es arbitrary: ls h)
  case (Cons e es)
  from Cons.IH [OF run_step_inv [OF Cons.prems(1)] run_step_own [OF Cons.prems]] show ?case by (simp add: run_events_def)
qed (simp add: run_events_def)

end

section \<open>Written and read back\<close>

lemma saveCursor_GetErrors [simp]: "fk_GetErrors (saveCursor (FakePut b) enc t s) = fk_GetErrors s"
  by (auto simp: saveCursor_def FakePut_def Let_def split: option.split)

lemma flushPending_GetErrors [simp]: "fk_GetErrors (snd (flushPending (FakePut b) enc t s)) = fk_GetErrors s"
  by (auto simp: flushPending_def FakePut_def Let_def split: option.split sum.splits prod.splits)

lemma run_step_GetErrors: "fk_GetErrors (snd (run_step (FakePut b) enc ev ls)) = fk_GetErrors (snd ls)"
  by (cases ls; cases "rl_conn (fst ls)"; cases ev)
    (auto simp: run_step_def open_event_def read_event_def exit_run_def finalize_tailer_def Let_def split_beta)

lemma run_events_GetErrors: "fk_GetErrors (snd (run_events (FakePut b) enc es ls)) = fk_GetErrors (snd ls)"
  by (induction es arbitrary: ls) (simp_all add: run_events_def run_step_GetErrors)

lemma stored_chunks:
  assumes "log_kept H 0 t h" "own_keys (tc_Keys (tl_cfg t)) (tl_chunkSeq t) H"
  shows "has_chunks H (tc_Keys (tl_cfg t)) (tl_chunkSeq t) (\<lambda>i. the (H (LogChunk (tc_Keys (tl_cfg t)) i)))"
  using assms by (auto simp: has_chunks_def log_kept_def own_keys_def)

definition sample_stream :: chunkStream where
  "sample_stream = \<lparr>ck_Store = True, ck_Prefix = Logs ''runs/n/u/'', ck_KeepPolling = False, ck_PollDeadline = 0, ck_HasIsTerminal = False\<rparr>"

definition sample_round :: "Fake poll_input" where
  "sample_round = \<lparr>pi_writes = id, pi_cancelled = False, pi_now = 0, pi_terminal = False, pi_cancelled_in_sleep = False\<rparr>"

definition sample_events :: "run_event list" where
  "sample_events = [EvOpen True, EvRead ''boom'', EvTick, EvReadErr False]"

lemma sample_run:
  "rl_conn (fst (run_events (FakePut ''b'') enc sample_events (Start small_cfg, NewFake))) = Exited"
  "tl_chunkSeq (rl_tailer (fst (run_events (FakePut ''b'') enc sample_events (Start small_cfg, NewFake)))) = 1"
  "emitted (FakePut ''b'') enc sample_events (Start small_cfg, NewFake) = ''boom''"
  by (simp_all add: run_events_def sample_events_def small_cfg_def emits_def loop_eval)



end
