(* ===== verification/Subscribers.thy ===== *)
theory Subscribers
  imports TailerLines
begin

text \<open>
  What a subscriber of a tailer receives: the replay frame and every later frame in order, until it
  is too slow and dropped; and the window in \<open>publish\<close> in which a new subscriber gets bytes twice.
\<close>

section \<open>One subscriber among others\<close>

lemma with_sub_get: "gm_get (with_sub f i m) j = (if j = i then map_option f (gm_get m i) else gm_get m j)"
  by (auto simp: with_sub_def split: option.split)

lemma send_frame_other:
  "i \<noteq> j \<Longrightarrow> gm_get (tl_objs (send_frame fr j t)) i = gm_get (tl_objs t) i \<and> (i \<in> set (tl_subs (send_frame fr j t)) \<longleftrightarrow> i \<in> set (tl_subs t)) \<and>
    tl_cfg (send_frame fr j t) = tl_cfg t"
  by (auto simp: send_frame_def with_sub_get)

lemma send_frames_other:
  "i \<notin> set js \<Longrightarrow> gm_get (tl_objs (fold (send_frame fr) js t)) i = gm_get (tl_objs t) i \<and>
    (i \<in> set (tl_subs (fold (send_frame fr) js t)) \<longleftrightarrow> i \<in> set (tl_subs t)) \<and> tl_cfg (fold (send_frame fr) js t) = tl_cfg t"
  by (induction js arbitrary: t) (auto simp: send_frame_other)

lemma send_frame_cong:
  assumes "gm_get (tl_objs t) i = gm_get (tl_objs u) i" "tl_cfg t = tl_cfg u" "i \<in> set (tl_subs t) \<longleftrightarrow> i \<in> set (tl_subs u)"
  shows "gm_get (tl_objs (send_frame fr i t)) i = gm_get (tl_objs (send_frame fr i u)) i \<and>
    (i \<in> set (tl_subs (send_frame fr i t)) \<longleftrightarrow> i \<in> set (tl_subs (send_frame fr i u)))"
proof -
  have "queue_full t i = queue_full u i" unfolding queue_full_def assms(1,2) ..
  with assms show ?thesis by (simp add: send_frame_def with_sub_get)
qed

lemma send_frames_one:
  assumes "distinct js" "i \<in> set js"
  shows "gm_get (tl_objs (fold (send_frame fr) js t)) i = gm_get (tl_objs (send_frame fr i t)) i \<and>
    (i \<in> set (tl_subs (fold (send_frame fr) js t)) \<longleftrightarrow> i \<in> set (tl_subs (send_frame fr i t)))"
  using assms
proof (induction js arbitrary: t)
  case (Cons j js)
  show ?case
  proof (cases "i = j")
    case True
    with Cons.prems show ?thesis using send_frames_other [of i js fr "send_frame fr j t"] by simp
  next
    case False
    then have "gm_get (tl_objs (send_frame fr i (send_frame fr j t))) i = gm_get (tl_objs (send_frame fr i t)) i"
      "i \<in> set (tl_subs (send_frame fr i (send_frame fr j t))) \<longleftrightarrow> i \<in> set (tl_subs (send_frame fr i t))"
      using send_frame_cong [of "send_frame fr j t" i t fr] send_frame_other [of i j fr t] by auto
    with False Cons.IH [of "send_frame fr j t"] Cons.prems show ?thesis by simp
  qed
qed simp

lemma send_frame_subs: "set (tl_subs (send_frame fr j t)) \<subseteq> set (tl_subs t) \<and> (distinct (tl_subs t) \<longrightarrow> distinct (tl_subs (send_frame fr j t)))"
  by (auto simp: send_frame_def distinct_removeAll)

lemma send_frames_subs:
  "set (tl_subs (fold (send_frame fr) js t)) \<subseteq> set (tl_subs t) \<and> (distinct (tl_subs t) \<longrightarrow> distinct (tl_subs (fold (send_frame fr) js t)))"
proof (induction js arbitrary: t)
  case (Cons j js)
  then show ?case using send_frame_subs [of fr j t] by (simp, meson order_trans)
qed simp

section \<open>What it receives\<close>

datatype sub_event = SubPublish string | SubReceive

text \<open>The bytes a subscriber took out of its channel, and those still in it.\<close>

definition queued :: "Subscription \<Rightarrow> string" where
  "queued s = concat (map fr_Data (sb_frames s))"

definition sub_step :: "nat \<Rightarrow> sub_event \<Rightarrow> Tailer \<times> string \<Rightarrow> Tailer \<times> string" where
  "sub_step i ev x = (case x of (t, got) \<Rightarrow> case ev of
     SubPublish d \<Rightarrow> (publish d t, got)
   | SubReceive \<Rightarrow> (receive i t, got @ (case gm_get (tl_objs t) i of None \<Rightarrow> []
       | Some s \<Rightarrow> (case sb_frames s of [] \<Rightarrow> [] | fr # _ \<Rightarrow> fr_Data fr))))"

fun published_by :: "sub_event list \<Rightarrow> string" where
  "published_by [] = []"
| "published_by (SubPublish d # es) = d @ published_by es"
| "published_by (SubReceive # es) = published_by es"

text \<open>
  While it is registered a subscriber has, taken or queued, all that was replayed and published; once
  dropped, a prefix of it, and the reason tells.
\<close>

definition sub_inv :: "nat \<Rightarrow> string \<Rightarrow> Tailer \<times> string \<Rightarrow> bool" where
  "sub_inv i h x \<longleftrightarrow> (case x of (t, got) \<Rightarrow> distinct (tl_subs t) \<and> (case gm_get (tl_objs t) i of None \<Rightarrow> False
     | Some s \<Rightarrow> if i \<in> set (tl_subs t) then sb_reason s = [] \<and> got @ queued s = h
         else sb_reason s = ReasonOverflow \<and> (\<exists>r. got @ queued s @ r = h)))"

lemma publish_i:
  assumes "d \<noteq> []" "distinct (tl_subs t)"
  shows "if i \<in> set (tl_subs t)
    then gm_get (tl_objs (publish d t)) i = gm_get (tl_objs (send_frame \<lparr>fr_Data = d, fr_Marker = []\<rparr> i t)) i \<and>
      (i \<in> set (tl_subs (publish d t)) \<longleftrightarrow> i \<in> set (tl_subs (send_frame \<lparr>fr_Data = d, fr_Marker = []\<rparr> i t)))
    else gm_get (tl_objs (publish d t)) i = gm_get (tl_objs t) i \<and> i \<notin> set (tl_subs (publish d t))"
proof -
  let ?fr = "\<lparr>fr_Data = d, fr_Marker = []\<rparr>" and ?t = "publish_record d t"
  have eq: "publish d t = fold (send_frame ?fr) (tl_subs t) ?t" using assms by (simp add: publish_def publish_fanout_def publish_record_def)
  have same: "tl_subs ?t = tl_subs t" "tl_objs ?t = tl_objs t" "tl_cfg ?t = tl_cfg t" by (simp_all add: publish_record_def)
  have "gm_get (tl_objs (send_frame ?fr i ?t)) i = gm_get (tl_objs (send_frame ?fr i t)) i"
    "i \<in> set (tl_subs (send_frame ?fr i ?t)) \<longleftrightarrow> i \<in> set (tl_subs (send_frame ?fr i t))"
    using send_frame_cong [of ?t i t ?fr] same by auto
  then show ?thesis unfolding eq
    using send_frames_one [OF assms(2), of i ?fr ?t] send_frames_other [of i "tl_subs t" ?fr ?t] same by auto
qed

lemma sub_step_inv:
  assumes "sub_inv i h x"
  shows "sub_inv i (h @ published_by [ev]) (sub_step i ev x)"
proof -
  obtain t got where x: "x = (t, got)" by force
  from assms x obtain s where s: "gm_get (tl_objs t) i = Some s" and dist: "distinct (tl_subs t)"
    by (auto simp: sub_inv_def split: option.splits)
  show ?thesis
  proof (cases ev)
    case SubReceive
    show ?thesis
    proof (cases "sb_frames s")
      case Nil
      with assms x s SubReceive show ?thesis
        by (auto simp: sub_inv_def sub_step_def receive_def with_sub_get queued_def split: if_splits)
    next
      case (Cons fr frs)
      with assms x s SubReceive show ?thesis
        by (auto simp: sub_inv_def sub_step_def receive_def with_sub_get queued_def split: if_splits)
    qed
  next
    case (SubPublish d)
    show ?thesis
    proof (cases "d = []")
      case True
      with assms x SubPublish show ?thesis by (simp add: sub_step_def publish_def)
    next
      case False
      have "distinct (tl_subs (publish d t))"
        using send_frames_subs [of "\<lparr>fr_Data = d, fr_Marker = []\<rparr>" "tl_subs t" "publish_record d t"] dist False
        by (simp add: publish_def publish_fanout_def publish_record_def)
      with publish_i [OF False dist, of i] assms x s SubPublish show ?thesis
        by (auto simp: sub_inv_def sub_step_def send_frame_def with_sub_get queued_def close_sub_def ReasonOverflow_def split: if_splits)
    qed
  qed
qed

lemma sub_steps_inv: "sub_inv i h x \<Longrightarrow> sub_inv i (h @ published_by es) (fold (sub_step i) es x)"
proof (induction es arbitrary: h x)
  case (Cons e es)
  from Cons.IH [OF sub_step_inv [OF Cons.prems, of e]] show ?case by (cases e) simp_all
qed simp

lemma Subscribe_inv:
  assumes "\<not> tl_stopped t" "distinct (tl_subs t)" "\<forall>i \<in> set (tl_subs t). i < tl_nextSubID t"
  shows "sub_inv (fst (Subscribe t)) (fst (RingSnapshot (tl_ring t))) (snd (Subscribe t), [])"
  using assms by (auto simp: Subscribe_def Let_def sub_inv_def queued_def split_beta)


definition fresh_tailer :: Tailer where
  "fresh_tailer = New \<lparr>tc_Keys = ''runs/n/u/'', tc_Resume = None, tc_Uploader = True, tc_RingBytes = 8, tc_ChunkBytes = 0,
     tc_FlushInterval = 0, tc_SubscriberQueue = 2, tc_ReadBufferBytes = 0, tc_ReopenMaxAttempts = 0, tc_ReopenBackoff = 0\<rparr>"

lemma fresh_tailer_simps:
  "\<not> tl_stopped fresh_tailer" "tl_subs fresh_tailer = []" "tl_objs fresh_tailer = []" "tl_nextSubID fresh_tailer = 0"
  "tl_ring fresh_tailer = newRingBuffer 8" "tc_SubscriberQueue (tl_cfg fresh_tailer) = 2" "tl_pending fresh_tailer = []"
  by (simp_all add: fresh_tailer_def New_def applyDefaults_def or_default_def Let_def)


section \<open>The window in publish\<close>

text \<open>
  The comment on \<open>subsMu\<close> says that it is held during each publish; the ring is written before
  \<open>publish\<close> takes it. A client that subscribes in that window gets the bytes in its replay frame and
  again as the next live frame.
\<close>

theorem subscribe_during_publish_duplicates:
  assumes "\<not> tl_stopped t" "tl_subs t = []" "ring_holds (tl_ring t) []" "d \<noteq> []" "length d \<le> rb_capacity (tl_ring t)"
    and "2 \<le> tc_SubscriberQueue (tl_cfg t)"
  shows "case Subscribe (publish_record d t) of (i, t1) \<Rightarrow>
    \<exists>s. gm_get (tl_objs (publish_fanout d t1)) i = Some s \<and> queued s = d @ d"
proof -
  let ?t = "publish_record d t"
  have "RingSnapshot (tl_ring ?t) = (d, 0, False)"
    using ring.snap_holds [OF ring.holds_app [OF assms(3), of d]] assms(5)
    by (simp add: publish_record_def last_bytes_def capacity_Append)
  moreover have "\<not> tl_stopped ?t" "tl_subs ?t = []" "tl_cfg ?t = tl_cfg t" using assms by (simp_all add: publish_record_def)
  ultimately show ?thesis using assms(4,6)
    by (simp add: Subscribe_def Let_def publish_fanout_def send_frame_def queue_full_def with_sub_get queued_def)
qed

theorem subscribe_during_publish_duplicates_witness:
  "case Subscribe (publish_record ''hi'' fresh_tailer) of (i, t1) \<Rightarrow>
     \<exists>s. gm_get (tl_objs (publish_fanout ''hi'' t1)) i = Some s \<and> queued s = ''hihi''"
  using subscribe_during_publish_duplicates [of fresh_tailer "''hi''"] ring.holds_new [of 8]
  by (simp add: fresh_tailer_simps) (simp add: newRingBuffer_def)

end
