(* ===== verification/Triggers.thy ===== *)
theory Triggers
  imports Cluster GoTime
begin

text \<open>
  TestTriggers, \<open>src/internal/controller/testtrigger_*.go\<close>: a resource event is matched against the
  triggers, each match is a pending gate, and the gate manager fires it (creates a TestRun) once its
  delay is over and the conditions hold. The regular expressions of a selector (\<open>rx\<close>, \<open>None\<close> when one
  does not compile), the label selectors and the RESTMapper are code outside the repository and
  parameters here. An object is what the code reads of it. Instants are counted as in \<open>GoTime\<close>.
\<close>

section \<open>Types\<close>

record GVK =
  gvk_Group :: string
  gvk_Version :: string
  gvk_Kind :: string

type_synonym LabelSelector = string

type_synonym label_match = "LabelSelector \<Rightarrow> (string, string) gomap \<Rightarrow> (string, bool) result"

type_synonym regexp_match = "string \<Rightarrow> string \<Rightarrow> bool option"

text \<open>An entry of \<open>status.conditions\<close>: a map with its text fields, or something else.\<close>

datatype raw_condition = RawOther | RawMap "string option" "string option" "string option" "string option"

record Unstructured =
  un_GVK :: GVK
  un_Namespace :: string
  un_Name :: string
  un_Labels :: "(string, string) gomap"
  un_Conditions :: "raw_condition list option"

record TriggerResourceSelector =
  rs_Name :: string
  rs_NameRegex :: string
  rs_Namespace :: string
  rs_NamespaceRegex :: string
  rs_LabelSelector :: "LabelSelector option"

record TriggerCondition =
  wc_Type :: string
  wc_Status :: string
  wc_Reason :: string
  wc_TTL :: int

record TriggerConditionSpec =
  tcs_Conditions :: "TriggerCondition list"
  tcs_Timeout :: int
  tcs_Delay :: int

record TriggerTestSelector =
  tts_Name :: string
  tts_Namespace :: string
  tts_LabelSelector :: "LabelSelector option"

record TriggerActionParameters =
  tap_Config :: "(string, string) gomap"
  tap_Tags :: "(string, string) gomap"

record TestTriggerSpec =
  tg_Resource :: string
  tg_ResourceSelector :: "TriggerResourceSelector option"
  tg_Event :: string
  tg_ConditionSpec :: "TriggerConditionSpec option"
  tg_ConcurrencyPolicy :: string
  tg_TestSelector :: "TriggerTestSelector option"
  tg_ActionParameters :: "TriggerActionParameters option"

record TestTrigger =
  tt_Name :: string
  tt_Namespace :: string
  tt_Deleting :: bool
  tt_Spec :: TestTriggerSpec
  tt_LastFiredAt :: "instant option"

section \<open>Conditions\<close>

record conditionEntry =
  cn_Type :: string
  cn_Status :: string
  cn_Reason :: string
  cn_LastTransitionTime :: instant

definition or_empty :: "string option \<Rightarrow> string" where
  "or_empty v = (case v of None \<Rightarrow> [] | Some s \<Rightarrow> s)"

text \<open>\<open>time.RFC3339\<close> parses like \<open>RFC3339Nano\<close>: a fraction is accepted in either.\<close>

definition condition_entry :: "raw_condition \<Rightarrow> conditionEntry list" where
  "condition_entry c = (case c of RawOther \<Rightarrow> []
     | RawMap typ status reason ltt \<Rightarrow> [\<lparr>cn_Type = or_empty typ, cn_Status = or_empty status, cn_Reason = or_empty reason,
         cn_LastTransitionTime = (case Option.bind ltt parseRFC3339Nano of None \<Rightarrow> 0 | Some ts \<Rightarrow> ts)\<rparr>])"

definition extractConditions :: "Unstructured option \<Rightarrow> conditionEntry list" where
  "extractConditions obj = (case obj of None \<Rightarrow> []
     | Some u \<Rightarrow> (case un_Conditions u of None \<Rightarrow> [] | Some raw \<Rightarrow> concat (map condition_entry raw)))"

definition findCondition :: "conditionEntry list \<Rightarrow> string \<Rightarrow> conditionEntry option" where
  "findCondition cs typ = find (\<lambda>c. cn_Type c = typ) cs"

definition seconds :: "int \<Rightarrow> int" where "seconds n = n * 1000000000"

definition condition_met :: "conditionEntry list \<Rightarrow> instant \<Rightarrow> TriggerCondition \<Rightarrow> bool" where
  "condition_met got now want = (case findCondition got (wc_Type want) of
     None \<Rightarrow> False
   | Some c \<Rightarrow> cn_Status c = wc_Status want \<and> (wc_Reason want \<noteq> [] \<longrightarrow> cn_Reason c = wc_Reason want) \<and>
       (0 < wc_TTL want \<longrightarrow> \<not> now - cn_LastTransitionTime c < seconds (wc_TTL want)))"

definition ConditionsMet :: "TriggerConditionSpec option \<Rightarrow> Unstructured option \<Rightarrow> instant \<Rightarrow> bool" where
  "ConditionsMet spec obj now = (case spec of None \<Rightarrow> True
     | Some s \<Rightarrow> list_all (condition_met (extractConditions obj) now) (tcs_Conditions s))"

section \<open>Selectors\<close>

datatype selector_error = NameRegexError string | NamespaceRegexError string | LabelSelectorError string

definition regex_ok :: "regexp_match \<Rightarrow> (string \<Rightarrow> selector_error) \<Rightarrow> string \<Rightarrow> string \<Rightarrow> (selector_error, bool) result" where
  "regex_ok rx err pat s = (if pat = [] then Inr True else case rx pat s of None \<Rightarrow> Inl (err pat) | Some b \<Rightarrow> Inr b)"

definition SelectorMatches ::
  "regexp_match \<Rightarrow> label_match \<Rightarrow> TriggerResourceSelector option \<Rightarrow> Unstructured option \<Rightarrow> (selector_error, bool) result" where
  "SelectorMatches rx lm sel obj = (case sel of None \<Rightarrow> Inr True
     | Some s \<Rightarrow> (case obj of None \<Rightarrow> Inr False
       | Some u \<Rightarrow>
           if rs_Name s \<noteq> [] \<and> un_Name u \<noteq> rs_Name s then Inr False
           else rbind (regex_ok rx NameRegexError (rs_NameRegex s) (un_Name u)) (\<lambda>nm.
             if \<not> nm then Inr False
             else if rs_Namespace s \<noteq> [] \<and> un_Namespace u \<noteq> rs_Namespace s then Inr False
             else rbind (regex_ok rx NamespaceRegexError (rs_NamespaceRegex s) (un_Namespace u)) (\<lambda>ns.
               if \<not> ns then Inr False
               else case rs_LabelSelector s of None \<Rightarrow> Inr True
                 | Some l \<Rightarrow> (case lm l (un_Labels u) of Inl e \<Rightarrow> Inl (LabelSelectorError e) | Inr b \<Rightarrow> Inr b)))))"

section \<open>The gate manager\<close>

record gate =
  gt_Trigger :: TestTrigger
  gt_Target :: Unstructured
  gt_EventTime :: instant

record gateKey =
  gk_TriggerKey :: nsname
  gk_TargetGVK :: GVK
  gk_TargetKey :: nsname

datatype outcome_kind = OutcomeFired | OutcomeFireError | OutcomeExpired | OutcomeSkipped

record gateOutcome =
  go_Kind :: outcome_kind
  go_Key :: gateKey
  go_Trigger :: TestTrigger
  go_EventTime :: instant
  go_Message :: string

record gateManager =
  gm_gates :: "(gateKey, gate) gomap"
  gm_outcomes :: "gateOutcome list"
  gm_outcomeLimit :: nat
  gm_fires :: "(outcome_kind, nat) gomap"

definition newGateManager :: gateManager where
  "newGateManager = \<lparr>gm_gates = [], gm_outcomes = [], gm_outcomeLimit = 512, gm_fires = []\<rparr>"

definition gateDelay :: "gate \<Rightarrow> int" where
  "gateDelay g = (case tg_ConditionSpec (tt_Spec (gt_Trigger g)) of None \<Rightarrow> 0 | Some s \<Rightarrow> tcs_Delay s)"

definition gateTimeout :: "gate \<Rightarrow> int" where
  "gateTimeout g = (case tg_ConditionSpec (tt_Spec (gt_Trigger g)) of None \<Rightarrow> 0 | Some s \<Rightarrow> tcs_Timeout s)"

definition trigger_key :: "TestTrigger \<Rightarrow> nsname" where
  "trigger_key t = (tt_Namespace t, tt_Name t)"

definition gateKeyFor :: "gate \<Rightarrow> gateKey" where
  "gateKeyFor g = \<lparr>gk_TriggerKey = trigger_key (gt_Trigger g), gk_TargetGVK = un_GVK (gt_Target g),
     gk_TargetKey = (un_Namespace (gt_Target g), un_Name (gt_Target g))\<rparr>"

definition Enqueue :: "gate \<Rightarrow> gateManager \<Rightarrow> gateManager" where
  "Enqueue g m = m\<lparr>gm_gates := gm_set (gateKeyFor g) g (gm_gates m)\<rparr>"

definition Pending :: "gateManager \<Rightarrow> nat" where
  "Pending m = length (gm_gates m)"

definition Outcomes :: "gateManager \<Rightarrow> gateOutcome list" where
  "Outcomes m = gm_outcomes m"

definition ResetGates :: "gateManager \<Rightarrow> gateManager" where
  "ResetGates m = m\<lparr>gm_gates := [], gm_outcomes := []\<rparr>"

text \<open>Above the limit the older half is dropped.\<close>

definition appendOutcomeLocked :: "gateOutcome \<Rightarrow> gateManager \<Rightarrow> gateManager" where
  "appendOutcomeLocked oc m =
     (let outs = gm_outcomes m @ [oc];
          outs' = (if gm_outcomeLimit m < length outs then drop (length outs div 2) outs else outs)
      in m\<lparr>gm_outcomes := outs', gm_fires := gm_set (go_Kind oc) (gm_at 0 (gm_fires m) (go_Kind oc) + 1) (gm_fires m)\<rparr>)"

definition drop_gate :: "gateKey \<Rightarrow> gateManager \<Rightarrow> gateManager" where
  "drop_gate k m = m\<lparr>gm_gates := gm_del k (gm_gates m)\<rparr>"

definition FireSkipped :: "gateKey \<Rightarrow> TestTrigger \<Rightarrow> instant \<Rightarrow> string \<Rightarrow> gateManager \<Rightarrow> gateManager" where
  "FireSkipped k t eventTime reason m =
     appendOutcomeLocked \<lparr>go_Kind = OutcomeSkipped, go_Key = k, go_Trigger = t, go_EventTime = eventTime, go_Message = reason\<rparr> (drop_gate k m)"

datatype fire_result = FireOK | FireHandled | FireErr string

type_synonym 'w firer = "gate \<Rightarrow> gateManager \<times> 'w \<Rightarrow> fire_result \<times> gateManager \<times> 'w"

text \<open>One gate of \<open>Evaluate\<close>: what becomes of it, \<open>None\<close> when it stays without an outcome.\<close>

definition evaluate_gate :: "'w firer \<Rightarrow> instant \<Rightarrow> gateKey \<Rightarrow> gate \<Rightarrow> gateManager \<times> 'w \<Rightarrow> gateOutcome option \<times> gateManager \<times> 'w" where
  "evaluate_gate fire now k g mw =
     (let delay = seconds (gateDelay g); timeout = seconds (gateTimeout g); elapsed = now - gt_EventTime g;
          outcome = (\<lambda>kind msg. \<lparr>go_Kind = kind, go_Key = k, go_Trigger = gt_Trigger g, go_EventTime = gt_EventTime g,
            go_Message = msg\<rparr>)
      in if elapsed < delay then (None, mw)
         else if ConditionsMet (tg_ConditionSpec (tt_Spec (gt_Trigger g))) (Some (gt_Target g)) now then
           (case fire g mw of (r, m, w) \<Rightarrow>
             (case r of
                FireHandled \<Rightarrow> (None, m, w)
              | FireErr e \<Rightarrow> let oc = outcome OutcomeFireError e in (Some oc, appendOutcomeLocked oc m, w)
              | FireOK \<Rightarrow> let oc = outcome OutcomeFired [] in (Some oc, appendOutcomeLocked oc (drop_gate k m), w)))
         else if 0 < timeout \<and> delay + timeout < elapsed then
           (case mw of (m, w) \<Rightarrow>
             let oc = outcome OutcomeExpired ''conditions not met before timeout''
             in (Some oc, appendOutcomeLocked oc (drop_gate k m), w))
         else (None, mw))"

fun evaluate_gates :: "'w firer \<Rightarrow> instant \<Rightarrow> (gateKey \<times> gate) list \<Rightarrow> gateManager \<times> 'w \<Rightarrow> gateOutcome list \<times> gateManager \<times> 'w" where
  "evaluate_gates fire now [] mw = ([], mw)"
| "evaluate_gates fire now ((k, g) # gs) mw = (case evaluate_gate fire now k g mw of (oc, mw1) \<Rightarrow>
     (case evaluate_gates fire now gs mw1 of (ocs, mw2) \<Rightarrow> ((case oc of None \<Rightarrow> ocs | Some x \<Rightarrow> x # ocs), mw2)))"

definition Evaluate :: "'w firer \<Rightarrow> instant \<Rightarrow> gateManager \<times> 'w \<Rightarrow> gateOutcome list \<times> gateManager \<times> 'w" where
  "Evaluate fire now mw = evaluate_gates fire now (gm_gates (fst mw)) mw"

section \<open>Informers\<close>

record informerManager =
  im_started :: bool
  im_regs :: "(nsname, GVK) gomap"
  im_gvkRuns :: "(GVK, int) gomap"

definition newInformerManager :: informerManager where
  "newInformerManager = \<lparr>im_started = False, im_regs = [], im_gvkRuns = []\<rparr>"

definition releaseLocked :: "GVK \<Rightarrow> informerManager \<Rightarrow> informerManager" where
  "releaseLocked gvk im = (case gm_get (im_gvkRuns im) gvk of None \<Rightarrow> im
     | Some refs \<Rightarrow> if refs - 1 \<le> 0 then im\<lparr>im_gvkRuns := gm_del gvk (im_gvkRuns im)\<rparr>
         else im\<lparr>im_gvkRuns := gm_set gvk (refs - 1) (im_gvkRuns im)\<rparr>)"

text \<open>\<open>mapping\<close>: what \<open>RESTMapping\<close> and the registration of the handlers answer for a GVK.\<close>

definition startInformerLocked :: "(GVK \<Rightarrow> (string, unit) result) \<Rightarrow> GVK \<Rightarrow> informerManager \<Rightarrow> (string, informerManager) result" where
  "startInformerLocked mapping gvk im =
     (if \<not> im_started im then Inl ''informerManager: Start not called before Register''
      else case mapping gvk of Inl e \<Rightarrow> Inl e
        | Inr _ \<Rightarrow> Inr (im\<lparr>im_gvkRuns := gm_set gvk 0 (im_gvkRuns im)\<rparr>))"

definition Register ::
  "(GVK \<Rightarrow> (string, unit) result) \<Rightarrow> nsname \<Rightarrow> GVK \<Rightarrow> informerManager \<Rightarrow> (string, unit) result \<times> informerManager" where
  "Register mapping key gvk im =
     (if gm_get (im_regs im) key = Some gvk then (Inr (), im)
      else let im1 = (case gm_get (im_regs im) key of None \<Rightarrow> im
             | Some prev \<Rightarrow> (releaseLocked prev im)\<lparr>im_regs := gm_del key (im_regs im)\<rparr>)
           in case (if gm_has (im_gvkRuns im1) gvk then Inr im1 else startInformerLocked mapping gvk im1) of
                Inl e \<Rightarrow> (Inl e, im1)
              | Inr im2 \<Rightarrow> (Inr (), im2\<lparr>im_gvkRuns := gm_set gvk (gm_at 0 (im_gvkRuns im2) gvk + 1) (im_gvkRuns im2),
                  im_regs := gm_set key gvk (im_regs im2)\<rparr>))"

definition Unregister :: "nsname \<Rightarrow> informerManager \<Rightarrow> informerManager" where
  "Unregister key im = (case gm_get (im_regs im) key of None \<Rightarrow> im
     | Some gvk \<Rightarrow> releaseLocked gvk (im\<lparr>im_regs := gm_del key (im_regs im)\<rparr>))"

definition StartInformers :: "informerManager \<Rightarrow> informerManager" where
  "StartInformers im = im\<lparr>im_started := True\<rparr>"

definition StopInformers :: "informerManager \<Rightarrow> informerManager" where
  "StopInformers im = im\<lparr>im_regs := [], im_gvkRuns := []\<rparr>"

section \<open>The controller\<close>

record TriggerWorld =
  tw_World :: World
  tw_Triggers :: "(nsname, TestTrigger) gomap"
  tw_Events :: "(nsname \<times> string) list"

text \<open>
  What the controller is wired with: the RESTMapper, the selectors, and how the API server completes
  a \<open>generateName\<close>.
\<close>

record TriggerDeps =
  td_KindsFor :: "string \<Rightarrow> (string, GVK list) result"
  td_RESTMapping :: "GVK \<Rightarrow> (string, unit) result"
  td_Regexp :: regexp_match
  td_LabelMatch :: label_match
  td_Generate :: "string \<Rightarrow> World \<Rightarrow> string"

definition SourceTrigger :: string where "SourceTrigger = ''trigger''"
definition TriggerConcurrencyForbid :: string where "TriggerConcurrencyForbid = ''forbid''"
definition LabelTriggerName :: string where "LabelTriggerName = ''kubetest.io/trigger-name''"
definition LabelTriggerFor :: string where "LabelTriggerFor = ''kubetest.io/triggered-for-test''"

definition shortcutDeploymentGVK :: GVK where
  "shortcutDeploymentGVK = \<lparr>gvk_Group = ''apps'', gvk_Version = ''v1'', gvk_Kind = ''Deployment''\<rparr>"

definition shortcutPodGVK :: GVK where
  "shortcutPodGVK = \<lparr>gvk_Group = [], gvk_Version = ''v1'', gvk_Kind = ''Pod''\<rparr>"

definition resolveGVK :: "TriggerDeps \<Rightarrow> string \<Rightarrow> (string, GVK) result" where
  "resolveGVK d resource =
     (let s = to_lower (trim_space resource)
      in if s = [] then Inl ''spec.resource is empty''
         else if s \<in> {''deployment'', ''deployments''} then Inr shortcutDeploymentGVK
         else if s \<in> {''pod'', ''pods''} then Inr shortcutPodGVK
         else case td_KindsFor d s of Inl e \<Rightarrow> Inl e
           | Inr [] \<Rightarrow> Inl ''no GVK''
           | Inr (k # _) \<Rightarrow> Inr k)"

text \<open>An operation of the run controller's world inside the trigger controller's.\<close>

definition on_world :: "'a M \<Rightarrow> TriggerWorld \<Rightarrow> (go_error, 'a) result \<times> TriggerWorld" where
  "on_world m w = (case m (tw_World w) of (r, w') \<Rightarrow> (r, w\<lparr>tw_World := w'\<rparr>))"

definition record_event :: "TestTrigger \<Rightarrow> string \<Rightarrow> TriggerWorld \<Rightarrow> TriggerWorld" where
  "record_event t reason w = w\<lparr>tw_Events := tw_Events w @ [(trigger_key t, reason)]\<rparr>"

definition matching_tests :: "TriggerDeps \<Rightarrow> string \<Rightarrow> LabelSelector \<Rightarrow> World \<Rightarrow> Test list" where
  "matching_tests d ns l w = filter (\<lambda>t. t_Namespace t = ns \<and> td_LabelMatch d l (t_Labels t) = Inr True \<and>
     (t_Namespace t, t_Name t) \<notin> set (w_Lag w)) (map snd (w_Tests w))"

definition resolveTestTarget :: "TriggerDeps \<Rightarrow> TestTrigger \<Rightarrow> (string \<times> string) M" where
  "resolveTestTarget d t = (case tg_TestSelector (tt_Spec t) of
     None \<Rightarrow> mfail (GoErr ''spec.testSelector is required to fire a TestRun'')
   | Some sel \<Rightarrow>
       let ns = (if tts_Namespace sel = [] then tt_Namespace t else tts_Namespace sel)
       in if tts_Name sel \<noteq> [] then mret (tts_Name sel, ns)
          else case tts_LabelSelector sel of
            None \<Rightarrow> mfail (GoErr ''spec.testSelector must set name or labelSelector'')
          | Some l \<Rightarrow> (case td_LabelMatch d l [] of
              Inl e \<Rightarrow> mfail (GoErr e)
            | Inr _ \<Rightarrow> mbind api_read (\<lambda>_. mbind (mget (matching_tests d ns l)) (\<lambda>ts. case ts of
                [] \<Rightarrow> mfail (GoErr ''no Tests match testSelector.labelSelector in namespace'')
              | test # _ \<Rightarrow> mret (t_Name test, ns)))))"

definition hasActiveRunForTest :: "string \<Rightarrow> string \<Rightarrow> bool M" where
  "hasActiveRunForTest ns testName = mbind api_read (\<lambda>_. mget (\<lambda>w. list_ex (\<lambda>r. r_Namespace r = ns \<and>
     run_key r \<notin> set (w_Lag w) \<and> rs_TestRef (r_Spec r) = testName \<and> \<not> IsTerminalPhase (run_phase r)) (map snd (w_Runs w))))"

definition buildTestRun :: "gate \<Rightarrow> string \<Rightarrow> string \<Rightarrow> string \<Rightarrow> TestRun" where
  "buildTestRun g name testName testNS =
     (let p = tg_ActionParameters (tt_Spec (gt_Trigger g))
      in \<lparr>r_Name = name, r_Namespace = testNS, r_UID = [],
          r_Labels = [(LabelTriggerName, tt_Name (gt_Trigger g)), (LabelTriggerFor, testName)],
          r_CreationTimestamp = 0, r_DeletionTimestamp = None, r_Finalizers = [],
          r_Spec = \<lparr>rs_TestRef = testName, rs_Config = (case p of None \<Rightarrow> [] | Some a \<Rightarrow> tap_Config a), rs_Pod = None,
            rs_Tags = (case p of None \<Rightarrow> [] | Some a \<Rightarrow> tap_Tags a), rs_Source = SourceTrigger, rs_Abort = None, rs_NotBefore = None\<rparr>,
          r_Status = zero_TestRunStatus\<rparr>)"

definition updateTriggerLastFiredAt :: "instant \<Rightarrow> TestTrigger \<Rightarrow> TriggerWorld \<Rightarrow> TriggerWorld" where
  "updateTriggerLastFiredAt now t w = (case on_world api_read w of
     (Inl _, w1) \<Rightarrow> w1
   | (Inr _, w1) \<Rightarrow> (case gm_get (tw_Triggers w1) (trigger_key t) of None \<Rightarrow> w1
       | Some fresh \<Rightarrow> (case on_world api_write w1 of
           (Inl _, w2) \<Rightarrow> w2
         | (Inr _, w2) \<Rightarrow> w2\<lparr>tw_Triggers := gm_set (trigger_key t) (fresh\<lparr>tt_LastFiredAt := Some now\<rparr>) (tw_Triggers w2)\<rparr>)))"

definition error_text :: "go_error \<Rightarrow> string" where
  "error_text e = (case e of GoErr s \<Rightarrow> s | GoAPI AConflict \<Rightarrow> ''conflict'' | GoAPI ANotFound \<Rightarrow> ''not found''
     | GoAPI AAlreadyExists \<Rightarrow> ''already exists'' | GoAPI (AInvalid s) \<Rightarrow> s | GoAPI (AOther s) \<Rightarrow> s)"

definition create_triggered :: "TriggerDeps \<Rightarrow> instant \<Rightarrow> gate \<Rightarrow> string \<Rightarrow> string \<Rightarrow> gateManager \<times> TriggerWorld \<Rightarrow>
  fire_result \<times> gateManager \<times> TriggerWorld" where
  "create_triggered d now g testName ns mw = (case mw of (m, w) \<Rightarrow>
     let run = buildTestRun g (td_Generate d (testName @ ''-trigger-'') (tw_World w)) testName ns
     in case on_world (create_run run) w of
          (Inl e, w1) \<Rightarrow> (FireErr (error_text e), m, w1)
        | (Inr _, w1) \<Rightarrow> (FireOK, m, updateTriggerLastFiredAt now (gt_Trigger g) (record_event (gt_Trigger g) ''Fired'' w1)))"

definition fireTestRun :: "TriggerDeps \<Rightarrow> instant \<Rightarrow> TriggerWorld firer" where
  "fireTestRun d now g mw = (case mw of (m, w) \<Rightarrow>
     (case on_world (resolveTestTarget d (gt_Trigger g)) w of
        (Inl e, w1) \<Rightarrow> (FireErr (error_text e), m, record_event (gt_Trigger g) ''TestSelectorError'' w1)
      | (Inr (testName, ns), w1) \<Rightarrow>
          if to_lower (tg_ConcurrencyPolicy (tt_Spec (gt_Trigger g))) = TriggerConcurrencyForbid then
            (case on_world (hasActiveRunForTest ns testName) w1 of
               (Inl e, w2) \<Rightarrow> (FireErr (error_text e), m, w2)
             | (Inr active, w2) \<Rightarrow>
                 if active then (FireHandled, FireSkipped (gateKeyFor g) (gt_Trigger g) (gt_EventTime g) ''concurrencyPolicy=forbid'' m,
                   record_event (gt_Trigger g) ''Skipped'' w2)
                 else create_triggered d now g testName ns (m, w2))
          else create_triggered d now g testName ns (m, w1)))"

record informerEvent =
  ie_Kind :: string
  ie_GVK :: GVK
  ie_Obj :: Unstructured

definition listMatchingTriggers :: "TriggerDeps \<Rightarrow> GVK \<Rightarrow> string \<Rightarrow> TriggerWorld \<Rightarrow> (go_error, TestTrigger list) result \<times> TriggerWorld" where
  "listMatchingTriggers d gvk event w = (case on_world api_read w of (Inl e, w1) \<Rightarrow> (Inl e, w1)
     | (Inr _, w1) \<Rightarrow> (Inr (filter (\<lambda>t. tg_Event (tt_Spec t) = event \<and> resolveGVK d (tg_Resource (tt_Spec t)) = Inr gvk)
         (map snd (tw_Triggers w1))), w1))"

definition handle_trigger :: "TriggerDeps \<Rightarrow> instant \<Rightarrow> informerEvent \<Rightarrow> TestTrigger \<Rightarrow> gateManager \<times> TriggerWorld \<Rightarrow> gateManager \<times> TriggerWorld" where
  "handle_trigger d now ev t mw = (case mw of (m, w) \<Rightarrow>
     (case SelectorMatches (td_Regexp d) (td_LabelMatch d) (tg_ResourceSelector (tt_Spec t)) (Some (ie_Obj ev)) of
        Inl _ \<Rightarrow> (m, record_event t ''SelectorError'' w)
      | Inr False \<Rightarrow> (m, w)
      | Inr True \<Rightarrow> (Enqueue \<lparr>gt_Trigger = t, gt_Target = ie_Obj ev, gt_EventTime = now\<rparr> m, w)))"

definition handleEvent :: "TriggerDeps \<Rightarrow> instant \<Rightarrow> informerEvent \<Rightarrow> gateManager \<times> TriggerWorld \<Rightarrow> gateManager \<times> TriggerWorld" where
  "handleEvent d now ev mw = (case listMatchingTriggers d (ie_GVK ev) (ie_Kind ev) (snd mw) of
     (Inl _, w) \<Rightarrow> (fst mw, w)
   | (Inr ts, w) \<Rightarrow> fold (handle_trigger d now ev) ts (fst mw, w))"

definition triggerRequeue :: duration where "triggerRequeue = 30 * 1000000000"

definition ReconcileTrigger ::
  "TriggerDeps \<Rightarrow> nsname \<Rightarrow> informerManager \<times> TriggerWorld \<Rightarrow> (go_error, duration) result \<times> informerManager \<times> TriggerWorld" where
  "ReconcileTrigger d key imw = (case imw of (im, w) \<Rightarrow>
     (case on_world api_read w of (Inl e, w1) \<Rightarrow> (Inl e, im, w1)
      | (Inr _, w1) \<Rightarrow> (case gm_get (tw_Triggers w1) key of
          None \<Rightarrow> (Inr 0, Unregister key im, w1)
        | Some t \<Rightarrow>
            if tt_Deleting t then (Inr 0, Unregister key im, w1)
            else (case resolveGVK d (tg_Resource (tt_Spec t)) of
              Inl _ \<Rightarrow> (Inr triggerRequeue, im, record_event t ''InvalidResource'' w1)
            | Inr gvk \<Rightarrow> (case Register (td_RESTMapping d) key gvk im of
                (Inl e, im1) \<Rightarrow> (Inl (GoErr e), im1, record_event t ''InformerRegistration'' w1)
              | (Inr _, im1) \<Rightarrow> (Inr 0, im1, w1))))))"

text \<open>The loop of \<open>triggerRunnable\<close>: events and ticks, one at a time.\<close>

datatype trigger_event = ResourceEvent instant informerEvent | GateTick instant

definition runnable_step :: "TriggerDeps \<Rightarrow> trigger_event \<Rightarrow> gateManager \<times> TriggerWorld \<Rightarrow> gateManager \<times> TriggerWorld" where
  "runnable_step d e mw = (case e of
     ResourceEvent now ev \<Rightarrow> handleEvent d now ev mw
   | GateTick now \<Rightarrow> snd (Evaluate (fireTestRun d now) now mw))"

end
