(* ===== verification/TriggerGates.thy ===== *)
theory TriggerGates
  imports Triggers
begin

text \<open>
  Properties of the trigger controller: one informer per watched kind, what \<open>Evaluate\<close> decides of every
  pending gate, what firing does, and two ways in which a gate does not end as documented.
\<close>

section \<open>Informers are counted\<close>

definition watchers :: "GVK \<Rightarrow> (nsname, GVK) gomap \<Rightarrow> nat" where
  "watchers gvk regs = length (filter (\<lambda>(_, g). g = gvk) regs)"

lemma watchers_set:
  assumes "gm_ok regs" "gm_get regs key = None"
  shows "watchers gvk (gm_set key g regs) = watchers gvk regs + (if g = gvk then 1 else 0)"
  using assms by (induction regs) (auto simp: watchers_def gm_set_def gm_ok_def split: if_splits)

lemma watchers_del:
  assumes "gm_ok regs" "gm_get regs key = Some g"
  shows "watchers gvk regs = watchers gvk (gm_del key regs) + (if g = gvk then 1 else 0)"
  using assms
proof (induction regs)
  case (Cons e regs)
  obtain k v where e: "e = (k, v)" by (cases e)
  show ?case
  proof (cases "k = key")
    case True
    then have "gm_del key regs = regs"
      using Cons.prems(1) e by (simp add: gm_ok_def gm_del_def delete_idem)
    then show ?thesis using True Cons.prems e by (auto simp: watchers_def gm_del_def)
  next
    case False
    then show ?thesis using Cons e by (auto simp: watchers_def gm_del_def gm_ok_def)
  qed
qed simp

definition refs_ok :: "informerManager \<Rightarrow> bool" where
  "refs_ok im \<longleftrightarrow> gm_ok (im_regs im) \<and> (\<forall>gvk. gm_get (im_gvkRuns im) gvk =
     (if watchers gvk (im_regs im) = 0 then None else Some (int (watchers gvk (im_regs im)))))"

text \<open>Taking a registration away and releasing its kind keeps the count.\<close>

lemma refs_ok_release:
  assumes "refs_ok im" "gm_get (im_regs im) key = Some g"
  shows "refs_ok ((releaseLocked g im)\<lparr>im_regs := gm_del key (im_regs im)\<rparr>)"
proof -
  note w = watchers_del [OF _ assms(2)]
  show ?thesis using assms w by (auto simp: refs_ok_def releaseLocked_def split: option.splits if_splits)
qed

lemma refs_ok_add:
  assumes "refs_ok im" "gm_get (im_regs im) key = None"
    and "im2 = im \<and> gm_has (im_gvkRuns im) gvk \<or> im2 = im\<lparr>im_gvkRuns := gm_set gvk 0 (im_gvkRuns im)\<rparr> \<and> \<not> gm_has (im_gvkRuns im) gvk"
  shows "refs_ok (im2\<lparr>im_gvkRuns := gm_set gvk (gm_at 0 (im_gvkRuns im2) gvk + 1) (im_gvkRuns im2), im_regs := gm_set key gvk (im_regs im2)\<rparr>)"
proof -
  have get: "gm_get (im_gvkRuns im) g = (if watchers g (im_regs im) = 0 then None else Some (int (watchers g (im_regs im))))" for g
    using assms(1) by (simp add: refs_ok_def)
  have "gm_at 0 (im_gvkRuns im2) gvk = int (watchers gvk (im_regs im))"
    using assms(3) get [of gvk] by (auto simp: gm_at_def gm_has_def split: if_splits)
  moreover have "gm_get (im_gvkRuns im2) g = gm_get (im_gvkRuns im) g" if "g \<noteq> gvk" for g using assms(3) that by auto
  moreover have "im_regs im2 = im_regs im" using assms(3) by auto
  ultimately show ?thesis
    using assms(1,2) get watchers_set [of "im_regs im" key _ gvk] unfolding refs_ok_def by (simp add: add.commute)
qed

lemma refs_ok_Register:
  assumes "refs_ok im"
  shows "refs_ok (snd (Register mapping key gvk im))"
proof (cases "gm_get (im_regs im) key = Some gvk")
  case True
  then show ?thesis using assms by (simp add: Register_def)
next
  case False
  define im1 where "im1 = (case gm_get (im_regs im) key of None \<Rightarrow> im
    | Some prev \<Rightarrow> (releaseLocked prev im)\<lparr>im_regs := gm_del key (im_regs im)\<rparr>)"
  have im1: "refs_ok im1" "gm_get (im_regs im1) key = None"
    using assms refs_ok_release by (auto simp: im1_def split: option.splits)
  show ?thesis using False im1 refs_ok_add [OF im1]
    by (auto simp: Register_def im1_def [symmetric] startInformerLocked_def split: sum.splits)
qed

lemma refs_ok_Unregister: "refs_ok im \<Longrightarrow> refs_ok (Unregister key im)"
proof (cases "gm_get (im_regs im) key")
  case (Some g)
  assume "refs_ok im"
  have "Unregister key im = (releaseLocked g im)\<lparr>im_regs := gm_del key (im_regs im)\<rparr>"
    using Some by (simp add: Unregister_def releaseLocked_def split: option.split)
  then show ?thesis using refs_ok_release [OF \<open>refs_ok im\<close> Some] by simp
qed (simp add: Unregister_def)

datatype informer_op = OpStart | OpStop | OpRegister nsname GVK | OpUnregister nsname

definition informer_step :: "(GVK \<Rightarrow> (string, unit) result) \<Rightarrow> informer_op \<Rightarrow> informerManager \<Rightarrow> informerManager" where
  "informer_step mapping op im = (case op of OpStart \<Rightarrow> StartInformers im | OpStop \<Rightarrow> StopInformers im
     | OpRegister key gvk \<Rightarrow> snd (Register mapping key gvk im) | OpUnregister key \<Rightarrow> Unregister key im)"

lemma refs_ok_step: "refs_ok im \<Longrightarrow> refs_ok (informer_step mapping op im)"
  using refs_ok_Register refs_ok_Unregister
  by (cases op) (auto simp: informer_step_def StartInformers_def StopInformers_def refs_ok_def watchers_def)

text \<open>
  One informer per watched kind: after any sequence of starts, stops, registrations (also ones
  that change a trigger's kind or fail) and removals, an informer runs for a kind exactly when some
  trigger is registered for it, and its reference count is the number of those triggers, so none
  leaks and none is stopped too early.
\<close>

theorem informers_counted:
  "gm_get (im_gvkRuns (fold (informer_step mapping) ops newInformerManager)) gvk =
     (let n = watchers gvk (im_regs (fold (informer_step mapping) ops newInformerManager))
      in if n = 0 then None else Some (int n))"
proof -
  have start: "refs_ok newInformerManager" by (simp add: refs_ok_def newInformerManager_def watchers_def)
  have "refs_ok im \<Longrightarrow> refs_ok (fold (informer_step mapping) ops im)" for im
    by (induction ops arbitrary: im) (simp_all add: refs_ok_step)
  from this [OF start] show ?thesis by (simp add: refs_ok_def Let_def)
qed

section \<open>What becomes of a gate\<close>

definition due :: "instant \<Rightarrow> gate \<Rightarrow> bool" where
  "due now g \<longleftrightarrow> seconds (gateDelay g) \<le> now - gt_EventTime g"

definition met :: "instant \<Rightarrow> gate \<Rightarrow> bool" where
  "met now g \<longleftrightarrow> ConditionsMet (tg_ConditionSpec (tt_Spec (gt_Trigger g))) (Some (gt_Target g)) now"

definition overdue :: "instant \<Rightarrow> gate \<Rightarrow> bool" where
  "overdue now g \<longleftrightarrow> 0 < gateTimeout g \<and> seconds (gateDelay g) + seconds (gateTimeout g) < now - gt_EventTime g"

text \<open>The verdict on one gate: its outcome, if any, and whether it is still pending.\<close>

definition decided :: "instant \<Rightarrow> gate \<Rightarrow> outcome_kind option \<Rightarrow> bool \<Rightarrow> bool" where
  "decided now g kind pending \<longleftrightarrow>
     (if \<not> due now g then kind = None \<and> pending
      else if met now g then kind = Some OutcomeFired \<and> \<not> pending \<or> kind = Some OutcomeFireError \<and> pending \<or> kind = None \<and> \<not> pending
      else if overdue now g then kind = Some OutcomeExpired \<and> \<not> pending
      else kind = None \<and> pending)"

definition gates_ok :: "(gateKey, gate) gomap \<Rightarrow> bool" where
  "gates_ok gs \<longleftrightarrow> gm_ok gs \<and> (\<forall>(k, g) \<in> set gs. k = gateKeyFor g)"

lemma outcome_gates [simp]: "gm_gates (appendOutcomeLocked oc m) = gm_gates m"
  by (simp add: appendOutcomeLocked_def Let_def)

lemma drop_gate_gates [simp]: "gm_gates (drop_gate k m) = gm_del k (gm_gates m)"
  by (simp add: drop_gate_def)

lemma gates_ok_Enqueue: "gates_ok (gm_gates m) \<Longrightarrow> gates_ok (gm_gates (Enqueue g m))"
proof -
  assume "gates_ok (gm_gates m)"
  moreover have "set (gm_set k v gs) \<subseteq> insert (k, v) (set gs)" for k v and gs :: "(gateKey, gate) gomap"
    unfolding gm_set_def by (induction gs) auto
  ultimately show ?thesis unfolding gates_ok_def Enqueue_def by (fastforce simp: gm_ok_set)
qed

section \<open>The interface of a firer\<close>

text \<open>What \<open>Evaluate\<close> relies on: a firer touches no pending gate, save that it removes the one it handled.\<close>

locale gate_firer =
  fixes fire :: "'w firer"
  assumes fire_gates: "fire g (m, w) = (r, m', w') \<Longrightarrow>
    gm_gates m' = (if r = FireHandled then gm_del (gateKeyFor g) (gm_gates m) else gm_gates m)"
begin

lemma evaluate_gate_decides:
  assumes "evaluate_gate fire now k g (m, w) = (oc, m', w')" "gm_get (gm_gates m) k = Some g" "k = gateKeyFor g"
  shows "decided now g (map_option go_Kind oc) (gm_get (gm_gates m') k = Some g) \<and> gm_get (gm_gates m') k \<in> {None, Some g} \<and>
    (\<forall>j. j \<noteq> k \<longrightarrow> gm_get (gm_gates m') j = gm_get (gm_gates m) j) \<and> (\<forall>x. oc = Some x \<longrightarrow> go_Key x = k)"
proof -
  obtain r m1 w1 where f: "fire g (m, w) = (r, m1, w1)" by (cases "fire g (m, w)") auto
  have sec: "0 < seconds (gateTimeout g) \<longleftrightarrow> 0 < gateTimeout g" by (simp add: seconds_def)
  show ?thesis
  proof (cases "due now g \<and> met now g")
    case True
    then show ?thesis using assms f fire_gates [OF f]
      by (cases r) (auto simp: evaluate_gate_def Let_def due_def met_def decided_def)
  next
    case False
    then show ?thesis using assms sec
      by (auto simp: evaluate_gate_def Let_def due_def met_def overdue_def decided_def not_less split: if_splits)
  qed
qed

lemma evaluate_gates_decides:
  assumes "evaluate_gates fire now gs (m, w) = (ocs, m', w')" "distinct (map fst gs)" "\<forall>(k, g) \<in> set gs. k = gateKeyFor g"
    and "\<forall>(k, g) \<in> set gs. gm_get (gm_gates m) k = Some g"
  shows "(\<forall>(k, g) \<in> set gs. decided now g (map_option go_Kind (find (\<lambda>x. go_Key x = k) ocs)) (gm_get (gm_gates m') k = Some g) \<and>
      length (filter (\<lambda>x. go_Key x = k) ocs) \<le> 1 \<and> gm_get (gm_gates m') k \<in> {None, Some g}) \<and>
    (\<forall>k. k \<notin> fst ` set gs \<longrightarrow> gm_get (gm_gates m') k = gm_get (gm_gates m) k) \<and> (\<forall>x \<in> set ocs. go_Key x \<in> fst ` set gs)"
  using assms
proof (induction gs arbitrary: m w ocs)
  case (Cons e gs)
  obtain k g where e: "e = (k, g)" by (cases e)
  obtain oc m1 w1 where one: "evaluate_gate fire now k g (m, w) = (oc, m1, w1)" by (cases "evaluate_gate fire now k g (m, w)") auto
  obtain ocs1 where rest: "evaluate_gates fire now gs (m1, w1) = (ocs1, m', w')"
    and ocs: "ocs = (case oc of None \<Rightarrow> ocs1 | Some x \<Rightarrow> x # ocs1)"
    using Cons.prems(1) e one by (auto split: prod.splits)
  have k: "gm_get (gm_gates m) k = Some g" "k = gateKeyFor g" using Cons.prems e by auto
  note d = evaluate_gate_decides [OF one k]
  have fresh: "k \<notin> fst ` set gs" using Cons.prems(2) e by auto
  have "\<forall>(j, h) \<in> set gs. gm_get (gm_gates m1) j = Some h"
    using Cons.prems(4) e d fresh by (force simp: image_iff)
  note IH = Cons.IH [OF rest _ _ this]
  have d': "distinct (map fst gs)" "\<forall>(j, h) \<in> set gs. j = gateKeyFor h" using Cons.prems e by auto
  note IH = IH [OF d']
  have none: "filter (\<lambda>x. go_Key x = k) ocs1 = []" "find (\<lambda>x. go_Key x = k) ocs1 = None"
    using IH fresh by (auto simp: filter_empty_conv find_None_iff)
  have later: "gm_get (gm_gates m') k = gm_get (gm_gates m1) k" using IH fresh by blast
  have this_one: "decided now g (map_option go_Kind (find (\<lambda>x. go_Key x = k) ocs)) (gm_get (gm_gates m') k = Some g) \<and>
      length (filter (\<lambda>x. go_Key x = k) ocs) \<le> 1 \<and> gm_get (gm_gates m') k \<in> {None, Some g}"
    using d later none ocs by (cases oc) auto
  have others: "find (\<lambda>x. go_Key x = j) ocs = find (\<lambda>x. go_Key x = j) ocs1 \<and>
      filter (\<lambda>x. go_Key x = j) ocs = filter (\<lambda>x. go_Key x = j) ocs1" if "j \<noteq> k" for j
    using that d ocs by (cases oc) auto
  have "decided now h (map_option go_Kind (find (\<lambda>x. go_Key x = j) ocs)) (gm_get (gm_gates m') j = Some h) \<and>
      length (filter (\<lambda>x. go_Key x = j) ocs) \<le> 1 \<and> gm_get (gm_gates m') j \<in> {None, Some h}" if "(j, h) \<in> set (e # gs)" for j h
  proof (cases "(j, h) = e")
    case True
    then show ?thesis using this_one e by simp
  next
    case False
    with that have "(j, h) \<in> set gs" by simp
    moreover from this have "j \<noteq> k" using fresh by force
    ultimately show ?thesis using IH others by auto
  qed
  moreover have "\<forall>j. j \<notin> fst ` set (e # gs) \<longrightarrow> gm_get (gm_gates m') j = gm_get (gm_gates m) j" using IH d e by auto
  moreover have "\<forall>x \<in> set ocs. go_Key x \<in> fst ` set (e # gs)" using IH d e ocs by (cases oc) auto
  ultimately show ?case by blast
qed simp

lemma Evaluate_decides_gates:
  assumes "Evaluate fire now (m, w) = (ocs, m', w')" "gates_ok (gm_gates m)" "gm_get (gm_gates m) k = Some g"
  shows "decided now g (map_option go_Kind (find (\<lambda>x. go_Key x = k) ocs)) (gm_get (gm_gates m') k = Some g) \<and>
    length (filter (\<lambda>x. go_Key x = k) ocs) \<le> 1 \<and> gm_get (gm_gates m') k \<in> {None, Some g}"
proof -
  have "(k, g) \<in> set (gm_gates m)" using assms(3) by (rule map_of_SomeD)
  moreover have "\<forall>(j, h) \<in> set (gm_gates m). gm_get (gm_gates m) j = Some h"
    using assms(2) by (auto simp: gates_ok_def gm_ok_def intro: map_of_is_SomeI)
  ultimately show ?thesis
    using evaluate_gates_decides [OF assms(1) [unfolded Evaluate_def fst_conv]] assms(2) by (fastforce simp: gates_ok_def gm_ok_def)
qed

end

section \<open>Firing\<close>

lemma create_triggered_gates: "create_triggered d now g n ns (m, w) = (r, m', w') \<Longrightarrow> m' = m \<and> r \<noteq> FireHandled"
  by (auto simp: create_triggered_def Let_def split: prod.splits sum.splits)

lemma fireTestRun_gates:
  "fireTestRun d now g (m, w) = (r, m', w') \<Longrightarrow>
    gm_gates m' = (if r = FireHandled then gm_del (gateKeyFor g) (gm_gates m) else gm_gates m)"
  by (auto simp: fireTestRun_def FireSkipped_def split: prod.splits sum.splits if_splits dest!: create_triggered_gates)

interpretation trigger_firer: gate_firer "fireTestRun d now" for d now
  by unfold_locales (rule fireTestRun_gates)


definition sample_trigger :: "TriggerConditionSpec option \<Rightarrow> TriggerTestSelector option \<Rightarrow> TestTrigger" where
  "sample_trigger cs sel = \<lparr>tt_Name = ''t'', tt_Namespace = ''n'', tt_Deleting = False,
     tt_Spec = \<lparr>tg_Resource = ''deployment'', tg_ResourceSelector = None, tg_Event = ''created'', tg_ConditionSpec = cs,
       tg_ConcurrencyPolicy = [], tg_TestSelector = sel, tg_ActionParameters = None\<rparr>, tt_LastFiredAt = None\<rparr>"

definition sample_target :: Unstructured where
  "sample_target = \<lparr>un_GVK = shortcutDeploymentGVK, un_Namespace = ''n'', un_Name = ''web'', un_Labels = [], un_Conditions = None\<rparr>"

definition sample_gate :: "TriggerConditionSpec option \<Rightarrow> TriggerTestSelector option \<Rightarrow> gate" where
  "sample_gate cs sel = \<lparr>gt_Trigger = sample_trigger cs sel, gt_Target = sample_target, gt_EventTime = 0\<rparr>"

definition idle :: TriggerWorld where
  "idle = \<lparr>tw_World = \<lparr>w_Now = 0, w_Faults = [], w_ReadFaults = [], w_Lag = [], w_NextUID = 0, w_Runs = [], w_Tests = [],
     w_LatestRun = [], w_Jobs = [], w_Pods = [], w_Aux = [], w_ServiceObjects = [], w_Webhooks = [], w_Tailers = [], w_History = [],
     w_Persisted = [], w_Dispatched = [], w_Outbox = [], w_RunsTotal = [], w_ActiveRuns = [], w_Durations = []\<rparr>,
     tw_Triggers = [], tw_Events = []\<rparr>"

definition idle_deps :: TriggerDeps where
  "idle_deps = \<lparr>td_KindsFor = (\<lambda>_. Inr []), td_RESTMapping = (\<lambda>_. Inr ()), td_Regexp = (\<lambda>_ _. Some True),
     td_LabelMatch = (\<lambda>_ _. Inr True), td_Generate = (\<lambda>p w. p @ utoa (w_NextUID w))\<rparr>"

definition needs_available :: TriggerConditionSpec where
  "needs_available = \<lparr>tcs_Conditions = [\<lparr>wc_Type = ''Available'', wc_Status = ''True'', wc_Reason = [], wc_TTL = 0\<rparr>],
     tcs_Timeout = 60, tcs_Delay = 5\<rparr>"

definition one_gate :: "gate \<Rightarrow> gateManager" where
  "one_gate g = Enqueue g newGateManager"

lemma one_gate_ok: "gates_ok (gm_gates (one_gate g)) \<and> gm_get (gm_gates (one_gate g)) (gateKeyFor g) = Some g"
  by (simp add: one_gate_def Enqueue_def newGateManager_def gates_ok_def gm_ok_def gm_set_def)


section \<open>Gates that do not end as documented\<close>

text \<open>
  The object of a gate is the one of its event and is never read again: when a required
  condition (without a TTL) does not hold of it at some time, it never will, and the gate can only
  expire. Waiting for a condition works for \<open>modified\<close> triggers alone, whose later events replace
  the gate; a \<open>created\<close> trigger with a condition the new object lacks never fires.
\<close>

theorem unmet_condition_never_fires:
  assumes "tg_ConditionSpec (tt_Spec (gt_Trigger g)) = Some cs" "want \<in> set (tcs_Conditions cs)" "wc_TTL want = 0"
    and "\<not> condition_met (extractConditions (Some (gt_Target g))) t0 want"
  shows "case evaluate_gate (fireTestRun d now) now (gateKeyFor g) g (m, w) of (oc, m', w') \<Rightarrow>
    w' = w \<and> map_option go_Kind oc \<in> {None, Some OutcomeExpired}"
proof -
  have "\<not> condition_met (extractConditions (Some (gt_Target g))) now want"
    using assms(3,4) by (simp add: condition_met_def split: option.splits)
  then have "\<not> ConditionsMet (Some cs) (Some (gt_Target g)) now"
    using assms(2) by (auto simp: ConditionsMet_def list_all_iff)
  then show ?thesis using assms(1) by (auto simp: evaluate_gate_def Let_def)
qed

theorem unmet_condition_never_fires_witness:
  "case evaluate_gate (fireTestRun idle_deps (seconds 30)) (seconds 30) (gateKeyFor (sample_gate (Some needs_available) None))
     (sample_gate (Some needs_available) None) (newGateManager, idle) of (oc, m', w') \<Rightarrow>
     w' = idle \<and> map_option go_Kind oc \<in> {None, Some OutcomeExpired}"
  by (rule unmet_condition_never_fires [where ?t0.0 = 0 and cs = needs_available and want = "hd (tcs_Conditions needs_available)"])
    (simp_all add: sample_gate_def sample_trigger_def needs_available_def condition_met_def extractConditions_def findCondition_def
      sample_target_def)

text \<open>
  The comment of \<open>Evaluate\<close> says that a failed firing is tried again until the timeout elapses. The
  timeout is looked at only while the conditions are not met: a gate whose conditions hold and whose
  firing keeps failing stays for ever, with an error outcome at every evaluation.
\<close>

theorem failed_fire_never_expires:
  assumes "due now g" "met now g" "fireTestRun d now g (m, w) = (FireErr e, m1, w1)" "gm_get (gm_gates m) (gateKeyFor g) = Some g"
  shows "\<exists>m'. evaluate_gate (fireTestRun d now) now (gateKeyFor g) g (m, w) =
      (Some \<lparr>go_Kind = OutcomeFireError, go_Key = gateKeyFor g, go_Trigger = gt_Trigger g, go_EventTime = gt_EventTime g, go_Message = e\<rparr>, m', w1) \<and>
    gm_get (gm_gates m') (gateKeyFor g) = Some g"
  using assms fireTestRun_gates [OF assms(3)] by (auto simp: evaluate_gate_def due_def met_def Let_def)

theorem failed_fire_never_expires_witness:
  "\<exists>m' w1. evaluate_gate (fireTestRun idle_deps (seconds 3600)) (seconds 3600) (gateKeyFor (sample_gate (Some (needs_available\<lparr>tcs_Conditions := []\<rparr>)) None))
      (sample_gate (Some (needs_available\<lparr>tcs_Conditions := []\<rparr>)) None) (one_gate (sample_gate (Some (needs_available\<lparr>tcs_Conditions := []\<rparr>)) None), idle) =
      (Some \<lparr>go_Kind = OutcomeFireError, go_Key = gateKeyFor (sample_gate (Some (needs_available\<lparr>tcs_Conditions := []\<rparr>)) None),
        go_Trigger = gt_Trigger (sample_gate (Some (needs_available\<lparr>tcs_Conditions := []\<rparr>)) None), go_EventTime = 0,
        go_Message = ''spec.testSelector is required to fire a TestRun''\<rparr>, m', w1) \<and>
    gm_get (gm_gates m') (gateKeyFor (sample_gate (Some (needs_available\<lparr>tcs_Conditions := []\<rparr>)) None)) =
      Some (sample_gate (Some (needs_available\<lparr>tcs_Conditions := []\<rparr>)) None)"
proof -
  let ?g = "sample_gate (Some (needs_available\<lparr>tcs_Conditions := []\<rparr>)) None" and ?now = "seconds 3600"
  have "due ?now ?g" "met ?now ?g"
    by (simp_all add: due_def met_def gateDelay_def sample_gate_def sample_trigger_def needs_available_def seconds_def ConditionsMet_def)
  moreover have "fireTestRun idle_deps ?now ?g (one_gate ?g, idle) = (FireErr ''spec.testSelector is required to fire a TestRun'',
      one_gate ?g, record_event (gt_Trigger ?g) ''TestSelectorError'' idle)"
    by (simp add: fireTestRun_def on_world_def resolveTestTarget_def mfail_def error_text_def sample_gate_def sample_trigger_def)
  ultimately have "\<exists>m'. evaluate_gate (fireTestRun idle_deps ?now) ?now (gateKeyFor ?g) ?g (one_gate ?g, idle) =
      (Some \<lparr>go_Kind = OutcomeFireError, go_Key = gateKeyFor ?g, go_Trigger = gt_Trigger ?g, go_EventTime = gt_EventTime ?g,
        go_Message = ''spec.testSelector is required to fire a TestRun''\<rparr>, m', record_event (gt_Trigger ?g) ''TestSelectorError'' idle) \<and>
      gm_get (gm_gates m') (gateKeyFor ?g) = Some ?g"
    using failed_fire_never_expires one_gate_ok by blast
  then show ?thesis by (auto simp: sample_gate_def)
qed

section \<open>What firing creates\<close>

definition runs_of :: "TriggerWorld \<Rightarrow> (nsname, TestRun) gomap" where
  "runs_of w = w_Runs (tw_World w)"

definition visible_active :: "string \<Rightarrow> string \<Rightarrow> World \<Rightarrow> TestRun \<Rightarrow> bool" where
  "visible_active ns testName w r \<longleftrightarrow> r \<in> set (map snd (w_Runs w)) \<and> r_Namespace r = ns \<and> run_key r \<notin> set (w_Lag w) \<and>
     rs_TestRef (r_Spec r) = testName \<and> \<not> IsTerminalPhase (run_phase r)"

lemma resolveTestTarget_runs: "resolveTestTarget d t w = (r, w') \<Longrightarrow> w_Runs w' = w_Runs w \<and> w_Lag w' = w_Lag w"
  by (auto simp: resolveTestTarget_def mret_def mfail_def mbind_def mget_def api_read_def Let_def
    split: option.splits sum.splits prod.splits list.splits if_splits)

lemma hasActiveRun_result:
  "hasActiveRunForTest ns n w = (r, w') \<Longrightarrow> w_Runs w' = w_Runs w \<and> w_Lag w' = w_Lag w \<and>
    (r = Inr False \<longrightarrow> (\<forall>x. \<not> visible_active ns n w x))"
  by (auto simp: hasActiveRunForTest_def visible_active_def mbind_def mget_def api_read_def list_ex_iff
    split: list.splits option.splits)

lemma on_world_runs: "on_world m w = (r, w') \<Longrightarrow> \<exists>v. m (tw_World w) = (r, v) \<and> w' = w\<lparr>tw_World := v\<rparr>"
  by (auto simp: on_world_def split: prod.splits)

lemma last_fired_runs [simp]: "runs_of (updateTriggerLastFiredAt now t w) = runs_of w"
  by (auto simp: updateTriggerLastFiredAt_def on_world_def runs_of_def api_read_def api_write_def
    split: prod.splits sum.splits list.splits option.splits)

lemma record_event_runs [simp]: "runs_of (record_event t e w) = runs_of w"
  by (simp add: record_event_def runs_of_def)

text \<open>The run that a firing may add to the runs \<open>rs\<close>: new, of the selected Test, from this trigger.\<close>

definition triggered_run :: "gate \<Rightarrow> string \<Rightarrow> string \<Rightarrow> (nsname, TestRun) gomap \<Rightarrow> TestRun \<Rightarrow> bool" where
  "triggered_run g testName ns rs run \<longleftrightarrow> gm_get rs (run_key run) = None \<and> r_Namespace run = ns \<and> rs_TestRef (r_Spec run) = testName \<and>
     rs_Source (r_Spec run) = SourceTrigger \<and> gm_get (r_Labels run) LabelTriggerName = Some (tt_Name (gt_Trigger g)) \<and>
     r_Status run = zero_TestRunStatus"

lemma create_run_result:
  "create_run run w = (r, w') \<Longrightarrow> (r = Inr () \<longrightarrow> gm_get (w_Runs w) (run_key run) = None \<and>
      w_Runs w' = gm_set (run_key run) (run\<lparr>r_UID := ''uid-'' @ utoa (w_NextUID w), r_CreationTimestamp := w_Now w\<rparr>) (w_Runs w)) \<and>
    (r \<noteq> Inr () \<longrightarrow> w_Runs w' = w_Runs w)"
  by (auto simp: create_run_def mbind_def api_write_def gm_has_def split: list.splits option.splits if_splits)

lemma create_triggered_result:
  assumes "create_triggered d now g testName ns (m, w) = (r, m', w')"
  shows "if r = FireOK then \<exists>run. triggered_run g testName ns (runs_of w) run \<and> runs_of w' = gm_set (run_key run) run (runs_of w)
    else runs_of w' = runs_of w"
proof -
  define run where "run = buildTestRun g (td_Generate d (testName @ ''-trigger-'') (tw_World w)) testName ns"
  obtain c v where c: "create_run run (tw_World w) = (c, v)" by (cases "create_run run (tw_World w)")
  note res = create_run_result [OF c]
  show ?thesis
  proof (cases c)
    case (Inl e)
    then show ?thesis using assms c res
      by (auto simp: create_triggered_def run_def [symmetric] on_world_def runs_of_def)
  next
    case (Inr x)
    then obtain u ts where v: "gm_get (w_Runs (tw_World w)) (run_key run) = None"
      "w_Runs v = gm_set (run_key run) (run\<lparr>r_UID := u, r_CreationTimestamp := ts\<rparr>) (w_Runs (tw_World w))"
      using res Inr by (metis old.unit.exhaust)
    let ?run = "run\<lparr>r_UID := u, r_CreationTimestamp := ts\<rparr>"
    have key: "run_key ?run = run_key run" by (simp add: run_key_def)
    have "triggered_run g testName ns (runs_of w) ?run"
      using v(1) by (simp add: triggered_run_def key runs_of_def) (simp add: run_def buildTestRun_def Let_def)
    moreover have "r = FireOK \<and> runs_of w' = gm_set (run_key ?run) ?run (runs_of w)"
      using assms c Inr v(2) by (auto simp: create_triggered_def run_def [symmetric] on_world_def key) (auto simp: runs_of_def)
    ultimately show ?thesis by auto
  qed
qed

text \<open>
  C13. Whatever the API server answers, firing a gate either changes no run, or reports success and
  adds exactly one: a new run of the Test that the trigger selects, in its namespace, with the
  trigger as its source. Under \<open>concurrencyPolicy: forbid\<close> it does so only when the controller's view
  of the cluster holds no unfinished run of that Test.
\<close>

theorem trigger_creates_one_run:
  assumes "fireTestRun d now g (m, w) = (r, m', w')"
  shows "if r = FireOK
    then \<exists>testName ns run. fst (resolveTestTarget d (gt_Trigger g) (tw_World w)) = Inr (testName, ns) \<and>
        triggered_run g testName ns (runs_of w) run \<and> runs_of w' = gm_set (run_key run) run (runs_of w) \<and>
        (to_lower (tg_ConcurrencyPolicy (tt_Spec (gt_Trigger g))) = TriggerConcurrencyForbid \<longrightarrow>
          \<not> (\<exists>x. visible_active ns testName (tw_World w) x))
    else runs_of w' = runs_of w"
proof -
  obtain t v where t: "resolveTestTarget d (gt_Trigger g) (tw_World w) = (t, v)"
    by (cases "resolveTestTarget d (gt_Trigger g) (tw_World w)")
  note tv = resolveTestTarget_runs [OF t]
  let ?w1 = "w\<lparr>tw_World := v\<rparr>"
  have w1: "runs_of ?w1 = runs_of w" using tv by (simp add: runs_of_def)
  show ?thesis
  proof (cases t)
    case (Inl e)
    then show ?thesis using assms t w1 by (auto simp: fireTestRun_def on_world_def)
  next
    case (Inr p)
    obtain testName ns where p: "t = Inr (testName, ns)" using Inr by (cases p) auto
    show ?thesis
    proof (cases "to_lower (tg_ConcurrencyPolicy (tt_Spec (gt_Trigger g))) = TriggerConcurrencyForbid")
      case False
      then have "create_triggered d now g testName ns (m, ?w1) = (r, m', w')"
        using assms t p by (simp add: fireTestRun_def on_world_def)
      from create_triggered_result [OF this, unfolded w1] show ?thesis using False t p by auto
    next
      case True
      obtain a v2 where a: "hasActiveRunForTest ns testName v = (a, v2)" by (cases "hasActiveRunForTest ns testName v")
      note av = hasActiveRun_result [OF a]
      have w2: "runs_of (w\<lparr>tw_World := v2\<rparr>) = runs_of w" using av tv by (simp add: runs_of_def)
      have same: "visible_active ns testName v = visible_active ns testName (tw_World w)"
        using tv by (auto simp: visible_active_def fun_eq_iff)
      show ?thesis
      proof (cases "a = Inr False")
        case free: True
        then have "create_triggered d now g testName ns (m, w\<lparr>tw_World := v2\<rparr>) = (r, m', w')"
          using assms t p True a by (simp add: fireTestRun_def on_world_def)
        from create_triggered_result [OF this, unfolded w2] show ?thesis using t p av free same by auto
      next
        case False
        then show ?thesis using assms t p True a w2
          by (cases a) (auto simp: fireTestRun_def on_world_def)
      qed
    qed
  qed
qed

theorem trigger_creates_one_run_witness:
  "\<exists>run. triggered_run (sample_gate None (Some \<lparr>tts_Name = ''smoke'', tts_Namespace = [], tts_LabelSelector = None\<rparr>)) ''smoke'' ''n'' [] run \<and>
     runs_of (snd (snd (fireTestRun idle_deps 0
       (sample_gate None (Some \<lparr>tts_Name = ''smoke'', tts_Namespace = [], tts_LabelSelector = None\<rparr>)) (newGateManager, idle)))) = [(run_key run, run)]"
proof -
  let ?g = "sample_gate None (Some \<lparr>tts_Name = ''smoke'', tts_Namespace = [], tts_LabelSelector = None\<rparr>)"
  obtain r m' w' where f: "fireTestRun idle_deps 0 ?g (newGateManager, idle) = (r, m', w')"
    by (cases "fireTestRun idle_deps 0 ?g (newGateManager, idle)") auto
  have target: "resolveTestTarget idle_deps (gt_Trigger ?g) (tw_World idle) = (Inr (''smoke'', ''n''), tw_World idle)"
    by (simp add: resolveTestTarget_def mret_def sample_gate_def sample_trigger_def)
  have free: "to_lower (tg_ConcurrencyPolicy (tt_Spec (gt_Trigger ?g))) \<noteq> TriggerConcurrencyForbid"
    by (simp add: sample_gate_def sample_trigger_def TriggerConcurrencyForbid_def to_lower_def)
  have ok: "r = FireOK"
    using f target free by (auto simp: fireTestRun_def on_world_def create_triggered_def create_run_def mbind_def api_write_def
      Let_def idle_def gm_has_def)
  have none: "runs_of idle = []" by (simp add: runs_of_def idle_def)
  from trigger_creates_one_run [OF f] ok target none show ?thesis by (auto simp: f gm_set_def)
qed

end
