(* ===== verification/GoNum.thy ===== *)
theory GoNum
  imports GoStrings Complex_Main
begin

text \<open>
  Go's numbers where their width or rounding matters: \<open>int\<close> and \<open>int64\<close> with wrap-around, \<open>float64\<close> as
  NaN, an infinity or an exact rational that is a float64, and the value that \<open>strconv.ParseFloat\<close>
  gives a text. The sign of a zero is not kept: nothing the program does can tell the zeros apart.
\<close>

section \<open>Integers\<close>

definition wrap64 :: "int \<Rightarrow> int" where
  "wrap64 i = (i + 2 ^ 63) mod 2 ^ 64 - 2 ^ 63"

lemma wrap64_small: "- (2 ^ 63) \<le> i \<Longrightarrow> i < 2 ^ 63 \<Longrightarrow> wrap64 i = i"
  by (simp add: wrap64_def)

lemma wrap64_bounds: "- (2 ^ 63) \<le> wrap64 i" "wrap64 i < 2 ^ 63"
  by (simp_all add: wrap64_def algebra_simps)

lemma wrap64_cong: "wrap64 i = wrap64 j \<longleftrightarrow> i mod 2 ^ 64 = j mod 2 ^ 64"
proof -
  have "(i + 2 ^ 63) mod 2 ^ 64 = (j + 2 ^ 63) mod 2 ^ 64 \<longleftrightarrow> i mod 2 ^ 64 = j mod 2 ^ 64"
    by (simp add: mod_eq_dvd_iff)
  then show ?thesis by (simp add: wrap64_def)
qed

lemma wrap64_mod: "wrap64 i mod 2 ^ 64 = i mod 2 ^ 64"
  unfolding wrap64_def by (simp add: mod_diff_left_eq)

lemma wrap64_mult_left [simp]: "wrap64 (wrap64 a * b) = wrap64 (a * b)"
  by (subst wrap64_cong) (metis mod_mult_left_eq wrap64_mod)

lemma wrap64_add_left [simp]: "wrap64 (wrap64 a + b) = wrap64 (a + b)"
  by (subst wrap64_cong) (metis mod_add_left_eq wrap64_mod)

lemma wrap64_add_right [simp]: "wrap64 (b + wrap64 a) = wrap64 (b + a)"
  using wrap64_add_left [of a b] by (simp add: add.commute)

lemma wrap64_mult_right [simp]: "wrap64 (b * wrap64 a) = wrap64 (b * a)"
  using wrap64_mult_left [of a b] by (simp add: mult.commute)

section \<open>Rounding to float64\<close>

datatype float64 = NaN | Infinite bool | Finite rat

definition pow2 :: "int \<Rightarrow> rat" where
  "pow2 e = (if 0 \<le> e then 2 ^ nat e else 1 / 2 ^ nat (- e))"

text \<open>The number of bits of a number.\<close>

fun bits :: "nat \<Rightarrow> nat" where
  "bits n = (if n = 0 then 0 else Suc (bits (n div 2)))"

declare bits.simps [simp del]

text \<open>The exponent of the binade of a positive rational.\<close>

definition ilog2 :: "rat \<Rightarrow> int" where
  "ilog2 x = (case quotient_of x of (n, d) \<Rightarrow>
     let e = int (bits (nat n)) - int (bits (nat d)) in if pow2 e \<le> x then e else e - 1)"

definition round_half_even :: "rat \<Rightarrow> int" where
  "round_half_even q = (let f = \<lfloor>q\<rfloor>; r = q - of_int f
     in if r < 1 / 2 then f else if 1 / 2 < r then f + 1 else if even f then f else f + 1)"

definition round64 :: "rat \<Rightarrow> rat" where
  "round64 x = (if x = 0 then 0
     else let u = pow2 (max (- 1022) (ilog2 \<bar>x\<bar>) - 52) in sgn x * of_int (round_half_even (\<bar>x\<bar> / u)) * u)"

definition maxFloat :: rat where "maxFloat = 2 ^ 1024"

text \<open>The float64 nearest to an exact value; \<open>None\<close> when it is out of range.\<close>

definition to_float64 :: "rat \<Rightarrow> float64 option" where
  "to_float64 x = (let r = round64 x in if maxFloat \<le> \<bar>r\<bar> then None else Some (Finite r))"

section \<open>Parsing\<close>

definition scaled :: "int \<Rightarrow> int \<Rightarrow> int \<Rightarrow> rat" where
  "scaled b k m = (if 0 \<le> k then of_int (m * b ^ nat k) else of_int m / of_int (b ^ nat (- k)))"

definition read_float :: "string \<Rightarrow> rat option" where
  "read_float s0 =
     (let s = drop_sign s0; sign = (if has_prefix ''-'' s0 then - 1 else 1);
          hex = (3 \<le> length s \<and> s ! 0 = CHR ''0'' \<and> lower_char (s ! 1) = CHR ''x'');
          (m, f, dig, r) = read_mantissa hex (if hex then drop 2 s else s) 0 0 False False
      in if \<not> dig \<or> (CHR ''_'' \<in> set s0 \<and> \<not> underscore_ok s0) then None
         else if r = [] then (if hex then None else Some (sign * scaled 10 (- f) m))
         else if lower_char (hd r) \<noteq> (if hex then CHR ''p'' else CHR ''e'') then None
         else let neg = has_prefix ''-'' (tl r); ds = drop_sign (tl r); (e, r') = read_exponent ds 0;
                  k = (if neg then - e else e)
              in if ds = [] \<or> \<not> is_digit (hd ds) \<or> r' \<noteq> [] then None
                 else Some (sign * (if hex then scaled 2 (k - 4 * f) m else scaled 10 (k - f) m)))"

definition ParseFloat :: "string \<Rightarrow> float64 option" where
  "ParseFloat s =
     (if to_lower (drop_sign s) = ''inf'' \<or> to_lower (drop_sign s) = ''infinity'' then Some (Infinite (has_prefix ''-'' s))
      else if to_lower s = ''nan'' then Some NaN
      else case read_float s of None \<Rightarrow> None | Some x \<Rightarrow> to_float64 x)"

section \<open>Comparing\<close>

text \<open>Every comparison with NaN is false.\<close>

fun float_less :: "float64 \<Rightarrow> float64 \<Rightarrow> bool" where
  "float_less NaN _ = False"
| "float_less _ NaN = False"
| "float_less (Infinite n) (Infinite m) = (n \<and> \<not> m)"
| "float_less (Infinite n) (Finite _) = n"
| "float_less (Finite _) (Infinite m) = (\<not> m)"
| "float_less (Finite x) (Finite y) = (x < y)"

definition float_le :: "float64 \<Rightarrow> float64 \<Rightarrow> bool" where
  "float_le x y \<longleftrightarrow> float_less x y \<or> x = y \<and> x \<noteq> NaN"

end
