(* ===== verification/Scheduler.thy ===== *)
theory Scheduler
  imports Cluster GoTime GoNum Names
begin

text \<open>
  The cron scheduler, \<open>src/internal/scheduler/scheduler.go\<close>. The cron library is code outside the
  repository: a parser is a parameter, and a schedule is its function \<open>Next\<close>, which answers the zero
  time when it finds nothing. Instants are nanoseconds, as in \<open>GoTime\<close>; durations are 64-bit numbers
  of nanoseconds, with the saturation of \<open>Sub\<close> and the wrap-around of \<open>2 * interval\<close> written out. The
  annotation of a scheduled run is not modelled.
\<close>

section \<open>Durations\<close>

definition second :: int where "second = 1000000000"

definition maxDuration :: int where "maxDuration = 2 ^ 63 - 1"

definition minDuration :: int where "minDuration = - (2 ^ 63)"

definition time_Sub :: "instant \<Rightarrow> instant \<Rightarrow> duration" where
  "time_Sub a b = max minDuration (min maxDuration (a - b))"

definition unixEpoch :: instant where "unixEpoch = 62135596800 * second"

definition time_Unix :: "instant \<Rightarrow> int" where
  "time_Unix t = (t - unixEpoch) div second"

section \<open>The most recent instant of a schedule\<close>

type_synonym Schedule = "instant \<Rightarrow> instant"

definition prevScheduleLookback :: duration where "prevScheduleLookback = 48 * 3600 * second"

definition safetyBound :: nat where "safetyBound = 4 * 24 * 60 * 60"

fun prev_loop :: "nat \<Rightarrow> Schedule \<Rightarrow> instant \<Rightarrow> instant \<Rightarrow> instant \<Rightarrow> instant" where
  "prev_loop 0 sched now prev t = prev"
| "prev_loop (Suc n) sched now prev t =
     (let next = sched t in if now < next then prev else prev_loop n sched now next next)"

definition prevSchedule :: "Schedule \<Rightarrow> instant \<Rightarrow> instant" where
  "prevSchedule sched now = prev_loop safetyBound sched now 0 (now - prevScheduleLookback)"

section \<open>A tick\<close>

record SchedWorld =
  sc_World :: World
  sc_Fires :: nat

definition SourceCron :: string where "SourceCron = ''cron''"

definition LabelScheduledForTest :: string where "LabelScheduledForTest = ''kubetest.io/scheduled-for-test''"

definition MinMissedFireWindow :: duration where "MinMissedFireWindow = 60 * second"

definition scheduled_name :: "string \<Rightarrow> instant \<Rightarrow> string" where
  "scheduled_name testName prev = Bounded (testName @ ''-'' @ itoa (time_Unix prev))"

definition scheduledRun :: "Test \<Rightarrow> instant \<Rightarrow> TestRun" where
  "scheduledRun t prev = \<lparr>r_Name = scheduled_name (t_Name t) prev, r_Namespace = t_Namespace t, r_UID = [],
     r_Labels = [(LabelScheduledForTest, t_Name t)], r_CreationTimestamp = 0, r_DeletionTimestamp = None, r_Finalizers = [],
     r_Spec = \<lparr>rs_TestRef = t_Name t, rs_Config = [], rs_Pod = None, rs_Tags = [], rs_Source = SourceCron, rs_Abort = None,
       rs_NotBefore = None\<rparr>, r_Status = zero_TestRunStatus\<rparr>"

type_synonym CronParser = "string \<Rightarrow> Schedule option"

text \<open>The instant that a tick at \<open>now\<close> fires for a Test, if any: the guards of \<open>evaluate\<close>.\<close>

definition firing_instant :: "CronParser \<Rightarrow> Test \<Rightarrow> instant \<Rightarrow> instant option" where
  "firing_instant parse t now =
     (if ts_Schedule (t_Spec t) = [] then None
      else case parse (ts_Schedule (t_Spec t)) of None \<Rightarrow> None
        | Some sched \<Rightarrow>
            let prev = prevSchedule sched now
            in if prev = 0 then None
               else if t_CreationTimestamp t \<noteq> 0 \<and> prev < t_CreationTimestamp t then None
               else let interval = time_Sub (sched prev) prev;
                        window = max (wrap64 (2 * interval)) MinMissedFireWindow
                    in if window < time_Sub now prev then None else Some prev)"

definition evaluate :: "CronParser \<Rightarrow> instant \<Rightarrow> Test \<Rightarrow> SchedWorld \<Rightarrow> go_error option \<times> SchedWorld" where
  "evaluate parse now t w = (case firing_instant parse t now of None \<Rightarrow> (None, w)
     | Some prev \<Rightarrow> (case create_run (scheduledRun t prev) (sc_World w) of
         (Inl e, v) \<Rightarrow> (if e = GoAPI AAlreadyExists then None else Some e, w\<lparr>sc_World := v\<rparr>)
       | (Inr _, v) \<Rightarrow> (None, w\<lparr>sc_World := v, sc_Fires := Suc (sc_Fires w)\<rparr>)))"

fun evaluate_all :: "CronParser \<Rightarrow> instant \<Rightarrow> Test list \<Rightarrow> SchedWorld \<Rightarrow> go_error list \<times> SchedWorld" where
  "evaluate_all parse now [] w = ([], w)"
| "evaluate_all parse now (t # ts) w = (case evaluate parse now t w of (e, w1) \<Rightarrow>
     (case evaluate_all parse now ts w1 of (es, w2) \<Rightarrow> ((case e of None \<Rightarrow> es | Some x \<Rightarrow> x # es), w2)))"

text \<open>The Tests that the informer cache lists.\<close>

definition listed_tests :: "World \<Rightarrow> Test list" where
  "listed_tests w = filter (\<lambda>t. (t_Namespace t, t_Name t) \<notin> set (w_Lag w)) (map snd (w_Tests w))"

definition Tick :: "CronParser \<Rightarrow> instant \<Rightarrow> SchedWorld \<Rightarrow> go_error list \<times> SchedWorld" where
  "Tick parse now w = (case api_read (sc_World w) of
     (Inl e, v) \<Rightarrow> ([e], w\<lparr>sc_World := v\<rparr>)
   | (Inr _, v) \<Rightarrow> evaluate_all parse now (listed_tests v) (w\<lparr>sc_World := v\<rparr>))"

section \<open>What a schedule is\<close>

text \<open>
  The documented behaviour of \<open>Next\<close> on the schedule with the instants \<open>S\<close>: the first instant later than
  the given one, unless it answers the zero time; instants are whole seconds.
\<close>

definition cron_law :: "instant set \<Rightarrow> Schedule \<Rightarrow> bool" where
  "cron_law S sched \<longleftrightarrow> (\<forall>s \<in> S. 0 < s \<and> second dvd s) \<and>
     (\<forall>t. sched t \<noteq> 0 \<longrightarrow> sched t \<in> S \<and> t < sched t \<and> (\<forall>s \<in> S. t < s \<longrightarrow> sched t \<le> s))"

text \<open>
  The library finds a next instant for the stretch that \<open>prevSchedule\<close> walks, and within ten years
  (it gives up after five).
\<close>

definition tenYears :: duration where "tenYears = 3653 * 24 * 3600 * second"

definition goes_on :: "Schedule \<Rightarrow> instant \<Rightarrow> bool" where
  "goes_on sched now \<longleftrightarrow> (\<forall>t. now - prevScheduleLookback \<le> t \<and> t \<le> now \<longrightarrow> sched t \<noteq> 0 \<and> sched t \<le> t + tenYears)"

definition latest_in :: "instant set \<Rightarrow> instant \<Rightarrow> instant \<Rightarrow> instant \<Rightarrow> bool" where
  "latest_in S lo now p \<longleftrightarrow> p \<in> S \<and> lo < p \<and> p \<le> now \<and> (\<forall>s \<in> S. s \<le> now \<longrightarrow> s \<le> p)"

lemma second_pos [simp]: "0 < second" "0 \<le> second" "second \<noteq> 0"
  by (simp_all add: second_def)

lemma seconds_apart:
  assumes "second dvd s" "second dvd t" "t < s"
  shows "t + second \<le> s"
proof -
  obtain a b where "s = second * a" "t = second * b" using assms by (auto elim!: dvdE)
  moreover from this assms(3) have "b + 1 \<le> a" by simp
  then have "second * (b + 1) \<le> second * a" by (intro mult_left_mono) simp_all
  ultimately show ?thesis by (simp add: algebra_simps)
qed

text \<open>Each round of the walk uses up a second, but for the first, which starts anywhere.\<close>

lemma prev_loop_latest:
  assumes "cron_law S sched" "\<And>u. t \<le> u \<Longrightarrow> u \<le> now \<Longrightarrow> sched u \<noteq> 0" "t \<le> now"
    and "nat ((now - t) div second) + (if second dvd t then 1 else 2) \<le> n"
  shows "if \<exists>s \<in> S. t < s \<and> s \<le> now then latest_in S t now (prev_loop n sched now prev t) else prev_loop n sched now prev t = prev"
  using assms
proof (induction n arbitrary: t prev)
  case 0
  then show ?case by (auto split: if_splits)
next
  case (Suc n)
  let ?next = "sched t"
  have nz: "?next \<noteq> 0" using Suc.prems(2,3) by simp
  have next_S: "?next \<in> S" "t < ?next" "\<And>s. s \<in> S \<Longrightarrow> t < s \<Longrightarrow> ?next \<le> s"
    using Suc.prems(1) nz by (auto simp: cron_law_def)
  have sec: "second dvd ?next" using Suc.prems(1) next_S(1) by (auto simp: cron_law_def)
  show ?case
  proof (cases "now < ?next")
    case True
    then have "\<not> (\<exists>s \<in> S. t < s \<and> s \<le> now)" using next_S(3) by force
    then show ?thesis using True by auto
  next
    case False
    have le: "(now - ?next) div second \<le> (now - t) div second" using next_S(2) by (intro zdiv_mono1) auto
    have strict: "(now - ?next) div second + 1 \<le> (now - t) div second" if "second dvd t"
    proof -
      have "now - ?next + second \<le> now - t" using seconds_apart [OF sec that next_S(2)] by simp
      then have "(now - ?next + second) div second \<le> (now - t) div second" by (intro zdiv_mono1) auto
      then show ?thesis by (subst (asm) div_add_self2) simp_all
    qed
    have nn: "0 \<le> (now - ?next) div second" using False by (simp add: pos_imp_zdiv_nonneg_iff)
    have fuel: "nat ((now - ?next) div second) + (if second dvd ?next then 1 else 2) \<le> n"
      using Suc.prems(4) le strict nn sec by (cases "second dvd t") auto
    have on: "sched u \<noteq> 0" if "?next \<le> u" "u \<le> now" for u using Suc.prems(2) that next_S(2) by simp
    note IH = Suc.IH [OF Suc.prems(1) on _ fuel, of ?next]
    have "latest_in S t now (prev_loop n sched now ?next ?next)"
    proof (cases "\<exists>s \<in> S. ?next < s \<and> s \<le> now")
      case True
      with IH False have "latest_in S ?next now (prev_loop n sched now ?next ?next)" by auto
      then show ?thesis using next_S(2) by (auto simp: latest_in_def)
    next
      case none: False
      then have "prev_loop n sched now ?next ?next = ?next" using IH False by auto
      then show ?thesis using next_S False none by (auto simp: latest_in_def not_less)
    qed
    moreover have "\<exists>s \<in> S. t < s \<and> s \<le> now" using next_S False by force
    ultimately show ?thesis using False by (simp add: Let_def)
  qed
qed

lemma prevSchedule_latest:
  assumes "cron_law S sched" "goes_on sched now"
  shows "if \<exists>s \<in> S. now - prevScheduleLookback < s \<and> s \<le> now then latest_in S (now - prevScheduleLookback) now (prevSchedule sched now)
    else prevSchedule sched now = 0"
proof -
  have "nat ((now - (now - prevScheduleLookback)) div second) + (if second dvd now - prevScheduleLookback then 1 else 2) \<le> safetyBound"
    by (simp add: prevScheduleLookback_def second_def safetyBound_def)
  moreover have "now - prevScheduleLookback \<le> now" by (simp add: prevScheduleLookback_def second_def)
  ultimately show ?thesis
    unfolding prevSchedule_def using assms(2) by (intro prev_loop_latest [OF assms(1)]) (auto simp: goes_on_def)
qed

section \<open>When a Test fires\<close>

lemma time_Sub_small: "minDuration \<le> a - b \<Longrightarrow> a - b \<le> maxDuration \<Longrightarrow> time_Sub a b = a - b"
  by (simp add: time_Sub_def)

lemmas small_durations = minDuration_def maxDuration_def tenYears_def prevScheduleLookback_def second_def

definition missed_window :: "Schedule \<Rightarrow> instant \<Rightarrow> duration" where
  "missed_window sched s = max (2 * (sched s - s)) MinMissedFireWindow"

lemma firing_instant_exact:
  assumes "cron_law S sched" "goes_on sched now" "parse (ts_Schedule (t_Spec t)) = Some sched" "ts_Schedule (t_Spec t) \<noteq> []"
  shows "firing_instant parse t now = Some s \<longleftrightarrow> latest_in S (now - prevScheduleLookback) now s \<and>
    t_CreationTimestamp t \<le> s \<and> now - s \<le> missed_window sched s"
proof -
  let ?p = "prevSchedule sched now" and ?lo = "now - prevScheduleLookback"
  have unique: "s = ?p" if "latest_in S ?lo now s" "latest_in S ?lo now ?p" for s
    using that by (meson latest_in_def order_antisym)
  have window: "max (wrap64 (2 * time_Sub (sched s) s)) MinMissedFireWindow < time_Sub now s \<longleftrightarrow> missed_window sched s < now - s"
    if "latest_in S ?lo now s" for s
  proof -
    have "sched s \<noteq> 0 \<and> sched s \<le> s + tenYears" using assms(2) that by (simp add: goes_on_def latest_in_def)
    then have "0 \<le> sched s - s" "sched s - s \<le> tenYears" using assms(1) by (auto simp: cron_law_def less_imp_le)
    moreover from this have "wrap64 (2 * time_Sub (sched s) s) = 2 * (sched s - s)"
      by (subst time_Sub_small; simp add: small_durations wrap64_small)
    moreover have "time_Sub now s = now - s"
      using that by (intro time_Sub_small) (auto simp: latest_in_def small_durations)
    ultimately show ?thesis by (simp add: missed_window_def)
  qed
  have pos: "0 < s" if "latest_in S ?lo now s" for s using assms(1) that by (auto simp: latest_in_def cron_law_def)
  show ?thesis
  proof (cases "\<exists>s \<in> S. ?lo < s \<and> s \<le> now")
    case True
    then have p: "latest_in S ?lo now ?p" using prevSchedule_latest [OF assms(1,2)] by auto
    have fires: "firing_instant parse t now = (if t_CreationTimestamp t \<noteq> 0 \<and> ?p < t_CreationTimestamp t then None
        else if missed_window sched ?p < now - ?p then None else Some ?p)"
      using pos [OF p] assms(3,4) window [OF p] by (simp add: firing_instant_def Let_def)
    show ?thesis
    proof (cases "s = ?p")
      case True
      then show ?thesis using p pos [OF p] by (simp add: fires not_less)
    next
      case False
      then have "\<not> latest_in S ?lo now s" using unique p by blast
      then show ?thesis using False by (simp add: fires)
    qed
  next
    case False
    then have "?p = 0" using prevSchedule_latest [OF assms(1,2)] by auto
    then show ?thesis using False assms(3,4) by (auto simp: firing_instant_def Let_def latest_in_def)
  qed
qed

section \<open>What a tick changes\<close>

abbreviation sched_runs :: "SchedWorld \<Rightarrow> (nsname, TestRun) gomap" where
  "sched_runs w \<equiv> w_Runs (sc_World w)"

text \<open>The run that some tick of \<open>nows\<close> creates for one of the Tests \<open>ts\<close>.\<close>

definition fired_run :: "CronParser \<Rightarrow> Test list \<Rightarrow> instant list \<Rightarrow> nsname \<Rightarrow> TestRun \<Rightarrow> bool" where
  "fired_run parse ts nows k run \<longleftrightarrow> (\<exists>t \<in> set ts. \<exists>now \<in> set nows. \<exists>s u c. firing_instant parse t now = Some s \<and>
     k = (t_Namespace t, scheduled_name (t_Name t) s) \<and> run = (scheduledRun t s)\<lparr>r_UID := u, r_CreationTimestamp := c\<rparr>)"

definition only_fires :: "CronParser \<Rightarrow> Test list \<Rightarrow> instant list \<Rightarrow> SchedWorld \<Rightarrow> SchedWorld \<Rightarrow> bool" where
  "only_fires parse ts nows w w' \<longleftrightarrow>
     (\<forall>k. gm_get (sched_runs w') k = gm_get (sched_runs w) k \<or>
       gm_get (sched_runs w) k = None \<and> (\<exists>run. gm_get (sched_runs w') k = Some run \<and> fired_run parse ts nows k run)) \<and>
     length (sched_runs w') + sc_Fires w = length (sched_runs w) + sc_Fires w'"

definition same_setting :: "SchedWorld \<Rightarrow> SchedWorld \<Rightarrow> bool" where
  "same_setting w w' \<longleftrightarrow> w_Tests (sc_World w') = w_Tests (sc_World w) \<and> w_Lag (sc_World w') = w_Lag (sc_World w) \<and>
     (w_Faults (sc_World w) = [] \<longrightarrow> w_Faults (sc_World w') = []) \<and> (w_ReadFaults (sc_World w) = [] \<longrightarrow> w_ReadFaults (sc_World w') = [])"

lemma only_fires_refl [simp]: "only_fires parse ts nows w w" by (simp add: only_fires_def)

lemma same_setting_refl [simp]: "same_setting w w" by (simp add: same_setting_def)

lemma same_setting_trans: "same_setting a b \<Longrightarrow> same_setting b c \<Longrightarrow> same_setting a c"
  by (simp add: same_setting_def)

lemma only_firesE:
  assumes "only_fires parse ts nows w w'"
  obtains "gm_get (sched_runs w') k = gm_get (sched_runs w) k"
  | run where "gm_get (sched_runs w) k = None" "gm_get (sched_runs w') k = Some run" "fired_run parse ts nows k run"
  using assms unfolding only_fires_def by blast

lemma only_fires_trans:
  assumes "only_fires parse ts nows a b" "only_fires parse ts nows b c"
  shows "only_fires parse ts nows a c"
proof -
  have "gm_get (sched_runs c) k = gm_get (sched_runs a) k \<or>
      gm_get (sched_runs a) k = None \<and> (\<exists>run. gm_get (sched_runs c) k = Some run \<and> fired_run parse ts nows k run)" for k
    using assms by (elim only_firesE [of _ _ _ _ _ k]) auto
  moreover have "length (sched_runs c) + sc_Fires a = length (sched_runs a) + sc_Fires c"
    using assms by (simp add: only_fires_def)
  ultimately show ?thesis by (simp add: only_fires_def)
qed

lemma only_fires_mono:
  assumes "only_fires parse ts nows a b" "set ts \<subseteq> set ts'" "set nows \<subseteq> set nows'"
  shows "only_fires parse ts' nows' a b"
  using assms unfolding only_fires_def fired_run_def by (meson subsetD)

lemma length_gm_set_new: "gm_get m k = None \<Longrightarrow> length (gm_set k v m) = Suc (length m)"
  unfolding gm_set_def by (induction m) (auto split: if_splits)

lemma evaluate_effect:
  assumes "evaluate parse now t w = (e, w')"
  shows "only_fires parse [t] [now] w w' \<and> same_setting w w'"
    and "w_Faults (sc_World w) = [] \<Longrightarrow> firing_instant parse t now = Some s \<Longrightarrow>
      gm_has (sched_runs w') (t_Namespace t, scheduled_name (t_Name t) s)"
proof -
  show "only_fires parse [t] [now] w w' \<and> same_setting w w'"
    using assms
    by (auto simp: evaluate_def create_run_def mbind_def api_write_def gm_has_def only_fires_def fired_run_def same_setting_def
      run_key_def length_gm_set_new scheduledRun_def split: option.splits list.splits if_splits)
  assume "w_Faults (sc_World w) = []" "firing_instant parse t now = Some s"
  then show "gm_has (sched_runs w') (t_Namespace t, scheduled_name (t_Name t) s)"
    using assms by (auto simp: evaluate_def create_run_def mbind_def api_write_def gm_has_def run_key_def scheduledRun_def
      split: if_splits)
qed

lemma only_fires_keeps: "only_fires parse ts nows w w' \<Longrightarrow> gm_has (sched_runs w) k \<Longrightarrow> gm_has (sched_runs w') k"
  by (erule only_firesE [of _ _ _ _ _ k]) (simp_all add: gm_has_def)

lemma evaluate_all_effect:
  assumes "evaluate_all parse now ts w = (es, w')"
  shows "only_fires parse ts [now] w w' \<and> same_setting w w' \<and> (w_Faults (sc_World w) = [] \<longrightarrow>
    (\<forall>t \<in> set ts. \<forall>s. firing_instant parse t now = Some s \<longrightarrow> gm_has (sched_runs w') (t_Namespace t, scheduled_name (t_Name t) s)))"
  using assms
proof (induction ts arbitrary: w es)
  case (Cons t ts)
  obtain e w1 where one: "evaluate parse now t w = (e, w1)" by (cases "evaluate parse now t w")
  then obtain es' where rest: "evaluate_all parse now ts w1 = (es', w')" using Cons.prems by (auto split: prod.splits)
  note a = evaluate_effect [OF one] and b = Cons.IH [OF rest]
  have "only_fires parse (t # ts) [now] w w1" "only_fires parse (t # ts) [now] w1 w'"
    using a b by (auto intro: only_fires_mono)
  moreover have "w_Faults (sc_World w) = [] \<Longrightarrow> w_Faults (sc_World w1) = []" using a(1) by (simp add: same_setting_def)
  moreover have "gm_has (sched_runs w1) k \<Longrightarrow> gm_has (sched_runs w') k" for k using b only_fires_keeps by blast
  ultimately show ?case using a b same_setting_trans [of w w1 w'] only_fires_trans [of parse "t # ts" "[now]" w w1 w'] by simp
qed simp

definition ticks :: "CronParser \<Rightarrow> instant list \<Rightarrow> SchedWorld \<Rightarrow> SchedWorld" where
  "ticks parse nows w = fold (\<lambda>now w. snd (Tick parse now w)) nows w"

lemma Tick_effect:
  assumes "Tick parse now w = (es, w')"
  shows "only_fires parse (listed_tests (sc_World w)) [now] w w' \<and> same_setting w w' \<and>
    (w_Faults (sc_World w) = [] \<longrightarrow> w_ReadFaults (sc_World w) = [] \<longrightarrow> (\<forall>t \<in> set (listed_tests (sc_World w)). \<forall>s.
      firing_instant parse t now = Some s \<longrightarrow> gm_has (sched_runs w') (t_Namespace t, scheduled_name (t_Name t) s)))"
proof -
  obtain r v where read: "api_read (sc_World w) = (r, v)" by (cases "api_read (sc_World w)")
  then have v: "listed_tests v = listed_tests (sc_World w)" "w_Runs v = sched_runs w" "same_setting w (w\<lparr>sc_World := v\<rparr>)"
      "w_Faults v = w_Faults (sc_World w)" "w_ReadFaults (sc_World w) = [] \<Longrightarrow> r = Inr ()"
    by (auto simp: api_read_def listed_tests_def same_setting_def split: list.splits option.splits)
  have same: "only_fires parse ts nows (w\<lparr>sc_World := v\<rparr>) x \<longleftrightarrow> only_fires parse ts nows w x" for ts nows x
    by (simp add: only_fires_def v(2))
  show ?thesis
  proof (cases r)
    case (Inl e)
    then show ?thesis using assms read v by (auto simp: Tick_def only_fires_def)
  next
    case (Inr u)
    then have "evaluate_all parse now (listed_tests (sc_World w)) (w\<lparr>sc_World := v\<rparr>) = (es, w')"
      using assms read v(1) by (simp add: Tick_def)
    from evaluate_all_effect [OF this] show ?thesis using v(3,4) same_setting_trans by (auto simp: same)
  qed
qed

lemma listed_tests_same: "same_setting w w' \<Longrightarrow> listed_tests (sc_World w') = listed_tests (sc_World w)"
  by (simp add: same_setting_def listed_tests_def)

lemma ticks_effect:
  "only_fires parse (listed_tests (sc_World w)) nows w (ticks parse nows w) \<and> same_setting w (ticks parse nows w)"
proof (induction nows arbitrary: w)
  case Nil
  then show ?case by (simp add: ticks_def)
next
  case (Cons now nows)
  obtain es w1 where tick: "Tick parse now w = (es, w1)" by (cases "Tick parse now w")
  note a = Tick_effect [OF tick] and b = Cons.IH [of w1]
  have "listed_tests (sc_World w1) = listed_tests (sc_World w)" using a listed_tests_same by blast
  then have "only_fires parse (listed_tests (sc_World w)) (now # nows) w w1"
      "only_fires parse (listed_tests (sc_World w)) (now # nows) w1 (ticks parse nows w1)"
    using a b by (auto intro: only_fires_mono)
  moreover have "ticks parse (now # nows) w = ticks parse nows w1" by (simp add: ticks_def tick)
  ultimately show ?case using a b only_fires_trans [of parse _ "now # nows" w w1 "ticks parse nows w1"] same_setting_trans [of w w1] by simp
qed

lemma ticks_append: "ticks parse (xs @ ys) w = ticks parse ys (ticks parse xs w)"
  by (simp add: ticks_def)

lemma ticks_Cons: "ticks parse (now # ys) w = ticks parse ys (snd (Tick parse now w))"
  by (simp add: ticks_def)

text \<open>A tick that fires leaves the run, and later ticks keep it.\<close>

lemma ticks_fire:
  assumes "w_Faults (sc_World w) = []" "w_ReadFaults (sc_World w) = []" "t \<in> set (listed_tests (sc_World w))" "now \<in> set nows"
    and "firing_instant parse t now = Some s"
  shows "gm_has (sched_runs (ticks parse nows w)) (t_Namespace t, scheduled_name (t_Name t) s)"
proof -
  obtain xs ys where nows: "nows = xs @ now # ys" using assms(4) by (auto dest: split_list)
  let ?w = "ticks parse xs w"
  obtain es w1 where tick: "Tick parse now ?w = (es, w1)" by (cases "Tick parse now ?w")
  have same: "same_setting w ?w" using ticks_effect by blast
  have "w_Faults (sc_World ?w) = []" "w_ReadFaults (sc_World ?w) = []"
    using same assms(1,2) unfolding same_setting_def by blast+
  moreover have "t \<in> set (listed_tests (sc_World ?w))" using listed_tests_same [OF same] assms(3) by simp
  ultimately have "gm_has (sched_runs w1) (t_Namespace t, scheduled_name (t_Name t) s)" using Tick_effect [OF tick] assms(5) by blast
  moreover have "ticks parse nows w = ticks parse ys w1" by (simp add: nows ticks_append ticks_Cons tick)
  ultimately show ?thesis using ticks_effect [of parse w1 ys] only_fires_keeps by simp blast
qed

section \<open>Every instant, once\<close>


text \<open>
  C14. Every instant of a schedule that lies after the creation of its Test and in whose minute some tick
  happens is run: after the ticks there is the TestRun of that instant (the cron expressions have
  minutes, so the most recent instant is then this one).
\<close>

theorem scheduler_runs_every_instant:
  assumes "cron_law S sched" "\<forall>s \<in> S. 60 * second dvd s" "goes_on sched now"
    and "parse (ts_Schedule (t_Spec t)) = Some sched" "ts_Schedule (t_Spec t) \<noteq> []" "t \<in> set (listed_tests (sc_World w))"
    and "w_Faults (sc_World w) = []" "w_ReadFaults (sc_World w) = []"
    and "s \<in> S" "t_CreationTimestamp t \<le> s" "now \<in> set nows" "s \<le> now" "now < s + 60 * second"
  shows "gm_has (sched_runs (ticks parse nows w)) (t_Namespace t, scheduled_name (t_Name t) s)"
proof -
  have "r \<le> s" if "r \<in> S" "r \<le> now" for r
  proof -
    have "60 * second dvd r" "60 * second dvd s" using that assms(2,9) by auto
    then obtain a b where "r = 60 * second * a" "s = 60 * second * b" by (auto elim!: dvdE)
    moreover from this that(2) assms(13) have "60 * second * a < 60 * second * (b + 1)" by (simp add: algebra_simps)
    then have "a < b + 1" by (subst (asm) mult_less_cancel_left_pos) simp_all
    ultimately show ?thesis by simp
  qed
  moreover have "now - prevScheduleLookback < s" using assms(13) by (simp add: small_durations)
  ultimately have "latest_in S (now - prevScheduleLookback) now s" using assms(9,12) by (simp add: latest_in_def)
  moreover have "now - s \<le> missed_window sched s" using assms(13) by (simp add: missed_window_def MinMissedFireWindow_def)
  ultimately have "firing_instant parse t now = Some s"
    using assms(10) firing_instant_exact [of S sched now parse t s] assms(1,3,4,5) by blast
  then show ?thesis using ticks_fire assms(6,7,8,11) by blast
qed

text \<open>
  The scheduler has no memory but the runs themselves. A scheduled run that a user deletes while its
  instant is still the most recent one (for a daily schedule, until the next day) is created again
  by the next tick, and the test runs again.
\<close>

theorem deleted_scheduled_run_fires_again:
  assumes "firing_instant parse t now = Some s" "t \<in> set (listed_tests (sc_World w))"
    and "w_Faults (sc_World w) = []" "w_ReadFaults (sc_World w) = []"
    and "deleted = w\<lparr>sc_World := (sc_World w)\<lparr>w_Runs := gm_del (t_Namespace t, scheduled_name (t_Name t) s) (sched_runs w)\<rparr>\<rparr>"
  shows "\<not> gm_has (sched_runs deleted) (t_Namespace t, scheduled_name (t_Name t) s) \<and>
    gm_has (sched_runs (snd (Tick parse now deleted))) (t_Namespace t, scheduled_name (t_Name t) s)"
proof -
  have "t \<in> set (listed_tests (sc_World deleted))" using assms(2,5) by (simp add: listed_tests_def)
  then have "gm_has (sched_runs (ticks parse [now] deleted)) (t_Namespace t, scheduled_name (t_Name t) s)"
    using assms by (intro ticks_fire [where now = now]) auto
  then show ?thesis using assms(5) by (simp add: ticks_def gm_has_def)
qed

section \<open>Names\<close>

text \<open>Short names tell the Test and the instant apart.\<close>

lemma itoa_no_dash_pos: "0 \<le> i \<Longrightarrow> CHR ''-'' \<notin> set (itoa i)"
  using utoa_digits [of "nat i"] by (auto simp: itoa_def list_all_iff)

lemma last_dash_unique:
  assumes "a @ CHR ''-'' # x = b @ CHR ''-'' # y" "CHR ''-'' \<notin> set x" "CHR ''-'' \<notin> set y"
  shows "a = b \<and> x = y"
  using assms by (auto simp: append_eq_append_conv2 append_eq_Cons_conv Cons_eq_append_conv)

lemma scheduled_name_injective:
  assumes "scheduled_name a s = scheduled_name b r" "unixEpoch \<le> s" "unixEpoch \<le> r" "second dvd s" "second dvd r"
    and "length (a @ ''-'' @ itoa (time_Unix s)) \<le> MaxLen" "length (b @ ''-'' @ itoa (time_Unix r)) \<le> MaxLen"
  shows "a = b \<and> s = r"
proof -
  have nn: "0 \<le> time_Unix s" "0 \<le> time_Unix r" using assms(2,3) by (simp_all add: time_Unix_def pos_imp_zdiv_nonneg_iff)
  have "a @ CHR ''-'' # itoa (time_Unix s) = b @ CHR ''-'' # itoa (time_Unix r)"
    using assms(1,6,7) by (simp add: scheduled_name_def Bounded_def)
  then have "a = b" "itoa (time_Unix s) = itoa (time_Unix r)"
    using last_dash_unique nn itoa_no_dash_pos by blast+
  moreover from this have "time_Unix s = time_Unix r" using nn by (simp add: itoa_def)
  moreover have "second dvd s - unixEpoch" "second dvd r - unixEpoch" using assms(4,5) by (simp_all add: unixEpoch_def)
  ultimately have "s - unixEpoch = r - unixEpoch" by (metis dvd_div_mult_self time_Unix_def)
  then show ?thesis using \<open>a = b\<close> by simp
qed

section \<open>A schedule of every minute\<close>

text \<open>The schedule \<open>* * * * *\<close>, with which the hypotheses above are met.\<close>

definition minute :: int where "minute = 60 * second"

definition every_minute :: Schedule where
  "every_minute t = max minute ((t div minute + 1) * minute)"

definition minutes :: "instant set" where "minutes = {s. 0 < s \<and> minute dvd s}"

lemma minute_pos [simp]: "0 < minute" "minute \<noteq> 0" "0 \<le> minute" "\<not> minute < 0"
  by (simp_all add: minute_def second_def)

lemma minute_floor: "minute * (t div minute) \<le> t"
  by (simp add: minus_mod_eq_mult_div [symmetric])

lemma every_minute_later: "t < every_minute t"
proof -
  have "t = t div minute * minute + t mod minute" by simp
  also have "\<dots> < t div minute * minute + minute" by (intro add_strict_left_mono pos_mod_bound) simp
  finally have "t < (t div minute + 1) * minute" by (simp add: distrib_right)
  then show ?thesis by (simp add: every_minute_def)
qed

lemma every_minute_law: "cron_law minutes every_minute"
proof -
  have "every_minute t \<le> s" if pos: "0 < s" and dvd: "minute dvd s" and lt: "t < s" for s t
  proof -
    obtain a where a: "s = minute * a" using dvd by (auto elim: dvdE)
    with pos have "0 < a" by (simp add: zero_less_mult_iff)
    moreover have "t div minute < a"
    proof (rule ccontr)
      assume "\<not> t div minute < a"
      then have "minute * a \<le> minute * (t div minute)" by (intro mult_left_mono) simp_all
      also have "\<dots> \<le> t" by (rule minute_floor)
      finally show False using lt a by simp
    qed
    ultimately show ?thesis using a by (simp add: every_minute_def mult.commute mult_right_mono minute_def)
  qed
  moreover have "every_minute t \<in> minutes" for t by (simp add: every_minute_def minutes_def max_def)
  moreover have "second dvd s" if "minute dvd s" for s using that by (auto simp: minute_def elim: dvd_mult_right)
  ultimately show ?thesis using every_minute_later by (auto simp: cron_law_def minutes_def)
qed

definition minutely :: Test where
  "minutely = \<lparr>t_Name = ''smoke'', t_Namespace = ''n'', t_Labels = [], t_CreationTimestamp = 0,
     t_Spec = zero_TestSpec\<lparr>ts_Schedule := ''* * * * *''\<rparr>\<rparr>"

definition one_test :: SchedWorld where
  "one_test = \<lparr>sc_World = \<lparr>w_Now = 0, w_Faults = [], w_ReadFaults = [], w_Lag = [], w_NextUID = 0, w_Runs = [],
     w_Tests = [((''n'', ''smoke''), minutely)], w_LatestRun = [], w_Jobs = [], w_Pods = [], w_Aux = [], w_ServiceObjects = [],
     w_Webhooks = [], w_Tailers = [], w_History = [], w_Persisted = [], w_Dispatched = [], w_Outbox = [], w_RunsTotal = [],
     w_ActiveRuns = [], w_Durations = []\<rparr>, sc_Fires = 0\<rparr>"

lemma every_minute_goes_on: "0 \<le> now - prevScheduleLookback \<Longrightarrow> goes_on every_minute now"
proof -
  assume late: "0 \<le> now - prevScheduleLookback"
  have "every_minute t \<le> t + tenYears \<and> every_minute t \<noteq> 0" if "now - prevScheduleLookback \<le> t" for t
  proof -
    have "(t div minute + 1) * minute \<le> t + minute" using minute_floor [of t] by (simp add: algebra_simps)
    moreover have "minute \<le> tenYears" by (simp add: minute_def tenYears_def)
    ultimately have "every_minute t \<le> t + tenYears" using that late unfolding every_minute_def by auto
    then show ?thesis using every_minute_later [of t] that late by linarith
  qed
  then show ?thesis by (simp add: goes_on_def)
qed

lemma minutely_listed: "minutely \<in> set (listed_tests (sc_World one_test))"
  by (simp add: listed_tests_def one_test_def minutely_def)

theorem scheduler_runs_every_instant_witness:
  "gm_has (sched_runs (ticks (\<lambda>_. Some every_minute) [30 * second + unixEpoch] one_test)) (''n'', scheduled_name ''smoke'' unixEpoch)"
proof -
  let ?now = "30 * second + unixEpoch"
  have "goes_on every_minute ?now" by (rule every_minute_goes_on) (simp add: unixEpoch_def small_durations)
  moreover have "unixEpoch \<in> minutes" by (simp add: minutes_def unixEpoch_def minute_def second_def)
  moreover have "\<forall>s \<in> minutes. 60 * second dvd s" by (simp add: minutes_def minute_def)
  moreover have "?now < unixEpoch + 60 * second" by (simp add: second_def)
  moreover have "t_CreationTimestamp minutely \<le> unixEpoch" by (simp add: minutely_def unixEpoch_def second_def)
  ultimately have "gm_has (sched_runs (ticks (\<lambda>_. Some every_minute) [?now] one_test))
      (t_Namespace minutely, scheduled_name (t_Name minutely) unixEpoch)"
    using minutely_listed
    by (intro scheduler_runs_every_instant [OF every_minute_law, where now = ?now])
      (simp_all add: one_test_def minutely_def)
  then show ?thesis by (simp add: minutely_def)
qed

theorem deleted_scheduled_run_fires_again_witness:
  "gm_has (sched_runs (snd (Tick (\<lambda>_. Some every_minute) (30 * second + unixEpoch) (one_test\<lparr>sc_World := (sc_World one_test)
     \<lparr>w_Runs := gm_del (''n'', scheduled_name ''smoke'' unixEpoch) (sched_runs one_test)\<rparr>\<rparr>)))) (''n'', scheduled_name ''smoke'' unixEpoch)"
proof -
  let ?now = "30 * second + unixEpoch" and ?parse = "\<lambda>_ :: string. Some every_minute"
  have "goes_on every_minute ?now" by (rule every_minute_goes_on) (simp add: unixEpoch_def small_durations)
  moreover have "latest_in minutes (?now - prevScheduleLookback) ?now unixEpoch"
  proof -
    have "s \<le> unixEpoch" if "minute dvd s" "s \<le> ?now" for s
      using that by (auto simp: minute_def second_def unixEpoch_def elim!: dvdE)
    then show ?thesis by (simp add: latest_in_def minutes_def) (simp add: unixEpoch_def small_durations minute_def)
  qed
  ultimately have "firing_instant ?parse minutely ?now = Some unixEpoch"
    using firing_instant_exact [OF every_minute_law, of ?now ?parse minutely unixEpoch]
    by (simp add: minutely_def missed_window_def MinMissedFireWindow_def second_def unixEpoch_def)
  from deleted_scheduled_run_fires_again [OF this minutely_listed _ _ refl] show ?thesis
    by (simp add: minutely_def) (simp add: one_test_def)
qed

end
