(* ===== verification/Admission.thy ===== *)
theory Admission
  imports Workers ServiceObjects PodMerge GoPath GoNum
begin

text \<open>
  The admission webhooks, \<open>src/internal/webhook/v1alpha1\<close>: defaulting and validation of Tests and
  TestRuns. The cron parser, the glob library and the Kubernetes name check are code outside the
  repository and parameters here. \<open>int\<close> arithmetic wraps at 64 bits. An error names the field and the rule that was broken.
\<close>

section \<open>Parameters and errors\<close>

record AdmissionDeps =
  ad_Cron :: "string \<Rightarrow> bool"
  ad_Glob :: "string \<Rightarrow> bool"
  ad_DNS1123Subdomain :: "string \<Rightarrow> bool"

type_synonym claimant = "nat \<times> nat option"

text \<open>A refusal: the field and what is wrong with it (the value where the message shows one).\<close>

datatype admission_error =
    Refused string string
  | TooMany string int
  | BothLandOn claimant claimant string
  | PolicyViolations "violation list"

definition in_list :: "string \<Rightarrow> nat \<Rightarrow> string" where
  "in_list field i = field @ ''['' @ utoa i @ '']''"

definition claimant_field :: "claimant \<Rightarrow> string" where
  "claimant_field c = in_list ''spec.content.testData'' (fst c) @
     (case snd c of None \<Rightarrow> ''.mountPath'' | Some j \<Rightarrow> in_list ''.items'' j @ ''.path'')"

type_synonym 'a checked = "(admission_error, 'a) result"

definition require :: "bool \<Rightarrow> admission_error \<Rightarrow> unit checked" where
  "require ok e = (if ok then Inr () else Inl e)"

fun check_all :: "('a \<Rightarrow> unit checked) \<Rightarrow> 'a list \<Rightarrow> unit checked" where
  "check_all f [] = Inr ()"
| "check_all f (x # xs) = rbind (f x) (\<lambda>_. check_all f xs)"

section \<open>Names\<close>

definition is_alnum_lower :: "char \<Rightarrow> bool" where
  "is_alnum_lower c \<longleftrightarrow> is_lower c \<or> is_digit c"

text \<open>\<open>serviceNameRE\<close> and \<open>matrixKeyRE\<close>.\<close>

definition serviceNameRE :: "string \<Rightarrow> bool" where
  "serviceNameRE s \<longleftrightarrow> s \<noteq> [] \<and> is_lower (hd s) \<and> length s \<le> 32 \<and>
     list_all (\<lambda>c. is_alnum_lower c \<or> c = CHR ''-'') (tl s) \<and> is_alnum_lower (last s)"

definition ident_start :: "char \<Rightarrow> bool" where
  "ident_start c \<longleftrightarrow> is_upper c \<or> is_lower c \<or> c = CHR ''_''"

definition matrixKeyRE :: "string \<Rightarrow> bool" where
  "matrixKeyRE s \<longleftrightarrow> s \<noteq> [] \<and> ident_start (hd s) \<and> list_all (\<lambda>c. ident_start c \<or> is_digit c) (tl s)"

section \<open>Small rules\<close>

definition ConcurrencyPolicies :: "string list" where
  "ConcurrencyPolicies = [[], ''Allow'', ''Forbid'', ''Replace'']"

definition allowedVerdictFrom :: "string list" where
  "allowedVerdictFrom = [[], ''exitCode'', ''junit'', ''jtl'']"

definition MaxInlineContentBytes :: int where "MaxInlineContentBytes = 512 * 1024"
definition MaxServiceReplicas :: int where "MaxServiceReplicas = 20"
definition MaxParallelWorkers :: int where "MaxParallelWorkers = 50"

definition validateRetry :: "string \<Rightarrow> RetryPolicy option \<Rightarrow> unit checked" where
  "validateRetry field r = (case r of None \<Rightarrow> Inr ()
     | Some p \<Rightarrow> if rp_Count p < 1 then Inl (Refused (field @ ''.count'') ''must be >= 1 when set'')
         else if rp_Until p \<noteq> [] \<and> rp_Until p \<noteq> ''passed'' then Inl (Refused (field @ ''.until'') (rp_Until p))
         else Inr ())"

definition validateVerdict :: "VerdictSpec option \<Rightarrow> unit checked" where
  "validateVerdict v = (case v of None \<Rightarrow> Inr ()
     | Some s \<Rightarrow>
         if vd_From s \<notin> set allowedVerdictFrom then Inl (Refused ''spec.verdict.from'' (vd_From s))
         else let from = (if vd_From s = [] then ''exitCode'' else vd_From s)
              in if vd_ErrorRateMax s = [] then Inr ()
                 else if from \<noteq> ''jtl'' then Inl (Refused ''spec.verdict.errorRateMax is only valid with from=jtl'' from)
                 else case ParseFloat (vd_ErrorRateMax s) of
                     None \<Rightarrow> Inl (Refused ''spec.verdict.errorRateMax is not a valid float'' (vd_ErrorRateMax s))
                   | Some f \<Rightarrow> if float_less f (Finite 0) \<or> float_less (Finite 1) f
                       then Inl (Refused ''spec.verdict.errorRateMax out of range'' (vd_ErrorRateMax s)) else Inr ())"

definition validateRelativeGlob :: "AdmissionDeps \<Rightarrow> string \<Rightarrow> string \<Rightarrow> unit checked" where
  "validateRelativeGlob d field p =
     (if has_prefix ''/'' p then Inl (Refused (field @ '' must be relative'') p)
      else if ''..'' \<in> set (split_on (CHR ''/'') p) then Inl (Refused (field @ '' must not contain ..'') p)
      else if \<not> ad_Glob d p then Inl (Refused (field @ '' is not a valid glob pattern'') p)
      else Inr ())"

definition validateMetrics :: "AdmissionDeps \<Rightarrow> MetricsSpec option \<Rightarrow> unit checked" where
  "validateMetrics d m = (case m of None \<Rightarrow> Inr () | Some s \<Rightarrow> validateRelativeGlob d ''spec.metrics.path'' (ms_Path s))"

definition validateArtifacts :: "AdmissionDeps \<Rightarrow> ArtifactSpec option \<Rightarrow> unit checked" where
  "validateArtifacts d a = (case a of None \<Rightarrow> Inr ()
     | Some s \<Rightarrow> if as_Report s = [] then Inr () else validateRelativeGlob d ''spec.artifacts.report'' (as_Report s))"

definition inlineContentSize :: "FileContent list \<Rightarrow> int" where
  "inlineContentSize files = sum_list (map (\<lambda>f. int (length (fc_Content f))) files)"

section \<open>Services and parallel workers\<close>

text \<open>The replicas so far times the values of each key of a matrix.\<close>

fun matrix_loop :: "string \<Rightarrow> (string \<times> string list) list \<Rightarrow> int \<Rightarrow> int checked" where
  "matrix_loop field [] r = Inr r"
| "matrix_loop field ((key, values) # m) r =
     (if \<not> matrixKeyRE key then Inl (Refused (field @ '' key must be an identifier'') key)
      else if values = [] then Inl (Refused (field @ '' needs at least one value'') key)
      else matrix_loop field m (wrap64 (r * int (length values))))"

definition validate_service :: "string \<Rightarrow> ServiceSpec \<Rightarrow> int checked" where
  "validate_service name svc =
     (if \<not> serviceNameRE name then Inl (Refused ''service name must be a DNS label'' name)
      else if sv_Image svc = [] then Inl (Refused ''image is required'' name)
      else if sv_MaxCount svc \<noteq> None then Inl (Refused ''maxCount is not supported for services'' name)
      else if sv_Shards svc \<noteq> [] then Inl (Refused ''shards is not supported for services'' name)
      else if (case sv_Count svc of None \<Rightarrow> False | Some c \<Rightarrow> c < 1) then Inl (Refused ''count must be >= 1'' name)
      else rbind (matrix_loop name (sv_Matrix svc) (case sv_Count svc of None \<Rightarrow> 1 | Some c \<Rightarrow> c)) (\<lambda>replicas.
        if (case sv_Timeout svc of None \<Rightarrow> False | Some t \<Rightarrow> t < 0) then Inl (Refused ''timeout must not be negative'' name) else Inr replicas))"

fun services_loop :: "(string \<times> ServiceSpec) list \<Rightarrow> int \<Rightarrow> unit checked" where
  "services_loop [] tot = Inr ()"
| "services_loop ((name, svc) # svcs) tot = rbind (validate_service name svc) (\<lambda>replicas.
     let tot' = wrap64 (tot + replicas)
     in if MaxServiceReplicas < tot' then Inl (TooMany ''spec.services'' tot') else services_loop svcs tot')"

definition validateServices :: "(string, ServiceSpec) gomap \<Rightarrow> unit checked" where
  "validateServices svcs = services_loop (sort_key fst svcs) 0"

text \<open>The workers per combination, as the webhook counts them.\<close>

definition declared_per :: "ParallelSpec \<Rightarrow> int" where
  "declared_per p = (case pl_Count p of Some c \<Rightarrow> c
     | None \<Rightarrow> if pl_Shards p = [] then 1
         else let longest = fold max (map (\<lambda>(_, vs). int (length vs)) (pl_Shards p)) 0
              in case pl_MaxCount p of None \<Rightarrow> longest | Some m \<Rightarrow> min longest m)"

definition validateParallel :: "ParallelSpec option \<Rightarrow> unit checked" where
  "validateParallel ps = (case ps of None \<Rightarrow> Inr ()
     | Some p \<Rightarrow>
         if pl_MaxCount p \<noteq> None \<and> pl_Count p \<noteq> None then Inl (Refused ''spec.parallel'' ''set count or maxCount, not both'')
         else if pl_MaxCount p \<noteq> None \<and> pl_Shards p = [] then Inl (Refused ''spec.parallel.maxCount'' ''only applies with shards'')
         else rbind (matrix_loop ''matrix'' (pl_Matrix p) 1) (\<lambda>combos.
           rbind (matrix_loop ''shards'' (pl_Shards p) 1) (\<lambda>_.
             let tot = wrap64 (combos * declared_per p)
             in if MaxParallelWorkers < tot then Inl (TooMany ''spec.parallel'' tot) else Inr ())))"

section \<open>Content\<close>

definition repoDir :: string where "repoDir = ''/data/repo''"
definition testDataDir :: string where "testDataDir = ''/data/testdata''"
definition platformDirs :: "string list" where "platformDirs = [''/kubetest-bin'', ''/etc/kubetest'']"

definition relativePath :: "nat \<Rightarrow> string \<Rightarrow> unit checked" where
  "relativePath i p = require (\<not> (p = [] \<or> path_IsAbs p \<or> ''..'' \<in> set (split_on (CHR ''/'') (path_Clean p)))) (Refused (in_list ''spec.content.files'' i @ ''.path must be relative'') p)"

definition dataPath :: "claimant \<Rightarrow> string \<Rightarrow> unit checked" where
  "dataPath c p =
     (let clean = path_Clean p
      in if \<not> path_IsAbs p \<or> str_contains ''..'' p then Inl (Refused (claimant_field c @ '' must be an absolute path without .. segments'') p)
         else if clean \<in> set [''/'', ''/data'', repoDir] then Inl (Refused (claimant_field c @ '' would cover a whole directory'') p)
         else if list_ex (\<lambda>dir. clean = dir \<or> has_prefix (dir @ ''/'') clean) platformDirs then Inl (Refused (claimant_field c @ '' is a directory of the platform'') p)
         else Inr ())"

type_synonym claims = "(string, claimant) gomap"

definition claim :: "string \<Rightarrow> claimant \<Rightarrow> claims \<Rightarrow> claims checked" where
  "claim p what seen = (case gm_get seen p of Some other \<Rightarrow> Inl (BothLandOn what other p) | None \<Rightarrow> Inr (gm_set p what seen))"

fun claim_items :: "nat \<Rightarrow> nat \<Rightarrow> TestDataItem list \<Rightarrow> claims \<Rightarrow> claims checked" where
  "claim_items i j [] seen = Inr seen"
| "claim_items i j (it # its) seen =
     (if tdi_Key it = [] then Inl (Refused (claimant_field (i, Some j)) ''key is required'')
      else rbind (dataPath (i, Some j) (tdi_Path it)) (\<lambda>_.
        rbind (claim (path_Clean (tdi_Path it)) (i, Some j) seen) (claim_items i (Suc j) its)))"

definition claim_source :: "AdmissionDeps \<Rightarrow> nat \<Rightarrow> TestDataSource \<Rightarrow> claims \<Rightarrow> claims checked" where
  "claim_source d i s seen =
     (if (td_ConfigMap s = []) = (td_Secret s = []) then Inl (Refused (in_list ''spec.content.testData'' i) ''set exactly one of configMap or secret'')
      else let name = td_ConfigMap s @ td_Secret s
           in if \<not> ad_DNS1123Subdomain d name then Inl (Refused (in_list ''spec.content.testData'' i @ '' is not a valid name'') name)
              else if td_MountPath s \<noteq> [] \<and> td_Items s \<noteq> [] then Inl (Refused (in_list ''spec.content.testData'' i) ''mountPath or items, not both'')
              else if td_Items s \<noteq> [] then claim_items i 0 (td_Items s) seen
              else if td_MountPath s \<noteq> [] then
                rbind (dataPath (i, None) (td_MountPath s)) (\<lambda>_. claim (path_Clean (td_MountPath s)) (i, None) seen)
              else claim (path_Join [testDataDir, name]) (i, None) seen)"

fun claim_sources :: "AdmissionDeps \<Rightarrow> nat \<Rightarrow> TestDataSource list \<Rightarrow> claims \<Rightarrow> claims checked" where
  "claim_sources d i [] seen = Inr seen"
| "claim_sources d i (s # ss) seen = rbind (claim_source d i s seen) (claim_sources d (Suc i) ss)"

definition sources_count :: "Content \<Rightarrow> nat" where
  "sources_count c = length (filter id [cn_Git c \<noteq> None, cn_Files c \<noteq> [], cn_Tarball c \<noteq> []])"

definition validate_file :: "nat \<times> FileContent \<Rightarrow> unit checked" where
  "validate_file f = (case f of (i, fc) \<Rightarrow>
     if fc_ContentFrom fc \<noteq> None then Inl (Refused (in_list ''spec.content.files'' i) ''contentFrom is not supported'')
     else if has_prefix ''repo/'' (fc_Path fc) then Inl (Refused (in_list ''spec.content.files'' i @ '': inline paths are relative to /data/repo now'') (fc_Path fc))
     else relativePath i (fc_Path fc))"

definition validateContent :: "AdmissionDeps \<Rightarrow> Content \<Rightarrow> unit checked" where
  "validateContent d c =
     (if 1 < sources_count c then Inl (Refused ''spec.content'' ''the code comes from one source'')
      else rbind (check_all validate_file (enumerate 0 (cn_Files c))) (\<lambda>_.
        rbind (claim_sources d 0 (cn_TestData c) []) (\<lambda>_. Inr ())))"

section \<open>Tests\<close>

definition validateSchedule :: "AdmissionDeps \<Rightarrow> string \<Rightarrow> unit checked" where
  "validateSchedule d s = require (s = [] \<or> ad_Cron d s) (Refused ''spec.schedule is not a valid cron expression'' s)"

definition validateConcurrency :: "string \<Rightarrow> unit checked" where
  "validateConcurrency p = require (p \<in> set ConcurrencyPolicies) (Refused ''spec.concurrencyPolicy'' p)"

definition validate_execute_test :: "nat \<Rightarrow> nat \<times> StepExecuteTest \<Rightarrow> unit checked" where
  "validate_execute_test i jt = (case jt of (j, t) \<Rightarrow>
     if et_Name t = [] then Inl (Refused (in_list ''spec.steps'' i @ in_list ''.execute.tests'' j @ ''.name'') ''is required'') else if et_Count t < 0 then Inl (Refused (in_list ''spec.steps'' i @ in_list ''.execute.tests'' j @ ''.count'') ''must be >= 1'') else Inr ())"

definition validateStep :: "nat \<times> Step \<Rightarrow> unit checked" where
  "validateStep ist = (case ist of (i, s) \<Rightarrow> (case st_Execute s of None \<Rightarrow> Inl (Refused (in_list ''spec.steps'' i @ ''.execute'') ''is required'')
     | Some e \<Rightarrow>
         if se_Tests e = [] then Inl (Refused (in_list ''spec.steps'' i @ ''.execute.tests'') ''must have at least one entry'')
         else if se_Parallelism e < 0 then Inl (Refused (in_list ''spec.steps'' i @ ''.execute.parallelism'') ''must be >= 0'')
         else if st_Condition s \<notin> {[], ''passed'', ''always''} then Inl (Refused (in_list ''spec.steps'' i @ ''.condition'') (st_Condition s))
         else rbind (check_all (validate_execute_test i) (enumerate 0 (se_Tests e))) (\<lambda>_.
           validateRetry (in_list ''spec.steps'' i @ ''.retry'') (st_Retry s))))"

definition validateCompositeShape :: "AdmissionDeps \<Rightarrow> TestSpec \<Rightarrow> unit checked" where
  "validateCompositeShape d spec =
     (let c = ts_Container spec; n = ts_Content spec
      in if ct_Image c \<noteq> [] \<or> ct_Command c \<noteq> [] \<or> ct_Args c \<noteq> [] then Inl (Refused ''spec.steps excludes'' ''spec.container'')
         else if ts_Use spec \<noteq> [] then Inl (Refused ''spec.steps excludes'' ''spec.use'')
         else if cn_Git n \<noteq> None \<or> cn_Files n \<noteq> [] \<or> cn_Tarball n \<noteq> [] \<or> cn_TestData n \<noteq> [] then Inl (Refused ''spec.steps excludes'' ''spec.content'')
         else if ts_Verdict spec \<noteq> None then Inl (Refused ''spec.steps excludes'' ''spec.verdict'')
         else if ts_Metrics spec \<noteq> None then Inl (Refused ''spec.steps excludes'' ''spec.metrics'')
         else if ts_Services spec \<noteq> [] then Inl (Refused ''spec.steps excludes'' ''spec.services'')
         else if ts_Parallel spec \<noteq> None then Inl (Refused ''spec.steps excludes'' ''spec.parallel'')
         else if ts_Retry spec \<noteq> None then Inl (Refused ''spec.retry'' ''does not apply to a composite Test'')
         else rbind (validateConcurrency (ts_ConcurrencyPolicy spec)) (\<lambda>_.
           rbind (validateSchedule d (ts_Schedule spec)) (\<lambda>_. check_all validateStep (enumerate 0 (ts_Steps spec)))))"

definition live_view_ok :: "LiveViewSpec option \<Rightarrow> bool" where
  "live_view_ok lv = (case lv of None \<Rightarrow> True
     | Some l \<Rightarrow> lv_Path l = [] \<or> has_prefix ''/'' (lv_Path l) \<and> \<not> has_prefix ''//'' (lv_Path l))"

definition live_view_path :: "LiveViewSpec option \<Rightarrow> string" where
  "live_view_path lv = (case lv of None \<Rightarrow> [] | Some l \<Rightarrow> lv_Path l)"

definition git_uri_ok :: "GitContent option \<Rightarrow> bool" where
  "git_uri_ok g = (case g of None \<Rightarrow> True | Some git \<Rightarrow> gc_URI git \<noteq> [])"

definition validateTest :: "AdmissionDeps \<Rightarrow> TestSpec \<Rightarrow> unit checked" where
  "validateTest d spec =
     (let own = ts_Use spec = []; c = ts_Container spec; size = inlineContentSize (cn_Files (ts_Content spec))
      in if ts_Steps spec \<noteq> [] then validateCompositeShape d spec
         else rbind (require (\<not> (own \<and> ct_Image c = [])) (Refused ''spec.container.image'' ''is required'')) (\<lambda>_.
           rbind (require (\<not> (own \<and> ct_Command c = [] \<and> ct_Args c = [])) (Refused ''spec.container'' ''at least one of command or args is required'')) (\<lambda>_.
           rbind (validateConcurrency (ts_ConcurrencyPolicy spec)) (\<lambda>_.
           rbind (validateVerdict (ts_Verdict spec)) (\<lambda>_.
           rbind (validateMetrics d (ts_Metrics spec)) (\<lambda>_.
           rbind (validateArtifacts d (ts_Artifacts spec)) (\<lambda>_.
           rbind (require (live_view_ok (ts_LiveView spec)) (Refused ''spec.liveView.path must start with a single /'' (live_view_path (ts_LiveView spec)))) (\<lambda>_.
           rbind (validateRetry ''spec.retry'' (ts_Retry spec)) (\<lambda>_.
           rbind (validateServices (ts_Services spec)) (\<lambda>_.
           rbind (validateParallel (ts_Parallel spec)) (\<lambda>_.
           rbind (require (git_uri_ok (cn_Git (ts_Content spec))) (Refused ''spec.content.git.uri'' ''is required'')) (\<lambda>_.
           rbind (validateContent d (ts_Content spec)) (\<lambda>_.
           rbind (require (\<not> MaxInlineContentBytes < size) (TooMany ''inline content exceeds the limit, use git/tarball'' size)) (\<lambda>_.
             validateSchedule d (ts_Schedule spec)))))))))))))))"

definition policy_check :: "Policy \<Rightarrow> TestSpec \<Rightarrow> PodConfig option \<Rightarrow> unit checked" where
  "policy_check p spec pod = (case Check p (Some spec) pod of [] \<Rightarrow> Inr () | vs \<Rightarrow> Inl (PolicyViolations vs))"

definition ValidateCreateTest :: "AdmissionDeps \<Rightarrow> Policy \<Rightarrow> Test \<Rightarrow> unit checked" where
  "ValidateCreateTest d p t = rbind (validateTest d (t_Spec t)) (\<lambda>_. policy_check p (t_Spec t) None)"

definition ValidateUpdateTest :: "AdmissionDeps \<Rightarrow> Policy \<Rightarrow> Test \<Rightarrow> Test \<Rightarrow> unit checked" where
  "ValidateUpdateTest d p old new = rbind (validateTest d (t_Spec new)) (\<lambda>_. policy_check p (t_Spec new) None)"

definition DefaultTest :: "Test \<Rightarrow> Test" where
  "DefaultTest t = (if ts_ConcurrencyPolicy (t_Spec t) = [] then t\<lparr>t_Spec := (t_Spec t)\<lparr>ts_ConcurrencyPolicy := ''Allow''\<rparr>\<rparr> else t)"

section \<open>TestRuns\<close>

definition DefaultSource :: string where "DefaultSource = ''api''"

definition DefaultTestRun :: "TestRun \<Rightarrow> TestRun" where
  "DefaultTestRun r = (if rs_Source (r_Spec r) = [] then r\<lparr>r_Spec := (r_Spec r)\<lparr>rs_Source := DefaultSource\<rparr>\<rparr> else r)"

definition validateRunName :: "string \<Rightarrow> unit checked" where
  "validateRunName name = require (length name \<le> MaxLen) (Refused ''metadata.name is too long'' name)"

definition validateTestRun :: "TestRunSpec \<Rightarrow> unit checked" where
  "validateTestRun spec = require (rs_TestRef spec \<noteq> []) (Refused ''spec.testRef'' ''is required'')"

definition validateAbortTransition :: "AbortRequest option \<Rightarrow> AbortRequest option \<Rightarrow> unit checked" where
  "validateAbortTransition old new = (case old of None \<Rightarrow> Inr ()
     | Some o' \<Rightarrow> (case new of None \<Rightarrow> Inl (Refused ''spec.abort'' ''cannot be cleared once set'') | Some n \<Rightarrow> if o' \<noteq> n then Inl (Refused ''spec.abort'' ''cannot be changed once set'') else Inr ()))"

definition ValidateCreateRun :: "Policy \<Rightarrow> TestRun \<Rightarrow> unit checked" where
  "ValidateCreateRun p r = rbind (validateRunName (r_Name r)) (\<lambda>_. rbind (validateTestRun (r_Spec r)) (\<lambda>_.
     policy_check p zero_TestSpec (rs_Pod (r_Spec r))))"

definition ValidateUpdateRun :: "Policy \<Rightarrow> TestRun \<Rightarrow> TestRun \<Rightarrow> unit checked" where
  "ValidateUpdateRun p old new = rbind (validateTestRun (r_Spec new)) (\<lambda>_. rbind (policy_check p zero_TestSpec (rs_Pod (r_Spec new)))
     (\<lambda>_. validateAbortTransition (rs_Abort (r_Spec old)) (rs_Abort (r_Spec new))))"

end
