(* ===== verification/AdmissionRules.thy ===== *)
theory AdmissionRules
  imports Admission "HOL-Library.Multiset"
begin

text \<open>
  What an admitted object is good for: the number of workers and service replicas it can start (and
  how a large matrix slips past the limit), where its files and data land, and that an abort is for
  good.
\<close>

section \<open>Checks\<close>

lemma require_ok [simp]: "require b e = Inr x \<longleftrightarrow> b"
  by (simp add: require_def)

lemma check_all_ok: "check_all f xs = Inr () \<longleftrightarrow> (\<forall>x \<in> set xs. f x = Inr ())"
  by (induction xs) (auto simp: rbind_Inr)

lemma unit_checked: "(r :: unit checked) = Inr u \<longleftrightarrow> r = Inr ()"
  by simp

section \<open>Sizes of matrices\<close>

definition matrix_size :: "(string, string list) gomap \<Rightarrow> nat" where
  "matrix_size m = prod_list (map (\<lambda>(_, vs). length vs) m)"

lemma sorted_prod: "prod_list (map f (sort xs)) = (prod_list (map f xs) :: nat)"
  by (metis mset_map mset_sort prod_mset_prod_list)

lemma matrix_size_keys:
  assumes "gm_ok m"
  shows "prod_list (map (\<lambda>k. length (gm_at [] m k)) (sort (map fst m))) = matrix_size m"
proof -
  have "map (\<lambda>k. length (gm_at [] m k)) (map fst m) = map (\<lambda>(_, vs). length vs) m"
    using assms by (auto simp: gm_ok_def gm_at_def)
  then show ?thesis by (simp only: sorted_prod matrix_size_def)
qed

lemma matrix_loop_ok:
  assumes "matrix_loop field m r = Inr n"
  shows "(\<forall>(k, vs) \<in> set m. matrixKeyRE k \<and> vs \<noteq> []) \<and> wrap64 n = wrap64 (r * int (matrix_size m))"
  using assms
proof (induction field m r rule: matrix_loop.induct)
  case (2 field key vs m r)
  then have "wrap64 n = wrap64 (wrap64 (r * int (length vs)) * int (matrix_size m))" by (auto split: if_splits)
  then show ?case using 2 by (auto simp: matrix_size_def mult.assoc split: if_splits)
qed (simp add: matrix_size_def)

lemma matrix_loop_accepts:
  "\<forall>(k, vs) \<in> set m. matrixKeyRE k \<and> vs \<noteq> [] \<Longrightarrow> \<exists>n. matrix_loop field m r = Inr n"
  by (induction field m r rule: matrix_loop.induct) auto

section \<open>Workers and replicas\<close>

text \<open>What the schema of the resource already asks of the counts.\<close>

definition counts_ok :: "ParallelSpec \<Rightarrow> bool" where
  "counts_ok p \<longleftrightarrow> (\<forall>c. pl_Count p = Some c \<longrightarrow> 1 \<le> c) \<and> (\<forall>c. pl_MaxCount p = Some c \<longrightarrow> 1 \<le> c)"

lemma length_workers: "length (ParallelWorkers (Some p)) = length (matrix_combos (pl_Matrix p)) * per_combination p"
  by (simp add: ParallelWorkers_def Let_def length_concat comp_def sum_list_triv)

lemma fold_max_int: "fold max (map (\<lambda>(_, vs). int (length vs)) xs) (int n) = int (fold max (map (\<lambda>(_, vs). length vs) xs) n)"
proof (induction xs arbitrary: n)
  case (Cons x xs)
  then show ?case by (cases x) (simp flip: of_nat_max)
qed simp

lemma fold_max_ge: "(n :: nat) \<le> fold max ns n \<and> (\<forall>x \<in> set ns. x \<le> fold max ns n)"
proof (induction ns arbitrary: n)
  case (Cons a ns)
  from Cons [of "max a n"] show ?case by auto
qed simp

lemma declared_per_combination:
  assumes "counts_ok p" "\<forall>(k, vs) \<in> set (pl_Shards p). vs \<noteq> []"
  shows "declared_per p = int (per_combination p)"
proof (cases "pl_Count p")
  case (Some c)
  then show ?thesis using assms(1) by (simp add: declared_per_def per_combination_def counts_ok_def)
next
  case None
  show ?thesis
  proof (cases "pl_Shards p")
    case Nil
    then show ?thesis using None by (simp add: declared_per_def per_combination_def)
  next
    case (Cons s ss)
    let ?longest = "fold max (map (\<lambda>(_, vs). length vs) (pl_Shards p)) 0"
    have "length (snd s) \<le> ?longest"
      using fold_max_ge [of 0 "map (\<lambda>(_, vs). length vs) (pl_Shards p)"] Cons by (cases s) auto
    moreover have "0 < length (snd s)" using assms(2) Cons by auto
    ultimately have "1 \<le> ?longest" by linarith
    moreover have "fold max (map (\<lambda>(_, vs). int (length vs)) (pl_Shards p)) 0 = int ?longest"
      using fold_max_int [of "pl_Shards p" 0] by simp
    ultimately show ?thesis using None Cons assms(1)
      by (auto simp: declared_per_def per_combination_def counts_ok_def Let_def split: option.splits)
  qed
qed

lemma validateParallel_ok:
  assumes "validateParallel (Some p) = Inr ()" "gm_ok (pl_Matrix p)" "counts_ok p"
  shows "wrap64 (int (length (ParallelWorkers (Some p)))) \<le> MaxParallelWorkers"
proof -
  obtain combos n where loops: "matrix_loop ''matrix'' (pl_Matrix p) 1 = Inr combos" "matrix_loop ''shards'' (pl_Shards p) 1 = Inr n"
    and small: "wrap64 (combos * declared_per p) \<le> MaxParallelWorkers"
    using assms(1) by (auto simp: validateParallel_def rbind_Inr Let_def split: if_splits)
  have "declared_per p = int (per_combination p)"
    using matrix_loop_ok [OF loops(2)] by (intro declared_per_combination assms(3)) auto
  moreover have "wrap64 combos = wrap64 (int (matrix_size (pl_Matrix p)))" using matrix_loop_ok [OF loops(1)] by simp
  ultimately have "wrap64 (combos * declared_per p) = wrap64 (int (matrix_size (pl_Matrix p)) * int (per_combination p))"
    by (metis wrap64_mult_left)
  then show ?thesis using small by (simp add: length_workers length_matrix_combos matrix_size_keys [OF assms(2)])
qed

lemma validate_service_replicas:
  assumes "validate_service name svc = Inr n" "gm_ok (sv_Matrix svc)"
  shows "wrap64 n = wrap64 (int (length (replicaEnvs svc)))"
proof -
  let ?count = "case sv_Count svc of None \<Rightarrow> 1 | Some c \<Rightarrow> c"
  have loop: "matrix_loop name (sv_Matrix svc) ?count = Inr n" and pos: "\<And>c. sv_Count svc = Some c \<Longrightarrow> 1 \<le> c"
    using assms(1) by (auto simp: validate_service_def rbind_Inr split: if_splits option.splits)
  have "int (case sv_Count svc of None \<Rightarrow> 1 | Some c \<Rightarrow> if 0 < c then nat c else 1) = ?count"
    using pos by (force split: option.splits)
  then have "int (length (replicaEnvs svc)) = ?count * int (matrix_size (sv_Matrix svc))"
    by (simp add: replicaEnvs_count matrix_size_keys [OF assms(2)] mult.commute)
  then show ?thesis using matrix_loop_ok [OF loop] by simp
qed

definition replicas_of :: "(string \<times> ServiceSpec) list \<Rightarrow> int" where
  "replicas_of svcs = sum_list (map (\<lambda>(_, svc). int (length (replicaEnvs svc))) svcs)"

lemma services_loop_ok:
  assumes "services_loop svcs tot = Inr ()" "\<forall>(_, svc) \<in> set svcs. gm_ok (sv_Matrix svc)" "svcs \<noteq> []"
  shows "wrap64 (tot + replicas_of svcs) \<le> MaxServiceReplicas"
  using assms
proof (induction svcs tot rule: services_loop.induct)
  case (2 name svc svcs tot)
  obtain n where n: "validate_service name svc = Inr n" "wrap64 (tot + n) \<le> MaxServiceReplicas"
      "services_loop svcs (wrap64 (tot + n)) = Inr ()"
    using 2(2) by (auto simp: rbind_Inr Let_def split: if_splits)
  have w: "wrap64 (tot + n) = wrap64 (tot + int (length (replicaEnvs svc)))"
    using validate_service_replicas [OF n(1)] 2(3) by (metis (mono_tags, lifting) case_prodD list.set_intros(1) wrap64_add_right)
  show ?case
  proof (cases "svcs = []")
    case True
    then show ?thesis using n(2) w by (simp add: replicas_of_def)
  next
    case False
    have "wrap64 (wrap64 (tot + n) + replicas_of svcs) \<le> MaxServiceReplicas"
      using 2(1) [OF refl] n(2,3) 2(3) False by simp
    then show ?thesis using w by (simp add: replicas_of_def add.assoc)
  qed
qed simp

lemma replicas_of_sort [simp]: "replicas_of (sort_key fst svcs) = replicas_of svcs"
  unfolding replicas_of_def by (metis mset_map mset_sort sum_mset_sum_list)

lemma validateServices_ok:
  assumes "validateServices svcs = Inr ()" "\<forall>(_, svc) \<in> set svcs. gm_ok (sv_Matrix svc)"
  shows "wrap64 (replicas_of svcs) \<le> MaxServiceReplicas"
proof (cases "svcs = []")
  case True
  then show ?thesis by (simp add: replicas_of_def wrap64_def MaxServiceReplicas_def)
next
  case False
  then have "sort_key fst svcs \<noteq> []" by (metis length_0_conv length_sort)
  then show ?thesis using services_loop_ok [of "sort_key fst svcs" 0] assms by (simp add: validateServices_def)
qed

lemma validateTest_leaf:
  assumes "validateTest d spec = Inr ()" "ts_Steps spec = []"
  shows "validateServices (ts_Services spec) = Inr () \<and> validateParallel (ts_Parallel spec) = Inr () \<and>
    validateContent d (ts_Content spec) = Inr () \<and> inlineContentSize (cn_Files (ts_Content spec)) \<le> MaxInlineContentBytes"
  using assms by (simp add: validateTest_def Let_def rbind_Inr)


definition two_workers :: Test where
  "two_workers = \<lparr>t_Name = ''t'', t_Namespace = ''n'', t_Labels = [], t_CreationTimestamp = 0,
     t_Spec = zero_TestSpec\<lparr>ts_Container := zero_ContainerConfig\<lparr>ct_Image := ''k6'', ct_Args := [''run'']\<rparr>,
       ts_Parallel := Some \<lparr>pl_Count = Some 2, pl_MaxCount = None, pl_Matrix = [], pl_Shards = []\<rparr>\<rparr>\<rparr>"

definition lax :: AdmissionDeps where
  "lax = \<lparr>ad_Cron = (\<lambda>_. True), ad_Glob = (\<lambda>_. True), ad_DNS1123Subdomain = (\<lambda>_. True)\<rparr>"


definition wide_matrix :: ParallelSpec where
  "wide_matrix = \<lparr>pl_Count = None, pl_MaxCount = None, pl_Matrix = map (\<lambda>i. (CHR ''k'' # utoa i, [''a'', ''b''])) [0..<64],
     pl_Shards = []\<rparr>"

lemma prod_list_const: "prod_list (map (\<lambda>_. c) xs) = (c :: nat) ^ length xs"
  by (induction xs) simp_all

lemma wide_matrix_size: "matrix_size (pl_Matrix wide_matrix) = 2 ^ 64"
  by (simp only: wide_matrix_def matrix_size_def ParallelSpec.simps map_map comp_def prod.case) (simp add: prod_list_const numeral_2_eq_2 [symmetric])

lemma wide_matrix_keys: "\<forall>(k, vs) \<in> set (pl_Matrix wide_matrix). matrixKeyRE k \<and> vs \<noteq> []"
  using utoa_digits by (auto simp: wide_matrix_def matrixKeyRE_def ident_start_def is_lower_def byte_def list_all_iff)

lemma wide_matrix_distinct: "gm_ok (pl_Matrix wide_matrix)"
  by (simp only: wide_matrix_def gm_ok_def ParallelSpec.simps map_map comp_def fst_conv) (simp add: distinct_map inj_on_def)

text \<open>
  The product is taken in 64 bits and never checked for overflow: a matrix of 64 keys with two
  values each multiplies to zero. Such a Test of a few hundred bytes is admitted, and expanding it
  asks the operator for \<open>2^64\<close> workers.
\<close>

theorem matrix_overflow_admitted:
  "validateParallel (Some wide_matrix) = Inr () \<and> counts_ok wide_matrix \<and> length (ParallelWorkers (Some wide_matrix)) = 2 ^ 64"
proof (intro conjI)
  obtain n where n: "matrix_loop ''matrix'' (pl_Matrix wide_matrix) 1 = Inr n"
    using matrix_loop_accepts [OF wide_matrix_keys] by blast
  have "wrap64 (n * declared_per wide_matrix) = wrap64 (int (matrix_size (pl_Matrix wide_matrix)))"
    using matrix_loop_ok [OF n] by (simp add: wide_matrix_def declared_per_def)
  also have "\<dots> = 0" by (simp only: wide_matrix_size) (simp add: wrap64_def)
  finally show "validateParallel (Some wide_matrix) = Inr ()"
    using n by (simp add: validateParallel_def Let_def MaxParallelWorkers_def) (simp add: wide_matrix_def)
  show "counts_ok wide_matrix" by (simp add: wide_matrix_def counts_ok_def)
  show "length (ParallelWorkers (Some wide_matrix)) = 2 ^ 64"
    using wide_matrix_size
    by (simp only: length_workers length_matrix_combos matrix_size_keys [OF wide_matrix_distinct])
      (simp add: wide_matrix_def per_combination_def)
qed

section \<open>Where files and data land\<close>

definition data_targets :: "TestDataSource \<Rightarrow> string list" where
  "data_targets s = (if td_Items s \<noteq> [] then map (\<lambda>it. path_Clean (tdi_Path it)) (td_Items s)
     else if td_MountPath s \<noteq> [] then [path_Clean (td_MountPath s)]
     else [path_Join [testDataDir, td_ConfigMap s @ td_Secret s]])"

definition chosen_targets :: "TestDataSource \<Rightarrow> string list" where
  "chosen_targets s = (if td_Items s = [] \<and> td_MountPath s = [] then [] else data_targets s)"

text \<open>Free for test data: not the root, the data directory or the code, and outside the platform's directories.\<close>

definition free_dir :: "string \<Rightarrow> bool" where
  "free_dir p \<longleftrightarrow> p \<notin> {''/'', ''/data'', ''/data/repo''} \<and>
     (\<forall>dir \<in> set platformDirs. p \<noteq> dir \<and> \<not> has_prefix (dir @ ''/'') p)"

lemma dataPath_ok: "dataPath c p = Inr u \<Longrightarrow> path_IsAbs p \<and> free_dir (path_Clean p)"
  by (auto simp: dataPath_def free_dir_def repoDir_def Let_def list_ex_iff split: if_splits)

lemma claim_ok: "claim p what seen = Inr seen' \<longleftrightarrow> gm_get seen p = None \<and> seen' = gm_set p what seen"
  by (auto simp: claim_def split: option.splits)

lemma dom_gm_set: "dom (map_of (gm_set k v m)) = insert k (dom (map_of m))"
  by simp

lemma claim_items_ok:
  assumes "claim_items i j its seen = Inr seen'"
  shows "(\<forall>p \<in> set (map (\<lambda>it. path_Clean (tdi_Path it)) its). free_dir p \<and> p \<notin> dom (map_of seen)) \<and>
    distinct (map (\<lambda>it. path_Clean (tdi_Path it)) its) \<and>
    dom (map_of seen') = dom (map_of seen) \<union> set (map (\<lambda>it. path_Clean (tdi_Path it)) its)"
  using assms
proof (induction i j its seen rule: claim_items.induct)
  case (2 i j it its seen)
  have ok: "dataPath (i, Some j) (tdi_Path it) = Inr ()" "gm_get seen (path_Clean (tdi_Path it)) = None"
      "claim_items i (Suc j) its (gm_set (path_Clean (tdi_Path it)) (i, Some j) seen) = Inr seen'" and key: "tdi_Key it \<noteq> []"
    using 2(2) by (auto simp: rbind_Inr claim_ok split: if_splits)
  note IH = 2(1) [OF key ok(3), unfolded dom_gm_set]
  have "path_Clean (tdi_Path it) \<notin> dom (map_of seen)" using ok(2) by (simp add: domIff)
  then show ?case using IH dataPath_ok [OF ok(1)] by auto
qed simp

lemma claim_source_ok:
  assumes "claim_source d i s seen = Inr seen'"
  shows "(\<forall>p \<in> set (data_targets s). p \<notin> dom (map_of seen)) \<and> (\<forall>p \<in> set (chosen_targets s). free_dir p) \<and>
    distinct (data_targets s) \<and> dom (map_of seen') = dom (map_of seen) \<union> set (data_targets s)"
proof -
  consider (its) "td_Items s \<noteq> []" "claim_items i 0 (td_Items s) seen = Inr seen'"
    | (dir) "td_Items s = []" "td_MountPath s \<noteq> []" "dataPath (i, None) (td_MountPath s) = Inr ()"
        "claim (path_Clean (td_MountPath s)) (i, None) seen = Inr seen'"
    | (default) "td_Items s = []" "td_MountPath s = []"
        "claim (path_Join [testDataDir, td_ConfigMap s @ td_Secret s]) (i, None) seen = Inr seen'"
    using assms by (auto simp: claim_source_def Let_def rbind_Inr split: if_splits)
  then show ?thesis
  proof cases
    case its
    with claim_items_ok [OF its(2)] show ?thesis by (auto simp: data_targets_def chosen_targets_def)
  next
    case dir
    with dataPath_ok [OF dir(3)] show ?thesis by (auto simp: data_targets_def chosen_targets_def claim_ok)
  next
    case default
    then show ?thesis by (auto simp: data_targets_def chosen_targets_def claim_ok)
  qed
qed

lemma claim_sources_ok:
  assumes "claim_sources d i ss seen = Inr seen'"
  shows "(\<forall>p \<in> set (concat (map data_targets ss)). p \<notin> dom (map_of seen)) \<and> (\<forall>p \<in> set (concat (map chosen_targets ss)). free_dir p) \<and>
    distinct (concat (map data_targets ss))"
  using assms
proof (induction d i ss seen rule: claim_sources.induct)
  case (2 d i s ss seen)
  then obtain mid where one: "claim_source d i s seen = Inr mid" and rest: "claim_sources d (Suc i) ss mid = Inr seen'"
    by (auto simp: rbind_Inr)
  note a = claim_source_ok [OF one] and b = 2(1) [OF rest]
  then show ?case using a b by auto
qed simp

lemma relativePath_ok:
  "relativePath i p = Inr u \<Longrightarrow> \<not> path_IsAbs p \<and> ''..'' \<notin> set (split_on (CHR ''/'') (path_Clean p))"
  by (simp add: relativePath_def)


definition sample_content :: Content where
  "sample_content = \<lparr>cn_Git = None, cn_Files = [\<lparr>fc_Path = ''a.js'', fc_Content = [], fc_ContentFrom = None, fc_Mode = None\<rparr>],
     cn_Tarball = [], cn_TestData = [\<lparr>td_ConfigMap = ''users'', td_Secret = [], td_MountPath = ''/data//x'', td_Items = []\<rparr>]\<rparr>"


section \<open>Aborting is for good\<close>

text \<open>A sequence of updates, each against the object before it.\<close>

fun updates_admitted :: "Policy \<Rightarrow> TestRun list \<Rightarrow> bool" where
  "updates_admitted p (old # new # rs) = (ValidateUpdateRun p old new = Inr () \<and> updates_admitted p (new # rs))"
| "updates_admitted p rs = True"

theorem admitted_abort_is_final:
  assumes "updates_admitted p (r # rs)" "rs_Abort (r_Spec r) = Some req"
  shows "\<forall>r' \<in> set rs. rs_Abort (r_Spec r') = Some req"
  using assms
proof (induction rs arbitrary: r)
  case (Cons new rs)
  have "rs_Abort (r_Spec new) = Some req"
    using Cons.prems by (auto simp: ValidateUpdateRun_def rbind_Inr validateAbortTransition_def split: option.splits if_splits)
  then show ?case using Cons by auto
qed simp

end
