(* ===== verification/GoDate.thy ===== *)
theory GoDate
  imports GoTime
begin

text \<open>
  The calendar behind \<open>time.Time\<close>: the date of an instant (UTC), the first instant of a month, and the
  layouts \<open>2006-01-02T15:04:05.000Z07:00\<close> and \<open>2006-01-02T15:04:05Z07:00\<close> in which the program prints
  times. Printing is inverse to parsing.
\<close>

section \<open>Years\<close>

text \<open>Days before the year \<open>p + 1\<close>.\<close>

definition year_days :: "int \<Rightarrow> int" where
  "year_days p = 365 * p + p div 4 - p div 100 + p div 400"

text \<open>Years in groups of 400, 100, 4 and 1, as the library counts them.\<close>

definition year_of :: "int \<Rightarrow> int" where
  "year_of D =
     (let a = D div 146097; r = D mod 146097; b = min 3 (r div 36524); s = r - 36524 * b;
          c = s div 1461; u = s mod 1461; e = min 3 (u div 365)
      in 400 * a + 100 * b + 4 * c + e)"

lemma year_days_groups:
  assumes "0 \<le> b" "b \<le> 3" "0 \<le> c" "c \<le> 24" "0 \<le> e" "e \<le> 3"
  shows "year_days (400 * a + 100 * b + 4 * c + e) = 146097 * a + 36524 * b + 1461 * c + 365 * e"
proof -
  let ?p = "400 * a + 100 * b + 4 * c + e"
  have "?p div 4 = 100 * a + 25 * b + c" using assms by linarith
  moreover have "?p div 100 = 4 * a + b" using assms by linarith
  moreover have "?p div 400 = a" using assms by linarith
  ultimately show ?thesis by (simp add: year_days_def)
qed

lemma year_of_groups:
  obtains a b c e u where "year_of D = 400 * a + 100 * b + 4 * c + e" "D = 146097 * a + 36524 * b + 1461 * c + 365 * e + u"
    "0 \<le> b" "b \<le> 3" "0 \<le> c" "c \<le> 24" "0 \<le> e" "e \<le> 3" "0 \<le> u" "u \<le> 365"
    "u = 365 \<longrightarrow> e = 3 \<and> (c = 24 \<longrightarrow> b = 3)"
proof -
  define a r where ar: "a = D div 146097" "r = D mod 146097"
  define b where b: "b = min 3 (r div 36524)"
  define s where s: "s = r - 36524 * b"
  define c w where cw: "c = s div 1461" "w = s mod 1461"
  define e where e: "e = min 3 (w div 365)"
  have D: "D = 146097 * a + r" "0 \<le> r" "r < 146097" by (simp_all add: ar)
  have bs: "0 \<le> b" "b \<le> 3" "0 \<le> s" "b < 3 \<Longrightarrow> s < 36524" "b = 3 \<Longrightarrow> s < 36525" using D by (auto simp: b s min_def)
  have w: "s = 1461 * c + w" "0 \<le> w" "w < 1461" by (simp_all add: cw)
  have c: "0 \<le> c" "c \<le> 24" using bs w by linarith+
  have eu: "0 \<le> e \<and> e \<le> 3 \<and> 0 \<le> w - 365 * e \<and> w - 365 * e \<le> 365 \<and> (w - 365 * e = 365 \<longrightarrow> e = 3)"
  proof (cases "3 \<le> w div 365")
    case True
    then show ?thesis using w by (simp add: e)
  next
    case False
    moreover have "w - 365 * (w div 365) = w mod 365" by (simp add: minus_mult_div_eq_mod)
    ultimately show ?thesis using w pos_mod_bound [of 365 w] pos_mod_sign [of 365 w]
      by (simp add: e min_def pos_imp_zdiv_nonneg_iff) linarith
  qed
  have "year_of D = 400 * a + 100 * b + 4 * c + e" by (simp add: year_of_def Let_def ar b s cw e)
  moreover have "D = 146097 * a + 36524 * b + 1461 * c + 365 * e + (w - 365 * e)" using D(1) w(1) s by simp
  moreover have "b = 3" if "w - 365 * e = 365" "c = 24" using that eu w(1) bs by (cases "b < 3") auto
  ultimately show ?thesis using that [of a b c e "w - 365 * e"] bs(1,2) c eu by blast
qed

lemma year_of_bounds: "year_days (year_of D) \<le> D \<and> D < year_days (year_of D + 1)"
proof -
  obtain a b c e u where g: "year_of D = 400 * a + 100 * b + 4 * c + e" "D = 146097 * a + 36524 * b + 1461 * c + 365 * e + u"
      "0 \<le> b" "b \<le> 3" "0 \<le> c" "c \<le> 24" "0 \<le> e" "e \<le> 3" "0 \<le> u" "u \<le> 365" "u = 365 \<longrightarrow> e = 3 \<and> (c = 24 \<longrightarrow> b = 3)"
    by (rule year_of_groups [of D])
  have lower: "year_days (year_of D) \<le> D" using g by (simp add: year_days_groups)
  consider "e < 3" | "e = 3" "c < 24" | "e = 3" "c = 24" "b < 3" | "e = 3" "c = 24" "b = 3" using g by linarith
  then have "D < year_days (year_of D + 1)"
  proof cases
    case 1
    then show ?thesis using g year_days_groups [of b c "e + 1" a] by (auto simp: algebra_simps)
  next
    case 2
    then show ?thesis using g year_days_groups [of b "c + 1" 0 a] by (auto simp: algebra_simps)
  next
    case 3
    then show ?thesis using g year_days_groups [of "b + 1" 0 0 a] by (auto simp: algebra_simps)
  next
    case 4
    then show ?thesis using g year_days_groups [of 0 0 0 "a + 1"] by (auto simp: algebra_simps)
  qed
  with lower show ?thesis by simp
qed

lemma year_days_mono: "p < q \<Longrightarrow> year_days p < year_days q"
proof -
  have "year_days p < year_days (p + 1)" for p
  proof -
    have "p div 4 \<le> (p + 1) div 4" "p div 400 \<le> (p + 1) div 400" by (simp_all add: zdiv_mono1)
    moreover have "(p + 1) div 100 \<le> (p + 100) div 100" by (rule zdiv_mono1) simp_all
    moreover have "(p + 100) div 100 = p div 100 + 1" by simp
    moreover have "365 * p + x - y + z < 365 * (p + 1) + x' - y' + z'" if "x \<le> x'" "z \<le> z'" "y' \<le> y + 1" for x x' y y' z z'
      using that by (simp add: distrib_left)
    ultimately show ?thesis unfolding year_days_def by metis
  qed
  note step = this
  have "year_days p < year_days (p + int (Suc n))" for n
  proof (induction n)
    case (Suc n)
    also have "year_days (p + int (Suc n)) < year_days (p + int (Suc n) + 1)" by (rule step)
    finally show ?case by (simp add: algebra_simps)
  qed (use step in simp)
  then show "p < q \<Longrightarrow> year_days p < year_days q" using zless_iff_Suc_zadd [of p q] by blast
qed

lemma year_of_unique: "year_days p \<le> D \<Longrightarrow> D < year_days (p + 1) \<Longrightarrow> year_of D = p"
proof -
  assume a: "year_days p \<le> D" "D < year_days (p + 1)"
  show ?thesis
  proof (rule ccontr)
    assume "year_of D \<noteq> p"
    then consider "year_of D + 1 \<le> p" | "p + 1 \<le> year_of D" by linarith
    then show False
    proof cases
      case 1
      then have "year_days (year_of D + 1) \<le> year_days p" using year_days_mono by (metis order.order_iff_strict)
      then show ?thesis using a year_of_bounds [of D] by simp
    next
      case 2
      then have "year_days (p + 1) \<le> year_days (year_of D)" using year_days_mono by (metis order.order_iff_strict)
      then show ?thesis using a year_of_bounds [of D] by simp
    qed
  qed
qed

section \<open>Months and days\<close>

function month_search :: "nat \<Rightarrow> nat \<Rightarrow> nat \<Rightarrow> nat \<times> nat" where
  "month_search y m yd = (if 12 \<le> m \<or> yd < daysIn m y then (m, Suc yd) else month_search y (Suc m) (yd - daysIn m y))"
  by pat_completeness auto
termination by (relation "measure (\<lambda>(y, m, yd). 12 - m)") auto

declare month_search.simps [simp del]

definition date_of :: "int \<Rightarrow> nat \<times> nat \<times> nat" where
  "date_of D = (let p = year_of D; y = nat (p + 1); (m, d) = month_search y 1 (nat (D - year_days p)) in (y, m, d))"

definition month_sum :: "nat \<Rightarrow> nat \<Rightarrow> nat \<Rightarrow> nat" where
  "month_sum y m n = sum_list (map (\<lambda>i. daysIn i y) [m..<n])"

lemma days_to_alt: "days_to y m d = year_days (int y - 1) + int (month_sum y 1 m) + int d - 1"
  by (simp add: days_to_def year_days_def month_sum_def Let_def)

lemma month_sum_first: "m < n \<Longrightarrow> month_sum y m n = daysIn m y + month_sum y (Suc m) n"
  by (simp add: month_sum_def upt_conv_Cons)

lemma month_search_ok:
  assumes "month_search y m yd = (m', d)" "1 \<le> m" "m \<le> 12" "yd < month_sum y m 13"
  shows "m \<le> m' \<and> m' \<le> 12 \<and> 1 \<le> d \<and> d \<le> daysIn m' y \<and> month_sum y m m' + d = Suc yd"
  using assms
proof (induction y m yd rule: month_search.induct)
  case (1 y m yd)
  show ?case
  proof (cases "12 \<le> m \<or> yd < daysIn m y")
    case True
    have "yd < daysIn m y"
    proof (cases "m = 12")
      case True
      then show ?thesis using 1(5) by (simp add: month_sum_def)
    next
      case False
      then show ?thesis using \<open>12 \<le> m \<or> yd < daysIn m y\<close> 1(4) by simp
    qed
    moreover have "m' = m" "d = Suc yd" using True 1(2) by (simp_all add: month_search.simps)
    ultimately show ?thesis using 1(4) by (simp add: month_sum_def)
  next
    case False
    then have "month_search y (Suc m) (yd - daysIn m y) = (m', d)" using 1(2) by (simp add: month_search.simps)
    moreover have "yd - daysIn m y < month_sum y (Suc m) 13" using 1(4,5) False month_sum_first [of m 13 y] by (simp add: less_diff_conv2 not_less add.commute)
    ultimately have IH: "Suc m \<le> m' \<and> m' \<le> 12 \<and> 1 \<le> d \<and> d \<le> daysIn m' y \<and> month_sum y (Suc m) m' + d = Suc (yd - daysIn m y)"
      using 1(1) [OF False] 1(4) False by simp
    then show ?thesis using False month_sum_first [of m m' y] by auto
  qed
qed

lemma month_search_unique:
  assumes "1 \<le> m" "m \<le> n" "n \<le> 12" "1 \<le> d" "d \<le> daysIn n y"
  shows "month_search y m (month_sum y m n + d - 1) = (n, d)"
  using assms
proof (induction "n - m" arbitrary: m)
  case 0
  then have "m = n" by simp
  then show ?case using 0 by (subst month_search.simps) (auto simp: month_sum_def)
next
  case (Suc k)
  then have lt: "m < n" by simp
  then have sum: "month_sum y m n = daysIn m y + month_sum y (Suc m) n" by (rule month_sum_first)
  have "month_search y (Suc m) (month_sum y (Suc m) n + d - 1) = (n, d)" using Suc lt by simp
  then show ?case using Suc lt sum by (subst month_search.simps) (auto simp: Suc_le_eq)
qed

lemma month_sum_split: "m \<le> n \<Longrightarrow> n \<le> k \<Longrightarrow> month_sum y m k = month_sum y m n + month_sum y n k"
  using upt_add_eq_append [of m n "k - n"] by (simp add: month_sum_def)

lemma year_days_nat: "year_days (int n) = 365 * int n + int (n div 4) - int (n div 100) + int (n div 400)"
  by (simp add: year_days_def zdiv_int)

lemma year_length:
  assumes "1 \<le> y"
  shows "int (month_sum y 1 13) = year_days (int y) - year_days (int y - 1)"
proof -
  obtain x where y: "y = Suc x" using assms by (cases y) auto
  have sum: "month_sum y 1 13 = 337 + daysIn 2 y" by (simp add: month_sum_def upt_rec daysIn_def)
  have dvd: "y mod 400 = 0 \<Longrightarrow> y mod 100 = 0" "y mod 100 = 0 \<Longrightarrow> y mod 4 = 0" by presburger+
  have carry: "y div n = x div n + (if y mod n = 0 then 1 else 0)" for n by (simp add: y div_Suc)
  define A B C where abc: "A \<longleftrightarrow> y mod 4 = 0" "B \<longleftrightarrow> y mod 100 = 0" "C \<longleftrightarrow> y mod 400 = 0"
  have "year_days (int y) - year_days (int x) = 365 + (if leap_year y then 1 else 0)"
    using dvd unfolding year_days_nat leap_year_def carry [of 4] carry [of 100] carry [of 400] abc [symmetric]
    by (cases A; cases B; cases C; simp add: y)
  then show ?thesis unfolding sum by (simp add: daysIn_def y)
qed

lemma date_of_days_to:
  assumes "1 \<le> y" "1 \<le> m" "m \<le> 12" "1 \<le> d" "d \<le> daysIn m y"
  shows "date_of (days_to y m d) = (y, m, d)"
proof -
  let ?D = "days_to y m d" and ?p = "int y - 1"
  have "month_sum y 1 m + daysIn m y \<le> month_sum y 1 13"
    using month_sum_split [of 1 m 13 y] month_sum_first [of m 13 y] assms(2,3) by simp
  then have "year_of ?D = ?p"
    using year_length [OF assms(1)] assms(4,5) by (intro year_of_unique) (auto simp: days_to_alt)
  moreover have "nat (?D - year_days ?p) = month_sum y 1 m + d - 1" using assms(4) by (simp add: days_to_alt)
  ultimately show ?thesis using month_search_unique [of 1 m d y] assms by (simp add: date_of_def Let_def)
qed

lemma days_to_date_of:
  assumes "0 \<le> D" "date_of D = (y, m, d)"
  shows "days_to y m d = D \<and> 1 \<le> y \<and> 1 \<le> m \<and> m \<le> 12 \<and> 1 \<le> d \<and> d \<le> daysIn m y"
proof -
  let ?p = "year_of D"
  have p: "0 \<le> ?p"
  proof (rule ccontr)
    assume "\<not> 0 \<le> ?p"
    then have "year_days (?p + 1) \<le> year_days 0" using year_days_mono by (metis add_le_same_cancel1 linorder_not_le order.order_iff_strict zless_add1_eq)
    then show False using year_of_bounds [of D] assms(1) by (simp add: year_days_def)
  qed
  have y: "y = nat (?p + 1)" and md: "month_search y 1 (nat (D - year_days ?p)) = (m, d)"
    using assms(2) by (auto simp: date_of_def Let_def split: prod.splits)
  have "nat (D - year_days ?p) < month_sum y 1 13"
    using year_length [of y] year_of_bounds [of D] y p by (simp add: nat_less_iff)
  from month_search_ok [OF md _ _ this] have "1 \<le> m \<and> m \<le> 12 \<and> 1 \<le> d \<and> d \<le> daysIn m y \<and>
      month_sum y 1 m + d = Suc (nat (D - year_days ?p))" by simp
  moreover from this have "int (month_sum y 1 m) + int d = 1 + (D - year_days ?p)"
    using year_of_bounds [of D] by linarith
  then have "days_to y m d = D" using y p by (simp add: days_to_alt)
  ultimately show ?thesis using y p by simp
qed

section \<open>Printing\<close>

text \<open>Numbers with leading zeros.\<close>

definition pad2 :: "nat \<Rightarrow> string" where
  "pad2 n = [digit_char (n div 10 mod 10), digit_char (n mod 10)]"

definition pad3 :: "nat \<Rightarrow> string" where
  "pad3 n = digit_char (n div 100 mod 10) # pad2 (n mod 100)"

definition pad4 :: "nat \<Rightarrow> string" where
  "pad4 n = (if n < 10000 then pad2 (n div 100) @ pad2 (n mod 100) else utoa n)"

definition day_ns :: int where "day_ns = 86400 * 1000000000"

text \<open>Date and time of day, to the second.\<close>

definition format_datetime :: "char \<Rightarrow> instant \<Rightarrow> string" where
  "format_datetime sep t = (let (y, m, d) = date_of (t div day_ns); s = nat (t mod day_ns) div 1000000000
     in pad4 y @ ''-'' @ pad2 m @ ''-'' @ pad2 d @ [sep] @
        pad2 (s div 3600) @ '':'' @ pad2 (s div 60 mod 60) @ '':'' @ pad2 (s mod 60))"

definition formatRFC3339 :: "instant \<Rightarrow> string" where
  "formatRFC3339 t = format_datetime (CHR ''T'') t @ ''Z''"

definition formatMillis :: "instant \<Rightarrow> string" where
  "formatMillis t = format_datetime (CHR ''T'') t @ ''.'' @ pad3 (nat (t mod day_ns) div 1000000 mod 1000) @ ''Z''"

lemma digits_val_append: "digits_val (s @ r) = digits_val s * 10 ^ length r + digits_val r"
proof (induction s)
  case Nil
  then show ?case by (simp add: digits_val_def)
next
  case (Cons c s)
  then show ?case by (simp add: digits_val_Cons power_add algebra_simps)
qed

lemma pad2_val: "n < 100 \<Longrightarrow> digits_val (pad2 n) = n"
  by (simp add: pad2_def digits_val_Cons) (simp add: digits_val_def)

lemma pad2_shape: "length (pad2 n) = 2" "list_all is_digit (pad2 n)"
  by (simp_all add: pad2_def)

lemma getnum_pad2: "n < 100 \<Longrightarrow> getnum fixed (pad2 n @ r) = Some (n, r)"
  by (simp add: getnum_def pad2_def)

lemma get_year_pad4: "n < 10000 \<Longrightarrow> get_year (pad4 n @ r) = Some (n, r)"
proof -
  assume n: "n < 10000"
  have v: "digits_val (pad2 (n div 100) @ pad2 (n mod 100)) = n"
    using n by (simp add: digits_val_append pad2_val pad2_shape)
  have len: "length (pad2 (n div 100) @ pad2 (n mod 100)) = 4" by (simp add: pad2_shape)
  have "list_all is_digit (pad2 (n div 100) @ pad2 (n mod 100))" by (simp add: pad2_shape)
  then show ?thesis using n v len by (simp add: get_year_def pad4_def del: append_assoc)
qed

lemma get_fraction_pad3:
  assumes "n < 1000"
  shows "get_fraction (CHR ''.'' # pad3 n @ ''Z'') = (n * 1000000, ''Z'')"
proof -
  have digits: "list_all is_digit (pad3 n)" "length (pad3 n) = 3" by (simp_all add: pad3_def pad2_shape)
  have z: "\<not> is_digit (CHR ''Z'')" by (simp add: is_digit_def byte_def)
  have "digits_val (pad3 n) = n"
    using assms by (simp add: pad3_def digits_val_Cons pad2_val pad2_shape)
  moreover have "takeWhile is_digit (pad3 n @ ''Z'') = pad3 n" "dropWhile is_digit (pad3 n @ ''Z'') = ''Z''"
    using digits(1) z by (simp_all add: list_all_iff takeWhile_append2 dropWhile_append2)
  moreover obtain c s where "pad3 n = c # s" "is_digit c" using digits by (cases "pad3 n") auto
  ultimately show ?thesis using digits(2) by (simp add: get_fraction_def Let_def)
qed

text \<open>
  Printing a time and parsing the text gives the time back, to the precision of the layout.
\<close>

lemma hms_sum: "(s div 3600 * 60 + s div 60 mod 60) * 60 + s mod 60 = (s :: nat)"
proof -
  have "s div 3600 = s div 60 div 60" using div_mult2_eq [of s 60 60] by simp
  then show ?thesis by simp
qed

lemma parse_parts:
  assumes "y < 10000" "1 \<le> m" "m \<le> 12" "1 \<le> d" "d \<le> daysIn m y" "h < 24" "mi < 60" "s < 60" "get_fraction r = (ns, z)"
    and "\<And>n r. skip (c # pad2 n @ r) = Some (pad2 n @ r)" "zone z = Some (0, [])"
  shows "parse_layout skip zone (pad4 y @ CHR ''-'' # pad2 m @ CHR ''-'' # pad2 d @ c # pad2 h @ CHR '':'' # pad2 mi @ CHR '':'' #
    pad2 s @ r) = Some (instant_of y m d h mi s ns 0)"
proof -
  have "daysIn m y \<le> 31" by (simp add: daysIn_def)
  then have small: "m < 100" "d < 100" "h < 100" "mi < 100" "s < 100" using assms by simp_all
  show ?thesis using assms
    by (simp add: parse_layout_def get_year_pad4 skip_char_def getnum_pad2 small)
qed

lemma parse_format_datetime:
  assumes "0 \<le> t" "fst (date_of (t div day_ns)) < 10000" "get_fraction r = (ns, z)"
    and "\<And>n r. skip (c # pad2 n @ r) = Some (pad2 n @ r)" "zone z = Some (0, [])"
  shows "parse_layout skip zone (format_datetime c t @ r) = Some (t - t mod 1000000000 + int ns)"
proof -
  obtain y m d where date: "date_of (t div day_ns) = (y, m, d)" by (cases "date_of (t div day_ns)") auto
  let ?s = "nat (t mod day_ns) div 1000000000"
  have D: "days_to y m d = t div day_ns" "1 \<le> m" "m \<le> 12" "1 \<le> d" "d \<le> daysIn m y"
    using days_to_date_of [OF _ date] assms(1) by (simp_all add: day_ns_def pos_imp_zdiv_nonneg_iff)
  have "daysIn m y \<le> 31" by (simp add: daysIn_def)
  then have small: "m < 100" "d < 100" "y < 10000" using D assms(2) date by simp_all
  have s: "?s < 86400" by (simp add: day_ns_def nat_less_iff less_mult_imp_div_less)
  then have hms: "?s div 3600 < 24" "?s div 60 mod 60 < 60" "?s mod 60 < 60" by simp_all
  have time: "(?s div 3600 * 60 + ?s div 60 mod 60) * 60 + ?s mod 60 = ?s" by (rule hms_sum)
  have inst: "instant_of y m d (?s div 3600) (?s div 60 mod 60) (?s mod 60) ns 0 = t - t mod 1000000000 + int ns"
  proof -
    define h mi sc where hms: "h = int (?s div 3600)" "mi = int (?s div 60 mod 60)" "sc = int (?s mod 60)"
    define q r where qr: "q = t div day_ns" "r = t mod day_ns"
    have r: "0 \<le> r" by (simp add: qr day_ns_def)
    have "(h * 60 + mi) * 60 + sc = int ((?s div 3600 * 60 + ?s div 60 mod 60) * 60 + ?s mod 60)" by (simp only: hms of_nat_add of_nat_mult of_nat_numeral)
    also have "\<dots> = int ?s" by (simp only: time)
    also have "\<dots> = r div 1000000000" using r by (simp add: zdiv_int qr)
    finally have S: "(h * 60 + mi) * 60 + sc = r div 1000000000" .
    have "instant_of y m d (?s div 3600) (?s div 60 mod 60) (?s mod 60) ns 0 = (q * 86400 + ((h * 60 + mi) * 60 + sc)) * 1000000000 + int ns"
      unfolding instant_of_def D(1) hms [symmetric] qr(1) [symmetric] by (simp add: algebra_simps)
    also have "\<dots> = q * day_ns + (r - r mod 1000000000) + int ns"
      unfolding S by (simp add: day_ns_def minus_mod_eq_div_mult distrib_right)
    also have "q * day_ns + (r - r mod 1000000000) = t - r mod 1000000000" by (simp add: qr)
    also have "r mod 1000000000 = t mod 1000000000" by (simp add: qr day_ns_def mod_mod_cancel)
    finally show ?thesis .
  qed
  have fmt: "format_datetime c t @ r = pad4 y @ CHR ''-'' # pad2 m @ CHR ''-'' # pad2 d @ c # pad2 (?s div 3600) @ CHR '':'' #
      pad2 (?s div 60 mod 60) @ CHR '':'' # pad2 (?s mod 60) @ r"
    by (simp only: format_datetime_def date Let_def prod.case append_assoc append_Cons append_Nil)
  show ?thesis unfolding fmt parse_parts [where skip = skip and zone = zone, OF small(3) D(2-5) hms assms(3-5)] inst by (rule refl)
qed

lemma parse_RFC3339_datetime:
  assumes "0 \<le> t" "fst (date_of (t div day_ns)) < 10000" "get_fraction r = (ns, ''Z'')"
  shows "parseRFC3339Nano (format_datetime (CHR ''T'') t @ r) = Some (t - t mod 1000000000 + int ns)"
  unfolding parseRFC3339Nano_def by (rule parse_format_datetime [OF assms]) (simp_all add: skip_char_def get_zone_def)

theorem parse_formatMillis:
  assumes "0 \<le> t" "fst (date_of (t div day_ns)) < 10000"
  shows "parseRFC3339Nano (formatMillis t) = Some (t - t mod 1000000)"
proof -
  let ?x = "t mod day_ns"
  let ?ms = "nat ?x div 1000000 mod 1000"
  have x: "0 \<le> ?x" by (simp add: day_ns_def)
  have "int ?ms = ?x div 1000000 mod 1000" using x by (simp add: zdiv_int zmod_int)
  then have "int (?ms * 1000000) = 1000000 * (?x div 1000000 mod 1000)" by (simp only: of_nat_mult of_nat_numeral mult.commute)
  also have "\<dots> + ?x mod 1000000 = ?x mod 1000000000" using zmod_zmult2_eq [of 1000 ?x 1000000] by simp
  finally have sum: "?x mod 1000000000 = int (?ms * 1000000) + ?x mod 1000000" by (rule sym)
  have "?x mod 1000000000 = t mod 1000000000" "?x mod 1000000 = t mod 1000000"
    by (simp_all add: day_ns_def mod_mod_cancel)
  then have "t mod 1000000000 = int (?ms * 1000000) + t mod 1000000" using sum by (simp only:)
  then have ms: "t - t mod 1000000000 + int (?ms * 1000000) = t - t mod 1000000" by simp
  have "get_fraction (CHR ''.'' # pad3 ?ms @ ''Z'') = (?ms * 1000000, ''Z'')" by (rule get_fraction_pad3) simp
  from parse_RFC3339_datetime [OF assms this] show ?thesis unfolding ms by (simp only: formatMillis_def append_Cons append_Nil)
qed

theorem parse_formatRFC3339:
  assumes "0 \<le> t" "fst (date_of (t div day_ns)) < 10000"
  shows "parseRFC3339Nano (formatRFC3339 t) = Some (t - t mod 1000000000)"
proof -
  have "get_fraction ''Z'' = (0, ''Z'')" by (simp add: get_fraction_def)
  from parse_RFC3339_datetime [OF assms this] show ?thesis by (simp only: formatRFC3339_def of_nat_0 add_0_right)
qed

section \<open>Months\<close>

definition month_start :: "nat \<Rightarrow> nat \<Rightarrow> instant" where
  "month_start y m = days_to y m 1 * day_ns"

text \<open>\<open>AddDate(0, 1, 0)\<close> on the first of a month.\<close>

definition next_month :: "nat \<times> nat \<Rightarrow> nat \<times> nat" where
  "next_month ym = (case ym of (y, m) \<Rightarrow> if m = 12 then (Suc y, 1) else (y, Suc m))"

definition month_of :: "instant \<Rightarrow> nat \<times> nat" where
  "month_of t = (case date_of (t div day_ns) of (y, m, d) \<Rightarrow> (y, m))"

lemma days_to_next:
  assumes "1 \<le> m" "m \<le> 12" "1 \<le> y" "next_month (y, m) = (y', m')"
  shows "days_to y' m' 1 = days_to y m 1 + int (daysIn m y)"
proof (cases "m = 12")
  case True
  then have "y' = Suc y" "m' = 1" using assms(4) by (auto simp: next_month_def)
  moreover have "month_sum y 1 13 = month_sum y 1 12 + daysIn 12 y"
    using month_sum_split [of 1 12 13 y] by (simp add: month_sum_def)
  ultimately show ?thesis using year_length [OF assms(3)] True by (simp add: days_to_alt) (simp add: month_sum_def)
next
  case False
  then have ym: "y' = y" "m' = Suc m" using assms(4) by (auto simp: next_month_def)
  have "month_sum y 1 (Suc m) = month_sum y 1 m + daysIn m y"
    using month_sum_split [of 1 m "Suc m" y] assms(1) by (simp add: month_sum_def)
  then show ?thesis by (simp add: ym days_to_alt)
qed

lemma month_of_bounds:
  assumes "0 \<le> t" "month_of t = (y, m)"
  shows "1 \<le> y \<and> 1 \<le> m \<and> m \<le> 12 \<and> month_start y m \<le> t \<and> t < (case next_month (y, m) of (y', m') \<Rightarrow> month_start y' m')"
proof -
  obtain d where date: "date_of (t div day_ns) = (y, m, d)" using assms(2) by (auto simp: month_of_def split: prod.splits)
  have D: "days_to y m d = t div day_ns" "1 \<le> y" "1 \<le> m" "m \<le> 12" "1 \<le> d" "d \<le> daysIn m y"
    using days_to_date_of [OF _ date] assms(1) by (simp_all add: day_ns_def pos_imp_zdiv_nonneg_iff)
  have first: "days_to y m d = days_to y m 1 + int d - 1" by (simp add: days_to_alt)
  obtain y' m' where nm: "next_month (y, m) = (y', m')" by (cases "next_month (y, m)")
  have pos: "0 < day_ns" by (simp add: day_ns_def)
  have "days_to y m 1 * day_ns \<le> t div day_ns * day_ns" using D(1,5) first pos by (intro mult_right_mono) simp_all
  also have "\<dots> \<le> t" using pos_mod_sign [OF pos, of t] div_mult_mod_eq [of t day_ns] by linarith
  finally have lower: "month_start y m \<le> t" by (simp add: month_start_def)
  have "t < (t div day_ns + 1) * day_ns" using pos_mod_bound [OF pos, of t] div_mult_mod_eq [of t day_ns] unfolding distrib_right by linarith
  also have "\<dots> \<le> days_to y' m' 1 * day_ns"
    using D first days_to_next [OF D(3,4,2) nm] pos by (intro mult_right_mono) simp_all
  finally show ?thesis using lower D(2-4) nm by (simp add: month_start_def)
qed

end
