(* ===== verification/Partitions.thy ===== *)
theory Partitions
  imports GoDate
begin

text \<open>
  The monthly partitions of the run history: \<open>src/internal/store/partition.go\<close>, and the reading of
  the bounds that PostgreSQL prints, \<open>parsePartitionBound\<close> of \<open>src/internal/store/postgres.go\<close>.
  Instants are nanoseconds since the first of January of the year one, UTC.
\<close>

section \<open>Which partition\<close>

record Partition =
  pt_Name :: string
  pt_Start :: instant
  pt_End :: instant

definition partitionName :: "nat \<times> nat \<Rightarrow> string" where
  "partitionName ym = (case ym of (y, m) \<Rightarrow> ''test_runs_'' @ pad4 y @ ''_'' @ pad2 m)"

definition first_of :: "nat \<times> nat \<Rightarrow> instant" where
  "first_of ym = (case ym of (y, m) \<Rightarrow> month_start y m)"

text \<open>The partition of a month: from its first day to the first day of the next.\<close>

definition month_partition :: "nat \<times> nat \<Rightarrow> Partition" where
  "month_partition ym = \<lparr>pt_Name = partitionName ym, pt_Start = first_of ym, pt_End = first_of (next_month ym)\<rparr>"

definition PartitionForTime :: "instant \<Rightarrow> Partition" where
  "PartitionForTime t = month_partition (month_of t)"

text \<open>
  The loop over the months from the first to the last one. Every month is later than the one before
  it, so the number of months between the two is the number of rounds left.
\<close>

definition month_number :: "nat \<times> nat \<Rightarrow> nat" where
  "month_number ym = (case ym of (y, m) \<Rightarrow> 12 * y + m)"

function months_from :: "nat \<times> nat \<Rightarrow> nat \<times> nat \<Rightarrow> (nat \<times> nat) list" where
  "months_from ym stop = (if month_number stop < month_number ym then [] else ym # months_from (next_month ym) stop)"
  by pat_completeness auto
termination
  by (relation "measure (\<lambda>(ym, stop). Suc (month_number stop) - month_number ym)")
    (auto simp: month_number_def next_month_def split: if_splits)

declare months_from.simps [simp del]

definition PartitionsToCreate :: "instant \<Rightarrow> int \<Rightarrow> int \<Rightarrow> Partition list" where
  "PartitionsToCreate now retention lookahead =
     map month_partition (months_from (month_of (now - max retention 0)) (month_of (now + max lookahead 0)))"

definition PartitionsToDrop :: "Partition list \<Rightarrow> instant \<Rightarrow> int \<Rightarrow> Partition list" where
  "PartitionsToDrop existing now retention = filter (\<lambda>p. \<not> now - retention < pt_End p) existing"

section \<open>The bounds that PostgreSQL prints\<close>

text \<open>A blank of a layout skips every blank of the text; it needs one unless the text has ended.\<close>

definition skip_blanks :: "string \<Rightarrow> string option" where
  "skip_blanks s = (case s of [] \<Rightarrow> Some [] | c # _ \<Rightarrow> if c = CHR '' '' then Some (dropWhile (\<lambda>c. c = CHR '' '') s) else None)"

text \<open>The zone of the layout \<open>-07\<close>, and of \<open>Z07\<close>.\<close>

definition zone_hours :: "string \<Rightarrow> (int \<times> string) option" where
  "zone_hours s = (if length s < 3 then None
     else case getnum True (take 2 (drop 1 s)) of
       Some (hr, _) \<Rightarrow> if 24 < hr then None
         else if hd s = CHR ''+'' then Some (int (hr * 3600), drop 3 s)
         else if hd s = CHR ''-'' then Some (- int (hr * 3600), drop 3 s)
         else None
     | None \<Rightarrow> None)"

definition zone_Z_hours :: "string \<Rightarrow> (int \<times> string) option" where
  "zone_Z_hours s = (if has_prefix ''Z'' s then Some (0, tl s) else zone_hours s)"

text \<open>
  The layouts in turn. A fraction is read after the seconds whether the layout has one or not, so the
  fourth layout reads what the first one reads.
\<close>

fun first_layout :: "(string \<Rightarrow> instant option) list \<Rightarrow> string \<Rightarrow> instant option" where
  "first_layout [] s = None"
| "first_layout (l # ls) s = (case l s of Some t \<Rightarrow> Some t | None \<Rightarrow> first_layout ls s)"

definition parsePGTimestamp :: "string \<Rightarrow> instant option" where
  "parsePGTimestamp = first_layout (map (parse_layout skip_blanks) [zone_Z_hours, get_zone, zone_hours, zone_Z_hours])"

definition quote_char :: char where "quote_char = CHR 0x27"

definition trim_quotes :: "string \<Rightarrow> string" where
  "trim_quotes s = rev (dropWhile (\<lambda>c. c = quote_char) (rev (dropWhile (\<lambda>c. c = quote_char) s)))"

definition trimLiteral :: "string \<Rightarrow> string" where
  "trimLiteral s = trim_quotes (trim_space s)"

definition parsePartitionBound :: "string \<Rightarrow> (instant \<times> instant) option" where
  "parsePartitionBound expr =
     (if \<not> has_prefix ''FOR VALUES FROM ('' expr then None
      else case cut '') TO ('' (trim_prefix ''FOR VALUES FROM ('' expr) of
        None \<Rightarrow> None
      | Some (startLit, rest) \<Rightarrow> (case cut '')'' rest of
          None \<Rightarrow> None
        | Some (endLit, _) \<Rightarrow> (case (parsePGTimestamp (trimLiteral startLit), parsePGTimestamp (trimLiteral endLit)) of
            (Some s, Some e) \<Rightarrow> Some (s, e) | _ \<Rightarrow> None)))"

section \<open>The order of the months\<close>

definition real_month :: "nat \<times> nat \<Rightarrow> bool" where
  "real_month ym = (case ym of (y, m) \<Rightarrow> 1 \<le> y \<and> 1 \<le> m \<and> m \<le> 12)"

lemma real_month_of: "0 \<le> t \<Longrightarrow> real_month (month_of t)"
  by (cases "month_of t") (auto simp: real_month_def dest: month_of_bounds)

lemma real_next_month: "real_month ym \<Longrightarrow> real_month (next_month ym)"
  by (cases ym) (auto simp: real_month_def next_month_def)

lemma month_number_next: "real_month ym \<Longrightarrow> month_number (next_month ym) = Suc (month_number ym)"
  by (cases ym) (auto simp: real_month_def next_month_def month_number_def)

lemma month_number_inject: "real_month ym \<Longrightarrow> real_month ym' \<Longrightarrow> month_number ym = month_number ym' \<longleftrightarrow> ym = ym'"
proof (cases ym, cases ym')
  fix y m y' m'
  assume r: "real_month ym" "real_month ym'" and ym: "ym = (y, m)" "ym' = (y', m')"
  have "y = y'" if eq: "12 * y + m = 12 * y' + m'"
    using r eq unfolding ym real_month_def prod.case by (cases y y' rule: linorder_cases) linarith+
  then show ?thesis by (auto simp: ym month_number_def)
qed

lemma daysIn_pos: "1 \<le> m \<Longrightarrow> m \<le> 12 \<Longrightarrow> 0 < daysIn m y"
  by (auto simp: daysIn_def)

lemma first_of_next: "real_month ym \<Longrightarrow> first_of ym < first_of (next_month ym)"
proof -
  assume r: "real_month ym"
  obtain y m y' m' where ym: "ym = (y, m)" "next_month (y, m) = (y', m')" by fastforce
  then have "days_to y' m' 1 = days_to y m 1 + int (daysIn m y)" "0 < daysIn m y"
    using r days_to_next [of m y y' m'] daysIn_pos by (auto simp: real_month_def)
  then show ?thesis by (simp add: first_of_def ym month_start_def day_ns_def)
qed

lemma first_of_mono:
  assumes "real_month a" "real_month b" "month_number a < month_number b"
  shows "first_of (next_month a) \<le> first_of b"
proof -
  have "\<forall>a. real_month a \<longrightarrow> month_number a + Suc n = month_number b \<longrightarrow> first_of (next_month a) \<le> first_of b" for n
  proof (induction n)
    case 0
    then show ?case using month_number_inject [OF real_next_month assms(2)] month_number_next by auto
  next
    case (Suc n)
    show ?case
    proof (intro allI impI)
      fix a assume a: "real_month a" "month_number a + Suc (Suc n) = month_number b"
      then have "first_of (next_month (next_month a)) \<le> first_of b" using Suc [rule_format, of "next_month a"] real_next_month month_number_next [OF a(1)] by simp
      then show "first_of (next_month a) \<le> first_of b" using first_of_next real_next_month a(1) by fastforce
    qed
  qed
  moreover obtain n where "month_number a + Suc n = month_number b" using less_imp_Suc_add [OF assms(3)] by auto
  ultimately show ?thesis using assms(1) by blast
qed

text \<open>Two instants in time order have their months in order.\<close>

lemma month_of_mono:
  assumes "0 \<le> s" "s \<le> t"
  shows "month_number (month_of s) \<le> month_number (month_of t)"
proof (rule ccontr)
  assume "\<not> ?thesis"
  then have "first_of (next_month (month_of t)) \<le> first_of (month_of s)"
    using first_of_mono real_month_of assms by (metis not_le order_trans)
  moreover have "first_of (month_of s) \<le> s" "t < first_of (next_month (month_of t))"
    using month_of_bounds [of s] month_of_bounds [of t] assms by (cases "month_of s"; cases "month_of t"; auto simp: first_of_def)+
  ultimately show False using assms by simp
qed

lemma set_months_from:
  assumes "real_month a" "real_month b"
  shows "set (months_from a b) = {ym. real_month ym \<and> month_number a \<le> month_number ym \<and> month_number ym \<le> month_number b}"
  using assms
proof (induction a b rule: months_from.induct)
  case (1 a b)
  show ?case
  proof (cases "month_number b < month_number a")
    case False
    then have "set (months_from (next_month a) b) =
        {ym. real_month ym \<and> Suc (month_number a) \<le> month_number ym \<and> month_number ym \<le> month_number b}"
      using 1 real_next_month month_number_next by auto
    then show ?thesis
      using False 1(2) month_number_inject [OF 1(2)]
      by (subst months_from.simps) (auto simp: le_Suc_eq Suc_le_eq order_less_le)
  qed (auto simp: months_from.simps)
qed

lemma sorted_months_from:
  assumes "real_month a" "real_month b"
  shows "sorted_wrt (\<lambda>x y. month_number x < month_number y) (months_from a b)"
  using assms
proof (induction a b rule: months_from.induct)
  case (1 a b)
  show ?case
  proof (cases "month_number b < month_number a")
    case False
    then show ?thesis
      using 1 real_next_month month_number_next set_months_from [of "next_month a" b]
      by (subst months_from.simps) auto
  qed (simp add: months_from.simps)
qed

section \<open>A time lies in its partition, and the window is covered\<close>

definition in_partition :: "instant \<Rightarrow> Partition \<Rightarrow> bool" where
  "in_partition t p = (pt_Start p \<le> t \<and> t < pt_End p)"

lemma PartitionForTime_holds: "0 \<le> t \<Longrightarrow> in_partition t (PartitionForTime t)"
  using month_of_bounds [of t]
  by (cases "month_of t") (auto simp: in_partition_def PartitionForTime_def month_partition_def first_of_def)

lemma in_month_partition:
  assumes "0 \<le> t" "real_month ym"
  shows "in_partition t (month_partition ym) \<longleftrightarrow> month_of t = ym"
proof
  assume i: "in_partition t (month_partition ym)"
  have "\<not> month_number (month_of t) < month_number ym"
    using i PartitionForTime_holds [OF assms(1)] first_of_mono [OF real_month_of [OF assms(1)] assms(2)]
    by (auto simp: in_partition_def PartitionForTime_def month_partition_def)
  moreover have "\<not> month_number ym < month_number (month_of t)"
    using i PartitionForTime_holds [OF assms(1)] first_of_mono [OF assms(2) real_month_of [OF assms(1)]]
    by (auto simp: in_partition_def PartitionForTime_def month_partition_def)
  ultimately show "month_of t = ym" using month_number_inject [OF real_month_of [OF assms(1)] assms(2)] by simp
qed (use PartitionForTime_holds [OF assms(1)] in \<open>auto simp: PartitionForTime_def\<close>)

text \<open>
  The partitions to create take every time of the window from \<open>retention\<close> ago to \<open>lookahead\<close> from now,
  each in exactly one of them; they are the months of the window in order and do not overlap.
\<close>

theorem PartitionsToCreate_covers:
  assumes "0 \<le> now - max retention 0" "now - max retention 0 \<le> t" "t \<le> now + max lookahead 0"
  shows "(\<exists>!p. p \<in> set (PartitionsToCreate now retention lookahead) \<and> in_partition t p) \<and>
    sorted_wrt (\<lambda>p q. pt_End p \<le> pt_Start q) (PartitionsToCreate now retention lookahead)"
proof -
  let ?a = "month_of (now - max retention 0)" and ?b = "month_of (now + max lookahead 0)"
  have r: "real_month ?a" "real_month ?b" "real_month (month_of t)" using assms by (auto intro: real_month_of)
  have "0 \<le> t" using assms(1,2) by (rule order_trans)
  then have in_t: "in_partition t (month_partition ym) \<longleftrightarrow> month_of t = ym" if "ym \<in> set (months_from ?a ?b)" for ym
    using that set_months_from [OF r(1,2)] in_month_partition by auto
  have "month_of t \<in> set (months_from ?a ?b)" using set_months_from [OF r(1,2)] r(3) assms month_of_mono \<open>0 \<le> t\<close> by auto
  then have "p \<in> set (PartitionsToCreate now retention lookahead) \<and> in_partition t p \<longleftrightarrow> p = month_partition (month_of t)" for p
    using in_t unfolding PartitionsToCreate_def set_map by blast
  then have "\<exists>!p. p \<in> set (PartitionsToCreate now retention lookahead) \<and> in_partition t p" by simp
  moreover have "sorted_wrt (\<lambda>x y. first_of (next_month x) \<le> first_of y) (months_from ?a ?b)"
    using sorted_months_from [OF r(1,2)] set_months_from [OF r(1,2)] first_of_mono
    by (elim sorted_wrt_mono_rel [rotated]) auto
  ultimately show ?thesis by (simp add: PartitionsToCreate_def sorted_wrt_map month_partition_def)
qed

text \<open>A partition that is dropped holds no time within the retention.\<close>

lemma PartitionsToDrop_old:
  "p \<in> set (PartitionsToDrop ps now retention) \<Longrightarrow> in_partition t p \<Longrightarrow> t < now - retention"
  by (auto simp: PartitionsToDrop_def in_partition_def)

section \<open>Reading back the bounds\<close>

text \<open>How PostgreSQL prints a range in a session whose time zone is UTC.\<close>

definition pg_stamp :: "instant \<Rightarrow> string" where
  "pg_stamp t = format_datetime (CHR '' '') t @ ''+00''"

definition pg_literal :: "instant \<Rightarrow> string" where
  "pg_literal t = quote_char # pg_stamp t @ [quote_char]"

definition pg_bound :: "instant \<Rightarrow> instant \<Rightarrow> string" where
  "pg_bound s e = ''FOR VALUES FROM ('' @ pg_literal s @ '') TO ('' @ pg_literal e @ '')''"

definition stamp_char :: "char \<Rightarrow> bool" where
  "stamp_char c \<longleftrightarrow> is_digit c \<or> c \<in> {CHR ''-'', CHR '':'', CHR '' '', CHR ''+''}"

lemma stamp_char_not: "\<not> stamp_char quote_char" "\<not> stamp_char (CHR '')'')"
  by (simp_all add: stamp_char_def quote_char_def is_digit_def byte_def)

lemma pad_stamp: "list_all stamp_char (pad2 n)" "n < 10000 \<Longrightarrow> list_all stamp_char (pad4 n)"
  using pad2_shape(2) by (auto simp: pad4_def stamp_char_def list_all_iff)

lemma pg_stamp_chars:
  assumes "fst (date_of (t div day_ns)) < 10000"
  shows "list_all stamp_char (pg_stamp t)"
proof -
  obtain y m d where ymd: "date_of (t div day_ns) = (y, m, d)" by (cases "date_of (t div day_ns)")
  have "list_all stamp_char ''+00''" by (simp add: stamp_char_def is_digit_def byte_def)
  moreover have "stamp_char (CHR ''-'')" "stamp_char (CHR '':'')" "stamp_char (CHR '' '')" by (simp_all add: stamp_char_def)
  ultimately show ?thesis
    using assms pad_stamp by (simp only: pg_stamp_def format_datetime_def ymd Let_def prod.case fst_conv list_all_append list.pred_inject)
qed

lemma pg_stamp_ends:
  assumes "fst (date_of (t div day_ns)) < 10000"
  shows "quote_char \<notin> set (pg_stamp t)" "CHR '')'' \<notin> set (pg_stamp t)" "pg_stamp t \<noteq> []"
  using pg_stamp_chars [OF assms] stamp_char_not by (auto simp: list_all_iff) (simp add: pg_stamp_def)

lemma parse_pg_stamp:
  assumes "0 \<le> t" "fst (date_of (t div day_ns)) < 10000"
  shows "parsePGTimestamp (pg_stamp t) = Some (t - t mod 1000000000)"
proof -
  have skip: "skip_blanks (CHR '' '' # pad2 n @ r) = Some (pad2 n @ r)" for n r
  proof -
    have "is_digit (hd (pad2 n))" "pad2 n \<noteq> []" using pad2_shape [of n] by (cases "pad2 n"; simp)+
    then have "hd (pad2 n) \<noteq> CHR '' ''" by (auto simp: is_digit_def byte_def)
    then show ?thesis using \<open>pad2 n \<noteq> []\<close> by (cases "pad2 n") (simp_all add: skip_blanks_def)
  qed
  have "get_fraction ''+00'' = (0, ''+00'')" by (simp add: get_fraction_def)
  moreover have "zone_Z_hours ''+00'' = Some (0, [])" by (simp add: zone_Z_hours_def zone_hours_def getnum_def is_digit_def digit_val_def byte_def)
  ultimately have "parse_layout skip_blanks zone_Z_hours (pg_stamp t) = Some (t - t mod 1000000000)"
    using parse_format_datetime [OF assms, where skip = skip_blanks and zone = zone_Z_hours] skip by (simp add: pg_stamp_def)
  then show ?thesis by (simp add: parsePGTimestamp_def)
qed

lemma trimLiteral_pg:
  assumes "fst (date_of (t div day_ns)) < 10000"
  shows "trimLiteral (pg_literal t) = pg_stamp t"
proof -
  have q: "\<forall>e \<in> set space_encodings. e \<noteq> [] \<longrightarrow> hd e \<noteq> quote_char" "\<forall>e \<in> set (map rev space_encodings). e \<noteq> [] \<longrightarrow> hd e \<noteq> quote_char"
    by (simp_all add: space_encodings_def quote_char_def)
  note ends = pg_stamp_ends [OF assms]
  have "trim_space (pg_literal t) = pg_literal t"
    by (simp add: trim_space_def pg_literal_def trim_left_enc_stop [OF q(1)] trim_left_enc_stop [OF q(2)])
  moreover have keep: "dropWhile (\<lambda>c. c = quote_char) (s @ r) = s @ r" if "quote_char \<notin> set s" "s \<noteq> []" for s r
    using that by (cases s) auto
  have "trim_quotes (pg_literal t) = pg_stamp t"
    using ends keep [of "pg_stamp t" "[quote_char]"] keep [of "rev (pg_stamp t)" "[]"] by (simp add: trim_quotes_def pg_literal_def)
  ultimately show ?thesis by (simp add: trimLiteral_def)
qed

text \<open>The bounds of a month are read back exactly.\<close>

lemma parse_pg_bound:
  assumes "0 \<le> s" "0 \<le> e" "fst (date_of (s div day_ns)) < 10000" "fst (date_of (e div day_ns)) < 10000"
    and "s mod 1000000000 = 0" "e mod 1000000000 = 0"
  shows "parsePartitionBound (pg_bound s e) = Some (s, e)"
proof -
  have no: "CHR '')'' \<notin> set (pg_literal t)" if "fst (date_of (t div day_ns)) < 10000" for t
    using pg_stamp_ends(2) [OF that] by (simp add: pg_literal_def quote_char_def)
  have "trim_prefix ''FOR VALUES FROM ('' (pg_bound s e) = pg_literal s @ CHR '')'' # '' TO ('' @ pg_literal e @ '')''"
    by (simp only: pg_bound_def trim_prefix_append) simp
  moreover have "has_prefix ''FOR VALUES FROM ('' (pg_bound s e)" by (simp only: pg_bound_def has_prefix_append)
  moreover have "cut '') TO ('' (pg_literal s @ CHR '')'' # '' TO ('' @ pg_literal e @ '')'') = Some (pg_literal s, pg_literal e @ '')'')"
    using cut_at_char [OF no [OF assms(3)], of "'' TO (''"] by simp
  moreover have "cut '')'' (pg_literal e @ '')'') = Some (pg_literal e, [])" using cut_at_char [OF no [OF assms(4)], of "[]" "[]"] by simp
  ultimately show ?thesis
    using assms by (simp add: parsePartitionBound_def trimLiteral_pg parse_pg_stamp)
qed

end
