(* ===== verification/History.thy ===== *)
theory History
  imports ApiTypes GoNum Partitions "HOL-Library.List_Lexorder" "HOL-Library.Char_ord" "HOL-Library.Product_Lexorder"
begin

text \<open>
  The run history, \<open>src/internal/store\<close>: the row of a finished run (\<open>row.go\<close>), the statements of
  \<open>postgres.go\<close>, \<open>testcases.go\<close> and \<open>audit.go\<close> as operations on tables. A table is a list of rows;
  its order stands for the order in which PostgreSQL returns rows that no \<open>ORDER BY\<close> sorts. A
  statement may fail without effect (\<open>db_Faults\<close>, one entry per statement). Timestamps are kept in
  microseconds, so a time is cut to the microsecond when it is written or compared. The check and the
  normal form of a UUID, and whether text is a JSON object, are parameters.
\<close>

section \<open>Rows\<close>

record Comment =
  cm_Text :: string
  cm_By :: string
  cm_At :: instant

record StepRow =
  st_Phase :: StepPhase
  st_QueuedAt :: "instant option"
  st_StartedAt :: "instant option"
  st_FinishedAt :: "instant option"
  st_Message :: string
  st_Stages :: "Stage list"
  st_Params :: "(string, string) gomap"

record Row =
  rw_UID :: string
  rw_Name :: string
  rw_Namespace :: string
  rw_TestRef :: string
  rw_Phase :: Phase
  rw_Source :: string
  rw_QueuedAt :: "instant option"
  rw_StartedAt :: "instant option"
  rw_FinishedAt :: instant
  rw_DurationMs :: int
  rw_ResolvedSpec :: snapshot
  rw_Steps :: "(string, StepRow) gomap"
  rw_Stages :: "Stage list"
  rw_Metrics :: "(string, float64) gomap"
  rw_TestCounts :: "TestCounts option"
  rw_ArtifactRefs :: "ArtifactRef list"
  rw_LogsRef :: string
  rw_Message :: string
  rw_Tags :: "(string, string) gomap"
  rw_Config :: "(string, string) gomap"
  rw_Tool :: string
  rw_ParentRun :: string
  rw_GitRevision :: string
  rw_GitCommit :: string
  rw_Comment :: "Comment option"

datatype store_error = ErrNotTerminal | ErrNotFound | EmptyUID | NoFinishedAt | StatementFailed | BadUUID | NoPartition | DuplicateKey

record MetricParseWarning =
  mw_Key :: string
  mw_RawValue :: string

record StoreDeps =
  sd_IsObject :: "string \<Rightarrow> bool"
  sd_ParseUUID :: "string \<Rightarrow> bool"
  sd_Uuid :: "string \<Rightarrow> string option"
  sd_BoundExpr :: "instant \<Rightarrow> instant \<Rightarrow> string"

definition LabelTool :: string where "LabelTool = ''kubetest.io/tool''"
definition LabelParentRun_row :: string where "LabelParentRun_row = ''kubetest.io/parent-run''"

definition IsTerminal :: "Phase \<Rightarrow> bool" where
  "IsTerminal phase \<longleftrightarrow> phase \<in> {PhasePassed, PhaseFailed, PhaseAborted, PhaseError}"

text \<open>Values that are no float are left out, with a warning.\<close>

definition parseMetrics :: "(string, string) gomap \<Rightarrow> (string, float64) gomap \<times> MetricParseWarning list" where
  "parseMetrics ms =
     (List.map_filter (\<lambda>(k, v). map_option (Pair k) (ParseFloat v)) ms,
      List.map_filter (\<lambda>(k, v). if ParseFloat v = None then Some \<lparr>mw_Key = k, mw_RawValue = v\<rparr> else None) ms)"

definition cloneStringMap :: "(string, string) gomap \<Rightarrow> (string, string) gomap" where
  "cloneStringMap m = maps_copy [] m"

definition EffectiveConfig :: "(string, Parameter) gomap \<Rightarrow> (string, string) gomap \<Rightarrow> (string, string) gomap" where
  "EffectiveConfig declared overrides =
     maps_copy (map (\<lambda>(k, p). (k, pm_Default p)) (filter (\<lambda>(k, p). pm_Default p \<noteq> []) declared)) overrides"

definition step_row :: "StepResult \<Rightarrow> StepRow" where
  "step_row s = \<lparr>st_Phase = sr_Phase s, st_QueuedAt = sr_QueuedAt s, st_StartedAt = sr_StartedAt s, st_FinishedAt = sr_FinishedAt s,
     st_Message = sr_Message s, st_Stages = sr_Stages s, st_Params = sr_Params s\<rparr>"

text \<open>The snapshot as a JSON object, and as a spec.\<close>

definition spec_object :: "StoreDeps \<Rightarrow> snapshot \<Rightarrow> snapshot" where
  "spec_object d s = (case s of BadSnapshot text \<Rightarrow> if sd_IsObject d text then s else NoSnapshot | _ \<Rightarrow> s)"

definition snapshot_config :: "snapshot \<Rightarrow> (string, string) gomap \<Rightarrow> (string, string) gomap" where
  "snapshot_config s overrides = (case s of Snapshot spec \<Rightarrow> EffectiveConfig (ts_Config spec) overrides | _ \<Rightarrow> [])"

definition RowFromRun :: "StoreDeps \<Rightarrow> TestRun \<Rightarrow> (store_error, Row \<times> MetricParseWarning list) result" where
  "RowFromRun d run =
     (let st = r_Status run; spec = r_Spec run in
      if r_UID run = [] then Inl EmptyUID
      else case ru_FinishedAt st of None \<Rightarrow> Inl NoFinishedAt
      | Some finished \<Rightarrow>
          (case parseMetrics (ru_Metrics st) of (metrics, warnings) \<Rightarrow>
           Inr (\<lparr>rw_UID = r_UID run, rw_Name = r_Name run, rw_Namespace = r_Namespace run, rw_TestRef = rs_TestRef spec,
             rw_Phase = ru_Phase st, rw_Source = rs_Source spec, rw_QueuedAt = ru_QueuedAt st, rw_StartedAt = ru_StartedAt st,
             rw_FinishedAt = finished, rw_DurationMs = ru_DurationMs st, rw_ResolvedSpec = spec_object d (ru_ResolvedSpec st),
             rw_Steps = map (\<lambda>(n, s). (n, step_row s)) (ru_Steps st), rw_Stages = ru_Stages st, rw_Metrics = metrics,
             rw_TestCounts = ru_TestCounts st, rw_ArtifactRefs = ru_ArtifactRefs st, rw_LogsRef = ru_LogsRef st,
             rw_Message = ru_Message st, rw_Tags = cloneStringMap (rs_Tags spec),
             rw_Config = snapshot_config (ru_ResolvedSpec st) (rs_Config spec),
             rw_Tool = (if ru_Tool st = [] then gm_at [] (r_Labels run) LabelTool else ru_Tool st),
             rw_ParentRun = gm_at [] (r_Labels run) LabelParentRun_row,
             rw_GitRevision = (case ru_Content st of None \<Rightarrow> [] | Some c \<Rightarrow> cs_GitRevision c),
             rw_GitCommit = (case ru_Content st of None \<Rightarrow> [] | Some c \<Rightarrow> cs_GitCommit c),
             rw_Comment = None\<rparr>, warnings)))"

section \<open>Columns\<close>

text \<open>A row of \<open>test_runs\<close>; \<open>None\<close> is \<open>NULL\<close>.\<close>

record Columns =
  cl_uid :: string
  cl_name :: string
  cl_namespace :: string
  cl_test_ref :: string
  cl_phase :: Phase
  cl_source :: "string option"
  cl_queued_at :: "instant option"
  cl_started_at :: "instant option"
  cl_finished_at :: instant
  cl_duration_ms :: "int option"
  cl_resolved_spec :: "snapshot option"
  cl_steps :: "(string, StepRow) gomap option"
  cl_metrics :: "(string, float64) gomap option"
  cl_test_counts :: "TestCounts option"
  cl_artifact_refs :: "ArtifactRef list option"
  cl_logs_ref :: "string option"
  cl_message :: "string option"
  cl_tags :: "(string, string) gomap option"
  cl_config :: "(string, string) gomap option"
  cl_tool :: "string option"
  cl_parent_run :: "string option"
  cl_git_revision :: "string option"
  cl_git_commit :: "string option"
  cl_stages :: "Stage list option"
  cl_comment :: "string option"
  cl_comment_by :: "string option"
  cl_comment_at :: "instant option"

definition pg_time :: "instant \<Rightarrow> instant" where
  "pg_time t = 1000 * (t div 1000)"

definition nullIfEmpty :: "string \<Rightarrow> string option" where
  "nullIfEmpty s = (if s = [] then None else Some s)"

definition nullIfZero :: "int \<Rightarrow> int option" where
  "nullIfZero i = (if i = 0 then None else Some i)"

text \<open>\<open>jsonbOrNil\<close>: an empty container is \<open>NULL\<close>, and so is a value that \<open>json.Marshal\<close> refuses.\<close>

definition jsonbOrNil :: "bool \<Rightarrow> 'a list \<Rightarrow> 'a list option" where
  "jsonbOrNil marshals xs = (if xs = [] \<or> \<not> marshals then None else Some xs)"

definition is_finite :: "float64 \<Rightarrow> bool" where
  "is_finite f = (case f of Finite _ \<Rightarrow> True | _ \<Rightarrow> False)"

definition insert_columns :: "string \<Rightarrow> Row \<Rightarrow> Columns" where
  "insert_columns uid row = \<lparr>cl_uid = uid, cl_name = rw_Name row, cl_namespace = rw_Namespace row, cl_test_ref = rw_TestRef row,
     cl_phase = rw_Phase row, cl_source = nullIfEmpty (rw_Source row), cl_queued_at = map_option pg_time (rw_QueuedAt row),
     cl_started_at = map_option pg_time (rw_StartedAt row), cl_finished_at = pg_time (rw_FinishedAt row),
     cl_duration_ms = nullIfZero (rw_DurationMs row),
     cl_resolved_spec = (if rw_ResolvedSpec row = NoSnapshot then None else Some (rw_ResolvedSpec row)),
     cl_steps = jsonbOrNil True (rw_Steps row),
     cl_metrics = jsonbOrNil (list_all (\<lambda>(_, f). is_finite f) (rw_Metrics row)) (rw_Metrics row),
     cl_test_counts = rw_TestCounts row, cl_artifact_refs = jsonbOrNil True (rw_ArtifactRefs row),
     cl_logs_ref = nullIfEmpty (rw_LogsRef row), cl_message = nullIfEmpty (rw_Message row), cl_tags = jsonbOrNil True (rw_Tags row),
     cl_config = jsonbOrNil True (rw_Config row), cl_tool = nullIfEmpty (rw_Tool row), cl_parent_run = nullIfEmpty (rw_ParentRun row),
     cl_git_revision = nullIfEmpty (rw_GitRevision row), cl_git_commit = nullIfEmpty (rw_GitCommit row),
     cl_stages = jsonbOrNil True (rw_Stages row), cl_comment = None, cl_comment_by = None, cl_comment_at = None\<rparr>"

definition or_zero :: "'a \<Rightarrow> 'a option \<Rightarrow> 'a" where
  "or_zero z v = (case v of None \<Rightarrow> z | Some x \<Rightarrow> x)"

definition scanRow :: "Columns \<Rightarrow> Row" where
  "scanRow c = \<lparr>rw_UID = cl_uid c, rw_Name = cl_name c, rw_Namespace = cl_namespace c, rw_TestRef = cl_test_ref c, rw_Phase = cl_phase c,
     rw_Source = or_zero [] (cl_source c), rw_QueuedAt = cl_queued_at c, rw_StartedAt = cl_started_at c, rw_FinishedAt = cl_finished_at c,
     rw_DurationMs = or_zero 0 (cl_duration_ms c), rw_ResolvedSpec = or_zero NoSnapshot (cl_resolved_spec c),
     rw_Steps = or_zero [] (cl_steps c), rw_Stages = or_zero [] (cl_stages c), rw_Metrics = or_zero [] (cl_metrics c),
     rw_TestCounts = cl_test_counts c, rw_ArtifactRefs = or_zero [] (cl_artifact_refs c), rw_LogsRef = or_zero [] (cl_logs_ref c),
     rw_Message = or_zero [] (cl_message c), rw_Tags = or_zero [] (cl_tags c), rw_Config = or_zero [] (cl_config c),
     rw_Tool = or_zero [] (cl_tool c), rw_ParentRun = or_zero [] (cl_parent_run c), rw_GitRevision = or_zero [] (cl_git_revision c),
     rw_GitCommit = or_zero [] (cl_git_commit c),
     rw_Comment = (case (cl_comment c, cl_comment_at c) of
         (Some text, Some t) \<Rightarrow> Some \<lparr>cm_Text = text, cm_By = or_zero [] (cl_comment_by c), cm_At = t\<rparr> | _ \<Rightarrow> None)\<rparr>"

section \<open>Tables and statements\<close>

record TestCase =
  ca_Suite :: string
  ca_Class :: string
  ca_Name :: string
  ca_Status :: string
  ca_DurationMs :: int
  ca_Message :: string
  ca_Details :: string
  ca_File :: string

record CaseColumns =
  cc_run_uid :: string
  cc_finished_at :: instant
  cc_idx :: nat
  cc_namespace :: string
  cc_test_ref :: string
  cc_case_key :: string
  cc_case :: TestCase

record AuditEntry =
  ae_ID :: int
  ae_At :: instant
  ae_Actor :: string
  ae_Action :: string
  ae_Namespace :: string
  ae_Target :: string
  ae_Details :: "(string, string) gomap"

record Database =
  db_RunParts :: "Partition list"
  db_CaseParts :: "Partition list"
  db_Runs :: "Columns list"
  db_Cases :: "CaseColumns list"
  db_Audit :: "AuditEntry list"
  db_NextID :: int
  db_Clock :: instant
  db_Faults :: "bool list"

type_synonym 'a dbop = "Database \<Rightarrow> (store_error, 'a) result \<times> Database"

definition dret :: "'a \<Rightarrow> 'a dbop" where
  "dret x = (\<lambda>db. (Inr x, db))"

definition dfail :: "store_error \<Rightarrow> 'a dbop" where
  "dfail e = (\<lambda>db. (Inl e, db))"

definition dbind :: "'a dbop \<Rightarrow> ('a \<Rightarrow> 'b dbop) \<Rightarrow> 'b dbop" where
  "dbind m f = (\<lambda>db. case m db of (Inl e, db') \<Rightarrow> (Inl e, db') | (Inr x, db') \<Rightarrow> f x db')"

fun dfor :: "('a \<Rightarrow> unit dbop) \<Rightarrow> 'a list \<Rightarrow> unit dbop" where
  "dfor f [] = dret ()"
| "dfor f (x # xs) = dbind (f x) (\<lambda>_. dfor f xs)"

text \<open>One statement: it fails as the faults say, or it runs.\<close>

definition statement :: "'a dbop \<Rightarrow> 'a dbop" where
  "statement f = (\<lambda>db. case db_Faults db of
     [] \<Rightarrow> f db
   | fault # fs \<Rightarrow> (if fault then (Inl StatementFailed, db\<lparr>db_Faults := fs\<rparr>) else f (db\<lparr>db_Faults := fs\<rparr>)))"

definition query :: "(Database \<Rightarrow> 'a) \<Rightarrow> 'a dbop" where
  "query f = statement (\<lambda>db. (Inr (f db), db))"

definition command :: "(Database \<Rightarrow> Database) \<Rightarrow> unit dbop" where
  "command f = statement (\<lambda>db. (Inr (), f db))"

text \<open>A transaction: begin, the statements, commit; on an error everything is as before.\<close>

definition transaction :: "'a dbop \<Rightarrow> 'a dbop" where
  "transaction m = dbind (query (\<lambda>_. ())) (\<lambda>_ db.
     case dbind m (\<lambda>x. query (\<lambda>_. x)) db of
       (Inl e, db') \<Rightarrow> (Inl e, db\<lparr>db_Faults := db_Faults db'\<rparr>)
     | (Inr x, db') \<Rightarrow> (Inr x, db'))"

subsection \<open>Partitions\<close>

definition tablePartition :: "string \<Rightarrow> Partition \<Rightarrow> Partition" where
  "tablePartition table part = part\<lparr>pt_Name := table @ trim_prefix ''test_runs'' (pt_Name part)\<rparr>"

definition overlaps :: "Partition \<Rightarrow> Partition \<Rightarrow> bool" where
  "overlaps p q = (pt_Start p < pt_End q \<and> pt_Start q < pt_End p)"

text \<open>\<open>CREATE TABLE IF NOT EXISTS ... PARTITION OF\<close>: nothing when the name is taken, an error when the range is.\<close>

definition add_partition :: "Partition \<Rightarrow> Partition list \<Rightarrow> (store_error, Partition list) result" where
  "add_partition part parts =
     (if pt_Name part \<in> pt_Name ` set parts then Inr parts
      else if list_ex (overlaps part) parts then Inl NoPartition
      else Inr (parts @ [part]))"

definition ensurePartition :: "Partition \<Rightarrow> unit dbop" where
  "ensurePartition part = dbind
     (statement (\<lambda>db. case add_partition (tablePartition ''test_runs'' part) (db_RunParts db) of
        Inl e \<Rightarrow> (Inl e, db) | Inr ps \<Rightarrow> (Inr (), db\<lparr>db_RunParts := ps\<rparr>)))
     (\<lambda>_. statement (\<lambda>db. case add_partition (tablePartition ''test_cases'' part) (db_CaseParts db) of
        Inl e \<Rightarrow> (Inl e, db) | Inr ps \<Rightarrow> (Inr (), db\<lparr>db_CaseParts := ps\<rparr>)))"

definition named_ranges :: "string \<Rightarrow> Partition list \<Rightarrow> instant \<Rightarrow> bool" where
  "named_ranges name parts t = list_ex (\<lambda>p. pt_Name p = name \<and> in_partition t p) parts"

definition dropPartitionTables :: "Partition \<Rightarrow> unit dbop" where
  "dropPartitionTables part =
     (let cases = pt_Name (tablePartition ''test_cases'' part); runs = pt_Name (tablePartition ''test_runs'' part) in
      dbind (command (\<lambda>db. db\<lparr>db_Cases := filter (\<lambda>c. \<not> named_ranges cases (db_CaseParts db) (cc_finished_at c)) (db_Cases db),
          db_CaseParts := filter (\<lambda>p. pt_Name p \<noteq> cases) (db_CaseParts db)\<rparr>))
        (\<lambda>_. command (\<lambda>db. db\<lparr>db_Runs := filter (\<lambda>c. \<not> named_ranges runs (db_RunParts db) (cl_finished_at c)) (db_Runs db),
          db_RunParts := filter (\<lambda>p. pt_Name p \<noteq> runs) (db_RunParts db)\<rparr>)))"

definition EnsurePartitions :: "Partition list \<Rightarrow> unit dbop" where
  "EnsurePartitions ps = dfor ensurePartition ps"

definition DropPartitions :: "Partition list \<Rightarrow> unit dbop" where
  "DropPartitions ps = dfor dropPartitionTables ps"

definition ExistingPartitions :: "StoreDeps \<Rightarrow> Partition list dbop" where
  "ExistingPartitions d = query (\<lambda>db. List.map_filter (\<lambda>p. case parsePartitionBound (sd_BoundExpr d (pt_Start p) (pt_End p)) of
     None \<Rightarrow> None | Some (s, e) \<Rightarrow> Some \<lparr>pt_Name = pt_Name p, pt_Start = s, pt_End = e\<rparr>) (sort_key pt_Name (db_RunParts db)))"

subsection \<open>Runs\<close>

definition same_key :: "Columns \<Rightarrow> Columns \<Rightarrow> bool" where
  "same_key a b = (cl_uid a = cl_uid b \<and> cl_finished_at a = cl_finished_at b)"

text \<open>The columns that \<open>DO UPDATE SET\<close> does not name keep their values.\<close>

definition excluded :: "Columns \<Rightarrow> Columns \<Rightarrow> Columns" where
  "excluded new old = new\<lparr>cl_uid := cl_uid old, cl_finished_at := cl_finished_at old,
     cl_comment := cl_comment old, cl_comment_by := cl_comment_by old, cl_comment_at := cl_comment_at old\<rparr>"

definition update_row :: "Columns \<Rightarrow> Columns \<Rightarrow> Columns" where
  "update_row c old = (if same_key c old then excluded c old else old)"

definition upsert :: "Columns \<Rightarrow> unit dbop" where
  "upsert c = statement (\<lambda>db.
     if list_ex (same_key c) (db_Runs db)
     then (Inr (), db\<lparr>db_Runs := map (update_row c) (db_Runs db)\<rparr>)
     else if list_ex (in_partition (cl_finished_at c)) (db_RunParts db) then (Inr (), db\<lparr>db_Runs := db_Runs db @ [c]\<rparr>)
     else (Inl NoPartition, db))"

definition cast_uuid :: "StoreDeps \<Rightarrow> string \<Rightarrow> string dbop" where
  "cast_uuid d s = (case sd_Uuid d s of None \<Rightarrow> dfail BadUUID | Some u \<Rightarrow> dret u)"

definition SaveFinished :: "StoreDeps \<Rightarrow> TestRun \<Rightarrow> unit dbop" where
  "SaveFinished d run =
     (if \<not> IsTerminal (ru_Phase (r_Status run)) then dfail ErrNotTerminal
      else case RowFromRun d run of Inl e \<Rightarrow> dfail e
      | Inr (row, _) \<Rightarrow> dbind (ensurePartition (PartitionForTime (rw_FinishedAt row)))
          (\<lambda>_. dbind (cast_uuid d (rw_UID row)) (\<lambda>uid. upsert (insert_columns uid row))))"

definition first_row :: "Columns list \<Rightarrow> Row dbop" where
  "first_row cs = (case cs of [] \<Rightarrow> dfail ErrNotFound | c # _ \<Rightarrow> dret (scanRow c))"

definition Get :: "StoreDeps \<Rightarrow> string \<Rightarrow> Row dbop" where
  "Get d uid = dbind (cast_uuid d uid) (\<lambda>u. dbind (query (\<lambda>db. filter (\<lambda>c. cl_uid c = u) (db_Runs db))) first_row)"

definition newest_first :: "(Columns \<Rightarrow> 'k :: linorder) \<Rightarrow> Columns list \<Rightarrow> Columns list" where
  "newest_first key cs = rev (sort_key key cs)"

definition GetByName :: "string \<Rightarrow> string \<Rightarrow> Row dbop" where
  "GetByName namespace name = dbind (query (\<lambda>db. take 1 (newest_first cl_finished_at
     (filter (\<lambda>c. cl_namespace c = namespace \<and> cl_name c = name) (db_Runs db))))) first_row"

definition DeleteRow :: "StoreDeps \<Rightarrow> string \<Rightarrow> unit dbop" where
  "DeleteRow d uid =
     (if \<not> sd_ParseUUID d uid then dfail ErrNotFound
      else transaction (dbind (cast_uuid d uid) (\<lambda>u.
        dbind (statement (\<lambda>db. (Inr (length (filter (\<lambda>c. cl_uid c = u) (db_Runs db))),
            db\<lparr>db_Runs := filter (\<lambda>c. cl_uid c \<noteq> u) (db_Runs db)\<rparr>)))
          (\<lambda>n. if n = 0 then dfail ErrNotFound
            else command (\<lambda>db. db\<lparr>db_Cases := filter (\<lambda>c. cc_run_uid c \<noteq> u) (db_Cases db)\<rparr>)))))"

definition SetComment :: "StoreDeps \<Rightarrow> string \<Rightarrow> Comment option \<Rightarrow> unit dbop" where
  "SetComment d uid comment =
     (if \<not> sd_ParseUUID d uid then dfail ErrNotFound
      else dbind (cast_uuid d uid) (\<lambda>u. statement (\<lambda>db.
        if \<not> list_ex (\<lambda>c. cl_uid c = u) (db_Runs db) then (Inl ErrNotFound, db)
        else (Inr (), db\<lparr>db_Runs := map (\<lambda>c. if cl_uid c \<noteq> u then c
            else c\<lparr>cl_comment := map_option cm_Text comment, cl_comment_by := Option.bind comment (\<lambda>m. nullIfEmpty (cm_By m)),
                   cl_comment_at := map_option (\<lambda>m. pg_time (cm_At m)) comment\<rparr>) (db_Runs db)\<rparr>))))"

record Filter =
  fl_TestRef :: string
  fl_Namespace :: string
  fl_Phase :: Phase
  fl_Source :: string
  fl_ParentRun :: string
  fl_SinceInclusive :: "instant option"
  fl_UntilExclusive :: "instant option"

record Page =
  pg_Limit :: int
  pg_After :: string
  pg_AfterFinishedAt :: "instant option"

definition DefaultPageLimit :: int where "DefaultPageLimit = 50"
definition MaxPageLimit :: int where "MaxPageLimit = 500"

definition clampLimit :: "int \<Rightarrow> int" where
  "clampLimit limit = (if limit \<le> 0 then DefaultPageLimit else min limit MaxPageLimit)"

definition where_filter :: "Filter \<Rightarrow> Columns \<Rightarrow> bool" where
  "where_filter f c =
     ((fl_TestRef f \<noteq> [] \<longrightarrow> cl_test_ref c = fl_TestRef f) \<and>
      (fl_Namespace f \<noteq> [] \<longrightarrow> cl_namespace c = fl_Namespace f) \<and>
      (fl_Phase f \<noteq> PhaseNone \<longrightarrow> cl_phase c = fl_Phase f) \<and>
      (fl_ParentRun f \<noteq> [] \<longrightarrow> cl_parent_run c = Some (fl_ParentRun f)) \<and>
      (fl_Source f \<noteq> [] \<longrightarrow> cl_source c = Some (fl_Source f)) \<and>
      (case fl_SinceInclusive f of None \<Rightarrow> True | Some t \<Rightarrow> pg_time t \<le> cl_finished_at c) \<and>
      (case fl_UntilExclusive f of None \<Rightarrow> True | Some t \<Rightarrow> cl_finished_at c < pg_time t))"

text \<open>The place of a row in the listing, newest first.\<close>

definition row_key :: "Columns \<Rightarrow> instant \<times> string" where
  "row_key c = (cl_finished_at c, cl_uid c)"

definition where_after :: "(instant \<times> string) option \<Rightarrow> Columns \<Rightarrow> bool" where
  "where_after k c = (case k of None \<Rightarrow> True | Some k \<Rightarrow> row_key c < k)"

definition page_cursor :: "StoreDeps \<Rightarrow> Page \<Rightarrow> (instant \<times> string) option dbop" where
  "page_cursor d page = (case pg_AfterFinishedAt page of
     Some t \<Rightarrow> if pg_After page \<noteq> [] then dbind (cast_uuid d (pg_After page)) (\<lambda>u. dret (Some (pg_time t, u))) else dret None
   | None \<Rightarrow> dret None)"

definition ListRuns :: "StoreDeps \<Rightarrow> Filter \<Rightarrow> Page \<Rightarrow> Row list dbop" where
  "ListRuns d f page = dbind (page_cursor d page) (\<lambda>k. query (\<lambda>db.
     map scanRow (take (nat (clampLimit (pg_Limit page))) (newest_first row_key
       (filter (\<lambda>c. where_filter f c \<and> where_after k c) (db_Runs db))))))"

definition RunsIn :: "Partition \<Rightarrow> (string \<times> string) list dbop" where
  "RunsIn part = query (\<lambda>db. map (\<lambda>c. (cl_namespace c, cl_uid c))
     (filter (\<lambda>c. pg_time (pt_Start part) \<le> cl_finished_at c \<and> cl_finished_at c < pg_time (pt_End part)) (db_Runs db)))"

subsection \<open>Test cases\<close>

definition CaseKey :: "TestCase \<Rightarrow> string" where
  "CaseKey c = (let group = (if ca_Class c = [] then ca_Suite c else ca_Class c)
     in if group = [] then ca_Name c else group @ [CHR '' '', CHR 0xE2, CHR 0x80, CHR 0xBA, CHR '' ''] @ ca_Name c)"

definition MaxCaseWindow :: int where "MaxCaseWindow = 200"

definition case_rows :: "string \<Rightarrow> instant \<Rightarrow> TestRun \<Rightarrow> TestCase list \<Rightarrow> CaseColumns list" where
  "case_rows uid finished run cases = map (\<lambda>(i, c). \<lparr>cc_run_uid = uid, cc_finished_at = pg_time finished, cc_idx = i,
     cc_namespace = r_Namespace run, cc_test_ref = rs_TestRef (r_Spec run), cc_case_key = CaseKey c, cc_case = c\<rparr>) (enumerate 0 cases)"

definition copy_cases :: "CaseColumns list \<Rightarrow> unit dbop" where
  "copy_cases rows = statement (\<lambda>db.
     if list_all (\<lambda>c. list_ex (in_partition (cc_finished_at c)) (db_CaseParts db)) rows
     then (Inr (), db\<lparr>db_Cases := db_Cases db @ rows\<rparr>) else (Inl NoPartition, db))"

definition SaveTestCases :: "StoreDeps \<Rightarrow> TestRun \<Rightarrow> TestCase list \<Rightarrow> unit dbop" where
  "SaveTestCases d run cases =
     (if r_UID run = [] then dfail EmptyUID
      else case ru_FinishedAt (r_Status run) of None \<Rightarrow> dfail NoFinishedAt
      | Some finished \<Rightarrow> dbind (ensurePartition (PartitionForTime finished)) (\<lambda>_. transaction (dbind (cast_uuid d (r_UID run)) (\<lambda>u.
          dbind (command (\<lambda>db. db\<lparr>db_Cases := filter (\<lambda>c. cc_run_uid c \<noteq> u) (db_Cases db)\<rparr>))
            (\<lambda>_. copy_cases (case_rows u finished run cases))))))"

definition RunCases :: "StoreDeps \<Rightarrow> string \<Rightarrow> bool \<Rightarrow> CaseColumns list dbop" where
  "RunCases d uid failedOnly =
     (if \<not> sd_ParseUUID d uid then dret []
      else dbind (cast_uuid d uid) (\<lambda>u. query (\<lambda>db. sort_key cc_idx (filter (\<lambda>c. cc_run_uid c = u \<and>
        (failedOnly \<longrightarrow> ca_Status (cc_case c) \<in> {''failed'', ''error''})) (db_Cases db)))))"

record CaseRun =
  cr_RunUID :: string
  cr_RunName :: string
  cr_FinishedAt :: instant
  cr_Status :: string
  cr_DurationMs :: int
  cr_Message :: string

text \<open>The left join: the name of the run while its row is there.\<close>

definition case_run :: "Columns list \<Rightarrow> CaseColumns \<Rightarrow> CaseRun" where
  "case_run runs c = \<lparr>cr_RunUID = cc_run_uid c,
     cr_RunName = (case filter (\<lambda>r. cl_uid r = cc_run_uid c \<and> cl_finished_at r = cc_finished_at c) runs of [] \<Rightarrow> [] | r # _ \<Rightarrow> cl_name r),
     cr_FinishedAt = cc_finished_at c, cr_Status = ca_Status (cc_case c), cr_DurationMs = ca_DurationMs (cc_case c),
     cr_Message = ca_Message (cc_case c)\<rparr>"

definition CaseHistory :: "string \<Rightarrow> string \<Rightarrow> string \<Rightarrow> int \<Rightarrow> CaseRun list dbop" where
  "CaseHistory namespace testRef caseKey limit =
     (let n = (if limit \<le> 0 \<or> MaxCaseWindow < limit then MaxCaseWindow else limit)
      in query (\<lambda>db. take (nat n) (map (case_run (db_Runs db)) (sort_key (\<lambda>c. (- cc_finished_at c, cc_run_uid c))
        (filter (\<lambda>c. cc_namespace c = namespace \<and> cc_test_ref c = testRef \<and> cc_case_key c = caseKey) (db_Cases db))))))"

subsection \<open>The audit log\<close>

record AuditFilter =
  af_Namespace :: string
  af_Actor :: string
  af_Action :: string
  af_BeforeID :: int

definition AppendAudit :: "AuditEntry \<Rightarrow> unit dbop" where
  "AppendAudit e = command (\<lambda>db. db\<lparr>db_Audit := db_Audit db @ [e\<lparr>ae_ID := db_NextID db,
     ae_At := (if ae_At e = 0 then db_Clock db else pg_time (ae_At e))\<rparr>], db_NextID := db_NextID db + 1\<rparr>)"

definition where_audit :: "AuditFilter \<Rightarrow> AuditEntry \<Rightarrow> bool" where
  "where_audit f e =
     ((af_Namespace f \<noteq> [] \<longrightarrow> ae_Namespace e = af_Namespace f) \<and> (af_Actor f \<noteq> [] \<longrightarrow> ae_Actor e = af_Actor f) \<and>
      (af_Action f \<noteq> [] \<longrightarrow> ae_Action e = af_Action f) \<and> (0 < af_BeforeID f \<longrightarrow> ae_ID e < af_BeforeID f))"

definition ListAudit :: "AuditFilter \<Rightarrow> int \<Rightarrow> AuditEntry list dbop" where
  "ListAudit f limit = query (\<lambda>db. take (nat (clampLimit limit)) (rev (sort_key ae_ID (filter (where_audit f) (db_Audit db)))))"

definition PruneAudit :: "instant \<Rightarrow> nat dbop" where
  "PruneAudit before = statement (\<lambda>db. (Inr (length (filter (\<lambda>e. ae_At e < pg_time before) (db_Audit db))),
     db\<lparr>db_Audit := filter (\<lambda>e. \<not> ae_At e < pg_time before) (db_Audit db)\<rparr>))"

end
