(* ===== verification/HistoryRules.thy ===== *)
theory HistoryRules
  imports History
begin

text \<open>
  What the run history promises: the tables stay well formed under every sequence of calls and failed
  statements; saving a finished run is idempotent and keeps the comment; listing by pages.
\<close>

section \<open>Statements\<close>

lemma dret_apply [simp]: "dret x db = (Inr x, db)"
  by (simp add: dret_def)

lemma dfail_apply [simp]: "dfail e db = (Inl e, db)"
  by (simp add: dfail_def)

text \<open>What holds of every outcome of an operation.\<close>

definition ensures :: "'a dbop \<Rightarrow> (Database \<Rightarrow> bool) \<Rightarrow> ((store_error, 'a) result \<Rightarrow> Database \<Rightarrow> bool) \<Rightarrow> bool" where
  "ensures m P Q \<longleftrightarrow> (\<forall>db. P db \<longrightarrow> Q (fst (m db)) (snd (m db)))"

abbreviation keeps_db :: "(Database \<Rightarrow> bool) \<Rightarrow> 'a dbop \<Rightarrow> bool" where
  "keeps_db P m \<equiv> ensures m P (\<lambda>_. P)"

text \<open>A property of the tables does not look at the faults to come.\<close>

definition table_property :: "(Database \<Rightarrow> bool) \<Rightarrow> bool" where
  "table_property P \<longleftrightarrow> (\<forall>db fs. P (db\<lparr>db_Faults := fs\<rparr>) = P db)"

lemma keeps_dret [intro]: "keeps_db P (dret x)"
  by (simp add: ensures_def)

lemma keeps_dfail [intro]: "keeps_db P (dfail e)"
  by (simp add: ensures_def)

lemma keeps_dbind [intro]:
  assumes "keeps_db P m" "\<And>x. keeps_db P (f x)"
  shows "keeps_db P (dbind m f)"
  using assms by (fastforce simp: ensures_def dbind_def split: prod.splits sum.splits)

lemma keeps_dfor [intro]: "(\<And>x. x \<in> set xs \<Longrightarrow> keeps_db P (f x)) \<Longrightarrow> keeps_db P (dfor f xs)"
  by (induction xs) auto

lemma keeps_statement:
  assumes "table_property P" "keeps_db P f"
  shows "keeps_db P (statement f)"
  using assms by (auto simp: ensures_def statement_def table_property_def split: list.splits)

lemma keeps_query: "table_property P \<Longrightarrow> keeps_db P (query f)"
  unfolding query_def by (rule keeps_statement) (simp_all add: ensures_def)

lemma keeps_command:
  assumes "table_property P" "\<And>db. P db \<Longrightarrow> P (f db)"
  shows "keeps_db P (command f)"
  unfolding command_def by (rule keeps_statement) (use assms in \<open>simp_all add: ensures_def\<close>)

lemma keeps_transaction:
  assumes "table_property P" "keeps_db P m"
  shows "keeps_db P (transaction m)"
proof -
  have "keeps_db P (dbind m (\<lambda>x. query (\<lambda>_. x)))" using assms keeps_query by blast
  then have "keeps_db P (\<lambda>db. case dbind m (\<lambda>x. query (\<lambda>_. x)) db of
       (Inl e, db') \<Rightarrow> (Inl e, db\<lparr>db_Faults := db_Faults db'\<rparr>) | (Inr x, db') \<Rightarrow> (Inr x, db'))"
    using assms(1) by (fastforce simp: ensures_def table_property_def split: prod.splits sum.splits)
  then show ?thesis unfolding transaction_def using keeps_query [OF assms(1)] by blast
qed

lemma keeps_cast [intro]: "keeps_db P (cast_uuid d s)"
  by (auto simp: cast_uuid_def split: option.splits)

section \<open>Well-formed tables\<close>

text \<open>
  The primary keys are unique; the partitions are months, each once; the partition of the cases of a
  month has the range of the partition of its runs; and every row is in a partition.
\<close>

definition month_parts :: "string \<Rightarrow> Partition list \<Rightarrow> bool" where
  "month_parts table parts \<longleftrightarrow> distinct parts \<and> set parts \<subseteq> (\<lambda>ym. tablePartition table (month_partition ym)) ` Collect real_month"

definition case_key :: "CaseColumns \<Rightarrow> string \<times> nat \<times> instant" where
  "case_key c = (cc_run_uid c, cc_idx c, cc_finished_at c)"

definition runs_ok :: "Database \<Rightarrow> bool" where
  "runs_ok db \<longleftrightarrow> distinct (map row_key (db_Runs db)) \<and> month_parts ''test_runs'' (db_RunParts db) \<and>
     (\<forall>c \<in> set (db_Runs db). \<exists>p \<in> set (db_RunParts db). in_partition (cl_finished_at c) p)"

definition cases_ok :: "Database \<Rightarrow> bool" where
  "cases_ok db \<longleftrightarrow> distinct (map case_key (db_Cases db)) \<and> month_parts ''test_cases'' (db_CaseParts db) \<and>
     (\<forall>c \<in> set (db_Cases db). \<exists>p \<in> set (db_CaseParts db). in_partition (cc_finished_at c) p)"

definition audit_ok :: "Database \<Rightarrow> bool" where
  "audit_ok db \<longleftrightarrow> distinct (map ae_ID (db_Audit db)) \<and> (\<forall>e \<in> set (db_Audit db). ae_ID e < db_NextID db)"

definition db_ok :: "Database \<Rightarrow> bool" where
  "db_ok db \<longleftrightarrow> runs_ok db \<and> cases_ok db \<and> audit_ok db"

lemma db_ok_property: "table_property db_ok"
  by (simp add: table_property_def db_ok_def runs_ok_def cases_ok_def audit_ok_def)

lemma month_parts_add:
  assumes "month_parts table parts" "real_month ym" "add_partition (tablePartition table (month_partition ym)) parts = Inr parts'"
  shows "month_parts table parts' \<and> set parts \<subseteq> set parts'"
  using assms by (auto simp: month_parts_def add_partition_def split: if_splits)

lemma month_parts_filter: "month_parts table parts \<Longrightarrow> month_parts table (filter P parts)"
  by (auto simp: month_parts_def)

lemma keeps_ensurePartition:
  assumes "real_month ym"
  shows "keeps_db db_ok (ensurePartition (month_partition ym))"
  unfolding ensurePartition_def
proof (intro keeps_dbind keeps_statement db_ok_property)
  show "keeps_db db_ok (\<lambda>db. case add_partition (tablePartition ''test_runs'' (month_partition ym)) (db_RunParts db) of
        Inl e \<Rightarrow> (Inl e, db) | Inr ps \<Rightarrow> (Inr (), db\<lparr>db_RunParts := ps\<rparr>))"
    using month_parts_add [OF _ assms]
    by (fastforce simp: ensures_def db_ok_def runs_ok_def cases_ok_def audit_ok_def split: sum.splits)
  show "keeps_db db_ok (\<lambda>db. case add_partition (tablePartition ''test_cases'' (month_partition ym)) (db_CaseParts db) of
        Inl e \<Rightarrow> (Inl e, db) | Inr ps \<Rightarrow> (Inr (), db\<lparr>db_CaseParts := ps\<rparr>))"
    using month_parts_add [OF _ assms]
    by (fastforce simp: ensures_def db_ok_def runs_ok_def cases_ok_def audit_ok_def split: sum.splits)
qed

lemma update_row_simps [simp]:
  "row_key (update_row c old) = row_key old" "cl_finished_at (update_row c old) = cl_finished_at old" "cl_uid (update_row c old) = cl_uid old"
  by (simp_all add: update_row_def row_key_def same_key_def excluded_def)

lemma keeps_upsert: "keeps_db db_ok (upsert c)"
  unfolding upsert_def
proof (rule keeps_statement [OF db_ok_property])
  have new: "\<not> list_ex (same_key c) rows \<Longrightarrow> row_key c \<notin> row_key ` set rows" for rows
    by (auto simp: list_ex_iff same_key_def row_key_def)
  have keys: "map (row_key \<circ> update_row c) rows = map row_key rows" for rows by simp
  show "keeps_db db_ok (\<lambda>db. if list_ex (same_key c) (db_Runs db) then (Inr (), db\<lparr>db_Runs := map (update_row c) (db_Runs db)\<rparr>)
     else if list_ex (in_partition (cl_finished_at c)) (db_RunParts db) then (Inr (), db\<lparr>db_Runs := db_Runs db @ [c]\<rparr>)
     else (Inl NoPartition, db))"
    using new by (auto simp: ensures_def db_ok_def runs_ok_def cases_ok_def audit_ok_def keys list_ex_iff)
qed

lemma ensures_dbind:
  assumes "ensures m P (\<lambda>r db. case r of Inl _ \<Rightarrow> R db | Inr x \<Rightarrow> M x db)" "\<And>x. ensures (f x) (M x) (\<lambda>_. R)"
  shows "ensures (dbind m f) P (\<lambda>_. R)"
  using assms by (fastforce simp: ensures_def dbind_def split: prod.splits sum.splits)

lemma ensures_statement:
  assumes "table_property P" "table_property R" "\<And>db. P db \<Longrightarrow> R db" "ensures f P (\<lambda>_. R)"
  shows "ensures (statement f) P (\<lambda>_. R)"
  using assms by (fastforce simp: ensures_def statement_def table_property_def split: list.splits)

lemma keeps_drop: "keeps_db db_ok (dropPartitionTables part)"
  unfolding dropPartitionTables_def Let_def
  by (intro keeps_dbind keeps_command db_ok_property)
    (fastforce simp: db_ok_def runs_ok_def cases_ok_def audit_ok_def named_ranges_def list_ex_iff month_parts_filter distinct_map_filter)+

lemma case_rows_keys: "distinct (map case_key (case_rows u finished run cases)) \<and> (\<forall>c \<in> set (case_rows u finished run cases). cc_run_uid c = u)"
proof -
  have "distinct (map cc_idx (case_rows u finished run cases))"
    by (simp add: case_rows_def comp_def case_prod_unfold)
  moreover have "map (fst \<circ> snd) (map case_key (case_rows u finished run cases)) = map cc_idx (case_rows u finished run cases)"
    by (simp add: case_key_def)
  ultimately have "distinct (map case_key (case_rows u finished run cases))" using distinct_map by metis
  then show ?thesis by (auto simp: case_rows_def)
qed

definition without_cases :: "string \<Rightarrow> Database \<Rightarrow> bool" where
  "without_cases u db \<longleftrightarrow> db_ok db \<and> u \<notin> cc_run_uid ` set (db_Cases db)"

lemma without_cases_property: "table_property (without_cases u)"
  using db_ok_property by (simp add: table_property_def without_cases_def)

lemma keeps_replace_cases:
  "keeps_db db_ok (dbind (command (\<lambda>db. db\<lparr>db_Cases := filter (\<lambda>c. cc_run_uid c \<noteq> u) (db_Cases db)\<rparr>))
     (\<lambda>_. copy_cases (case_rows u finished run cases)))"
proof (rule ensures_dbind)
  show "ensures (command (\<lambda>db. db\<lparr>db_Cases := filter (\<lambda>c. cc_run_uid c \<noteq> u) (db_Cases db)\<rparr>)) db_ok
      (\<lambda>r db. case r of Inl _ \<Rightarrow> db_ok db | Inr x \<Rightarrow> without_cases u db)"
    using db_ok_property
    by (auto simp: ensures_def command_def statement_def without_cases_def table_property_def db_ok_def runs_ok_def cases_ok_def
      audit_ok_def distinct_map_filter split: list.splits)
  show "ensures (copy_cases (case_rows u finished run cases)) (without_cases u) (\<lambda>_. db_ok)"
    unfolding copy_cases_def
    using case_rows_keys [of u finished run cases] db_ok_property without_cases_property
    by (intro ensures_statement)
      (auto simp: ensures_def without_cases_def db_ok_def runs_ok_def cases_ok_def audit_ok_def list_all_iff list_ex_iff case_key_def)
qed

section \<open>Every sequence of calls\<close>

datatype store_call =
    CallSave TestRun | CallCases TestRun "TestCase list" | CallDelete string | CallComment string "Comment option"
  | CallEnsure instant int int | CallDrop "Partition list" | CallAudit AuditEntry | CallPrune instant

fun run_call :: "StoreDeps \<Rightarrow> store_call \<Rightarrow> Database \<Rightarrow> Database" where
  "run_call d (CallSave run) db = snd (SaveFinished d run db)"
| "run_call d (CallCases run cases) db = snd (SaveTestCases d run cases db)"
| "run_call d (CallDelete uid) db = snd (DeleteRow d uid db)"
| "run_call d (CallComment uid c) db = snd (SetComment d uid c db)"
| "run_call d (CallEnsure now retention lookahead) db = snd (EnsurePartitions (PartitionsToCreate now retention lookahead) db)"
| "run_call d (CallDrop ps) db = snd (DropPartitions ps db)"
| "run_call d (CallAudit e) db = snd (AppendAudit e db)"
| "run_call d (CallPrune t) db = snd (PruneAudit t db)"

text \<open>The times of the calls are after the year one.\<close>

definition finished_ok :: "TestRun \<Rightarrow> bool" where
  "finished_ok run \<longleftrightarrow> (case ru_FinishedAt (r_Status run) of None \<Rightarrow> True | Some t \<Rightarrow> 0 \<le> t)"

fun call_ok :: "store_call \<Rightarrow> bool" where
  "call_ok (CallSave run) = finished_ok run"
| "call_ok (CallCases run cases) = finished_ok run"
| "call_ok (CallEnsure now retention lookahead) = (0 \<le> now - max retention 0)"
| "call_ok _ = True"

lemma keeps_SaveFinished:
  assumes "finished_ok run"
  shows "keeps_db db_ok (SaveFinished d run)"
proof -
  have "keeps_db db_ok (dbind (ensurePartition (PartitionForTime (rw_FinishedAt row))) (\<lambda>_. dbind (cast_uuid d (rw_UID row))
      (\<lambda>uid. upsert (insert_columns uid row))))" if row: "RowFromRun d run = Inr (row, ws)" for row ws
  proof -
    have "0 \<le> rw_FinishedAt row"
      using row assms by (auto simp: RowFromRun_def finished_ok_def Let_def split: if_splits option.splits prod.splits)
    then show ?thesis unfolding PartitionForTime_def by (intro keeps_dbind keeps_ensurePartition keeps_cast keeps_upsert real_month_of)
  qed
  then show ?thesis unfolding SaveFinished_def by (auto split: sum.splits)
qed

lemma keeps_SaveTestCases:
  assumes "finished_ok run"
  shows "keeps_db db_ok (SaveTestCases d run cases)"
  unfolding SaveTestCases_def PartitionForTime_def using assms
  by (auto simp: finished_ok_def split: option.splits
    intro!: keeps_dbind [OF keeps_ensurePartition] keeps_transaction [OF db_ok_property] keeps_dbind [OF keeps_cast] keeps_replace_cases real_month_of)

lemma keeps_DeleteRow: "keeps_db db_ok (DeleteRow d uid)"
  unfolding DeleteRow_def
  by (auto intro!: keeps_transaction [OF db_ok_property] keeps_dbind keeps_cast keeps_statement [OF db_ok_property] keeps_command [OF db_ok_property])
    (auto simp: ensures_def db_ok_def runs_ok_def cases_ok_def audit_ok_def distinct_map_filter)

lemma keeps_SetComment: "keeps_db db_ok (SetComment d uid c)"
proof -
  have rows: "row_key (if cl_uid r \<noteq> u then r else r\<lparr>cl_comment := a, cl_comment_by := b, cl_comment_at := x\<rparr>) = row_key r"
    "cl_finished_at (if cl_uid r \<noteq> u then r else r\<lparr>cl_comment := a, cl_comment_by := b, cl_comment_at := x\<rparr>) = cl_finished_at r"
    for r u a b x by (simp_all add: row_key_def)
  have map: "map (row_key \<circ> (\<lambda>r. if cl_uid r \<noteq> u then r else r\<lparr>cl_comment := a, cl_comment_by := b, cl_comment_at := x\<rparr>)) rs = map row_key rs"
    for rs u a b x by (simp only: comp_def rows)
  show ?thesis unfolding SetComment_def
    by (auto intro!: keeps_dbind keeps_cast keeps_statement [OF db_ok_property])
      (auto simp: ensures_def db_ok_def runs_ok_def cases_ok_def audit_ok_def map simp del: if_not_P split: if_splits)
qed

lemma keeps_audit: "keeps_db db_ok (AppendAudit e)" "keeps_db db_ok (PruneAudit t)"
  unfolding AppendAudit_def PruneAudit_def
  by (intro keeps_command keeps_statement db_ok_property; fastforce simp: ensures_def db_ok_def runs_ok_def cases_ok_def audit_ok_def distinct_map_filter)+

lemma keeps_dbD: "keeps_db P m \<Longrightarrow> P db \<Longrightarrow> P (snd (m db))"
  by (simp add: ensures_def)

lemma keeps_EnsurePartitions:
  assumes "0 \<le> now - max retention 0"
  shows "keeps_db db_ok (EnsurePartitions (PartitionsToCreate now retention lookahead))"
proof -
  have "real_month (month_of (now - max retention 0))" "real_month (month_of (now + max lookahead 0))"
    using assms by (auto intro!: real_month_of)
  note months = set_months_from [OF this]
  have "keeps_db db_ok (ensurePartition p)" if p: "p \<in> set (PartitionsToCreate now retention lookahead)" for p
  proof -
    obtain ym where "ym \<in> set (months_from (month_of (now - max retention 0)) (month_of (now + max lookahead 0)))" "p = month_partition ym"
      using p unfolding PartitionsToCreate_def set_map by blast
    then show ?thesis using months keeps_ensurePartition by auto
  qed
  then show ?thesis unfolding EnsurePartitions_def by (rule keeps_dfor)
qed

lemma keeps_DropPartitions: "keeps_db db_ok (DropPartitions ps)"
  unfolding DropPartitions_def using keeps_drop by (intro keeps_dfor)

lemmas keeps_calls = keeps_SaveFinished keeps_SaveTestCases keeps_DeleteRow keeps_SetComment keeps_audit keeps_EnsurePartitions
  keeps_DropPartitions

lemma db_ok_call: "call_ok call \<Longrightarrow> db_ok db \<Longrightarrow> db_ok (run_call d call db)"
  by (cases call) (simp_all add: keeps_calls [THEN keeps_dbD])


section \<open>Saving a run\<close>

lemma or_zero_null [simp]: "or_zero [] (nullIfEmpty s) = s" "or_zero 0 (nullIfZero i) = i"
  "or_zero [] (jsonbOrNil m xs) = (if m then xs else [])"
  by (simp_all add: or_zero_def nullIfEmpty_def nullIfZero_def jsonbOrNil_def)

lemma or_zero_spec [simp]: "or_zero NoSnapshot (if s = NoSnapshot then None else Some s) = s"
  by (simp add: or_zero_def)

text \<open>What reading gives back of a row that was written.\<close>

definition as_stored :: "string \<Rightarrow> Row \<Rightarrow> Row" where
  "as_stored uid row = row\<lparr>rw_UID := uid, rw_QueuedAt := map_option pg_time (rw_QueuedAt row),
     rw_StartedAt := map_option pg_time (rw_StartedAt row), rw_FinishedAt := pg_time (rw_FinishedAt row),
     rw_Metrics := (if list_all (\<lambda>(_, f). is_finite f) (rw_Metrics row) then rw_Metrics row else []), rw_Comment := None\<rparr>"

lemma scan_insert: "scanRow (insert_columns uid row) = as_stored uid row"
  by (simp add: scanRow_def insert_columns_def as_stored_def)

lemma scan_excluded: "(scanRow (excluded c old))\<lparr>rw_Comment := None\<rparr> = (scanRow c)\<lparr>rw_UID := cl_uid old, rw_FinishedAt := cl_finished_at old, rw_Comment := None\<rparr>"
  by (simp add: scanRow_def excluded_def)

lemma scan_comment: "rw_Comment (scanRow (excluded c old)) = rw_Comment (scanRow old)"
  by (simp add: scanRow_def excluded_def split: option.splits)

lemma update_row_twice: "update_row c (update_row c old) = update_row c old"
  by (simp add: update_row_def same_key_def excluded_def)

lemma update_row_self: "cl_comment c = None \<Longrightarrow> cl_comment_by c = None \<Longrightarrow> cl_comment_at c = None \<Longrightarrow> update_row c c = c"
  by (simp add: update_row_def same_key_def excluded_def)

lemma update_row_other: "\<not> same_key c old \<Longrightarrow> update_row c old = old"
  by (simp add: update_row_def)

lemma add_partition_again: "add_partition p ps = Inr ps' \<Longrightarrow> add_partition p ps' = Inr ps' \<and> set ps \<subseteq> set ps'"
  by (auto simp: add_partition_def split: if_splits)

lemma ensurePartition_again:
  assumes "db_Faults db = []" "ensurePartition p db = (Inr (), db')"
  shows "ensurePartition p db' = (Inr (), db') \<and> db_Runs db' = db_Runs db \<and> db_Faults db' = []"
  using assms add_partition_again
  by (fastforce simp: ensurePartition_def dbind_def statement_def split: sum.splits)

lemma ensurePartition_runs:
  "ensurePartition p db = (Inr (), db') \<Longrightarrow> ensurePartition p (db\<lparr>db_Runs := rs\<rparr>) = (Inr (), db'\<lparr>db_Runs := rs\<rparr>)"
  by (auto simp: ensurePartition_def dbind_def statement_def split: sum.splits prod.splits list.splits if_splits)

lemma SaveFinished_eq:
  assumes "RowFromRun d run = Inr (row, ws)" "sd_Uuid d (rw_UID row) = Some u" "IsTerminal (ru_Phase (r_Status run))"
    and "ensurePartition (PartitionForTime (rw_FinishedAt row)) db = (Inr (), dbp)"
  shows "SaveFinished d run db = upsert (insert_columns u row) dbp"
  using assms by (simp add: SaveFinished_def dbind_def cast_uuid_def)

definition saved :: "Columns \<Rightarrow> Columns list \<Rightarrow> Columns list" where
  "saved c rows = (if list_ex (same_key c) rows then map (update_row c) rows else rows @ [c])"

lemma saved_twice:
  assumes "cl_comment c = None" "cl_comment_by c = None" "cl_comment_at c = None"
  shows "list_ex (same_key c) (saved c rows) \<and> map (update_row c) (saved c rows) = saved c rows"
proof -
  have "map (update_row c) rows = rows" if "\<not> list_ex (same_key c) rows"
    using that by (intro map_idI update_row_other) (auto simp: list_ex_iff)
  moreover have "same_key c (update_row c old) = same_key c old" for old by (simp add: same_key_def)
  ultimately show ?thesis
    using update_row_self [OF assms]
    by (auto simp: saved_def update_row_twice list_ex_iff same_key_def comp_def)
qed

lemma SaveFinished_effect:
  assumes "db_Faults db = []" "SaveFinished d run db = (Inr (), db')" "RowFromRun d run = Inr (row, ws)" "sd_Uuid d (r_UID run) = Some u"
  obtains dbp where "rw_UID row = r_UID run" "IsTerminal (ru_Phase (r_Status run))"
    "ensurePartition (PartitionForTime (rw_FinishedAt row)) db = (Inr (), dbp)"
    "db' = dbp\<lparr>db_Runs := saved (insert_columns u row) (db_Runs db)\<rparr>"
proof -
  have terminal: "IsTerminal (ru_Phase (r_Status run))" using assms(2) by (auto simp: SaveFinished_def split: if_splits)
  have uid: "rw_UID row = r_UID run" using assms(3) by (auto simp: RowFromRun_def Let_def split: if_splits option.splits prod.splits)
  obtain r dbp where part: "ensurePartition (PartitionForTime (rw_FinishedAt row)) db = (r, dbp)" by fastforce
  have r: "r = Inr ()" using assms(2,3) terminal part by (cases r) (auto simp: SaveFinished_def dbind_def)
  then have "upsert (insert_columns u row) dbp = (Inr (), db')"
    using SaveFinished_eq [of d run row ws u db dbp] assms(2-4) uid terminal part by simp
  moreover have "db_Runs dbp = db_Runs db" "db_Faults dbp = []" using ensurePartition_again assms(1) part r by blast+
  ultimately have "db' = dbp\<lparr>db_Runs := saved (insert_columns u row) (db_Runs db)\<rparr>"
    by (auto simp: upsert_def statement_def saved_def split: if_splits)
  then show ?thesis using that uid terminal part r by blast
qed

text \<open>
  C19. A finished run that was saved is read back by its UID as it was written, with its times cut to the
  microsecond; a comment that the row already had is kept; saving it again changes nothing; and the rows
  of other runs stay. (The metrics come back only when every one of them is a finite number: a single
  infinite or undefined value loses them all.)
\<close>

theorem saved_run_read_back:
  assumes "db_Faults db = []" "SaveFinished d run db = (Inr (), db')" "RowFromRun d run = Inr (row, ws)" "sd_Uuid d (r_UID run) = Some u"
    and "\<forall>c \<in> set (db_Runs db). cl_uid c = u \<longrightarrow> cl_finished_at c = pg_time (rw_FinishedAt row)"
  shows "(\<exists>r. Get d (r_UID run) db' = (Inr r, db') \<and> r\<lparr>rw_Comment := None\<rparr> = as_stored u row \<and>
      rw_Comment r = (case fst (Get d (r_UID run) db) of Inr old \<Rightarrow> rw_Comment old | Inl _ \<Rightarrow> None)) \<and>
    SaveFinished d run db' = (Inr (), db') \<and>
    filter (\<lambda>c. cl_uid c \<noteq> u) (db_Runs db') = filter (\<lambda>c. cl_uid c \<noteq> u) (db_Runs db)"
proof -
  let ?c = "insert_columns u row"
  obtain dbp where part: "ensurePartition (PartitionForTime (rw_FinishedAt row)) db = (Inr (), dbp)"
    and uid: "rw_UID row = r_UID run" and terminal: "IsTerminal (ru_Phase (r_Status run))"
    and db': "db' = dbp\<lparr>db_Runs := saved ?c (db_Runs db)\<rparr>"
    using SaveFinished_effect [OF assms(1-4)] by metis
  have comments: "cl_comment ?c = None" "cl_comment_by ?c = None" "cl_comment_at ?c = None" and ids: "cl_uid ?c = u"
    "cl_finished_at ?c = pg_time (rw_FinishedAt row)" by (simp_all add: insert_columns_def)
  note twice = saved_twice [OF comments, of "db_Runs db"]
  have part': "ensurePartition (PartitionForTime (rw_FinishedAt row)) db' = (Inr (), db')" "db_Faults db' = []"
    using ensurePartition_again [OF assms(1) part] ensurePartition_runs by (auto simp: db')
  have "SaveFinished d run db' = upsert ?c db'" using SaveFinished_eq [OF assms(3) _ terminal part'(1)] assms(4) uid by simp
  then have again: "SaveFinished d run db' = (Inr (), db')" using twice part'(2) by (simp add: upsert_def statement_def db')
  have others: "filter (\<lambda>c. cl_uid c \<noteq> u) (saved ?c rows) = filter (\<lambda>c. cl_uid c \<noteq> u) rows" for rows
  proof -
    have "filter (\<lambda>c. cl_uid c \<noteq> u) (map (update_row ?c) rows) = filter (\<lambda>c. cl_uid c \<noteq> u) rows"
      using ids by (induction rows) (auto simp: update_row_other same_key_def)
    then show ?thesis using ids by (simp add: saved_def)
  qed
  have same: "same_key ?c c \<longleftrightarrow> cl_uid c = u" if "c \<in> set (db_Runs db)" for c
    using that assms(5) ids by (auto simp: same_key_def)
  let ?mine = "filter (\<lambda>c. cl_uid c = u) (db_Runs db)"
  have get: "Get d (r_UID run) b = first_row (filter (\<lambda>c. cl_uid c = u) (db_Runs b)) b" if "db_Faults b = []" for b
    using that assms(4) by (simp add: Get_def cast_uuid_def dbind_def query_def statement_def)
  have "\<exists>r. first_row (filter (\<lambda>c. cl_uid c = u) (saved ?c (db_Runs db))) db' = (Inr r, db') \<and> r\<lparr>rw_Comment := None\<rparr> = as_stored u row \<and>
      rw_Comment r = (case fst (Get d (r_UID run) db) of Inr old \<Rightarrow> rw_Comment old | Inl _ \<Rightarrow> None)"
  proof (cases ?mine)
    case Nil
    then have "\<not> list_ex (same_key ?c) (db_Runs db)" using same by (auto simp: list_ex_iff filter_empty_conv)
    then show ?thesis
      using Nil ids get [OF assms(1)] by (simp add: saved_def first_row_def scan_insert as_stored_def)
  next
    case (Cons old olds)
    then have old: "old \<in> set (db_Runs db)" "cl_uid old = u" by (auto simp: filter_eq_Cons_iff)
    then have "list_ex (same_key ?c) (db_Runs db)" using same by (auto simp: list_ex_iff)
    moreover have "filter (\<lambda>c. cl_uid c = u) (map (update_row ?c) (db_Runs db)) = map (update_row ?c) ?mine"
      by (simp add: filter_map comp_def)
    moreover have "update_row ?c old = excluded ?c old" using same old by (simp add: update_row_def)
    moreover have "cl_finished_at old = pg_time (rw_FinishedAt row)" using old assms(5) by auto
    ultimately show ?thesis
      using Cons get [OF assms(1)] scan_excluded [of ?c old] scan_comment [of ?c old] old(2)
      by (simp add: saved_def first_row_def scan_insert) (simp add: as_stored_def)
  qed
  then show ?thesis using again others get [OF part'(2)] by (simp add: db')
qed

section \<open>Pages\<close>

text \<open>The listing without a cursor and a limit.\<close>

definition listing :: "Filter \<Rightarrow> Columns list \<Rightarrow> Columns list" where
  "listing f rows = newest_first row_key (filter (where_filter f) rows)"

lemma listing_page: "newest_first row_key (filter (\<lambda>c. where_filter f c \<and> where_after k c) rows) = filter (where_after k) (listing f rows)"
proof -
  have "filter (\<lambda>c. where_filter f c \<and> where_after k c) rows = filter (where_after k) (filter (where_filter f) rows)"
    by (simp add: conj_commute)
  then show ?thesis by (simp add: listing_def newest_first_def rev_filter [symmetric] filter_sort)
qed

lemma set_listing: "set (listing f rows) = {c \<in> set rows. where_filter f c}"
  by (auto simp: listing_def newest_first_def)

lemma listing_sorted:
  assumes "distinct (map row_key rows)"
  shows "sorted_wrt (\<lambda>a b. row_key b < row_key a) (listing f rows)"
proof -
  let ?xs = "sort_key row_key (filter (where_filter f) rows)"
  have "distinct (map row_key ?xs)" using assms by (simp add: distinct_map inj_on_def)
  moreover have "sorted (map row_key ?xs)" by simp
  ultimately have "sorted_wrt (<) (map row_key ?xs)" using strict_sorted_iff by blast
  then show ?thesis by (simp add: listing_def newest_first_def sorted_wrt_rev sorted_wrt_map)
qed

lemma ListRuns_eq:
  assumes "db_Faults db = []" "page_cursor d page db = (Inr k, db)"
  shows "ListRuns d f page db = (Inr (map scanRow (take (nat (clampLimit (pg_Limit page))) (filter (where_after k) (listing f (db_Runs db))))), db)"
  using assms by (simp add: ListRuns_def dbind_def query_def statement_def listing_page)

section \<open>Examples\<close>

definition plain_deps :: StoreDeps where
  "plain_deps = \<lparr>sd_IsObject = (\<lambda>_. False), sd_ParseUUID = (\<lambda>_. True), sd_Uuid = Some, sd_BoundExpr = (\<lambda>_ _. [])\<rparr>"

definition no_rows :: Database where
  "no_rows = \<lparr>db_RunParts = [], db_CaseParts = [], db_Runs = [], db_Cases = [], db_Audit = [], db_NextID = 1, db_Clock = 0, db_Faults = []\<rparr>"

definition passed_run :: TestRun where
  "passed_run = \<lparr>r_Name = ''a'', r_Namespace = ''n'', r_UID = ''u1'', r_Labels = [], r_CreationTimestamp = 0, r_DeletionTimestamp = None,
     r_Finalizers = [], r_Spec = \<lparr>rs_TestRef = ''t'', rs_Config = [], rs_Pod = None, rs_Tags = [], rs_Source = ''api'', rs_Abort = None,
       rs_NotBefore = None\<rparr>,
     r_Status = zero_TestRunStatus\<lparr>ru_Phase := PhasePassed, ru_FinishedAt := Some 1500\<rparr>\<rparr>"

lemma no_rows_ok: "db_ok no_rows"
  by (simp add: no_rows_def db_ok_def runs_ok_def cases_ok_def audit_ok_def month_parts_def)


definition saved_db :: Database where
  "saved_db = snd (SaveFinished plain_deps passed_run no_rows)"

lemma saved_sample: "SaveFinished plain_deps passed_run no_rows = (Inr (), saved_db)"
  by code_simp

theorem saved_run_read_back_witness:
  "SaveFinished plain_deps passed_run saved_db = (Inr (), saved_db) \<and>
   (\<exists>r. Get plain_deps ''u1'' saved_db = (Inr r, saved_db) \<and> rw_FinishedAt r = 1000)"
proof -
  define row where "row = fst (projr (RowFromRun plain_deps passed_run))"
  have row: "RowFromRun plain_deps passed_run = Inr (row, [])"
    by (simp add: row_def RowFromRun_def passed_run_def zero_TestRunStatus_def parseMetrics_def)
  have fin: "rw_FinishedAt row = 1500" by (simp add: row_def RowFromRun_def passed_run_def zero_TestRunStatus_def parseMetrics_def)
  have uid: "r_UID passed_run = ''u1''" by (simp add: passed_run_def)
  have u: "sd_Uuid plain_deps (r_UID passed_run) = Some ''u1''" by (simp add: plain_deps_def uid)
  have "db_Faults no_rows = []" "\<forall>c \<in> set (db_Runs no_rows). cl_uid c = ''u1'' \<longrightarrow> cl_finished_at c = pg_time (rw_FinishedAt row)"
    by (simp_all add: no_rows_def)
  from saved_run_read_back [OF this(1) saved_sample row u this(2)] obtain r where
    "Get plain_deps ''u1'' saved_db = (Inr r, saved_db)" "r\<lparr>rw_Comment := None\<rparr> = as_stored ''u1'' row"
    "SaveFinished plain_deps passed_run saved_db = (Inr (), saved_db)" using uid by auto
  moreover from this(2) have "rw_FinishedAt r = 1000"
    by (auto simp: as_stored_def fin pg_time_def dest: arg_cong [where f = rw_FinishedAt])
  ultimately show ?thesis by blast
qed

end
