(* ===== verification/RunListing.thy ===== *)
theory RunListing
  imports HistoryRules PodStatus "HOL-Library.Option_ord" "HOL-Library.Multiset"
begin

text \<open>
  The listing of runs of the API server, \<open>listRuns\<close> of \<open>src/internal/apiserver/handlers_runs.go\<close>: the
  TestRuns of the cluster merged with the pages of the run history. An envelope is the TestRun or the
  row it is made of; only what the merge looks at is read. The query is the parsed one, and the opaque
  text of a cursor is the pair that it encodes. A nil pointer that is dereferenced is an error value.
\<close>

section \<open>The handler\<close>

datatype runEnvelope = FromCR TestRun "Comment option" | FromRow Row

fun en_UID :: "runEnvelope \<Rightarrow> string" where
  "en_UID (FromCR cr _) = r_UID cr"
| "en_UID (FromRow row) = rw_UID row"

fun en_StartedAt :: "runEnvelope \<Rightarrow> instant option" where
  "en_StartedAt (FromCR cr _) = ru_StartedAt (r_Status cr)"
| "en_StartedAt (FromRow row) = rw_StartedAt row"

fun en_FinishedAt :: "runEnvelope \<Rightarrow> instant option" where
  "en_FinishedAt (FromCR cr _) = ru_FinishedAt (r_Status cr)"
| "en_FinishedAt (FromRow row) = Some (rw_FinishedAt row)"

fun set_comment :: "Comment option \<Rightarrow> runEnvelope \<Rightarrow> runEnvelope" where
  "set_comment c (FromCR cr _) = FromCR cr c"
| "set_comment c (FromRow row) = FromRow (row\<lparr>rw_Comment := c\<rparr>)"

type_synonym runCursor = "instant \<times> string"

record listRunsQuery =
  lq_ns :: string
  lq_testRef :: string
  lq_phase :: Phase
  lq_source :: string
  lq_parent :: string
  lq_limit :: int
  lq_finishedAfter :: "instant option"
  lq_cursor :: "runCursor option"

definition terminalPhase :: "listRunsQuery \<Rightarrow> bool" where
  "terminalPhase lq = (lq_phase lq \<noteq> PhaseNone \<and> IsTerminalPhase (lq_phase lq))"

definition wantLive :: "listRunsQuery \<Rightarrow> bool" where
  "wantLive lq = (lq_cursor lq = None \<and> lq_finishedAfter lq = None \<and> \<not> terminalPhase lq)"

definition wantFinished :: "listRunsQuery \<Rightarrow> bool" where
  "wantFinished lq = (lq_phase lq = PhaseNone \<or> terminalPhase lq)"

definition parseLimitOrDefault :: "string \<Rightarrow> int" where
  "parseLimitOrDefault s = (if s = [] then 50 else case parse_int64 s of None \<Rightarrow> 50
     | Some n \<Rightarrow> if n \<le> 0 then 50 else if 500 < n then 500 else n)"

definition lq_matches :: "listRunsQuery \<Rightarrow> TestRun \<Rightarrow> bool" where
  "lq_matches q cr =
     ((lq_testRef q = [] \<or> rs_TestRef (r_Spec cr) = lq_testRef q) \<and> (lq_phase q = PhaseNone \<or> ru_Phase (r_Status cr) = lq_phase q) \<and>
      (lq_source q = [] \<or> rs_Source (r_Spec cr) = lq_source q) \<and>
      (lq_parent q = [] \<or> gm_at [] (r_Labels cr) LabelParentRun_row = lq_parent q))"

definition finishedAfterOK :: "runEnvelope \<Rightarrow> instant option \<Rightarrow> bool" where
  "finishedAfterOK e after = (case after of None \<Rightarrow> True
     | Some a \<Rightarrow> (case en_FinishedAt e of None \<Rightarrow> False | Some t \<Rightarrow> \<not> t < a))"

definition before_cursor :: "runCursor option \<Rightarrow> runEnvelope \<Rightarrow> bool" where
  "before_cursor c e = (case c of None \<Rightarrow> True
     | Some (at_time, uid) \<Rightarrow> (case en_FinishedAt e of None \<Rightarrow> False
         | Some t \<Rightarrow> t < at_time \<or> t = at_time \<and> en_UID e < uid))"

fun collect_runs :: "listRunsQuery \<Rightarrow> TestRun list \<Rightarrow>
    runEnvelope list \<Rightarrow> (string, runEnvelope) gomap \<Rightarrow> string list \<Rightarrow> runEnvelope list \<times> (string, runEnvelope) gomap \<times> string list" where
  "collect_runs lq [] live finished liveUIDs = (live, finished, liveUIDs)"
| "collect_runs lq (cr # crs) live finished liveUIDs =
     (if \<not> lq_matches lq cr then collect_runs lq crs live finished liveUIDs
      else let env = FromCR cr None in
        if \<not> IsTerminalPhase (ru_Phase (r_Status cr))
        then collect_runs lq crs (if wantLive lq then live @ [env] else live) finished (liveUIDs @ [en_UID env])
        else collect_runs lq crs live
          (if wantFinished lq \<and> finishedAfterOK env (lq_finishedAfter lq) \<and> before_cursor (lq_cursor lq) env
           then gm_set (en_UID env) env finished else finished) liveUIDs)"

definition collectClusterRuns :: "listRunsQuery \<Rightarrow> TestRun list \<Rightarrow> runEnvelope list \<times> (string, runEnvelope) gomap \<times> string list" where
  "collectClusterRuns lq crs = collect_runs lq (filter (\<lambda>cr. lq_ns lq = [] \<or> r_Namespace cr = lq_ns lq) crs) [] [] []"

fun merge_rows :: "Row list \<Rightarrow> string list \<Rightarrow> (string, runEnvelope) gomap \<Rightarrow> (string, runEnvelope) gomap" where
  "merge_rows [] liveUIDs finished = finished"
| "merge_rows (row # rows) liveUIDs finished = merge_rows rows liveUIDs
     (case gm_get finished (rw_UID row) of
        Some env \<Rightarrow> gm_set (rw_UID row) (set_comment (rw_Comment row) env) finished
      | None \<Rightarrow> if rw_UID row \<in> set liveUIDs then finished else gm_set (rw_UID row) (FromRow row) finished)"

definition store_filter :: "listRunsQuery \<Rightarrow> Filter" where
  "store_filter lq = \<lparr>fl_TestRef = lq_testRef lq, fl_Namespace = lq_ns lq, fl_Phase = lq_phase lq, fl_Source = lq_source lq,
     fl_ParentRun = lq_parent lq, fl_SinceInclusive = lq_finishedAfter lq, fl_UntilExclusive = None\<rparr>"

definition store_page :: "listRunsQuery \<Rightarrow> Page" where
  "store_page lq = \<lparr>pg_Limit = lq_limit lq, pg_After = (case lq_cursor lq of None \<Rightarrow> [] | Some (_, uid) \<Rightarrow> uid),
     pg_AfterFinishedAt = map_option fst (lq_cursor lq)\<rparr>"

text \<open>Without a history there is nothing to merge.\<close>

definition mergeStoreRuns :: "StoreDeps \<Rightarrow> listRunsQuery \<Rightarrow> (string, runEnvelope) gomap \<Rightarrow> string list \<Rightarrow> Database option \<Rightarrow>
    (store_error, bool \<times> (string, runEnvelope) gomap) result" where
  "mergeStoreRuns d lq finished liveUIDs store = (case store of None \<Rightarrow> Inr (False, finished)
     | Some db \<Rightarrow> if \<not> wantFinished lq then Inr (False, finished)
         else rbind (fst (ListRuns d (store_filter lq) (store_page lq) db)) (\<lambda>rows.
           Inr (lq_limit lq \<le> int (length rows), merge_rows rows liveUIDs finished)))"

text \<open>The stable sort by \<open>compareNewestFirst\<close>: later times first, no time last, then by falling UID.\<close>

definition sort_newest :: "(runEnvelope \<Rightarrow> instant option) \<Rightarrow> runEnvelope list \<Rightarrow> runEnvelope list" where
  "sort_newest time es = rev (sort_key (\<lambda>e. (time e, en_UID e)) (rev es))"

datatype list_error = StoreError store_error | NilFinishedAt

definition next_cursor :: "bool \<Rightarrow> runEnvelope list \<Rightarrow> (list_error, runCursor option) result" where
  "next_cursor further out = (if further \<and> out \<noteq> [] then
       (case en_FinishedAt (last out) of None \<Rightarrow> Inl NilFinishedAt | Some t \<Rightarrow> Inr (Some (t, en_UID (last out))))
     else Inr None)"

definition listRuns :: "StoreDeps \<Rightarrow> listRunsQuery \<Rightarrow> TestRun list \<Rightarrow> Database option \<Rightarrow>
    (list_error, runEnvelope list \<times> runEnvelope list \<times> runCursor option) result" where
  "listRuns d lq crs store = (case collectClusterRuns lq crs of (live, finished, liveUIDs) \<Rightarrow>
     (case mergeStoreRuns d lq finished liveUIDs store of
        Inl e \<Rightarrow> Inl (StoreError e)
      | Inr (storeFull, merged) \<Rightarrow>
          (let out = sort_newest en_FinishedAt (map snd merged); limit = nat (lq_limit lq)
           in rbind (next_cursor (storeFull \<or> limit < length out) (take limit out)) (\<lambda>c.
                Inr (sort_newest en_StartedAt live, take limit out, c)))))"

section \<open>Sorted lists of envelopes\<close>

definition en_key :: "runEnvelope \<Rightarrow> instant option \<times> string" where
  "en_key e = (en_FinishedAt e, en_UID e)"

abbreviation sort_finished :: "runEnvelope list \<Rightarrow> runEnvelope list" where
  "sort_finished \<equiv> sort_newest en_FinishedAt"

lemma sort_finished_def: "sort_finished es = rev (sort_key en_key (rev es))"
  by (simp add: sort_newest_def en_key_def [abs_def])

lemma set_sort_finished [simp]: "set (sort_finished es) = set es" "length (sort_finished es) = length es"
  by (simp_all add: sort_newest_def)

lemma filter_sort_finished: "filter P (sort_finished es) = sort_finished (filter P es)"
  by (simp add: sort_finished_def rev_filter [symmetric] filter_sort)

lemma inj_key: "inj_on en_UID A \<Longrightarrow> inj_on en_key A"
  by (auto simp: inj_on_def en_key_def)

lemma sort_finished_cong:
  assumes "set xs = set ys" "distinct xs" "distinct ys" "inj_on en_UID (set xs)"
  shows "sort_finished xs = sort_finished ys"
proof -
  have "mset (rev xs) = mset (rev ys)" using assms(1-3) by (simp add: set_eq_iff_mset_eq_distinct)
  then have "sort_key en_key (rev xs) = sort_key en_key (rev ys)"
    using inj_key [OF assms(4)] by (intro sort_key_eq_sort_key) simp_all
  then show ?thesis by (simp add: sort_finished_def)
qed

lemma sort_finished_sorted:
  assumes "distinct xs" "inj_on en_UID (set xs)"
  shows "sorted_wrt (\<lambda>a b. en_key b < en_key a) (sort_finished xs)"
proof -
  let ?ys = "sort_key en_key (rev xs)"
  have "distinct (map en_key ?ys)" using assms inj_key by (simp add: distinct_map)
  moreover have "sorted (map en_key ?ys)" by simp
  ultimately have "sorted_wrt (<) (map en_key ?ys)" using strict_sorted_iff by blast
  then show ?thesis by (simp add: sort_finished_def sorted_wrt_rev sorted_wrt_map)
qed

text \<open>In a falling list the upper part comes first.\<close>

lemma take_upper:
  assumes "sorted_wrt (\<lambda>a b. key b < key a) xs" "n \<le> length (filter (\<lambda>e. (b :: 'k :: linorder) \<le> key e) xs)"
  shows "take n xs = take n (filter (\<lambda>e. b \<le> key e) xs)"
  using assms
proof (induction xs arbitrary: n)
  case (Cons x xs)
  show ?case
  proof (cases "b \<le> key x")
    case True
    then show ?thesis using Cons by (cases n) auto
  next
    case False
    then have "filter (\<lambda>e. b \<le> key e) xs = []" using Cons.prems(1) by (fastforce simp: filter_empty_conv)
    then show ?thesis using Cons.prems(2) False by simp
  qed
qed simp

section \<open>What the merge holds\<close>

text \<open>The comment of the history row of a run.\<close>

definition attach :: "Row list \<Rightarrow> runEnvelope \<Rightarrow> runEnvelope" where
  "attach rows e = (case find (\<lambda>row. rw_UID row = en_UID e) rows of Some row \<Rightarrow> set_comment (rw_Comment row) e | None \<Rightarrow> e)"

lemma set_comment_simps [simp]: "en_UID (set_comment c e) = en_UID e" "en_FinishedAt (set_comment c e) = en_FinishedAt e"
  "en_key (set_comment c e) = en_key e" "set_comment c (set_comment c' e) = set_comment c e"
  by (cases e; simp add: en_key_def)+

lemma attach_simps [simp]: "en_UID (attach rows e) = en_UID e" "en_FinishedAt (attach rows e) = en_FinishedAt e" "en_key (attach rows e) = en_key e"
  by (simp_all add: attach_def split: option.splits)

definition merged_at :: "Row list \<Rightarrow> (string, runEnvelope) gomap \<Rightarrow> string \<Rightarrow> runEnvelope option" where
  "merged_at rows finished uid = (case gm_get finished uid of Some e \<Rightarrow> Some (attach rows e)
     | None \<Rightarrow> map_option FromRow (find (\<lambda>row. rw_UID row = uid) rows))"

definition keyed :: "(string, runEnvelope) gomap \<Rightarrow> bool" where
  "keyed m \<longleftrightarrow> gm_ok m \<and> (\<forall>uid e. gm_get m uid = Some e \<longrightarrow> en_UID e = uid)"

lemma keyed_set: "keyed m \<Longrightarrow> en_UID e = uid \<Longrightarrow> keyed (gm_set uid e m)"
  by (simp add: keyed_def)

lemma keyed_values:
  assumes "keyed m"
  shows "e \<in> set (map snd m) \<longleftrightarrow> gm_get m (en_UID e) = Some e" "distinct (map snd m)" "inj_on en_UID (set (map snd m))"
proof -
  have in_m: "(uid, e) \<in> set m \<longleftrightarrow> gm_get m uid = Some e" for uid e using assms by (simp add: keyed_def gm_ok_def)
  then show val: "e \<in> set (map snd m) \<longleftrightarrow> gm_get m (en_UID e) = Some e" for e using assms by (force simp: keyed_def)
  have "inj_on snd (set m)" using in_m assms by (auto simp: inj_on_def keyed_def) metis
  then show "distinct (map snd m)" using assms by (auto simp: keyed_def gm_ok_def distinct_map)
  show "inj_on en_UID (set (map snd m))" by (rule inj_onI) (metis val option.inject)
qed

lemma merge_rows_at:
  assumes "distinct (map rw_UID rows)" "rw_UID ` set rows \<inter> set liveUIDs = {}" "keyed finished"
  shows "keyed (merge_rows rows liveUIDs finished) \<and> gm_get (merge_rows rows liveUIDs finished) uid = merged_at rows finished uid"
  using assms
proof (induction rows liveUIDs finished arbitrary: uid rule: merge_rows.induct)
  case (1 liveUIDs finished)
  then show ?case by (simp add: merged_at_def attach_def split: option.splits)
next
  case (2 row rows liveUIDs finished)
  define m where "m = (case gm_get finished (rw_UID row) of
        Some env \<Rightarrow> gm_set (rw_UID row) (set_comment (rw_Comment row) env) finished
      | None \<Rightarrow> if rw_UID row \<in> set liveUIDs then finished else gm_set (rw_UID row) (FromRow row) finished)"
  have "keyed m" using 2(4) by (auto simp: m_def keyed_def split: option.splits)
  moreover have "merge_rows (row # rows) liveUIDs finished = merge_rows rows liveUIDs m" by (simp add: m_def)
  ultimately have IH: "keyed (merge_rows (row # rows) liveUIDs finished)"
    "gm_get (merge_rows (row # rows) liveUIDs finished) uid = merged_at rows m uid"
    using 2(1) [folded m_def] 2(2,3) by auto
  have none: "find (\<lambda>r. rw_UID r = rw_UID row) rows = None" using 2(2) by (simp add: find_None_iff) (metis image_eqI)
  have "merged_at rows m uid = merged_at (row # rows) finished uid"
  proof (cases "uid = rw_UID row")
    case True
    then show ?thesis using none 2(3,4)
      by (auto simp: merged_at_def attach_def m_def keyed_def split: option.splits)
  next
    case False
    then have "gm_get m uid = gm_get finished uid" by (simp add: m_def split: option.splits)
    then show ?thesis using False 2(4)
      by (auto simp: merged_at_def attach_def keyed_def split: option.splits)
  qed
  then show ?case using IH by simp
qed

section \<open>The cluster and the history agree\<close>

definition in_query :: "listRunsQuery \<Rightarrow> TestRun \<Rightarrow> bool" where
  "in_query lq cr \<longleftrightarrow> (lq_ns lq = [] \<or> r_Namespace cr = lq_ns lq) \<and> lq_matches lq cr \<and> IsTerminalPhase (ru_Phase (r_Status cr)) \<and>
     finishedAfterOK (FromCR cr None) (lq_finishedAfter lq)"

text \<open>The row of a run was saved from the TestRun that is still there.\<close>

definition saved_from :: "TestRun \<Rightarrow> Columns \<Rightarrow> bool" where
  "saved_from cr c \<longleftrightarrow> IsTerminalPhase (ru_Phase (r_Status cr)) \<and> ru_FinishedAt (r_Status cr) = Some (cl_finished_at c) \<and>
     cl_phase c = ru_Phase (r_Status cr) \<and> cl_namespace c = r_Namespace cr \<and> cl_test_ref c = rs_TestRef (r_Spec cr) \<and>
     cl_source c = nullIfEmpty (rs_Source (r_Spec cr)) \<and> cl_parent_run c = nullIfEmpty (gm_at [] (r_Labels cr) LabelParentRun_row)"

definition aligned :: "instant option \<Rightarrow> bool" where
  "aligned t \<longleftrightarrow> (case t of None \<Rightarrow> True | Some t \<Rightarrow> pg_time t = t)"

definition agree :: "StoreDeps \<Rightarrow> TestRun list \<Rightarrow> Columns list \<Rightarrow> bool" where
  "agree d crs rows \<longleftrightarrow>
     distinct (map r_UID crs) \<and> distinct (map cl_uid rows) \<and>
     (\<forall>cr \<in> set crs. \<forall>c \<in> set rows. r_UID cr = cl_uid c \<longrightarrow> saved_from cr c) \<and>
     (\<forall>cr \<in> set crs. r_UID cr \<noteq> [] \<and> sd_Uuid d (r_UID cr) = Some (r_UID cr) \<and> aligned (ru_FinishedAt (r_Status cr)) \<and>
        (IsTerminalPhase (ru_Phase (r_Status cr)) \<longrightarrow> ru_FinishedAt (r_Status cr) \<noteq> None)) \<and>
     (\<forall>c \<in> set rows. cl_uid c \<noteq> [] \<and> sd_Uuid d (cl_uid c) = Some (cl_uid c) \<and> pg_time (cl_finished_at c) = cl_finished_at c)"

definition cursor_ok :: "StoreDeps \<Rightarrow> runCursor option \<Rightarrow> bool" where
  "cursor_ok d k \<longleftrightarrow> (case k of None \<Rightarrow> True | Some (t, uid) \<Rightarrow> uid \<noteq> [] \<and> sd_Uuid d uid = Some uid \<and> pg_time t = t)"

lemma in_query_row:
  assumes "saved_from cr c" "aligned (lq_finishedAfter lq)"
  shows "in_query lq cr \<longleftrightarrow> where_filter (store_filter lq) c"
  using assms
  by (auto simp: in_query_def saved_from_def where_filter_def store_filter_def lq_matches_def finishedAfterOK_def aligned_def nullIfEmpty_def
    split: option.splits if_splits)

lemma collect_runs_at:
  assumes "distinct (map r_UID crs)" "wantFinished lq" "collect_runs lq crs live finished liveUIDs = (live', finished', liveUIDs')"
    and "keyed finished" "\<forall>cr \<in> set crs. gm_get finished (r_UID cr) = None"
  shows "keyed finished' \<and>
    (\<forall>uid. gm_get finished' uid = (case gm_get finished uid of Some e \<Rightarrow> Some e
       | None \<Rightarrow> map_option (\<lambda>cr. FromCR cr None) (find (\<lambda>cr. r_UID cr = uid \<and> lq_matches lq cr \<and> IsTerminalPhase (ru_Phase (r_Status cr)) \<and>
           finishedAfterOK (FromCR cr None) (lq_finishedAfter lq) \<and> before_cursor (lq_cursor lq) (FromCR cr None)) crs))) \<and>
    set liveUIDs' = set liveUIDs \<union> {r_UID cr |cr. cr \<in> set crs \<and> lq_matches lq cr \<and> \<not> IsTerminalPhase (ru_Phase (r_Status cr))}"
  using assms
proof (induction lq crs live finished liveUIDs rule: collect_runs.induct)
  case (1 lq live finished liveUIDs)
  then show ?case by (auto split: option.splits)
next
  case (2 lq cr crs live finished liveUIDs)
  let ?env = "FromCR cr None"
  consider (skip) "\<not> lq_matches lq cr" | (live) "lq_matches lq cr" "\<not> IsTerminalPhase (ru_Phase (r_Status cr))"
    | (fin) "lq_matches lq cr" "IsTerminalPhase (ru_Phase (r_Status cr))" by blast
  then show ?case
  proof cases
    case skip
    then show ?thesis using "2.IH"(1) "2.prems" by (auto split: option.splits)
  next
    case live
    then show ?thesis using "2.IH"(2) [OF _ refl] "2.prems" by (auto split: option.splits)
  next
    case fin
    let ?m = "if wantFinished lq \<and> finishedAfterOK ?env (lq_finishedAfter lq) \<and> before_cursor (lq_cursor lq) ?env
           then gm_set (en_UID ?env) ?env finished else finished"
    have m: "keyed ?m" using "2.prems"(4) by (simp add: keyed_def)
    have "r_UID x \<noteq> r_UID cr" if "x \<in> set crs" for x using "2.prems"(1) that by (auto simp: image_iff)
    then have m': "\<forall>x \<in> set crs. gm_get ?m (r_UID x) = None" using "2.prems"(5) by simp
    have "collect_runs lq crs live ?m liveUIDs = (live', finished', liveUIDs')" using "2.prems"(3) fin by (simp add: Let_def)
    from "2.IH"(3) [OF _ refl _ _ _ this m m'] fin "2.prems" show ?thesis
      by (auto split: option.splits if_splits)
  qed
qed

section \<open>Entries of the listing\<close>

text \<open>The envelope with a UID in the merge of the cluster with the rows \<open>A\<close>, past the cursor \<open>k\<close>.\<close>

definition entry :: "listRunsQuery \<Rightarrow> runCursor option \<Rightarrow> TestRun list \<Rightarrow> Columns list \<Rightarrow> string \<Rightarrow> runEnvelope option" where
  "entry lq k crs A uid = (case find (\<lambda>cr. r_UID cr = uid \<and> in_query lq cr \<and> before_cursor k (FromCR cr None)) crs of
     Some cr \<Rightarrow> Some (attach (map scanRow A) (FromCR cr None))
   | None \<Rightarrow> map_option FromRow (find (\<lambda>row. rw_UID row = uid) (map scanRow A)))"

lemma scanRow_simps [simp]: "rw_UID (scanRow c) = cl_uid c" "rw_FinishedAt (scanRow c) = cl_finished_at c"
  by (simp_all add: scanRow_def)

lemma find_unique:
  assumes "distinct (map f xs)" "x \<in> set xs" "f x = u" "P x"
  shows "find (\<lambda>x. f x = u \<and> P x) xs = Some x"
  using assms by (induction xs) (auto simp: image_iff)

lemma find_uid:
  assumes "distinct (map cl_uid A)"
  shows "find (\<lambda>row. rw_UID row = u) (map scanRow A) = Some r \<longleftrightarrow> (\<exists>c \<in> set A. cl_uid c = u \<and> r = scanRow c)"
  using assms by (induction A) (auto simp: image_iff)

lemma find_filter: "find P (filter Q xs) = find (\<lambda>x. P x \<and> Q x) xs"
  by (induction xs) auto

lemma entry_iff:
  assumes "distinct (map r_UID crs)" "distinct (map cl_uid A)"
  shows "entry lq k crs A u = Some e \<longleftrightarrow>
    (\<exists>cr \<in> set crs. r_UID cr = u \<and> in_query lq cr \<and> before_cursor k (FromCR cr None) \<and> e = attach (map scanRow A) (FromCR cr None)) \<or>
    (\<forall>cr \<in> set crs. r_UID cr = u \<longrightarrow> \<not> (in_query lq cr \<and> before_cursor k (FromCR cr None))) \<and> (\<exists>c \<in> set A. cl_uid c = u \<and> e = FromRow (scanRow c))"
proof (cases "find (\<lambda>cr. r_UID cr = u \<and> in_query lq cr \<and> before_cursor k (FromCR cr None)) crs")
  case None
  then have "entry lq k crs A u = Some e \<longleftrightarrow> (\<exists>r. find (\<lambda>row. rw_UID row = u) (map scanRow A) = Some r \<and> e = FromRow r)"
    by (auto simp: entry_def)
  moreover have "\<forall>cr \<in> set crs. r_UID cr = u \<longrightarrow> \<not> (in_query lq cr \<and> before_cursor k (FromCR cr None))"
    using None by (auto simp: find_None_iff)
  ultimately show ?thesis using find_uid [OF assms(2)] by auto
next
  case (Some cr)
  then have cr: "cr \<in> set crs" "r_UID cr = u" "in_query lq cr" "before_cursor k (FromCR cr None)"
    by (auto simp: find_Some_iff)
  have one: "x = cr" if "x \<in> set crs" "r_UID x = u" for x using that cr assms(1) by (auto simp: distinct_map inj_on_def)
  have "entry lq k crs A u = Some e \<longleftrightarrow> e = attach (map scanRow A) (FromCR cr None)" by (auto simp: entry_def Some)
  then show ?thesis using cr one by blast
qed

lemma attach_eq:
  assumes "distinct (map cl_uid A)" "distinct (map cl_uid B)"
    and "\<And>c. cl_uid c = en_UID e \<Longrightarrow> c \<in> set A \<longleftrightarrow> c \<in> set B"
  shows "attach (map scanRow A) e = attach (map scanRow B) e"
proof -
  have "find (\<lambda>row. rw_UID row = en_UID e) (map scanRow A) = Some r \<longleftrightarrow> find (\<lambda>row. rw_UID row = en_UID e) (map scanRow B) = Some r" for r
    using assms find_uid by blast
  then have "find (\<lambda>row. rw_UID row = en_UID e) (map scanRow A) = find (\<lambda>row. rw_UID row = en_UID e) (map scanRow B)"
    by (metis not_None_eq)
  then show ?thesis by (simp add: attach_def)
qed

lemma row_env_key: "en_key (FromRow (scanRow c)) = (Some (cl_finished_at c), cl_uid c)"
  by (simp add: en_key_def)

lemma before_key:
  "before_cursor k e = (case k of None \<Rightarrow> True | Some (t, uid) \<Rightarrow> fst (en_key e) \<noteq> None \<and> (the (fst (en_key e)), snd (en_key e)) < (t, uid))"
  by (auto simp: before_cursor_def en_key_def split: option.splits)

lemma before_None [simp]: "before_cursor None e"
  by (simp add: before_cursor_def)

lemma before_row: "before_cursor k (FromRow (scanRow c)) \<longleftrightarrow> where_after k c"
  by (auto simp: before_key row_env_key where_after_def row_key_def split: option.splits)

lemma before_cong: "en_key e = en_key e' \<Longrightarrow> before_cursor k e = before_cursor k e'"
  by (simp only: before_key)

lemma before_attach [simp]: "before_cursor k (attach rows e) = before_cursor k e"
  by (rule before_cong) simp

text \<open>A run that is in the cluster and in the history has one place in the order.\<close>

lemma agree_key:
  assumes "agree d crs rows" "cr \<in> set crs" "c \<in> set rows" "r_UID cr = cl_uid c"
  shows "en_key (FromCR cr x) = en_key (FromRow (scanRow c))" "saved_from cr c"
  using assms by (auto simp: agree_def saved_from_def en_key_def)

lemma in_take_sorted:
  assumes "sorted_wrt (\<lambda>a b. key b < key a) xs" "0 < n" "n \<le> length xs" "x \<in> set xs"
  shows "(key (xs ! (n - 1)) :: 'k :: linorder) \<le> key x \<longleftrightarrow> x \<in> set (take n xs)"
proof -
  obtain i where i: "i < length xs" "x = xs ! i" using assms(4) by (auto simp: in_set_conv_nth)
  have "key (xs ! j) < key (xs ! i)" if "i < j" "j < length xs" for i j
    using assms(1) that by (auto simp: sorted_wrt_iff_nth_less)
  then have "key (xs ! (n - 1)) \<le> key x \<longleftrightarrow> i < n"
    using i assms(2,3) by (metis Suc_pred' less_antisym less_Suc_eq_le not_le order.strict_implies_order order.refl less_le_trans diff_less zero_less_one not_less_iff_gr_or_eq)
  moreover have "x \<in> set (take n xs) \<longleftrightarrow> i < n"
  proof
    assume "x \<in> set (take n xs)"
    then obtain j where j: "j < n" "j < length xs" "x = xs ! j" by (auto simp: in_set_conv_nth)
    then have "i = j" using i \<open>\<And>i j. i < j \<Longrightarrow> j < length xs \<Longrightarrow> key (xs ! j) < key (xs ! i)\<close> by (metis linorder_neqE_nat order.strict_iff_not order.refl)
    then show "i < n" using j by simp
  qed (use i in \<open>auto simp: in_set_conv_nth\<close>)
  ultimately show ?thesis by simp
qed

text \<open>
  The page of the history decides the upper part of the merge: an entry at or above the last row of the
  page is the same with the page as with all rows.
\<close>

lemma entry_take:
  assumes agr: "agree d crs rows" and L: "set L \<subseteq> set rows" "sorted_wrt (\<lambda>a b. row_key b < row_key a) L" "distinct (map cl_uid L)"
    and n: "0 < n" "n \<le> length L" and high: "en_key (FromRow (scanRow (L ! (n - 1)))) \<le> en_key e"
  shows "entry lq k crs (take n L) (en_UID e) = Some e \<longleftrightarrow> entry lq k crs L (en_UID e) = Some e"
proof -
  have dT: "distinct (map cl_uid (take n L))" using L(3) by (simp add: take_map [symmetric])
  have d: "distinct (map r_UID crs)" using agr by (simp add: agree_def)
  have rowkey: "en_key (FromRow (scanRow a)) \<le> en_key (FromRow (scanRow b)) \<longleftrightarrow> row_key a \<le> row_key b" for a b
    by (auto simp: row_env_key row_key_def less_eq_prod_simp)
  have inT: "c \<in> set L \<longleftrightarrow> c \<in> set (take n L)" if "en_key (FromRow (scanRow (L ! (n - 1)))) \<le> en_key (FromRow (scanRow c))" for c
    using in_take_sorted [OF L(2) n] that rowkey in_set_takeD by metis
  have att: "attach (map scanRow (take n L)) (FromCR cr None) = attach (map scanRow L) (FromCR cr None)"
    if cr: "cr \<in> set crs" "en_key (FromRow (scanRow (L ! (n - 1)))) \<le> en_key (FromCR cr None)" for cr
  proof (rule attach_eq [OF dT L(3)])
    fix c :: Columns assume c: "cl_uid c = en_UID (FromCR cr None)"
    show "c \<in> set (take n L) \<longleftrightarrow> c \<in> set L"
    proof (cases "c \<in> set L")
      case True
      then have "en_key (FromCR cr None) = en_key (FromRow (scanRow c))" using agree_key [OF agr cr(1)] L(1) c by auto
      then show ?thesis using inT cr(2) by simp
    qed (auto dest: in_set_takeD)
  qed
  show ?thesis
    unfolding entry_iff [OF d dT] entry_iff [OF d L(3)]
  proof (intro disj_cong conj_cong refl)
    show "(\<exists>cr\<in>set crs. r_UID cr = en_UID e \<and> in_query lq cr \<and> before_cursor k (FromCR cr None) \<and> e = attach (map scanRow (take n L)) (FromCR cr None)) \<longleftrightarrow>
      (\<exists>cr\<in>set crs. r_UID cr = en_UID e \<and> in_query lq cr \<and> before_cursor k (FromCR cr None) \<and> e = attach (map scanRow L) (FromCR cr None))"
      using att high by (metis attach_simps(3))
    show "(\<exists>c\<in>set (take n L). cl_uid c = en_UID e \<and> e = FromRow (scanRow c)) \<longleftrightarrow> (\<exists>c\<in>set L. cl_uid c = en_UID e \<and> e = FromRow (scanRow c))"
      using inT high by auto
  qed
qed

section \<open>The whole listing\<close>

definition archive :: "listRunsQuery \<Rightarrow> Columns list \<Rightarrow> Columns list" where
  "archive lq rows = listing (store_filter lq) rows"

text \<open>
  Every finished run of the query once: those of the cluster, with the comment of the history, and the
  rows of the history whose run is not there any more; newest first.
\<close>

definition all_finished :: "listRunsQuery \<Rightarrow> TestRun list \<Rightarrow> Columns list \<Rightarrow> runEnvelope list" where
  "all_finished lq crs rows =
     map (\<lambda>cr. attach (map scanRow (archive lq rows)) (FromCR cr None)) (filter (in_query lq) crs) @
     map (\<lambda>c. FromRow (scanRow c)) (filter (\<lambda>c. \<forall>cr \<in> set crs. r_UID cr = cl_uid c \<longrightarrow> \<not> in_query lq cr) (archive lq rows))"

definition finished_listing :: "listRunsQuery \<Rightarrow> TestRun list \<Rightarrow> Columns list \<Rightarrow> runEnvelope list" where
  "finished_listing lq crs rows = sort_finished (all_finished lq crs rows)"

lemma archive_facts:
  assumes "agree d crs rows"
  shows "set (archive lq rows) \<subseteq> set rows" "distinct (map cl_uid (archive lq rows))"
    "sorted_wrt (\<lambda>a b. row_key b < row_key a) (archive lq rows)"
proof -
  have d: "distinct (map cl_uid rows)" using assms by (simp add: agree_def)
  show "set (archive lq rows) \<subseteq> set rows" by (auto simp: archive_def set_listing)
  show "distinct (map cl_uid (archive lq rows))" using d
    by (simp add: archive_def listing_def newest_first_def rev_map [symmetric] distinct_map inj_on_def)
  have "distinct (map row_key rows)" using d by (auto simp: distinct_map inj_on_def row_key_def)
  then show "sorted_wrt (\<lambda>a b. row_key b < row_key a) (archive lq rows)" unfolding archive_def by (rule listing_sorted)
qed

lemma entry_split:
  assumes "\<And>cr. E cr \<Longrightarrow> U cr = w" "\<And>c. G c \<Longrightarrow> V c = w"
  shows "((\<exists>cr \<in> C. Q cr \<and> E cr) \<or> (\<exists>c \<in> A. (\<forall>cr \<in> C. U cr = V c \<longrightarrow> \<not> Q cr) \<and> G c)) =
    ((\<exists>cr \<in> C. U cr = w \<and> Q cr \<and> E cr) \<or> (\<forall>cr \<in> C. U cr = w \<longrightarrow> \<not> Q cr) \<and> (\<exists>c \<in> A. V c = w \<and> G c))"
proof -
  have "(\<exists>c \<in> A. (\<forall>cr \<in> C. U cr = V c \<longrightarrow> \<not> Q cr) \<and> G c) = (\<exists>c \<in> A. (\<forall>cr \<in> C. U cr = w \<longrightarrow> \<not> Q cr) \<and> V c = w \<and> G c)"
    by (rule bex_cong [OF refl]) (use assms(2) in auto)
  moreover have "(\<exists>cr \<in> C. Q cr \<and> E cr) = (\<exists>cr \<in> C. U cr = w \<and> Q cr \<and> E cr)" using assms(1) by blast
  ultimately show ?thesis by simp
qed

lemma all_finished_entry:
  assumes "agree d crs rows"
  shows "e \<in> set (all_finished lq crs rows) \<longleftrightarrow> entry lq None crs (archive lq rows) (en_UID e) = Some e"
    "distinct (map en_UID (all_finished lq crs rows))"
proof -
  have d: "distinct (map r_UID crs)" using assms by (simp add: agree_def)
  note a = archive_facts [OF assms, of lq]
  have u1: "e = attach r (FromCR cr None) \<Longrightarrow> r_UID cr = en_UID e" and u2: "e = FromRow (scanRow c) \<Longrightarrow> cl_uid c = en_UID e" for r cr c
    by simp_all
  have "e \<in> set (all_finished lq crs rows) \<longleftrightarrow>
      (\<exists>cr \<in> set crs. in_query lq cr \<and> e = attach (map scanRow (archive lq rows)) (FromCR cr None)) \<or>
      (\<exists>c \<in> set (archive lq rows). (\<forall>cr \<in> set crs. r_UID cr = cl_uid c \<longrightarrow> \<not> in_query lq cr) \<and> e = FromRow (scanRow c))"
    unfolding all_finished_def set_append set_map set_filter by blast
  also have "\<dots> \<longleftrightarrow> (\<exists>cr \<in> set crs. r_UID cr = en_UID e \<and> in_query lq cr \<and> e = attach (map scanRow (archive lq rows)) (FromCR cr None)) \<or>
      (\<forall>cr \<in> set crs. r_UID cr = en_UID e \<longrightarrow> \<not> in_query lq cr) \<and> (\<exists>c \<in> set (archive lq rows). cl_uid c = en_UID e \<and> e = FromRow (scanRow c))"
    by (rule entry_split [OF u1 u2])
  finally show "e \<in> set (all_finished lq crs rows) \<longleftrightarrow> entry lq None crs (archive lq rows) (en_UID e) = Some e"
    unfolding entry_iff [OF d a(2)] by simp
  have "distinct (map r_UID (filter (in_query lq) crs))" "distinct (map cl_uid (filter P (archive lq rows)))" for P
    using d a(2) by (simp_all add: distinct_map_filter)
  then show "distinct (map en_UID (all_finished lq crs rows))"
    by (auto simp: all_finished_def comp_def)
qed

lemma entry_after:
  assumes agr: "agree d crs rows"
  shows "entry lq k crs (filter (where_after k) (archive lq rows)) (en_UID e) = Some e \<longleftrightarrow>
    entry lq None crs (archive lq rows) (en_UID e) = Some e \<and> before_cursor k e"
proof -
  let ?A = "archive lq rows" and ?L = "filter (where_after k) (archive lq rows)"
  have d: "distinct (map r_UID crs)" using agr by (simp add: agree_def)
  note a = archive_facts [OF agr, of lq]
  have dL: "distinct (map cl_uid ?L)" using a(2) by (simp add: distinct_map_filter)
  have same: "before_cursor k (FromCR cr None) \<longleftrightarrow> where_after k c" if "cr \<in> set crs" "c \<in> set ?A" "r_UID cr = cl_uid c" for cr c
    using before_cong [OF agree_key(1) [OF agr that(1) _ that(3)]] a(1) that(2) before_row by blast
  have att: "attach (map scanRow ?L) (FromCR cr None) = attach (map scanRow ?A) (FromCR cr None)"
    if "cr \<in> set crs" "before_cursor k (FromCR cr None)" for cr
    using that same by (intro attach_eq [OF dL a(2)]) auto
  have A: "entry lq None crs ?A (en_UID e) = Some e \<longleftrightarrow>
      (\<exists>cr \<in> set crs. r_UID cr = en_UID e \<and> in_query lq cr \<and> e = attach (map scanRow ?A) (FromCR cr None)) \<or>
      (\<forall>cr \<in> set crs. r_UID cr = en_UID e \<longrightarrow> \<not> in_query lq cr) \<and> (\<exists>c \<in> set ?A. cl_uid c = en_UID e \<and> e = FromRow (scanRow c))"
    unfolding entry_iff [OF d a(2)] by simp
  show ?thesis
  proof
    assume "entry lq k crs ?L (en_UID e) = Some e"
    then consider cr where "cr \<in> set crs" "r_UID cr = en_UID e" "in_query lq cr" "before_cursor k (FromCR cr None)"
        "e = attach (map scanRow ?L) (FromCR cr None)"
      | c where "\<forall>cr \<in> set crs. r_UID cr = en_UID e \<longrightarrow> \<not> (in_query lq cr \<and> before_cursor k (FromCR cr None))"
        "c \<in> set ?A" "where_after k c" "cl_uid c = en_UID e" "e = FromRow (scanRow c)"
      unfolding entry_iff [OF d dL] set_filter by blast
    then show "entry lq None crs ?A (en_UID e) = Some e \<and> before_cursor k e"
    proof cases
      case 1
      then show ?thesis unfolding A using att [OF 1(1,4)] before_attach by metis
    next
      case 2
      then have "\<forall>cr \<in> set crs. r_UID cr = en_UID e \<longrightarrow> \<not> in_query lq cr" using same by metis
      then show ?thesis unfolding A using 2 before_row by blast
    qed
  next
    assume "entry lq None crs ?A (en_UID e) = Some e \<and> before_cursor k e"
    then have e: "before_cursor k e" and "entry lq None crs ?A (en_UID e) = Some e" by simp_all
    from this(2) consider cr where "cr \<in> set crs" "r_UID cr = en_UID e" "in_query lq cr" "e = attach (map scanRow ?A) (FromCR cr None)"
      | c where "\<forall>cr \<in> set crs. r_UID cr = en_UID e \<longrightarrow> \<not> in_query lq cr" "c \<in> set ?A" "cl_uid c = en_UID e" "e = FromRow (scanRow c)"
      unfolding A by blast
    then show "entry lq k crs ?L (en_UID e) = Some e"
    proof cases
      case 1
      then have "before_cursor k (FromCR cr None)" using e by simp
      then show ?thesis unfolding entry_iff [OF d dL] using 1 att [OF 1(1)] by metis
    next
      case 2
      have "where_after k c" using e unfolding 2(4) before_row .
      then have "c \<in> set ?L" using 2(2) by simp
      then show ?thesis unfolding entry_iff [OF d dL] using 2(1) by (intro disjI2 conjI bexI [of _ c] 2(3,4)) blast
    qed
  qed
qed

lemma page_good:
  assumes agr: "agree d crs rows" and L: "L = filter (where_after k) (archive lq rows)" and n: "0 < n"
    and M: "keyed M" "\<And>u. gm_get M u = entry lq k crs (take n L) u"
    and F: "F = filter (before_cursor k) (finished_listing lq crs rows)"
  shows "take n (sort_finished (map snd M)) = take n F" "length L \<le> n \<Longrightarrow> sort_finished (map snd M) = F"
proof -
  note a = archive_facts [OF agr, of lq] and v = keyed_values [OF M(1)]
  have d: "distinct (map r_UID crs)" using agr by (simp add: agree_def)
  have Lf: "set L \<subseteq> set rows" "sorted_wrt (\<lambda>a b. row_key b < row_key a) L" "distinct (map cl_uid L)"
    using a by (auto simp: L sorted_wrt_filter distinct_map_filter)
  let ?Y = "filter (before_cursor k) (all_finished lq crs rows)"
  have F': "F = sort_finished ?Y" by (simp add: F finished_listing_def filter_sort_finished)
  have Y: "e \<in> set ?Y \<longleftrightarrow> entry lq k crs L (en_UID e) = Some e" for e
    using all_finished_entry(1) [OF agr] entry_after [OF agr] by (auto simp: L)
  have Yd: "distinct (map en_UID ?Y)" using all_finished_entry(2) [OF agr] by (simp add: distinct_map_filter)
  then have Ydist: "distinct ?Y" by (simp add: distinct_map)
  have X: "e \<in> set (map snd M) \<longleftrightarrow> entry lq k crs (take n L) (en_UID e) = Some e" for e using v(1) M(2) by simp
  show all: "sort_finished (map snd M) = F" if len: "length L \<le> n"
  proof -
    have "set (map snd M) = set ?Y" using X Y len by auto
    then show ?thesis unfolding F' using v Yd by (intro sort_finished_cong) (auto simp: distinct_map)
  qed
  show "take n (sort_finished (map snd M)) = take n F"
  proof (cases "length L \<le> n")
    case False
    let ?b = "en_key (FromRow (scanRow (L ! (n - 1))))"
    let ?good = "\<lambda>e. ?b \<le> en_key e"
    have "e \<in> set (map snd M) \<longleftrightarrow> e \<in> set ?Y" if "?good e" for e
      unfolding X Y using entry_take [OF agr Lf n _ that] False by simp
    then have "set (filter ?good (map snd M)) = set (filter ?good ?Y)" unfolding set_filter by blast
    then have eq: "filter ?good (sort_finished (map snd M)) = filter ?good F"
      unfolding F' filter_sort_finished
      by (rule sort_finished_cong [OF _ distinct_filter [OF v(2)] distinct_filter [OF Ydist] inj_on_subset [OF v(3) filter_is_subset]])
    have "cl_uid ` set (take n L) \<subseteq> en_UID ` set (filter ?good (map snd M))"
    proof (intro image_subsetI)
      fix c assume c: "c \<in> set (take n L)"
      then have cL: "c \<in> set L" by (rule in_set_takeD)
      have "?b \<le> en_key (FromRow (scanRow c))"
        using in_take_sorted [OF Lf(2) n] False c cL by (auto simp: row_env_key row_key_def less_eq_prod_simp)
      moreover have "find (\<lambda>row. rw_UID row = cl_uid c) (map scanRow (take n L)) \<noteq> None"
        using c by (auto simp: find_None_iff)
      then obtain e where e: "entry lq k crs (take n L) (cl_uid c) = Some e"
        by (cases "find (\<lambda>cr. r_UID cr = cl_uid c \<and> in_query lq cr \<and> before_cursor k (FromCR cr None)) crs") (auto simp: entry_def)
      moreover from this have "en_UID e = cl_uid c \<and> en_key e = en_key (FromRow (scanRow c))"
      proof -
        have "distinct (map cl_uid (take n L))" using Lf(3) by (simp add: take_map [symmetric])
        then show ?thesis using e agree_key(1) [OF agr] Lf(1) cL inj_onD [of cl_uid "set L"] Lf(3)
          unfolding entry_iff [OF d \<open>distinct (map cl_uid (take n L))\<close>]
          by (fastforce simp: distinct_map dest: in_set_takeD)
      qed
      ultimately show "cl_uid c \<in> en_UID ` set (filter ?good (map snd M))" using X [of e] unfolding set_filter by (intro rev_image_eqI [of e]) auto
    qed
    then have "card (cl_uid ` set (take n L)) \<le> card (en_UID ` set (filter ?good (map snd M)))" by (intro card_mono) auto
    also have "\<dots> \<le> length (filter ?good (map snd M))" by (rule order_trans [OF card_image_le card_length]) simp
    also have "\<dots> = length (filter ?good (sort_finished (map snd M)))" by (simp add: filter_sort_finished)
    finally have "n \<le> length (filter ?good (sort_finished (map snd M)))"
      using Lf(3) False by (simp add: distinct_card distinct_map inj_on_def card_image in_set_takeD [of _ n L])
    moreover have "sorted_wrt (\<lambda>a b. en_key b < en_key a) (sort_finished (map snd M))" using v by (intro sort_finished_sorted)
    moreover have "sorted_wrt (\<lambda>a b. en_key b < en_key a) F" unfolding F' using Yd by (intro sort_finished_sorted) (auto simp: distinct_map)
    ultimately show ?thesis using take_upper [of en_key _ n ?b] eq by metis
  qed (use all in simp)
qed

lemma collect_entry:
  assumes "agree d crs rows" "wantFinished lq" "collectClusterRuns lq crs = (live, finished, liveUIDs)" "set A \<subseteq> set rows" "distinct (map cl_uid A)"
  shows "keyed (merge_rows (map scanRow A) liveUIDs finished)"
    "gm_get (merge_rows (map scanRow A) liveUIDs finished) u = entry lq (lq_cursor lq) crs A u"
proof -
  let ?ns = "\<lambda>cr. lq_ns lq = [] \<or> r_Namespace cr = lq_ns lq"
  have d: "distinct (map r_UID (filter ?ns crs))" using assms(1) by (simp add: agree_def distinct_map_filter)
  note c = collect_runs_at [OF d assms(2) assms(3) [unfolded collectClusterRuns_def]]
  have fin: "keyed finished" using c by (simp add: keyed_def gm_ok_def)
  have at: "gm_get finished u = map_option (\<lambda>cr. FromCR cr None) (find (\<lambda>cr. r_UID cr = u \<and> in_query lq cr \<and> before_cursor (lq_cursor lq) (FromCR cr None)) crs)" for u
    using c by (simp add: keyed_def gm_ok_def find_filter in_query_def conj_ac)
  have live: "liveUID \<notin> cl_uid ` set A" if "liveUID \<in> set liveUIDs" for liveUID
    using c that assms(1,4) by (fastforce simp: keyed_def gm_ok_def agree_def saved_from_def)
  have "distinct (map rw_UID (map scanRow A))" "rw_UID ` set (map scanRow A) \<inter> set liveUIDs = {}"
    using assms(5) live by (simp_all add: comp_def image_image) blast
  note m = merge_rows_at [OF this fin]
  then show "keyed (merge_rows (map scanRow A) liveUIDs finished)" by blast
  show "gm_get (merge_rows (map scanRow A) liveUIDs finished) u = entry lq (lq_cursor lq) crs A u"
    using m at [of u] by (simp add: merged_at_def entry_def split: option.splits)
qed

lemma store_cursor:
  assumes "cursor_ok d (lq_cursor lq)"
  shows "page_cursor d (store_page lq) db = (Inr (lq_cursor lq), db)"
  using assms by (auto simp: page_cursor_def store_page_def cursor_ok_def cast_uuid_def dbind_def split: option.splits)

lemma finished_listing_facts:
  assumes agr: "agree d crs rows"
  shows "sorted_wrt (\<lambda>a b. en_key b < en_key a) (finished_listing lq crs rows)"
    "e \<in> set (finished_listing lq crs rows) \<Longrightarrow> en_FinishedAt e \<noteq> None \<and> cursor_ok d (Some (the (en_FinishedAt e), en_UID e))"
proof -
  have dist: "distinct (map en_UID (all_finished lq crs rows))" by (rule all_finished_entry(2) [OF agr])
  then show "sorted_wrt (\<lambda>a b. en_key b < en_key a) (finished_listing lq crs rows)"
    unfolding finished_listing_def by (intro sort_finished_sorted) (auto simp: distinct_map)
  assume "e \<in> set (finished_listing lq crs rows)"
  then consider cr where "cr \<in> set crs" "in_query lq cr" "e = attach (map scanRow (archive lq rows)) (FromCR cr None)"
    | c where "c \<in> set rows" "e = FromRow (scanRow c)"
    using archive_facts(1) [OF agr, of lq] by (auto simp: finished_listing_def all_finished_def)
  then show "en_FinishedAt e \<noteq> None \<and> cursor_ok d (Some (the (en_FinishedAt e), en_UID e))"
  proof cases
    case 1
    then have "ru_FinishedAt (r_Status cr) \<noteq> None" "aligned (ru_FinishedAt (r_Status cr))" "r_UID cr \<noteq> []" "sd_Uuid d (r_UID cr) = Some (r_UID cr)"
      using agr by (auto simp: agree_def in_query_def)
    then show ?thesis unfolding 1(3) by (auto simp: cursor_ok_def aligned_def)
  next
    case 2
    then show ?thesis using agr by (auto simp: agree_def cursor_ok_def)
  qed
qed

text \<open>One page: the next \<open>limit\<close> runs past the cursor, and the cursor of the next page if there is more.\<close>

lemma listRuns_page:
  assumes agr: "agree d crs (db_Runs db)" and q: "wantFinished lq" "0 < lq_limit lq" "lq_limit lq \<le> 500" "cursor_ok d (lq_cursor lq)"
    and up: "db_Faults db = []"
    and F: "F = filter (before_cursor (lq_cursor lq)) (finished_listing lq crs (db_Runs db))" and n: "n = nat (lq_limit lq)"
  shows "\<exists>live c. listRuns d lq crs (Some db) = Inr (live, take n F, c) \<and>
    (case c of None \<Rightarrow> length F \<le> n | Some (t, u) \<Rightarrow> take n F \<noteq> [] \<and> en_key (last (take n F)) = (Some t, u))"
proof -
  let ?L = "filter (where_after (lq_cursor lq)) (archive lq (db_Runs db))"
  obtain live finished liveUIDs where c: "collectClusterRuns lq crs = (live, finished, liveUIDs)" by (cases "collectClusterRuns lq crs") auto
  define M where "M = merge_rows (map scanRow (take n ?L)) liveUIDs finished"
  note a = archive_facts [OF agr, of lq]
  have T: "set (take n ?L) \<subseteq> set (db_Runs db)" "distinct (map cl_uid (take n ?L))"
    using a by (auto simp: take_map [symmetric] distinct_map_filter dest!: in_set_takeD)
  note M = collect_entry [OF agr q(1) c T, folded M_def]
  have n0: "0 < n" using q(2) n by simp
  note page = page_good [OF agr refl n0 M F]
  have rows: "fst (ListRuns d (store_filter lq) (store_page lq) db) = Inr (map scanRow (take n ?L))"
    using ListRuns_eq [OF up store_cursor [OF q(4)]] q(2,3) n by (simp add: archive_def store_page_def clampLimit_def MaxPageLimit_def)
  let ?out = "sort_finished (map snd M)" and ?full = "lq_limit lq \<le> int (length (take n ?L))"
  have merge: "mergeStoreRuns d lq finished liveUIDs (Some db) = Inr (?full, M)" using rows q(1) by (simp add: mergeStoreRuns_def M_def)
  have full: "?full \<longleftrightarrow> n \<le> length ?L" using n q(2) by auto
  have nonempty: "?out \<noteq> []" if "n \<le> length ?L"
  proof -
    have "take n ?L \<noteq> []" using that n0 by auto
    then obtain x where x: "x \<in> set (take n ?L)" using last_in_set by blast
    then have "find (\<lambda>row. rw_UID row = cl_uid x) (map scanRow (take n ?L)) \<noteq> None" by (auto simp: find_None_iff)
    then have "gm_get M (cl_uid x) \<noteq> None" using M(2) by (auto simp: entry_def split: option.splits)
    then have "M \<noteq> []" by auto
    then show ?thesis by (metis length_0_conv length_map set_sort_finished(2))
  qed
  have fin: "en_FinishedAt e \<noteq> None" if "e \<in> set F" for e
    using that finished_listing_facts(2) [OF agr] by (auto simp: F)
  show ?thesis
  proof (cases "?full \<or> n < length ?out")
    case True
    then have "?out \<noteq> []" using nonempty full by (cases "n < length ?out") (auto simp del: set_sort_finished)
    then have "take n ?out \<noteq> []" using n0 by simp
    then have out: "take n F \<noteq> []" using page(1) by simp
    then obtain t where t: "en_FinishedAt (last (take n F)) = Some t" using fin by (metis in_set_takeD last_in_set not_None_eq)
    then have "next_cursor True (take n ?out) = Inr (Some (t, en_UID (last (take n F))))" using out page(1) by (simp add: next_cursor_def)
    then have "listRuns d lq crs (Some db) = Inr (sort_newest en_StartedAt live, take n F, Some (t, en_UID (last (take n F))))"
      using True page(1) by (simp add: listRuns_def c merge n Let_def)
    then show ?thesis using out t by (simp add: en_key_def)
  next
    case False
    then have outF: "?out = F" using page(2) full by simp
    have "listRuns d lq crs (Some db) = Inr (sort_newest en_StartedAt live, take n F, None)"
      using False n by (simp add: listRuns_def c merge Let_def next_cursor_def outF del: set_sort_finished)
    then show ?thesis using False outF by (simp del: set_sort_finished)
  qed
qed

section \<open>Reading page after page\<close>

fun walk_pages :: "nat \<Rightarrow> StoreDeps \<Rightarrow> listRunsQuery \<Rightarrow> TestRun list \<Rightarrow> Database \<Rightarrow> runEnvelope list option" where
  "walk_pages 0 d lq crs db = None"
| "walk_pages (Suc n) d lq crs db = (case listRuns d lq crs (Some db) of
     Inl _ \<Rightarrow> None
   | Inr (_, out, None) \<Rightarrow> Some out
   | Inr (_, out, Some c) \<Rightarrow> map_option ((@) out) (walk_pages n d (lq\<lparr>lq_cursor := Some c\<rparr>) crs db))"

lemma in_query_cursor [simp]: "in_query (lq\<lparr>lq_cursor := k\<rparr>) = in_query lq"
  by (rule ext) (simp add: in_query_def lq_matches_def)

lemma finished_listing_cursor [simp]: "finished_listing (lq\<lparr>lq_cursor := k\<rparr>) crs rows = finished_listing lq crs rows"
  by (simp add: finished_listing_def all_finished_def archive_def store_filter_def)

lemma below_last:
  assumes "sorted_wrt (\<lambda>a b. key b < key a) xs" "take n xs \<noteq> []"
  shows "filter (\<lambda>e. key e < (key (last (take n xs)) :: 'k :: linorder)) xs = drop n xs"
  using assms
proof (induction xs arbitrary: n)
  case (Cons x xs)
  obtain m where m: "n = Suc m" using Cons.prems(2) by (cases n) auto
  show ?case
  proof (cases "take m xs = []")
    case True
    then have "filter (\<lambda>e. key e < key x) xs = xs" using Cons.prems(1) by (intro filter_True) auto
    then show ?thesis using True m by auto
  next
    case False
    then have "last (take m xs) \<in> set xs" by (meson in_set_takeD last_in_set)
    then have "\<not> key x < key (last (take m xs))" using Cons.prems(1) by auto
    then show ?thesis using Cons.IH [of m] Cons.prems(1) False m by simp
  qed
qed simp

lemma before_iff: "en_FinishedAt e \<noteq> None \<Longrightarrow> before_cursor (Some (t, u)) e \<longleftrightarrow> en_key e < (Some t, u)"
  by (auto simp: before_key en_key_def)

lemma walk_rest:
  assumes agr: "agree d crs (db_Runs db)" and q: "wantFinished lq" "0 < lq_limit lq" "lq_limit lq \<le> 500" and up: "db_Faults db = []"
  shows "cursor_ok d k \<Longrightarrow> F = filter (before_cursor k) (finished_listing lq crs (db_Runs db)) \<Longrightarrow> length F < fuel \<Longrightarrow>
    walk_pages fuel d (lq\<lparr>lq_cursor := k\<rparr>) crs db = Some F"
proof (induction fuel arbitrary: k F)
  case (Suc fuel)
  let ?lq = "lq\<lparr>lq_cursor := k\<rparr>" and ?n = "nat (lq_limit lq)" and ?all = "finished_listing lq crs (db_Runs db)"
  note facts = finished_listing_facts [OF agr, where lq = lq]
  have q': "wantFinished ?lq" "0 < lq_limit ?lq" "lq_limit ?lq \<le> 500" "cursor_ok d (lq_cursor ?lq)"
    using q Suc.prems(1) by (simp_all add: wantFinished_def terminalPhase_def)
  have F': "F = filter (before_cursor (lq_cursor ?lq)) (finished_listing ?lq crs (db_Runs db))" using Suc.prems(2) by simp
  obtain live c where page: "listRuns d ?lq crs (Some db) = Inr (live, take ?n F, c)"
    and c: "case c of None \<Rightarrow> length F \<le> ?n | Some (t, u) \<Rightarrow> take ?n F \<noteq> [] \<and> en_key (last (take ?n F)) = (Some t, u)"
    using listRuns_page [OF agr q' up F', of ?n] by auto
  show ?case
  proof (cases c)
    case None
    then show ?thesis using page c by simp
  next
    case (Some tu)
    obtain t u where tu: "c = Some (t, u)" using Some by (cases tu) auto
    then have ne: "take ?n F \<noteq> []" and last: "en_key (last (take ?n F)) = (Some t, u)" using c by simp_all
    have sF: "sorted_wrt (\<lambda>a b. en_key b < en_key a) F" using facts(1) by (simp add: Suc.prems(2) sorted_wrt_filter)
    have inF: "last (take ?n F) \<in> set F" using ne by (meson in_set_takeD last_in_set)
    then have ok: "cursor_ok d (Some (t, u))" using facts(2) [of "last (take ?n F)"] last Suc.prems(2) by (auto simp: en_key_def)
    have fin: "en_FinishedAt e \<noteq> None" if "e \<in> set ?all" for e using facts(2) that by blast
    have "filter (before_cursor (Some (t, u))) ?all = drop ?n F"
    proof -
      have "filter (before_cursor (Some (t, u))) F = drop ?n F"
        using below_last [OF sF ne] last fin Suc.prems(2) by (simp add: before_iff cong: filter_cong)
      moreover have "before_cursor k e" if e: "e \<in> set ?all" "before_cursor (Some (t, u)) e" for e
      proof (cases k)
        case (Some k')
        obtain t' u' where k': "k = Some (t', u')" using Some by (cases k') auto
        have "en_key e < en_key (last (take ?n F))" using e fin before_iff last by metis
        moreover have "en_key (last (take ?n F)) < (Some t', u')" using inF Suc.prems(2) fin before_iff k' by auto
        ultimately show ?thesis using e(1) fin before_iff k' by (metis less_trans)
      qed simp
      ultimately show ?thesis by (metis (no_types, lifting) Suc.prems(2) filter_cong filter_filter)
    qed
    then have "walk_pages fuel d (lq\<lparr>lq_cursor := Some (t, u)\<rparr>) crs db = Some (drop ?n F)"
      using Suc.IH [OF ok] Suc.prems(3) ne q(2) by (simp, cases F, auto)
    then show ?thesis using page tu by simp
  qed
qed simp

text \<open>
  C20. Reading page after page, each with the cursor of the one before, gives every finished run of the
  query exactly once, newest first, and comes to an end: the runs of the cluster with the comments of
  the history, and the runs that only the history has. The history is asked for one page at a time, so
  the cut of the merge never loses, repeats or reorders a run.
\<close>

theorem listing_pages_exact:
  assumes "agree d crs (db_Runs db)" "wantFinished lq" "0 < lq_limit lq" "lq_limit lq \<le> 500" "lq_cursor lq = None" "db_Faults db = []"
  shows "walk_pages (Suc (length (finished_listing lq crs (db_Runs db)))) d lq crs db = Some (finished_listing lq crs (db_Runs db)) \<and>
    sorted_wrt (\<lambda>a b. (en_FinishedAt b, en_UID b) < (en_FinishedAt a, en_UID a)) (finished_listing lq crs (db_Runs db)) \<and>
    (\<forall>u. u \<in> en_UID ` set (finished_listing lq crs (db_Runs db)) \<longleftrightarrow>
       (\<exists>cr \<in> set crs. r_UID cr = u \<and> in_query lq cr) \<or> (\<exists>c \<in> set (db_Runs db). cl_uid c = u \<and> where_filter (store_filter lq) c))"
proof (intro conjI allI)
  have "lq\<lparr>lq_cursor := None\<rparr> = lq" using assms(5) by simp
  moreover have "cursor_ok d None" by (simp add: cursor_ok_def)
  ultimately show "walk_pages (Suc (length (finished_listing lq crs (db_Runs db)))) d lq crs db = Some (finished_listing lq crs (db_Runs db))"
    using walk_rest [OF assms(1-4,6), of None "finished_listing lq crs (db_Runs db)"] by (simp del: walk_pages.simps)
  show "sorted_wrt (\<lambda>a b. (en_FinishedAt b, en_UID b) < (en_FinishedAt a, en_UID a)) (finished_listing lq crs (db_Runs db))"
    using finished_listing_facts(1) [OF assms(1)] by (simp add: en_key_def)
  show "u \<in> en_UID ` set (finished_listing lq crs (db_Runs db)) \<longleftrightarrow>
       (\<exists>cr \<in> set crs. r_UID cr = u \<and> in_query lq cr) \<or> (\<exists>c \<in> set (db_Runs db). cl_uid c = u \<and> where_filter (store_filter lq) c)" for u
    by (force simp: finished_listing_def all_finished_def archive_def set_listing image_Un image_image)
qed

definition in_both :: "TestRun list" where
  "in_both = [passed_run\<lparr>r_Status := (r_Status passed_run)\<lparr>ru_FinishedAt := Some 1000\<rparr>\<rparr>,
     passed_run\<lparr>r_Name := ''b'', r_UID := ''u2'', r_Status := (r_Status passed_run)\<lparr>ru_FinishedAt := Some 5000\<rparr>\<rparr>]"

definition one_by_one :: listRunsQuery where
  "one_by_one = \<lparr>lq_ns = ''n'', lq_testRef = [], lq_phase = PhaseNone, lq_source = [], lq_parent = [], lq_limit = 1, lq_finishedAfter = None,
     lq_cursor = None\<rparr>"

theorem listing_pages_exact_witness:
  "map_option (map en_UID) (walk_pages 3 plain_deps one_by_one in_both saved_db) = Some [''u2'', ''u1'']"
proof -
  have rows: "length (db_Runs saved_db) = 1 \<and> cl_uid (db_Runs saved_db ! 0) = ''u1'' \<and> saved_from (in_both ! 0) (db_Runs saved_db ! 0) \<and>
      cl_finished_at (db_Runs saved_db ! 0) = 1000 \<and> db_Faults saved_db = []"
    by code_simp
  then obtain c where c: "db_Runs saved_db = [c]" "cl_uid c = ''u1''" "saved_from (in_both ! 0) c" "cl_finished_at c = 1000"
    by (cases "db_Runs saved_db") auto
  have agr: "agree plain_deps in_both (db_Runs saved_db)"
    using c by (auto simp: agree_def in_both_def passed_run_def plain_deps_def aligned_def pg_time_def)
  have listing: "map en_UID (finished_listing one_by_one in_both (db_Runs saved_db)) = [''u2'', ''u1'']"
    by code_simp
  then have "length (finished_listing one_by_one in_both (db_Runs saved_db)) = 2" by (metis length_map length_Cons list.size(3) One_nat_def Suc_1)
  then show ?thesis
    using listing_pages_exact [OF agr, of one_by_one] rows listing
    by (simp add: one_by_one_def wantFinished_def numeral_3_eq_3 numeral_2_eq_2)
qed

end
