(* ===== verification/Retention.thy ===== *)
theory Retention
  imports HistoryRules Storage
begin

text \<open>
  The retention of the run history, \<open>src/internal/retention/retention.go\<close>: a pass over the partitions
  that are older than the window, the removal of the objects of their runs before the rows, and the
  pruning of the audit log. The object store is a parameter, the contract of \<open>Storage.blob_store\<close>.
\<close>

section \<open>A pass\<close>

record 's RetentionJob =
  jb_Objects :: "(string \<Rightarrow> 's \<Rightarrow> (string, unit) result \<times> 's) option"
  jb_Retention :: int

record RetentionResult =
  rt_DroppedPartitions :: "string list"
  rt_RemovedRuns :: nat
  rt_PrunedAudit :: nat

datatype retention_error = NotPositive | StoreFailed store_error | RemoveFailed string

text \<open>Remove the objects of the runs in turn; the first error ends the loop.\<close>

fun remove_objects :: "(string \<Rightarrow> 's \<Rightarrow> (string, unit) result \<times> 's) \<Rightarrow> nat \<Rightarrow> (string \<times> string) list \<Rightarrow> 's \<Rightarrow> nat \<times> retention_error option \<times> 's" where
  "remove_objects remove i [] s = (i, None, s)"
| "remove_objects remove i ((ns, uid) # runs) s =
     (let keys = ForRun ns uid in
      if \<not> Valid keys then remove_objects remove (Suc i) runs s
      else case remove (RunPrefix keys) s of
        (Inl e, s') \<Rightarrow> (i, Some (RemoveFailed e), s')
      | (Inr _, s') \<Rightarrow> remove_objects remove (Suc i) runs s')"

definition drop_rows :: "nat \<Rightarrow> Partition \<Rightarrow> Database \<Rightarrow> nat \<times> retention_error option \<times> Database" where
  "drop_rows n part db = (case DropPartitions [part] db of
     (Inl e, db') \<Rightarrow> (n, Some (StoreFailed e), db') | (Inr _, db') \<Rightarrow> (n, None, db'))"

definition dropPartition :: "'s RetentionJob \<Rightarrow> Partition \<Rightarrow> Database \<times> 's \<Rightarrow> nat \<times> retention_error option \<times> Database \<times> 's" where
  "dropPartition j part w = (case w of (db, s) \<Rightarrow>
     (case jb_Objects j of
        None \<Rightarrow> (case drop_rows 0 part db of (n, e, db') \<Rightarrow> (n, e, db', s))
      | Some remove \<Rightarrow> (case RunsIn part db of
          (Inl e, db1) \<Rightarrow> (0, Some (StoreFailed e), db1, s)
        | (Inr runs, db1) \<Rightarrow> (case remove_objects remove 0 runs s of
            (i, Some e, s1) \<Rightarrow> (i, Some e, db1, s1)
          | (i, None, s1) \<Rightarrow> (case drop_rows (length runs) part db1 of (n, e, db') \<Rightarrow> (n, e, db', s1))))))"

fun drop_all :: "'s RetentionJob \<Rightarrow> Partition list \<Rightarrow> RetentionResult \<Rightarrow> retention_error list \<Rightarrow> Database \<times> 's \<Rightarrow>
    RetentionResult \<times> retention_error list \<times> Database \<times> 's" where
  "drop_all j [] res errs w = (res, errs, w)"
| "drop_all j (part # parts) res errs w = (case dropPartition j part w of (n, e, w') \<Rightarrow>
     (let res' = res\<lparr>rt_RemovedRuns := rt_RemovedRuns res + n\<rparr> in
      case e of Some x \<Rightarrow> drop_all j parts res' (errs @ [x]) w'
      | None \<Rightarrow> drop_all j parts (res'\<lparr>rt_DroppedPartitions := rt_DroppedPartitions res' @ [pt_Name part]\<rparr>) errs w'))"

definition no_result :: RetentionResult where
  "no_result = \<lparr>rt_DroppedPartitions = [], rt_RemovedRuns = 0, rt_PrunedAudit = 0\<rparr>"

definition prune :: "instant \<Rightarrow> RetentionResult \<Rightarrow> retention_error list \<Rightarrow> Database \<times> 's \<Rightarrow> RetentionResult \<times> retention_error list \<times> Database \<times> 's" where
  "prune before res errs w = (case PruneAudit before (fst w) of
     (Inl e, db) \<Rightarrow> (res, errs @ [StoreFailed e], db, snd w)
   | (Inr n, db) \<Rightarrow> (res\<lparr>rt_PrunedAudit := n\<rparr>, errs, db, snd w))"

definition RunOnce :: "StoreDeps \<Rightarrow> 's RetentionJob \<Rightarrow> instant \<Rightarrow> Database \<times> 's \<Rightarrow> RetentionResult \<times> retention_error list \<times> Database \<times> 's" where
  "RunOnce d j now w =
     (if jb_Retention j \<le> 0 then (no_result, [NotPositive], w)
      else case ExistingPartitions d (fst w) of
        (Inl e, db) \<Rightarrow> (no_result, [StoreFailed e], db, snd w)
      | (Inr existing, db) \<Rightarrow> (case drop_all j (PartitionsToDrop existing now (jb_Retention j)) no_result [] (db, snd w) of
          (res, errs, w') \<Rightarrow> prune (now - jb_Retention j) res errs w'))"

section \<open>Partitions by name\<close>

lemma table_runs [simp]: "tablePartition ''test_runs'' (month_partition ym) = month_partition ym"
  by (cases ym) (simp add: tablePartition_def month_partition_def partitionName_def trim_prefix_def has_prefix_def)

lemma table_cases_range [simp]: "in_partition t (tablePartition table p) = in_partition t p"
  by (simp add: in_partition_def tablePartition_def)

lemma pad4_val: "n < 10000 \<Longrightarrow> digits_val (pad4 n) = n \<and> length (pad4 n) = 4"
  by (simp add: pad4_def digits_val_append pad2_val pad2_shape)

lemma partitionName_inject:
  assumes "real_month a" "real_month b" "fst a < 10000" "fst b < 10000" "partitionName a = partitionName b"
  shows "a = b"
proof (cases a, cases b)
  fix y m y' m' assume ym: "a = (y, m)" "b = (y', m')"
  have len: "length (pad4 y) = length (pad4 y')" using assms(3,4) pad4_val ym by simp
  then have "pad4 y = pad4 y'" "pad2 m = pad2 m'" using assms(5) by (auto simp: ym partitionName_def append_eq_append_conv)
  then have "digits_val (pad4 y) = digits_val (pad4 y')" "digits_val (pad2 m) = digits_val (pad2 m')" by simp_all
  moreover have "m < 100" "m' < 100" "y < 10000" "y' < 10000" using assms(1-4) by (auto simp: ym real_month_def)
  ultimately have "y = y'" "m = m'" by (simp_all add: pad4_val pad2_val)
  then show ?thesis using ym by simp
qed

text \<open>Every partition is a month of a four-digit year, and so is the month after it.\<close>

definition months_ok :: "Database \<Rightarrow> bool" where
  "months_ok db \<longleftrightarrow> set (db_RunParts db) \<subseteq> month_partition ` {ym. real_month ym \<and> fst ym < 9999} \<and>
     set (db_CaseParts db) \<subseteq> (\<lambda>ym. tablePartition ''test_cases'' (month_partition ym)) ` {ym. real_month ym \<and> fst ym < 9999}"

lemma months_ok_property: "table_property months_ok"
  by (simp add: table_property_def months_ok_def)

lemma named_runs:
  assumes "months_ok db" "real_month ym" "fst ym < 9999" "named_ranges (pt_Name (month_partition ym)) (db_RunParts db) t"
  shows "in_partition t (month_partition ym)"
proof -
  obtain p where p: "p \<in> set (db_RunParts db)" "pt_Name p = partitionName ym" "in_partition t p"
    using assms(4) by (auto simp: named_ranges_def list_ex_iff month_partition_def)
  obtain ym' where "p = month_partition ym'" "real_month ym'" "fst ym' < 9999" using assms(1) p(1) by (auto simp: months_ok_def)
  then show ?thesis using p partitionName_inject [of ym' ym] assms(2,3) by (simp add: month_partition_def)
qed

lemma named_cases:
  assumes "months_ok db" "real_month ym" "fst ym < 9999"
    and "named_ranges (pt_Name (tablePartition ''test_cases'' (month_partition ym))) (db_CaseParts db) t"
  shows "in_partition t (month_partition ym)"
proof -
  obtain p where p: "p \<in> set (db_CaseParts db)" "pt_Name p = pt_Name (tablePartition ''test_cases'' (month_partition ym))" "in_partition t p"
    using assms(4) by (auto simp: named_ranges_def list_ex_iff)
  obtain ym' where ym': "p = tablePartition ''test_cases'' (month_partition ym')" "real_month ym'" "fst ym' < 9999"
    using assms(1) p(1) by (auto simp: months_ok_def)
  then have "partitionName ym' = partitionName ym"
    using p(2) by (cases ym; cases ym') (simp add: tablePartition_def month_partition_def partitionName_def trim_prefix_def has_prefix_def)
  then show ?thesis using p ym' partitionName_inject [of ym' ym] assms(2,3) by simp
qed

text \<open>What dropping a month leaves.\<close>

definition only_drops :: "(instant \<Rightarrow> bool) \<Rightarrow> Database \<Rightarrow> Database \<Rightarrow> bool" where
  "only_drops gone db db' \<longleftrightarrow> months_ok db' \<and>
     set (db_Runs db') \<subseteq> set (db_Runs db) \<and> (\<forall>c \<in> set (db_Runs db). \<not> gone (cl_finished_at c) \<longrightarrow> c \<in> set (db_Runs db')) \<and>
     set (db_Cases db') \<subseteq> set (db_Cases db) \<and> (\<forall>c \<in> set (db_Cases db). \<not> gone (cc_finished_at c) \<longrightarrow> c \<in> set (db_Cases db'))"

lemma only_drops_refl: "months_ok db \<Longrightarrow> only_drops gone db db"
  by (simp add: only_drops_def)

lemma only_drops_trans: "only_drops gone db db' \<Longrightarrow> only_drops gone db' db'' \<Longrightarrow> only_drops gone db db''"
  by (auto simp: only_drops_def)

lemma only_drops_faults: "only_drops gone db (db'\<lparr>db_Faults := fs\<rparr>) = only_drops gone db db'"
  by (simp add: only_drops_def months_ok_def)

lemma DropPartitions_month:
  assumes "months_ok db" "real_month ym" "fst ym < 9999" "DropPartitions [month_partition ym] db = (r, db')"
  shows "only_drops (\<lambda>t. in_partition t (month_partition ym)) db db' \<and> (r \<noteq> Inr () \<longrightarrow> db_Runs db' = db_Runs db)"
proof -
  let ?gone = "\<lambda>t. in_partition t (month_partition ym)" and ?cases = "pt_Name (tablePartition ''test_cases'' (month_partition ym))"
    and ?runs = "pt_Name (month_partition ym)"
  define f where "f = (\<lambda>db. db\<lparr>db_Cases := filter (\<lambda>c. \<not> named_ranges ?cases (db_CaseParts db) (cc_finished_at c)) (db_Cases db),
      db_CaseParts := filter (\<lambda>p. pt_Name p \<noteq> ?cases) (db_CaseParts db)\<rparr> :: Database)"
  define g where "g = (\<lambda>db. db\<lparr>db_Runs := filter (\<lambda>c. \<not> named_ranges ?runs (db_RunParts db) (cl_finished_at c)) (db_Runs db),
      db_RunParts := filter (\<lambda>p. pt_Name p \<noteq> ?runs) (db_RunParts db)\<rparr> :: Database)"
  have f: "only_drops ?gone b (f b) \<and> db_Runs (f b) = db_Runs b" if "months_ok b" for b
    using that named_cases [OF that assms(2,3)] by (auto simp: f_def only_drops_def months_ok_def)
  have g: "only_drops ?gone b (g b)" if "months_ok b" for b
    using that named_runs [OF that assms(2,3)] by (auto simp: g_def only_drops_def months_ok_def)
  have faults: "months_ok (b\<lparr>db_Faults := fs\<rparr>) = months_ok b" for b fs by (simp add: months_ok_def)
  have cmd: "command h b = (Inl StatementFailed, b\<lparr>db_Faults := tl (db_Faults b)\<rparr>) \<or> (\<exists>fs. command h b = (Inr (), h (b\<lparr>db_Faults := fs\<rparr>)))" for h b
  proof (cases "db_Faults b")
    case Nil
    then have "command h b = (Inr (), h (b\<lparr>db_Faults := []\<rparr>))" by (simp add: command_def statement_def) (metis Database.surjective Database.update_convs(8))
    then show ?thesis by blast
  qed (auto simp: command_def statement_def)
  have run: "DropPartitions [month_partition ym] db = dbind (dbind (command f) (\<lambda>_. command g)) dret db"
    by (simp add: DropPartitions_def dropPartitionTables_def Let_def f_def g_def)
  from cmd [of f db] show ?thesis
  proof
    assume "command f db = (Inl StatementFailed, db\<lparr>db_Faults := tl (db_Faults db)\<rparr>)"
    then show ?thesis using assms(1,4) by (auto simp: run dbind_def only_drops_faults only_drops_refl)
  next
    assume "\<exists>fs. command f db = (Inr (), f (db\<lparr>db_Faults := fs\<rparr>))"
    then obtain fs where 1: "command f db = (Inr (), f (db\<lparr>db_Faults := fs\<rparr>))" by blast
    let ?b = "f (db\<lparr>db_Faults := fs\<rparr>)"
    have b: "only_drops ?gone db ?b" "db_Runs ?b = db_Runs db" "months_ok ?b"
      using f [of "db\<lparr>db_Faults := fs\<rparr>"] assms(1) faults by (auto simp: only_drops_def)
    from cmd [of g ?b] show ?thesis
    proof
      assume "command g ?b = (Inl StatementFailed, ?b\<lparr>db_Faults := tl (db_Faults ?b)\<rparr>)"
      then have "r = Inl StatementFailed" "db' = ?b\<lparr>db_Faults := tl (db_Faults ?b)\<rparr>" using assms(4) 1 by (auto simp: run dbind_def)
      then show ?thesis using b by (simp add: only_drops_faults)
    next
      assume "\<exists>fs. command g ?b = (Inr (), g (?b\<lparr>db_Faults := fs\<rparr>))"
      then obtain fs' where "command g ?b = (Inr (), g (?b\<lparr>db_Faults := fs'\<rparr>))" by blast
      then have "r = Inr ()" "db' = g (?b\<lparr>db_Faults := fs'\<rparr>)" using assms(4) 1 by (auto simp: run dbind_def)
      moreover have "only_drops ?gone (?b\<lparr>db_Faults := fs'\<rparr>) (g (?b\<lparr>db_Faults := fs'\<rparr>))" using g b(3) faults by blast
      ultimately show ?thesis using b only_drops_trans [of ?gone db "?b\<lparr>db_Faults := fs'\<rparr>"] by (simp add: only_drops_faults)
    qed
  qed
qed

section \<open>Only what is old, objects first\<close>

text \<open>The objects of a run: those below its prefix.\<close>

definition object_of :: "Columns \<Rightarrow> string \<Rightarrow> bool" where
  "object_of c k \<longleftrightarrow> Valid (ForRun (cl_namespace c) (cl_uid c)) \<and> has_prefix (RunPrefix (ForRun (cl_namespace c) (cl_uid c))) k"

text \<open>
  What a pass may do to rows and objects: rows and cases are only lost when they are \<open>gone\<close>; an object is
  only lost when it belongs to a run that is \<open>gone\<close>; and a run whose row is lost has no object left.
\<close>

definition swept :: "(instant \<Rightarrow> bool) \<Rightarrow> Database \<Rightarrow> (string \<rightharpoonup> string) \<Rightarrow> Database \<Rightarrow> (string \<rightharpoonup> string) \<Rightarrow> bool" where
  "swept gone db held db' held' \<longleftrightarrow> only_drops gone db db' \<and>
     (\<forall>k. held' k = held k \<or> held' k = None \<and> (\<exists>c \<in> set (db_Runs db). gone (cl_finished_at c) \<and> object_of c k)) \<and>
     (\<forall>c \<in> set (db_Runs db) - set (db_Runs db'). \<forall>k. object_of c k \<longrightarrow> held' k = None)"

lemma swept_refl: "months_ok db \<Longrightarrow> swept gone db held db held"
  by (simp add: swept_def only_drops_refl)

lemma swept_trans:
  assumes "swept gone db held db' held'" "swept gone db' held' db'' held''"
  shows "swept gone db held db'' held''"
proof -
  have sub: "set (db_Runs db') \<subseteq> set (db_Runs db)" using assms(1) by (simp add: swept_def only_drops_def)
  have "held'' k = held k \<or> held'' k = None \<and> (\<exists>c \<in> set (db_Runs db). gone (cl_finished_at c) \<and> object_of c k)" for k
    using assms sub unfolding swept_def by (metis subsetD)
  moreover have "held'' k = None" if "c \<in> set (db_Runs db) - set (db_Runs db'')" "object_of c k" for c k
    using assms that unfolding swept_def by (metis DiffD1 DiffD2 DiffI)
  ultimately show ?thesis using assms only_drops_trans unfolding swept_def by blast
qed

lemma swept_mono: "swept gone db held db' held' \<Longrightarrow> (\<And>t. gone t \<Longrightarrow> old t) \<Longrightarrow> swept old db held db' held'"
  unfolding swept_def only_drops_def by blast

text \<open>The bounds that a partition is stored with are read back.\<close>

definition prints_utc :: "StoreDeps \<Rightarrow> bool" where
  "prints_utc d \<longleftrightarrow> (\<forall>s e. sd_BoundExpr d s e = pg_bound s e)"

lemma first_of_facts:
  assumes "real_month ym"
  shows "0 \<le> first_of ym" "fst (date_of (first_of ym div day_ns)) = fst ym" "first_of ym mod 1000000000 = 0" "pg_time (first_of ym) = first_of ym"
proof -
  obtain y m where ym: "ym = (y, m)" by (cases ym)
  have r: "1 \<le> y" "1 \<le> m" "m \<le> 12" "1 \<le> daysIn m y" using assms daysIn_pos by (auto simp: ym real_month_def Suc_le_eq)
  have pos: "0 < day_ns" by (simp add: day_ns_def)
  have first: "first_of ym = days_to y m 1 * day_ns" by (simp add: ym first_of_def month_start_def)
  have "date_of (days_to y m 1) = (y, m, 1)" using date_of_days_to r by simp
  moreover have "0 \<le> days_to y m 1"
  proof -
    define p where "p = int y - 1"
    have p: "0 \<le> p" using r(1) by (simp add: p_def)
    have "p div 100 * 100 \<le> p" using div_mult_mod_eq [of p 100] pos_mod_sign [of 100 p] by linarith
    moreover have "0 \<le> p div 100" "0 \<le> p div 4" "0 \<le> p div 400" using p by (simp_all add: pos_imp_zdiv_nonneg_iff)
    ultimately have "0 \<le> 365 * p + p div 4 - p div 100 + p div 400" using p by linarith
    then show ?thesis unfolding days_to_def Let_def p_def [symmetric] by simp
  qed
  ultimately show "0 \<le> first_of ym" "fst (date_of (first_of ym div day_ns)) = fst ym" using pos unfolding first by (simp_all add: ym)
  show "first_of ym mod 1000000000 = 0" "pg_time (first_of ym) = first_of ym" by (simp_all add: first day_ns_def pg_time_def)
qed

lemma fst_next_month: "real_month ym \<Longrightarrow> fst (next_month ym) \<le> Suc (fst ym)"
  by (cases ym) (simp add: next_month_def)

lemma bound_read_back:
  assumes "prints_utc d" "real_month ym" "fst ym < 9999"
  shows "parsePartitionBound (sd_BoundExpr d (first_of ym) (first_of (next_month ym))) = Some (first_of ym, first_of (next_month ym))"
proof -
  have "fst (next_month ym) < 10000" using fst_next_month [OF assms(2)] assms(3) by simp
  then show ?thesis
    using first_of_facts [OF assms(2)] first_of_facts [OF real_next_month [OF assms(2)]] assms(1,3)
    by (simp add: prints_utc_def parse_pg_bound)
qed

lemma set_map_filter_Some: "set (List.map_filter f xs) = {y. \<exists>x \<in> set xs. f x = Some y}"
  by (induction xs) (auto simp: List.map_filter_simps split: option.splits)

lemma ExistingPartitions_months:
  assumes "prints_utc d" "months_ok db" "ExistingPartitions d db = (Inr ps, db')"
  shows "set ps \<subseteq> month_partition ` {ym. real_month ym \<and> fst ym < 9999} \<and> months_ok db' \<and> db_Runs db' = db_Runs db \<and> db_Cases db' = db_Cases db"
proof -
  have "p' = p" if "p \<in> set (db_RunParts db)" "(case parsePartitionBound (sd_BoundExpr d (pt_Start p) (pt_End p)) of
     None \<Rightarrow> None | Some (s, e) \<Rightarrow> Some \<lparr>pt_Name = pt_Name p, pt_Start = s, pt_End = e\<rparr>) = Some p'" for p p'
  proof -
    obtain ym where "p = month_partition ym" "real_month ym" "fst ym < 9999" using assms(2) \<open>p \<in> set (db_RunParts db)\<close> by (auto simp: months_ok_def)
    then show ?thesis using that(2) bound_read_back [OF assms(1)] by (simp add: month_partition_def)
  qed
  moreover have "set ps = {p'. \<exists>p \<in> set (db_RunParts db). (case parsePartitionBound (sd_BoundExpr d (pt_Start p) (pt_End p)) of
     None \<Rightarrow> None | Some (s, e) \<Rightarrow> Some \<lparr>pt_Name = pt_Name p, pt_Start = s, pt_End = e\<rparr>) = Some p'}"
    and "months_ok db' \<and> db_Runs db' = db_Runs db \<and> db_Cases db' = db_Cases db"
    using assms(2,3) months_ok_property
    by (auto simp: ExistingPartitions_def query_def statement_def set_map_filter_Some table_property_def split: list.splits if_splits)
  ultimately have "set ps \<subseteq> set (db_RunParts db)" "months_ok db' \<and> db_Runs db' = db_Runs db \<and> db_Cases db' = db_Cases db" by auto
  then show ?thesis using assms(2) by (auto simp: months_ok_def)
qed

lemma RunsIn_month:
  assumes "real_month ym" "RunsIn (month_partition ym) db = (r, db')"
  shows "(\<exists>fs. db' = db\<lparr>db_Faults := fs\<rparr>) \<and>
    (\<forall>runs. r = Inr runs \<longrightarrow> set runs = (\<lambda>c. (cl_namespace c, cl_uid c)) ` {c \<in> set (db_Runs db). in_partition (cl_finished_at c) (month_partition ym)})"
proof -
  have "\<exists>fs. db = db\<lparr>db_Faults := fs\<rparr>" by (rule exI [of _ "db_Faults db"]) simp
  then show ?thesis
    using assms(2) first_of_facts(4) [OF assms(1)] first_of_facts(4) [OF real_next_month [OF assms(1)]]
    by (auto simp: RunsIn_def query_def statement_def in_partition_def month_partition_def split: list.splits if_splits)
qed

context blob_store
begin

lemma remove_objects_held:
  assumes "ok s" "remove_objects remove_prefix i runs s = (n, e, s')"
  shows "ok s' \<and> (\<forall>k. held s' k = held s k \<or> held s' k = None \<and> (\<exists>(ns, uid) \<in> set runs. Valid (ForRun ns uid) \<and> has_prefix (RunPrefix (ForRun ns uid)) k)) \<and>
    (e = None \<longrightarrow> (\<forall>(ns, uid) \<in> set runs. Valid (ForRun ns uid) \<longrightarrow> (\<forall>k. has_prefix (RunPrefix (ForRun ns uid)) k \<longrightarrow> held s' k = None)))"
  using assms
proof (induction runs arbitrary: i s)
  case (Cons run runs)
  obtain ns uid where run: "run = (ns, uid)" by (cases run)
  let ?keys = "ForRun ns uid"
  show ?case
  proof (cases "Valid ?keys")
    case False
    then have "remove_objects remove_prefix (Suc i) runs s = (n, e, s')" using Cons.prems(2) by (simp add: run Let_def)
    from Cons.IH [OF Cons.prems(1) this] False show ?thesis by (auto simp: run)
  next
    case True
    obtain r s1 where rm: "remove_prefix (RunPrefix ?keys) s = (r, s1)" by fastforce
    note h = remove_held [OF Cons.prems(1) rm]
    show ?thesis
    proof (cases r)
      case (Inl x)
      then show ?thesis using h rm True Cons.prems(2) by (auto simp: Let_def run)
    next
      case (Inr u)
      have h1: "ok s1" "held s1 k = (if has_prefix (RunPrefix ?keys) k then None else held s k)" for k
        using h Inr by (auto simp: restrict_map_def)
      have "remove_objects remove_prefix (Suc i) runs s1 = (n, e, s')" using Cons.prems(2) True rm Inr by (simp add: Let_def run)
      note IH = Cons.IH [OF h1(1) this]
      have IH': "ok s'" "\<And>k. held s' k = held s1 k \<or> held s' k = None \<and> (\<exists>(ns, uid) \<in> set runs. Valid (ForRun ns uid) \<and> has_prefix (RunPrefix (ForRun ns uid)) k)"
        "e = None \<longrightarrow> (\<forall>(ns, uid) \<in> set runs. Valid (ForRun ns uid) \<longrightarrow> (\<forall>k. has_prefix (RunPrefix (ForRun ns uid)) k \<longrightarrow> held s' k = None))"
        using IH True by auto
      have "held s' k = None" if "has_prefix (RunPrefix ?keys) k" for k using IH'(2) [of k] h1(2) that by auto
      moreover have "held s' k = held s k \<or> held s' k = None \<and> (\<exists>(ns, uid) \<in> set ((ns, uid) # runs). Valid (ForRun ns uid) \<and> has_prefix (RunPrefix (ForRun ns uid)) k)" for k
        using IH'(2) [of k] h1(2) [of k] True by auto
      ultimately show ?thesis using IH'(1,3) by (auto simp: run)
    qed
  qed
qed simp

lemma dropPartition_swept:
  assumes "months_ok db" "real_month ym" "fst ym < 9999" "ok s" "jb_Objects j = Some remove_prefix"
    and "dropPartition j (month_partition ym) (db, s) = (n, e, db', s')"
  shows "ok s' \<and> swept (\<lambda>t. in_partition t (month_partition ym)) db (held s) db' (held s')"
proof -
  let ?gone = "\<lambda>t. in_partition t (month_partition ym)"
  obtain r db1 where runs: "RunsIn (month_partition ym) db = (r, db1)" by fastforce
  obtain fs where db1: "db1 = db\<lparr>db_Faults := fs\<rparr>" using RunsIn_month [OF assms(2) runs] by blast
  then have ok1: "months_ok db1" using assms(1) by (simp add: months_ok_def)
  have keep: "swept ?gone db (held s) db1 (held s)" using assms(1) db1 by (auto simp: swept_def only_drops_def months_ok_def)
  show ?thesis
  proof (cases r)
    case (Inl x)
    then show ?thesis using keep assms(4-6) runs by (simp add: dropPartition_def)
  next
    case (Inr rs)
    have rs: "set rs = (\<lambda>c. (cl_namespace c, cl_uid c)) ` {c \<in> set (db_Runs db). ?gone (cl_finished_at c)}"
      using RunsIn_month [OF assms(2) runs] Inr by blast
    obtain i x s1 where rem: "remove_objects remove_prefix 0 rs s = (i, x, s1)" by (metis prod_cases3)
    note h = remove_objects_held [OF assms(4) rem]
    have lost: "held s1 k = held s k \<or> held s1 k = None \<and> (\<exists>c \<in> set (db_Runs db). ?gone (cl_finished_at c) \<and> object_of c k)" for k
      using h rs by (force simp: object_of_def)
    have empty: "held s1 k = None" if "x = None" "c \<in> set (db_Runs db)" "?gone (cl_finished_at c)" "object_of c k" for c k
      using h that rs by (force simp: object_of_def)
    have same: "swept ?gone db (held s) db1 (held s1)" using keep lost db1 by (auto simp: swept_def)
    show ?thesis
    proof (cases x)
      case (Some err)
      then show ?thesis using same h assms(5,6) runs Inr rem by (auto simp: dropPartition_def)
    next
      case None
      obtain r2 db2 where drop: "DropPartitions [month_partition ym] db1 = (r2, db2)" by fastforce
      have "db' = db2" "s' = s1" using assms(5,6) runs Inr rem None drop by (auto simp: dropPartition_def drop_rows_def split: sum.splits)
      moreover have "only_drops ?gone db1 db2" using DropPartitions_month [OF ok1 assms(2,3) drop] by simp
      then have "only_drops ?gone db db2" by (simp add: only_drops_def db1)
      moreover have "held s1 k = None" if c: "c \<in> set (db_Runs db) - set (db_Runs db2)" "object_of c k" for c k
      proof -
        have "?gone (cl_finished_at c)" using \<open>only_drops ?gone db db2\<close> c(1) by (auto simp: only_drops_def)
        then show ?thesis using empty None c by blast
      qed
      ultimately show ?thesis using lost h by (auto simp: swept_def)
    qed
  qed
qed

lemma drop_all_swept:
  assumes "\<forall>p \<in> set parts. \<exists>ym. real_month ym \<and> fst ym < 9999 \<and> p = month_partition ym \<and> (\<forall>t. in_partition t p \<longrightarrow> old t)"
    and "months_ok db" "ok s" "jb_Objects j = Some remove_prefix" "drop_all j parts res errs (db, s) = (res', errs', db', s')"
  shows "ok s' \<and> swept old db (held s) db' (held s')"
  using assms
proof (induction parts arbitrary: res errs db s)
  case (Cons p parts)
  obtain ym where ym: "real_month ym" "fst ym < 9999" "p = month_partition ym" "\<And>t. in_partition t p \<Longrightarrow> old t" using Cons.prems(1) by auto
  obtain n e db1 s1 where drop: "dropPartition j p (db, s) = (n, e, db1, s1)" by (metis prod_cases4)
  have 1: "ok s1" "swept old db (held s) db1 (held s1)"
    using dropPartition_swept [OF Cons.prems(2) ym(1,2) Cons.prems(3,4) drop [unfolded ym(3)]] swept_mono ym(3,4) by auto
  then have "months_ok db1" by (simp add: swept_def only_drops_def)
  moreover obtain res1 errs1 where "drop_all j parts res1 errs1 (db1, s1) = (res', errs', db', s')"
    using Cons.prems(5) drop by (cases e) (auto simp: Let_def)
  ultimately have "ok s'" "swept old db1 (held s1) db' (held s')" using Cons.IH [OF _ _ 1(1) Cons.prems(4)] Cons.prems(1) by auto
  then show ?case using swept_trans [OF 1(2)] by blast
qed (auto simp: swept_refl)

lemma RunOnce_swept:
  assumes "prints_utc d" "months_ok db" "ok s" "jb_Objects j = Some remove_prefix" "RunOnce d j now (db, s) = (res, errs, db', s')"
  shows "ok s' \<and> swept (\<lambda>t. t < now - jb_Retention j) db (held s) db' (held s')"
proof (cases "jb_Retention j \<le> 0")
  case True
  then show ?thesis using assms by (auto simp: RunOnce_def swept_refl)
next
  case False
  obtain r db1 where ex: "ExistingPartitions d db = (r, db1)" by fastforce
  let ?old = "\<lambda>t. t < now - jb_Retention j"
  have faults: "\<exists>fs. db1 = db\<lparr>db_Faults := fs\<rparr>"
    using ex by (auto simp: ExistingPartitions_def query_def statement_def split: list.splits if_splits)
      (metis Database.surjective Database.update_convs(8))
  then have keep: "swept ?old db (held s) db1 (held s)" using assms(2) by (auto simp: swept_def only_drops_def months_ok_def)
  show ?thesis
  proof (cases r)
    case (Inl x)
    then show ?thesis using keep False assms(3,5) ex by (simp add: RunOnce_def)
  next
    case (Inr ps)
    note months = ExistingPartitions_months [OF assms(1,2) ex [unfolded Inr]]
    obtain res1 errs1 db2 s2 where all: "drop_all j (PartitionsToDrop ps now (jb_Retention j)) no_result [] (db1, s) = (res1, errs1, db2, s2)"
      by (metis prod_cases4)
    have "\<exists>ym. real_month ym \<and> fst ym < 9999 \<and> p = month_partition ym \<and> (\<forall>t. in_partition t p \<longrightarrow> ?old t)"
      if "p \<in> set (PartitionsToDrop ps now (jb_Retention j))" for p
    proof -
      have "p \<in> month_partition ` {ym. real_month ym \<and> fst ym < 9999}" using that months by (auto simp: PartitionsToDrop_def)
      then show ?thesis using PartitionsToDrop_old [OF that] by blast
    qed
    then have parts: "\<forall>p \<in> set (PartitionsToDrop ps now (jb_Retention j)).
        \<exists>ym. real_month ym \<and> fst ym < 9999 \<and> p = month_partition ym \<and> (\<forall>t. in_partition t p \<longrightarrow> ?old t)" by (rule ballI)
    have "months_ok db1" using months by simp
    from drop_all_swept [OF parts this assms(3,4) all] have 2: "ok s2" "swept ?old db1 (held s) db2 (held s2)" by simp_all
    have "prune (now - jb_Retention j) res1 errs1 (db2, s2) = (res, errs, db', s')" using assms(5) False ex Inr all by (simp add: RunOnce_def)
    then have "s' = s2" "db_Runs db' = db_Runs db2" "db_Cases db' = db_Cases db2" "db_RunParts db' = db_RunParts db2" "db_CaseParts db' = db_CaseParts db2"
      by (auto simp: prune_def PruneAudit_def statement_def split: prod.splits sum.splits list.splits if_splits)
    then have "swept ?old db1 (held s) db' (held s')" using 2(2) by (simp add: swept_def only_drops_def months_ok_def)
    then show ?thesis using swept_trans [OF keep] 2(1) \<open>s' = s2\<close> by blast
  qed
qed

end

section \<open>The retention of the operator\<close>

text \<open>
  C21. Whatever statements and removals fail in a pass of the retention: no run, test case or object within
  the retention is lost; and a run whose row is gone has no object left in the store, so files are never
  orphaned. (The store prints the bounds of its partitions in UTC, and the years have four digits.)
\<close>

theorem retention_keeps_and_never_orphans:
  assumes "prints_utc d" "months_ok db" "fake_ok objects" "jb_Objects j = Some (FakeRemovePrefix bucket)"
    and "RunOnce d j now (db, objects) = (res, errs, db', objects')"
  shows "(\<forall>c \<in> set (db_Runs db). now - jb_Retention j \<le> cl_finished_at c \<longrightarrow> c \<in> set (db_Runs db')) \<and>
    (\<forall>c \<in> set (db_Cases db). now - jb_Retention j \<le> cc_finished_at c \<longrightarrow> c \<in> set (db_Cases db')) \<and>
    (\<forall>k. Object bucket k objects' = Object bucket k objects \<or>
       Object bucket k objects' = None \<and> (\<exists>c \<in> set (db_Runs db). cl_finished_at c < now - jb_Retention j \<and> object_of c k)) \<and>
    (\<forall>c \<in> set (db_Runs db) - set (db_Runs db'). \<forall>k. object_of c k \<longrightarrow> Object bucket k objects' = None)"
proof -
  have "swept (\<lambda>t. t < now - jb_Retention j) db (\<lambda>k. Object bucket k objects) db' (\<lambda>k. Object bucket k objects')"
    using fake.RunOnce_swept [OF assms] by simp
  then show ?thesis by (auto simp: swept_def only_drops_def not_less)
qed

definition hourly :: "Fake RetentionJob" where
  "hourly = \<lparr>jb_Objects = Some (FakeRemovePrefix ''b''), jb_Retention = 200 * day_ns\<rparr>"

definition one_object :: Fake where
  "one_object = NewFake\<lparr>fk_objects := [(''b/runs/n/u1/result.json'', ''{}'')]\<rparr>"

definition utc_deps :: StoreDeps where
  "utc_deps = plain_deps\<lparr>sd_BoundExpr := pg_bound\<rparr>"

theorem retention_keeps_and_never_orphans_witness:
  "db_Runs saved_db ! 0 \<in> set (db_Runs (fst (snd (snd (RunOnce utc_deps hourly (100 * day_ns) (saved_db, one_object)))))) \<and>
   Object ''b'' ''runs/n/u1/result.json'' (snd (snd (snd (RunOnce utc_deps hourly (100 * day_ns) (saved_db, one_object))))) = Some ''{}''"
proof -
  obtain res errs db' objects' where run: "RunOnce utc_deps hourly (100 * day_ns) (saved_db, one_object) = (res, errs, db', objects')"
    by (metis prod_cases4)
  have parts: "db_RunParts saved_db = [month_partition (1, 1)]" "db_CaseParts saved_db = [tablePartition ''test_cases'' (month_partition (1, 1))]"
    by code_simp+
  have "real_month (1, 1)" by (simp add: real_month_def)
  then have months: "months_ok saved_db" by (auto simp: months_ok_def parts)
  have utc: "prints_utc utc_deps" by (simp add: prints_utc_def utc_deps_def)
  have obj: "fake_ok one_object" by (simp add: fake_ok_def one_object_def gm_ok_def NewFake_def)
  have job: "jb_Objects hourly = Some (FakeRemovePrefix ''b'')" by (simp add: hourly_def)
  have cutoff: "100 * day_ns - jb_Retention hourly < 0" by (simp add: hourly_def day_ns_def)
  have row: "list_all (\<lambda>c. 0 \<le> cl_finished_at c) (db_Runs saved_db) \<and> db_Runs saved_db ! 0 \<in> set (db_Runs saved_db)" by code_simp
  note all = retention_keeps_and_never_orphans [OF utc months obj job run]
  have "Object ''b'' ''runs/n/u1/result.json'' one_object = Some ''{}''" by code_simp
  moreover have "\<not> (\<exists>c \<in> set (db_Runs saved_db). cl_finished_at c < 100 * day_ns - jb_Retention hourly \<and> object_of c k)" for k
    using row cutoff by (fastforce simp: list_all_iff)
  ultimately have "Object ''b'' ''runs/n/u1/result.json'' objects' = Some ''{}''" using all by metis
  moreover have "db_Runs saved_db ! 0 \<in> set (db_Runs db')" using all row cutoff by (fastforce simp: list_all_iff)
  ultimately show ?thesis by (simp add: run)
qed

end
