(* ===== verification/Dispatcher.thy ===== *)
theory Dispatcher
  imports PodStatus GoDate GoNum "HOL-Library.Multiset"
begin

text \<open>
  Outbound webhooks, \<open>src/internal/webhookdelivery\<close>: the payload, the bounded queue, the retry loop. The
  HTTP client is a parameter: what the attempt with a number meets. Waiting is a value, the list of the
  waits; counters are the list of the labels they were raised for. Channel operations are atomic, and
  the calls of \<open>Enqueue\<close> and the workers interleave between them.
\<close>

section \<open>The payload\<close>

record Payload =
  pl_Event :: string
  pl_RunName :: string
  pl_RunNamespace :: string
  pl_RunUID :: string
  pl_TestRef :: string
  pl_Source :: string
  pl_Tool :: string
  pl_Phase :: string
  pl_Message :: string
  pl_QueuedAt :: string
  pl_StartedAt :: string
  pl_FinishedAt :: string
  pl_DurationMs :: int
  pl_Metrics :: "(string, string) gomap"
  pl_TestCounts :: "TestCounts option"
  pl_ArtifactRefs :: "ArtifactRef list"
  pl_Timestamp :: string

definition format_opt :: "instant option \<Rightarrow> string" where
  "format_opt t = (case t of None \<Rightarrow> [] | Some t \<Rightarrow> formatMillis t)"

definition BuildPayload :: "string \<Rightarrow> TestRun \<Rightarrow> string \<Rightarrow> instant \<Rightarrow> Payload" where
  "BuildPayload event run tool now = (let st = r_Status run in
     \<lparr>pl_Event = event, pl_RunName = r_Name run, pl_RunNamespace = r_Namespace run, pl_RunUID = r_UID run,
      pl_TestRef = rs_TestRef (r_Spec run), pl_Source = rs_Source (r_Spec run), pl_Tool = tool, pl_Phase = phase_string (ru_Phase st),
      pl_Message = ru_Message st, pl_QueuedAt = format_opt (ru_QueuedAt st), pl_StartedAt = format_opt (ru_StartedAt st),
      pl_FinishedAt = format_opt (ru_FinishedAt st), pl_DurationMs = ru_DurationMs st, pl_Metrics = ru_Metrics st,
      pl_TestCounts = ru_TestCounts st, pl_ArtifactRefs = ru_ArtifactRefs st, pl_Timestamp = formatMillis now\<rparr>)"

text \<open>A subscriber reads the times back to the millisecond; an empty text is no time.\<close>

definition read_time :: "string \<Rightarrow> instant option" where
  "read_time s = (if s = [] then None else parseRFC3339Nano s)"

lemma read_format_opt:
  assumes "\<And>x. t = Some x \<Longrightarrow> 0 \<le> x \<and> fst (date_of (x div day_ns)) < 10000"
  shows "read_time (format_opt t) = map_option (\<lambda>x. x - x mod 1000000) t"
proof (cases t)
  case (Some x)
  have "formatMillis x \<noteq> []" by (simp add: formatMillis_def)
  then show ?thesis using parse_formatMillis [of x] assms [OF Some] Some by (simp add: read_time_def format_opt_def)
qed (simp add: read_time_def format_opt_def)

section \<open>Jobs and headers\<close>

record WebhookHeader =
  hh_Name :: string
  hh_Value :: string
  hh_SecretKeyRef :: "(string \<times> string) option"

record WebhookSpec =
  ws_URL :: string
  ws_Events :: "string list"
  ws_Headers :: "WebhookHeader list"
  ws_TimeoutSeconds :: int
  ws_MaxRetries :: int

record DeliveryJob =
  jo_Key :: "string \<times> string"
  jo_Spec :: WebhookSpec
  jo_Namespace :: string
  jo_Payload :: Payload
  jo_QueuedAt :: instant

datatype delivery_kind = OutcomeSuccess | OutcomeFailedRetry | OutcomeNoRetry4xx | OutcomeTimeout | OutcomeSecretMissing

datatype delivery_error = NoError | BadRequest | DeadlineExceeded | NetworkError | NoResolver string | SecretError string

record Outcome =
  oc_Kind :: delivery_kind
  oc_StatusCode :: int
  oc_Attempts :: nat
  oc_Err :: delivery_error

record resolvedHeader =
  rh_name :: string
  rh_value :: string
  rh_secret :: bool

type_synonym SecretResolver = "string \<Rightarrow> string \<Rightarrow> string \<Rightarrow> string option"

record Dispatcher =
  dp_Secrets :: "SecretResolver option"
  dp_QueueBuffer :: int
  dp_WorkerCount :: int
  dp_BackoffBase :: duration
  dp_BackoffMax :: duration

definition millisecond :: duration where "millisecond = 1000000"
definition DefaultMaxRetries :: int where "DefaultMaxRetries = 5"
definition DefaultTimeoutSeconds :: int where "DefaultTimeoutSeconds = 10"
definition DefaultBackoffBase :: duration where "DefaultBackoffBase = 250 * millisecond"
definition DefaultBackoffMax :: duration where "DefaultBackoffMax = 30000 * millisecond"
definition DefaultQueueBuffer :: int where "DefaultQueueBuffer = 512"
definition DefaultWorkerCount :: int where "DefaultWorkerCount = 4"
definition RedactedHeaderPlaceholder :: string where "RedactedHeaderPlaceholder = ''<redacted:secret>''"

definition dispatcherDefaults :: "Dispatcher \<Rightarrow> Dispatcher" where
  "dispatcherDefaults d = d\<lparr>
     dp_QueueBuffer := (if dp_QueueBuffer d = 0 then DefaultQueueBuffer else dp_QueueBuffer d),
     dp_WorkerCount := (if dp_WorkerCount d = 0 then DefaultWorkerCount else dp_WorkerCount d),
     dp_BackoffBase := (if dp_BackoffBase d = 0 then DefaultBackoffBase else dp_BackoffBase d),
     dp_BackoffMax := (if dp_BackoffMax d = 0 then DefaultBackoffMax else dp_BackoffMax d)\<rparr>"

definition resolve_header :: "Dispatcher \<Rightarrow> string \<Rightarrow> WebhookHeader \<Rightarrow> (delivery_error, resolvedHeader) result" where
  "resolve_header d ns h = (case hh_SecretKeyRef h of
     None \<Rightarrow> Inr \<lparr>rh_name = hh_Name h, rh_value = hh_Value h, rh_secret = False\<rparr>
   | Some (secret, key) \<Rightarrow> (case dp_Secrets d of
       None \<Rightarrow> Inl (NoResolver (hh_Name h))
     | Some resolve \<Rightarrow> (case resolve ns secret key of
         None \<Rightarrow> Inl (SecretError (hh_Name h))
       | Some v \<Rightarrow> Inr \<lparr>rh_name = hh_Name h, rh_value = v, rh_secret = True\<rparr>)))"

definition resolveHeaders :: "Dispatcher \<Rightarrow> DeliveryJob \<Rightarrow> (delivery_error, resolvedHeader list) result" where
  "resolveHeaders d j = rmap (resolve_header d (jo_Namespace j)) (ws_Headers (jo_Spec j))"

definition redactHeaders :: "resolvedHeader list \<Rightarrow> resolvedHeader list" where
  "redactHeaders hs = map (\<lambda>h. if rh_secret h then h\<lparr>rh_value := RedactedHeaderPlaceholder\<rparr> else h) hs"

text \<open>What is logged of the headers does not depend on the value of a secret.\<close>

lemma redacted_independent:
  assumes "list_all2 (\<lambda>h h'. rh_name h = rh_name h' \<and> rh_secret h = rh_secret h' \<and> (rh_secret h \<or> rh_value h = rh_value h')) hs hs'"
  shows "redactHeaders hs = redactHeaders hs'"
  using assms by (induction rule: list_all2_induct) (auto simp: redactHeaders_def intro: resolvedHeader.equality)

section \<open>Delivery\<close>

datatype http_result = Response int | TimedOut | Unreachable

definition CodeClass :: "int \<Rightarrow> string" where
  "CodeClass code = (if code = 0 then ''err'' else if 200 \<le> code \<and> code < 300 then ''2xx'' else if 300 \<le> code \<and> code < 400 then ''3xx''
     else if 400 \<le> code \<and> code < 500 then ''4xx'' else if 500 \<le> code \<and> code < 600 then ''5xx'' else ''err'')"

definition next_backoff :: "duration \<Rightarrow> duration \<Rightarrow> duration" where
  "next_backoff backoffMax current = (let doubled = wrap64 (current * 2) in if backoffMax < doubled then backoffMax else doubled)"

text \<open>
  The loop from attempt \<open>attempt\<close> with \<open>left\<close> retries left: the outcome, the waits and the labels of the
  delivery counter.
\<close>

fun deliver_loop :: "(nat \<Rightarrow> http_result) \<Rightarrow> duration \<Rightarrow> nat \<Rightarrow> nat \<Rightarrow> duration \<Rightarrow> Outcome \<times> duration list \<times> string list" where
  "deliver_loop http backoffMax left attempt backoff =
     (case http attempt of
        Response code \<Rightarrow>
          if 200 \<le> code \<and> code < 300 then (\<lparr>oc_Kind = OutcomeSuccess, oc_StatusCode = code, oc_Attempts = attempt, oc_Err = NoError\<rparr>, [], [CodeClass code])
          else if 400 \<le> code \<and> code < 500 then (\<lparr>oc_Kind = OutcomeNoRetry4xx, oc_StatusCode = code, oc_Attempts = attempt, oc_Err = NoError\<rparr>, [], [CodeClass code])
          else (case left of
            0 \<Rightarrow> (\<lparr>oc_Kind = OutcomeFailedRetry, oc_StatusCode = code, oc_Attempts = attempt, oc_Err = NoError\<rparr>, [], [CodeClass code])
          | Suc n \<Rightarrow> (case deliver_loop http backoffMax n (Suc attempt) (next_backoff backoffMax backoff) of
              (o', ws, ls) \<Rightarrow> (o', backoff # ws, CodeClass code # ls)))
      | failure \<Rightarrow> (case left of
            0 \<Rightarrow> (if failure = TimedOut then \<lparr>oc_Kind = OutcomeTimeout, oc_StatusCode = 0, oc_Attempts = attempt, oc_Err = DeadlineExceeded\<rparr>
                  else \<lparr>oc_Kind = OutcomeFailedRetry, oc_StatusCode = 0, oc_Attempts = attempt, oc_Err = NetworkError\<rparr>, [], [CodeClass 0])
          | Suc n \<Rightarrow> (case deliver_loop http backoffMax n (Suc attempt) (next_backoff backoffMax backoff) of
              (o', ws, ls) \<Rightarrow> (o', backoff # ws, CodeClass 0 # ls))))"

declare deliver_loop.simps [simp del]

definition max_retries :: "DeliveryJob \<Rightarrow> nat" where
  "max_retries j = nat (if ws_MaxRetries (jo_Spec j) < 0 then DefaultMaxRetries else ws_MaxRetries (jo_Spec j))"

definition attempt_timeout :: "DeliveryJob \<Rightarrow> duration" where
  "attempt_timeout j = (let t = ws_TimeoutSeconds (jo_Spec j) * 1000 * millisecond in if t \<le> 0 then DefaultTimeoutSeconds * 1000 * millisecond else t)"

text \<open>\<open>request_ok\<close>: the URL makes a request.\<close>

definition deliver :: "(string \<Rightarrow> bool) \<Rightarrow> Dispatcher \<Rightarrow> (duration \<Rightarrow> nat \<Rightarrow> http_result) \<Rightarrow> DeliveryJob \<Rightarrow> Outcome \<times> duration list \<times> string list" where
  "deliver request_ok d http j = (case resolveHeaders d j of
     Inl e \<Rightarrow> (\<lparr>oc_Kind = OutcomeSecretMissing, oc_StatusCode = 0, oc_Attempts = 0, oc_Err = e\<rparr>, [], [])
   | Inr _ \<Rightarrow> if \<not> request_ok (ws_URL (jo_Spec j))
       then (\<lparr>oc_Kind = OutcomeFailedRetry, oc_StatusCode = 0, oc_Attempts = 1, oc_Err = BadRequest\<rparr>, [], [])
       else deliver_loop (http (attempt_timeout j)) (dp_BackoffMax d) (max_retries j) 1 (dp_BackoffBase d))"

subsection \<open>The outcome and the waits\<close>

definition decisive :: "http_result \<Rightarrow> bool" where
  "decisive r = (case r of Response code \<Rightarrow> (200 \<le> code \<and> code < 300) \<or> (400 \<le> code \<and> code < 500) | _ \<Rightarrow> False)"

definition status_of :: "http_result \<Rightarrow> int" where
  "status_of r = (case r of Response code \<Rightarrow> code | _ \<Rightarrow> 0)"

definition kind_of :: "http_result \<Rightarrow> delivery_kind" where
  "kind_of r = (case r of TimedOut \<Rightarrow> OutcomeTimeout | Unreachable \<Rightarrow> OutcomeFailedRetry
     | Response code \<Rightarrow> if 200 \<le> code \<and> code < 300 then OutcomeSuccess
         else if 400 \<le> code \<and> code < 500 then OutcomeNoRetry4xx else OutcomeFailedRetry)"

definition attempts_spec :: "(nat \<Rightarrow> http_result) \<Rightarrow> (nat \<Rightarrow> duration) \<Rightarrow> nat \<Rightarrow> nat \<Rightarrow> Outcome \<times> duration list \<times> string list \<Rightarrow> bool" where
  "attempts_spec http wait first left res = (case res of (out, waits, labels) \<Rightarrow> let n = oc_Attempts out in
     first \<le> n \<and> n \<le> first + left \<and> (\<forall>i\<in>{first..<n}. \<not> decisive (http i)) \<and> (decisive (http n) \<or> n = first + left)
     \<and> oc_Kind out = kind_of (http n) \<and> oc_StatusCode out = status_of (http n)
     \<and> waits = map wait [0..<n - first] \<and> labels = map (\<lambda>i. CodeClass (status_of (http i))) [first..<Suc n])"

lemma deliver_loop_last:
  assumes "decisive (http a) \<or> left = 0"
  shows "\<exists>e. deliver_loop http bm left a b =
    (\<lparr>oc_Kind = kind_of (http a), oc_StatusCode = status_of (http a), oc_Attempts = a, oc_Err = e\<rparr>, [], [CodeClass (status_of (http a))])"
  using assms by (subst deliver_loop.simps) (auto simp: decisive_def kind_of_def status_of_def split: http_result.splits nat.splits)

lemma deliver_loop_again:
  assumes "\<not> decisive (http a)"
  shows "deliver_loop http bm (Suc n) a b = (case deliver_loop http bm n (Suc a) (next_backoff bm b) of
    (out, ws, ls) \<Rightarrow> (out, b # ws, CodeClass (status_of (http a)) # ls))"
  using assms by (subst deliver_loop.simps) (auto simp: decisive_def status_of_def split: http_result.splits nat.splits prod.splits)

lemma attempts_spec_shift:
  assumes spec: "attempts_spec http (\<lambda>i. wait (Suc i)) (Suc a) n (out, ws, ls)" and a: "\<not> decisive (http a)"
  shows "attempts_spec http wait a (Suc n) (out, wait 0 # ws, CodeClass (status_of (http a)) # ls)"
proof -
  have n: "Suc a \<le> oc_Attempts out" using spec by (simp add: attempts_spec_def Let_def)
  then have "[0..<oc_Attempts out - a] = 0 # map Suc [0..<oc_Attempts out - Suc a]"
    by (metis Suc_diff_Suc Suc_le_eq map_Suc_upt upt_conv_Cons zero_less_Suc)
  moreover have "{a..<oc_Attempts out} = insert a {Suc a..<oc_Attempts out}" using n by auto
  moreover have "[a..<Suc (oc_Attempts out)] = a # [Suc a..<Suc (oc_Attempts out)]" using n by (simp add: upt_conv_Cons del: upt_Suc)
  ultimately show ?thesis using spec a n by (simp add: attempts_spec_def Let_def del: upt_Suc)
qed

lemma deliver_loop_spec: "attempts_spec http (\<lambda>i. (next_backoff bm ^^ i) b) a left (deliver_loop http bm left a b)"
proof (induction left arbitrary: a b)
  case 0
  then show ?case using deliver_loop_last [of http a 0 bm b] by (auto simp: attempts_spec_def)
next
  case (Suc n)
  show ?case
  proof (cases "decisive (http a)")
    case True
    then show ?thesis using deliver_loop_last [of http a "Suc n" bm b] by (auto simp: attempts_spec_def)
  next
    case False
    obtain out ws ls where r: "deliver_loop http bm n (Suc a) (next_backoff bm b) = (out, ws, ls)" using prod_cases3 by blast
    have "attempts_spec http (\<lambda>i. (next_backoff bm ^^ Suc i) b) (Suc a) n (out, ws, ls)"
      using Suc.IH [of "next_backoff bm b" "Suc a"] by (simp add: r funpow_Suc_right del: funpow.simps)
    from attempts_spec_shift [OF this False] show ?thesis by (simp add: deliver_loop_again [of http a, OF False] r)
  qed
qed

lemma next_backoff_doubles:
  assumes "0 < x" "x \<le> bm" "bm < 2 ^ 62"
  shows "next_backoff bm x = min (2 * x) bm"
proof -
  have "wrap64 (x * 2) = 2 * x" using assms by (subst wrap64_small) auto
  then show ?thesis by (auto simp: next_backoff_def min_def)
qed

lemma backoff_pow:
  assumes "0 < b" "b \<le> bm" "bm < 2 ^ 62"
  shows "(next_backoff bm ^^ i) b = min (b * 2 ^ i) bm"
proof (induction i)
  case (Suc i)
  have "0 < min (b * 2 ^ i) bm" using assms by simp
  then have "next_backoff bm (min (b * 2 ^ i) bm) = min (2 * min (b * 2 ^ i) bm) bm" using assms by (intro next_backoff_doubles) auto
  also have "\<dots> = min (b * 2 ^ Suc i) bm" using assms by (auto simp: min_def)
  finally show ?case using Suc by simp
qed (use assms in simp)

lemma attempts_spec_waits:
  assumes "attempts_spec http w a left res" "\<And>i. w i = w' i"
  shows "attempts_spec http w' a left res"
proof -
  have "w = w'" using assms(2) by blast
  then show ?thesis using assms(1) by simp
qed

section \<open>The queue\<close>

text \<open>
  \<open>Enqueue\<close> is three channel operations, each atomic: send, receive one (the oldest) when the send would
  block, send again; each falls through when it would block. Calls in progress are a list, each at its
  next operation; workers receive in between. \<open>qs_dropped\<close> collects what is received and thrown away, or
  not sent by the second send.
\<close>

datatype enqueue_pc = TrySend | DropOldest | SendAgain

record 'j queue_state =
  qs_jobs :: "'j list"
  qs_calls :: "(enqueue_pc \<times> 'j) list"
  qs_taken :: "'j list"
  qs_dropped :: "'j list"

datatype 'j queue_action = Call 'j | Continue nat | Take

definition enqueue_op :: "nat \<Rightarrow> enqueue_pc \<times> 'j \<Rightarrow> 'j list \<Rightarrow> 'j list \<times> (enqueue_pc \<times> 'j) list \<times> 'j list" where
  "enqueue_op cap c q = (case c of
     (TrySend, j) \<Rightarrow> if length q < cap then (q @ [j], [], []) else (q, [(DropOldest, j)], [])
   | (DropOldest, j) \<Rightarrow> (case q of [] \<Rightarrow> ([], [(SendAgain, j)], []) | x # q' \<Rightarrow> (q', [(SendAgain, j)], [x]))
   | (SendAgain, j) \<Rightarrow> if length q < cap then (q @ [j], [], []) else (q, [], [j]))"

definition queue_step :: "nat \<Rightarrow> 'j queue_action \<Rightarrow> 'j queue_state \<Rightarrow> 'j queue_state" where
  "queue_step cap a s = (case a of
     Call j \<Rightarrow> s\<lparr>qs_calls := qs_calls s @ [(TrySend, j)]\<rparr>
   | Take \<Rightarrow> (case qs_jobs s of [] \<Rightarrow> s | x # q \<Rightarrow> s\<lparr>qs_jobs := q, qs_taken := qs_taken s @ [x]\<rparr>)
   | Continue i \<Rightarrow> if length (qs_calls s) \<le> i then s
       else (case enqueue_op cap (qs_calls s ! i) (qs_jobs s) of (q, cs, ds) \<Rightarrow>
         s\<lparr>qs_jobs := q, qs_calls := take i (qs_calls s) @ cs @ drop (Suc i) (qs_calls s), qs_dropped := qs_dropped s @ ds\<rparr>))"

definition queue_init :: "'j queue_state" where
  "queue_init = \<lparr>qs_jobs = [], qs_calls = [], qs_taken = [], qs_dropped = []\<rparr>"

definition queue_run :: "nat \<Rightarrow> 'j queue_action list \<Rightarrow> 'j queue_state" where
  "queue_run cap acts = fold (queue_step cap) acts queue_init"

definition calls_of :: "'j queue_action list \<Rightarrow> 'j list" where
  "calls_of acts = concat (map (\<lambda>a. case a of Call j \<Rightarrow> [j] | _ \<Rightarrow> []) acts)"

text \<open>A call that nothing interrupts.\<close>

definition EnqueueJob :: "nat \<Rightarrow> 'j \<Rightarrow> 'j list \<Rightarrow> 'j list" where
  "EnqueueJob cap j q = (case enqueue_op cap (TrySend, j) q of
     (q1, [], _) \<Rightarrow> q1
   | (q1, c # _, _) \<Rightarrow> (case enqueue_op cap c q1 of
       (q2, [], _) \<Rightarrow> q2
     | (q2, c' # _, _) \<Rightarrow> fst (enqueue_op cap c' q2)))"

definition queue_held :: "'j queue_state \<Rightarrow> 'j multiset" where
  "queue_held s = mset (qs_jobs s) + mset (map snd (qs_calls s)) + mset (qs_taken s) + mset (qs_dropped s)"

lemma enqueue_op_keeps:
  assumes "enqueue_op cap c q = (q', cs, ds)" "length q \<le> cap"
  shows "length q' \<le> cap" "mset q' + mset (map snd cs) + mset ds = add_mset (snd c) (mset q)"
  using assms by (cases c; cases "fst c"; auto simp: enqueue_op_def split: if_splits list.splits)+

lemma mset_split_at:
  assumes "i < length xs"
  shows "mset xs = add_mset (xs ! i) (mset (take i xs @ drop (Suc i) xs))"
  using assms by (metis id_take_nth_drop mset.simps(2) mset_append union_mset_add_mset_right)

lemma queue_step_bound: "length (qs_jobs s) \<le> cap \<Longrightarrow> length (qs_jobs (queue_step cap a s)) \<le> cap"
  by (auto simp: queue_step_def split: queue_action.splits list.splits prod.splits dest: enqueue_op_keeps(1))

lemma queue_step_held:
  assumes "length (qs_jobs s) \<le> cap"
  shows "queue_held (queue_step cap a s) = mset (calls_of [a]) + queue_held s"
proof (cases a)
  case (Continue i)
  show ?thesis
  proof (cases "i < length (qs_calls s)")
    case True
    obtain q cs ds where op: "enqueue_op cap (qs_calls s ! i) (qs_jobs s) = (q, cs, ds)" using prod_cases3 by blast
    have calls: "mset (map snd (qs_calls s)) = add_mset (snd (qs_calls s ! i)) (mset (map snd (take i (qs_calls s) @ drop (Suc i) (qs_calls s))))"
      using arg_cong [OF mset_split_at [OF True], of "image_mset snd"] by simp
    have "mset q + mset (map snd cs) + mset ds = add_mset (snd (qs_calls s ! i)) (mset (qs_jobs s))"
      by (rule enqueue_op_keeps(2) [OF op assms])
    then show ?thesis using True Continue calls by (simp add: queue_step_def queue_held_def calls_of_def op ac_simps)
  qed (use Continue in \<open>simp add: queue_step_def calls_of_def\<close>)
qed (auto simp: queue_step_def queue_held_def calls_of_def split: list.splits)

lemma queue_fold:
  assumes "length (qs_jobs s) \<le> cap"
  shows "length (qs_jobs (fold (queue_step cap) acts s)) \<le> cap \<and> queue_held (fold (queue_step cap) acts s) = mset (calls_of acts) + queue_held s"
  using assms
proof (induction acts arbitrary: s)
  case (Cons a acts)
  have "calls_of (a # acts) = calls_of [a] @ calls_of acts" by (simp add: calls_of_def)
  then show ?case using Cons.IH [OF queue_step_bound [OF Cons.prems, of a]] queue_step_held [OF Cons.prems, of a] by simp
qed (simp add: calls_of_def)

section \<open>What is delivered\<close>

text \<open>
  C28. A delivery whose headers resolve and whose URL makes a request: at most \<open>maxRetries + 1\<close> attempts are
  made (six when the number is negative); the first answer with a 2xx or 4xx code ends the delivery with
  that answer, and only then are there fewer attempts; otherwise the last attempt decides between timeout
  and failure. Between two attempts the wait doubles from the base up to the bound, and every attempt is
  counted once under the class of its own code. When a header does not resolve nothing is sent, waited
  for or counted.
\<close>

theorem delivery_exact:
  assumes "request_ok (ws_URL (jo_Spec j))" "0 < dp_BackoffBase d" "dp_BackoffBase d \<le> dp_BackoffMax d" "dp_BackoffMax d < 2 ^ 62"
  shows "case resolveHeaders d j of
      Inl e \<Rightarrow> deliver request_ok d http j = (\<lparr>oc_Kind = OutcomeSecretMissing, oc_StatusCode = 0, oc_Attempts = 0, oc_Err = e\<rparr>, [], [])
    | Inr hs \<Rightarrow> attempts_spec (http (attempt_timeout j)) (\<lambda>i. min (dp_BackoffBase d * 2 ^ i) (dp_BackoffMax d)) 1
        (if ws_MaxRetries (jo_Spec j) < 0 then 5 else nat (ws_MaxRetries (jo_Spec j))) (deliver request_ok d http j)"
proof (cases "resolveHeaders d j")
  case (Inr hs)
  have "max_retries j = (if ws_MaxRetries (jo_Spec j) < 0 then 5 else nat (ws_MaxRetries (jo_Spec j)))"
    by (simp add: max_retries_def DefaultMaxRetries_def)
  then show ?thesis
    using attempts_spec_waits [OF deliver_loop_spec backoff_pow] assms Inr by (simp add: deliver_def)
qed (simp add: deliver_def)

definition sample_delivery :: DeliveryJob where
  "sample_delivery = \<lparr>jo_Key = (''ns'', ''hook''),
     jo_Spec = \<lparr>ws_URL = ''https://x'', ws_Events = [''run.finished''], ws_Headers = [\<lparr>hh_Name = ''Authorization'', hh_Value = [], hh_SecretKeyRef = Some (''tok'', ''v'')\<rparr>],
       ws_TimeoutSeconds = 0, ws_MaxRetries = 3\<rparr>,
     jo_Namespace = ''ns'',
     jo_Payload = \<lparr>pl_Event = ''run.finished'', pl_RunName = ''r'', pl_RunNamespace = ''ns'', pl_RunUID = ''u'', pl_TestRef = ''t'', pl_Source = ''manual'',
       pl_Tool = ''k6'', pl_Phase = ''passed'', pl_Message = [], pl_QueuedAt = [], pl_StartedAt = [], pl_FinishedAt = [], pl_DurationMs = 0,
       pl_Metrics = [], pl_TestCounts = None, pl_ArtifactRefs = [], pl_Timestamp = []\<rparr>,
     jo_QueuedAt = 0\<rparr>"

definition sample_dispatcher :: Dispatcher where
  "sample_dispatcher = dispatcherDefaults \<lparr>dp_Secrets = Some (\<lambda>ns s k. if s = ''tok'' then Some ''secret'' else None),
     dp_QueueBuffer = 0, dp_WorkerCount = 0, dp_BackoffBase = 0, dp_BackoffMax = 0\<rparr>"

definition sample_answers :: "duration \<Rightarrow> nat \<Rightarrow> http_result" where
  "sample_answers t i = (if i = 1 then TimedOut else if i = 2 then Response 503 else Response 204)"

lemma sample_resolved: "\<exists>hs. resolveHeaders sample_dispatcher sample_delivery = Inr hs"
  by (simp add: sample_dispatcher_def sample_delivery_def dispatcherDefaults_def resolveHeaders_def resolve_header_def)

lemma sample_backoff: "dp_BackoffBase sample_dispatcher = 250000000" "dp_BackoffMax sample_dispatcher = 30000000000"
  by (simp_all add: sample_dispatcher_def dispatcherDefaults_def DefaultBackoffBase_def DefaultBackoffMax_def millisecond_def)

theorem delivery_exact_witness:
  "attempts_spec (sample_answers (attempt_timeout sample_delivery)) (\<lambda>i. min (250000000 * 2 ^ i) 30000000000) 1 3
     (deliver (\<lambda>u. u = ''https://x'') sample_dispatcher sample_answers sample_delivery)
   \<and> oc_Attempts (fst (deliver (\<lambda>u. u = ''https://x'') sample_dispatcher sample_answers sample_delivery)) = 3"
proof -
  have job: "jo_Spec sample_delivery = \<lparr>ws_URL = ''https://x'', ws_Events = [''run.finished''],
      ws_Headers = [\<lparr>hh_Name = ''Authorization'', hh_Value = [], hh_SecretKeyRef = Some (''tok'', ''v'')\<rparr>], ws_TimeoutSeconds = 0, ws_MaxRetries = 3\<rparr>"
    by (simp add: sample_delivery_def)
  have spec: "attempts_spec (sample_answers (attempt_timeout sample_delivery)) (\<lambda>i. min (250000000 * 2 ^ i) 30000000000) 1 3
     (deliver (\<lambda>u. u = ''https://x'') sample_dispatcher sample_answers sample_delivery)"
    using delivery_exact [of "\<lambda>u. u = ''https://x''" sample_delivery sample_dispatcher sample_answers] sample_resolved
    by (auto simp: sample_backoff job)
  have attempts: "decisive (sample_answers t i) \<longleftrightarrow> i \<noteq> 1 \<and> i \<noteq> 2" for t i by (simp add: sample_answers_def decisive_def)
  obtain out ws ls where r: "deliver (\<lambda>u. u = ''https://x'') sample_dispatcher sample_answers sample_delivery = (out, ws, ls)" using prod_cases3 by blast
  from spec [unfolded r attempts_spec_def] have n: "1 \<le> oc_Attempts out" "oc_Attempts out \<le> 4" "\<forall>i\<in>{1..<oc_Attempts out}. i = 1 \<or> i = 2"
    "(oc_Attempts out \<noteq> 1 \<and> oc_Attempts out \<noteq> 2) \<or> oc_Attempts out = 4"
    by (auto simp: Let_def attempts)
  have "oc_Attempts out \<noteq> 4" using n(3) by force
  then have "oc_Attempts out = 3" using n by linarith
  with spec r show ?thesis by simp
qed

text \<open>
  C29. However the calls of \<open>Enqueue\<close> and the workers interleave, the queue never holds more than its
  capacity, and every job handed in is exactly once still being handed in, queued, taken by a worker or
  dropped. A call that nothing interrupts appends its job and, when the queue was full, loses the oldest
  and nothing else.
\<close>

theorem queue_conserves_jobs:
  "let s = queue_run cap acts in
     length (qs_jobs s) \<le> cap
     \<and> mset (qs_jobs s) + mset (map snd (qs_calls s)) + mset (qs_taken s) + mset (qs_dropped s) = mset (calls_of acts)
     \<and> EnqueueJob cap j (qs_jobs s) = (if length (qs_jobs s) < cap then qs_jobs s @ [j] else if cap = 0 then [] else tl (qs_jobs s) @ [j])"
proof -
  have run: "length (qs_jobs (queue_run cap acts)) \<le> cap" "queue_held (queue_run cap acts) = mset (calls_of acts)"
    using queue_fold [of queue_init cap acts] by (simp_all add: queue_run_def) (simp_all add: queue_init_def queue_held_def)
  have "EnqueueJob cap j q = (if length q < cap then q @ [j] else if cap = 0 then [] else tl q @ [j])" if "length q \<le> cap" for q
    using that by (cases q) (auto simp: EnqueueJob_def enqueue_op_def)
  with run show ?thesis by (simp add: queue_held_def Let_def)
qed

text \<open>
  Interrupted, a call can lose both the oldest job and its own: the place it freed is taken by the first
  send of another call, and its second send falls through.
\<close>

lemma enqueue_race:
  "queue_run 1 [Call a, Continue 0, Call b, Continue 0, Continue 0, Call c, Continue 1, Continue 0]
     = \<lparr>qs_jobs = [c], qs_calls = [], qs_taken = [], qs_dropped = [a, b]\<rparr>"
  by (simp add: queue_run_def queue_init_def queue_step_def enqueue_op_def)

end
