(* ===== verification/Junit.thy ===== *)
theory Junit
  imports History Storage
begin

text \<open>
  JUnit reports: \<open>src/internal/scraper/junit.go\<close> (recognising, counting and listing the cases of one
  report) and \<open>src/pkg/verdict/junit\<close> (the counts of all reports below a directory). Decoding XML into
  the Go structures is a parameter, one function for each root element the code asks for; so are the
  glob library and what the files hold. The counts are unbounded integers.
\<close>

section \<open>The decoded report\<close>

record junitResult =
  jr_Message :: string
  jr_Type :: string
  jr_Text :: string

record junitCase =
  jc_Name :: string
  jc_Classname :: string
  jc_Time :: string
  jc_File :: string
  jc_Skipped :: "junitResult option"
  jc_Failure :: "junitResult option"
  jc_Errored :: "junitResult option"

datatype junitSuite = JunitSuite (su_Name: string) (su_Tests: int) (su_Failures: int) (su_Errors: int) (su_Skipped: int)
  (su_Cases: "junitCase list") (su_Nested: "junitSuite list")

record junitSuites =
  ts_Suites :: "junitSuite list"
  ts_Cases :: "junitCase list"

record XmlDecoder =
  xd_suites :: "string \<Rightarrow> junitSuites option"
  xd_suite :: "string \<Rightarrow> junitSuite option"

section \<open>Counting\<close>

definition no_counts :: TestCounts where
  "no_counts = \<lparr>tc_Total = 0, tc_Passed = 0, tc_Failed = 0, tc_Skipped = 0\<rparr>"

definition count_case :: "junitCase \<Rightarrow> TestCounts \<Rightarrow> TestCounts" where
  "count_case c t = (let t = t\<lparr>tc_Total := tc_Total t + 1\<rparr>
     in if jc_Failure c \<noteq> None \<or> jc_Errored c \<noteq> None then t\<lparr>tc_Failed := tc_Failed t + 1\<rparr>
        else if jc_Skipped c \<noteq> None then t\<lparr>tc_Skipped := tc_Skipped t + 1\<rparr>
        else t\<lparr>tc_Passed := tc_Passed t + 1\<rparr>)"

definition countCases :: "junitCase list \<Rightarrow> TestCounts \<Rightarrow> TestCounts" where
  "countCases cs t = fold count_case cs t"

definition summarised :: "junitSuite \<Rightarrow> bool" where
  "summarised s \<longleftrightarrow> 0 < su_Tests s \<or> 0 < su_Failures s \<or> 0 < su_Errors s \<or> 0 < su_Skipped s"

fun countSuite :: "junitSuite \<Rightarrow> TestCounts \<Rightarrow> TestCounts" and countSuites :: "junitSuite list \<Rightarrow> TestCounts \<Rightarrow> TestCounts" where
  "countSuite (JunitSuite name tests failures errors skipped cs nested) t =
     (let s = JunitSuite name tests failures errors skipped cs nested
      in countSuites nested
        (if summarised s then t\<lparr>tc_Total := tc_Total t + tests, tc_Failed := tc_Failed t + (failures + errors),
           tc_Skipped := tc_Skipped t + skipped, tc_Passed := tc_Passed t + (tests - failures - errors - skipped)\<rparr>
         else countCases cs t))"
| "countSuites [] t = t"
| "countSuites (s # ss) t = countSuites ss (countSuite s t)"

definition aggregate :: "junitSuite list \<Rightarrow> junitCase list \<Rightarrow> TestCounts" where
  "aggregate suites topLevelCases = countSuites suites (countCases topLevelCases no_counts)"

section \<open>Cases\<close>

definition ellipsis :: string where "ellipsis = [CHR 0xE2, CHR 0x80, CHR 0xA6]"

text \<open>From \<open>cut\<close> back to the start of a rune.\<close>

fun rune_start :: "string \<Rightarrow> nat \<Rightarrow> nat" where
  "rune_start s 0 = 0"
| "rune_start s (Suc n) = (if cont_byte (s ! Suc n) then rune_start s n else Suc n)"

definition truncate_text :: "string \<Rightarrow> nat \<Rightarrow> string" where
  "truncate_text s limit = (if length s \<le> limit then s else take (rune_start s (limit - length ellipsis)) s @ ellipsis)"

definition MaxScrapedCases :: nat where "MaxScrapedCases = 5000"
definition MaxCaseMessageLen :: nat where "MaxCaseMessageLen = 1024"
definition MaxCaseDetailsLen :: nat where "MaxCaseDetailsLen = 4096"

text \<open>
  \<open>int64(math.Round(sec * 1000))\<close>: the product is rounded to a float64, half a millisecond rounds away
  from zero; out of range the conversion gives the smallest number, as on amd64.
\<close>

definition seconds_to_ms :: "rat \<Rightarrow> int" where
  "seconds_to_ms sec = (case to_float64 (sec * 1000) of
     Some (Finite x) \<Rightarrow> let n = \<lfloor>x + 1 / 2\<rfloor> in if n < 2 ^ 63 then n else - (2 ^ 63)
   | _ \<Rightarrow> - (2 ^ 63))"

definition case_duration :: "string \<Rightarrow> int" where
  "case_duration time = (case ParseFloat (filter (\<lambda>c. c \<noteq> CHR '','') time) of
     Some (Finite sec) \<Rightarrow> if 0 < sec then seconds_to_ms sec else 0
   | Some (Infinite False) \<Rightarrow> - (2 ^ 63)
   | _ \<Rightarrow> 0)"

definition case_result :: "junitCase \<Rightarrow> string \<times> junitResult option" where
  "case_result c = (if jc_Failure c \<noteq> None then (''failed'', jc_Failure c) else if jc_Errored c \<noteq> None then (''error'', jc_Errored c)
     else if jc_Skipped c \<noteq> None then (''skipped'', jc_Skipped c) else (''passed'', None))"

definition toTestCase :: "string \<Rightarrow> junitCase \<Rightarrow> TestCase" where
  "toTestCase suite c =
     (case case_result c of (status, res) \<Rightarrow>
        \<lparr>ca_Suite = trim_space suite, ca_Class = trim_space (jc_Classname c), ca_Name = trim_space (jc_Name c), ca_Status = status,
         ca_DurationMs = case_duration (jc_Time c),
         ca_Message = (case res of None \<Rightarrow> [] | Some r \<Rightarrow> let msg = trim_space (jr_Message r)
           in truncate_text (if msg = [] then trim_space (jr_Type r) else msg) MaxCaseMessageLen),
         ca_Details = (case res of None \<Rightarrow> [] | Some r \<Rightarrow> truncate_text (trim_space (jr_Text r)) MaxCaseDetailsLen),
         ca_File = jc_File c\<rparr>)"

fun walk_suite :: "junitSuite \<Rightarrow> TestCase list" and walk_suites :: "junitSuite list \<Rightarrow> TestCase list" where
  "walk_suite (JunitSuite name _ _ _ _ cs nested) = map (toTestCase name) cs @ walk_suites nested"
| "walk_suites [] = []"
| "walk_suites (s # ss) = walk_suite s @ walk_suites ss"

definition collectCases :: "junitSuite list \<Rightarrow> junitCase list \<Rightarrow> TestCase list" where
  "collectCases suites topLevel = map (toTestCase []) topLevel @ walk_suites suites"

section \<open>One report\<close>

definition MaxJUnitFileBytes :: nat where "MaxJUnitFileBytes = 10 * 1024 * 1024"

definition IsProbablyJUnit :: "string \<Rightarrow> bool" where
  "IsProbablyJUnit head =
     (let s = trim_space head;
          s = (if has_prefix ''<?xml'' s
               then (case index_of ''?>'' s of Some end \<Rightarrow> if 0 < end then trim_space (drop (end + 2) s) else s | None \<Rightarrow> s)
               else s)
      in has_prefix ''<testsuites'' s \<or> has_prefix ''<testsuite'' s)"

datatype report_error = EmptyFile | NotJUnit | InvalidReport | Unreadable

definition ParseJUnitReport :: "XmlDecoder \<Rightarrow> string \<Rightarrow> (report_error, TestCounts \<times> TestCase list) result" where
  "ParseJUnitReport x content =
     (let data = take MaxJUnitFileBytes content
      in if data = [] then Inl EmptyFile
         else if \<not> IsProbablyJUnit (take 512 data) then Inl NotJUnit
         else (let single = (case xd_suite x data of
                   Some s \<Rightarrow> Inr (aggregate [s] [], collectCases [s] [])
                 | None \<Rightarrow> Inl InvalidReport)
               in case xd_suites x data of
                    Some t \<Rightarrow> if ts_Suites t \<noteq> [] \<or> ts_Cases t \<noteq> []
                      then Inr (aggregate (ts_Suites t) (ts_Cases t), collectCases (ts_Suites t) (ts_Cases t)) else single
                  | None \<Rightarrow> single))"

text \<open>The files below a directory: what a path holds, and which paths are directories. A path that is neither is missing.\<close>

record Files =
  fl_content :: "string \<Rightarrow> string option"
  fl_isdir :: "string \<Rightarrow> bool"

definition ParseJUnitReportFile :: "XmlDecoder \<Rightarrow> Files \<Rightarrow> string \<Rightarrow> (report_error, TestCounts \<times> TestCase list) result" where
  "ParseJUnitReportFile x fs path = (case fl_content fs path of None \<Rightarrow> Inl Unreadable | Some b \<Rightarrow> ParseJUnitReport x b)"

definition regular_file :: "Files \<Rightarrow> string \<Rightarrow> bool" where
  "regular_file fs path \<longleftrightarrow> fl_content fs path \<noteq> None \<and> \<not> fl_isdir fs path"

section \<open>All reports\<close>

definition add_report :: "TestCounts \<Rightarrow> TestCounts \<Rightarrow> TestCounts" where
  "add_report a c = \<lparr>tc_Total = tc_Total a + tc_Total c, tc_Passed = tc_Passed a + tc_Passed c,
     tc_Failed = tc_Failed a + tc_Failed c, tc_Skipped = tc_Skipped a + tc_Skipped c\<rparr>"

datatype scan_error = NoWorkingDir | BadGlob string | NoReportFound "report_error option" | EmptyReport

definition DefaultGlobs :: "string list" where
  "DefaultGlobs = [''**/junit*.xml'', ''**/*junit*.xml'', ''**/results.xml'', ''**/newman-*.xml'', ''**/TEST-*.xml'', ''**/test-results/**/*.xml'']"

record scan_state =
  sc_agg :: TestCounts
  sc_found :: bool
  sc_lastErr :: "report_error option"
  sc_seen :: "string list"

definition scan_path :: "XmlDecoder \<Rightarrow> Files \<Rightarrow> string \<Rightarrow> scan_state \<Rightarrow> scan_state" where
  "scan_path x fs path s = (if path \<in> set (sc_seen s) then s
     else let s = s\<lparr>sc_seen := path # sc_seen s\<rparr>
          in if \<not> regular_file fs path then s
             else (case ParseJUnitReportFile x fs path of
                 Inl e \<Rightarrow> s\<lparr>sc_lastErr := Some e\<rparr>
               | Inr (counts, _) \<Rightarrow> s\<lparr>sc_agg := add_report (sc_agg s) counts, sc_found := True\<rparr>))"

fun scan_globs :: "(string \<Rightarrow> string list option) \<Rightarrow> XmlDecoder \<Rightarrow> Files \<Rightarrow> string \<Rightarrow> string list \<Rightarrow> scan_state \<Rightarrow> (scan_error, scan_state) result" where
  "scan_globs filepathGlob x fs dir [] s = Inr s"
| "scan_globs filepathGlob x fs dir (g # gs) s = (case filepathGlob (path_Join [dir, g]) of
     None \<Rightarrow> Inl (BadGlob g)
   | Some ms \<Rightarrow> scan_globs filepathGlob x fs dir gs (fold (scan_path x fs) ms s))"

definition scan_init :: scan_state where
  "scan_init = \<lparr>sc_agg = no_counts, sc_found = False, sc_lastErr = None, sc_seen = []\<rparr>"

definition Scan :: "(string \<Rightarrow> string list option) \<Rightarrow> XmlDecoder \<Rightarrow> Files \<Rightarrow> string \<Rightarrow> string list \<Rightarrow> (scan_error, TestCounts) result" where
  "Scan filepathGlob x fs workingDir globs = (if workingDir = [] then Inl NoWorkingDir
     else rbind (scan_globs filepathGlob x fs workingDir (if globs = [] then DefaultGlobs else globs) scan_init) (\<lambda>s.
       if \<not> sc_found s then Inl (NoReportFound (sc_lastErr s))
       else if tc_Total (sc_agg s) = 0 then Inl EmptyReport else Inr (sc_agg s)))"

section \<open>What the counts are\<close>

definition balanced :: "TestCounts \<Rightarrow> bool" where
  "balanced t \<longleftrightarrow> tc_Total t = tc_Passed t + tc_Failed t + tc_Skipped t"

lemma balanced_no_counts [simp]: "balanced no_counts"
  by (simp add: balanced_def no_counts_def)

lemma balanced_add_report: "balanced a \<Longrightarrow> balanced c \<Longrightarrow> balanced (add_report a c)"
  by (simp add: balanced_def add_report_def)

lemma balanced_countCases: "balanced t \<Longrightarrow> balanced (countCases cs t)"
  unfolding countCases_def by (induction cs arbitrary: t) (auto simp: balanced_def count_case_def Let_def)

lemma balanced_countSuites:
  "balanced t \<Longrightarrow> balanced (countSuite s t)" "balanced t \<Longrightarrow> balanced (countSuites ss t)"
proof (induction s t and ss t rule: countSuite_countSuites.induct)
  case (1 name tests failures errors skipped cs nested t)
  then show ?case using balanced_countCases [of t cs] by (auto simp: Let_def balanced_def)
qed simp_all

lemma balanced_aggregate: "balanced (aggregate suites cs)"
  by (simp add: aggregate_def balanced_countSuites balanced_countCases)

lemma balanced_report: "ParseJUnitReport x content = Inr (t, cs) \<Longrightarrow> balanced t"
  by (auto simp: ParseJUnitReport_def Let_def balanced_aggregate split: if_splits option.splits)

text \<open>The counts that the listed cases themselves give.\<close>

definition counts_of :: "TestCase list \<Rightarrow> TestCounts" where
  "counts_of cs = \<lparr>tc_Total = int (length cs), tc_Passed = int (length (filter (\<lambda>c. ca_Status c = ''passed'') cs)),
     tc_Failed = int (length (filter (\<lambda>c. ca_Status c \<in> {''failed'', ''error''}) cs)),
     tc_Skipped = int (length (filter (\<lambda>c. ca_Status c = ''skipped'') cs))\<rparr>"

lemma counts_of_append: "counts_of (a @ b) = add_report (counts_of a) (counts_of b)"
  by (simp add: counts_of_def add_report_def)

lemma add_report_simps [simp]: "add_report no_counts t = t" "add_report t no_counts = t"
  by (simp_all add: add_report_def no_counts_def)

lemma add_report_assoc: "add_report (add_report a b) c = add_report a (add_report b c)"
  by (simp add: add_report_def)

lemma counts_of_Nil [simp]: "counts_of [] = no_counts"
  by (simp add: counts_of_def no_counts_def)

lemma toTestCase_status: "ca_Status (toTestCase n c) = fst (case_result c)"
  by (simp add: toTestCase_def split_beta)

lemma counts_of_one: "counts_of [k] = \<lparr>tc_Total = 1, tc_Passed = (if ca_Status k = ''passed'' then 1 else 0),
   tc_Failed = (if ca_Status k \<in> {''failed'', ''error''} then 1 else 0), tc_Skipped = (if ca_Status k = ''skipped'' then 1 else 0)\<rparr>"
  by (simp add: counts_of_def)

lemma add_report_one:
  "t\<lparr>tc_Total := tc_Total t + 1, tc_Passed := tc_Passed t + 1\<rparr> = add_report t \<lparr>tc_Total = 1, tc_Passed = 1, tc_Failed = 0, tc_Skipped = 0\<rparr>"
  "t\<lparr>tc_Total := tc_Total t + 1, tc_Failed := tc_Failed t + 1\<rparr> = add_report t \<lparr>tc_Total = 1, tc_Passed = 0, tc_Failed = 1, tc_Skipped = 0\<rparr>"
  "t\<lparr>tc_Total := tc_Total t + 1, tc_Skipped := tc_Skipped t + 1\<rparr> = add_report t \<lparr>tc_Total = 1, tc_Passed = 0, tc_Failed = 0, tc_Skipped = 1\<rparr>"
  by (simp_all add: add_report_def)

lemma count_case_one: "count_case c t = add_report t (counts_of [toTestCase n c])"
proof (cases "jc_Failure c = None \<and> jc_Errored c = None")
  case True
  show ?thesis
  proof (cases "jc_Skipped c = None")
    case False
    then have "fst (case_result c) = ''skipped''" using True by (simp add: case_result_def)
    then show ?thesis using True False add_report_one(3) [of t] by (simp add: count_case_def counts_of_one toTestCase_status)
  next
    case none: True
    then have "fst (case_result c) = ''passed''" using True by (simp add: case_result_def)
    then show ?thesis using True none add_report_one(1) [of t] by (simp add: count_case_def counts_of_one toTestCase_status)
  qed
next
  case False
  then have "fst (case_result c) = ''failed'' \<or> fst (case_result c) = ''error''" by (auto simp: case_result_def)
  then have "counts_of [toTestCase n c] = \<lparr>tc_Total = 1, tc_Passed = 0, tc_Failed = 1, tc_Skipped = 0\<rparr>"
    by (elim disjE) (simp_all add: counts_of_one toTestCase_status)
  then show ?thesis using False add_report_one(2) [of t] by (simp add: count_case_def)
qed

lemma countCases_cases: "countCases cs t = add_report t (counts_of (map (toTestCase n) cs))"
  unfolding countCases_def
proof (induction cs arbitrary: t)
  case (Cons c cs)
  then show ?case using counts_of_append [of "[toTestCase n c]" "map (toTestCase n) cs"] by (simp add: count_case_one [of c t n] add_report_assoc)
qed simp

fun unsummarised :: "junitSuite \<Rightarrow> bool" where
  "unsummarised (JunitSuite name tests failures errors skipped cs nested) \<longleftrightarrow>
     \<not> summarised (JunitSuite name tests failures errors skipped cs nested) \<and> (\<forall>s \<in> set nested. unsummarised s)"

lemma countSuites_cases:
  "unsummarised s \<Longrightarrow> countSuite s t = add_report t (counts_of (walk_suite s))"
  "\<forall>s \<in> set ss. unsummarised s \<Longrightarrow> countSuites ss t = add_report t (counts_of (walk_suites ss))"
proof (induction s t and ss t rule: countSuite_countSuites.induct)
  case (1 name tests failures errors skipped cs nested t)
  then show ?case by (simp add: Let_def countCases_cases [of cs t name] counts_of_append add_report_assoc)
qed (simp_all add: counts_of_append add_report_assoc)

lemma aggregate_cases:
  assumes "\<forall>s \<in> set suites. unsummarised s"
  shows "aggregate suites cs = counts_of (collectCases suites cs)"
  using assms by (simp add: aggregate_def collectCases_def countSuites_cases countCases_cases [of cs no_counts "[]"] counts_of_append)

section \<open>Texts are cut at a rune\<close>

lemma rune_start_le: "rune_start s n \<le> n"
  by (induction n) auto

lemma truncate_text_length: "3 \<le> limit \<Longrightarrow> length (truncate_text s limit) \<le> limit"
  using rune_start_le [of s "limit - 3"] by (auto simp: truncate_text_def ellipsis_def numeral_3_eq_3)

lemma rune_start_start: "rune_start s n = 0 \<or> \<not> cont_byte (s ! rune_start s n)"
  by (induction n) auto

section \<open>Scanning counts every report once\<close>

definition report_counts :: "XmlDecoder \<Rightarrow> Files \<Rightarrow> string \<Rightarrow> TestCounts" where
  "report_counts x fs p = (case ParseJUnitReportFile x fs p of Inr (t, _) \<Rightarrow> t | Inl _ \<Rightarrow> no_counts)"

definition is_report :: "XmlDecoder \<Rightarrow> Files \<Rightarrow> string \<Rightarrow> bool" where
  "is_report x fs p \<longleftrightarrow> regular_file fs p \<and> is_ok (ParseJUnitReportFile x fs p)"

definition sum_counts :: "XmlDecoder \<Rightarrow> Files \<Rightarrow> string set \<Rightarrow> TestCounts" where
  "sum_counts x fs P = \<lparr>tc_Total = (\<Sum>p\<in>P. tc_Total (report_counts x fs p)), tc_Passed = (\<Sum>p\<in>P. tc_Passed (report_counts x fs p)),
     tc_Failed = (\<Sum>p\<in>P. tc_Failed (report_counts x fs p)), tc_Skipped = (\<Sum>p\<in>P. tc_Skipped (report_counts x fs p))\<rparr>"

lemma sum_counts_insert: "finite P \<Longrightarrow> p \<notin> P \<Longrightarrow> sum_counts x fs (insert p P) = add_report (sum_counts x fs P) (report_counts x fs p)"
  by (simp add: sum_counts_def add_report_def)

lemma sum_counts_empty [simp]: "sum_counts x fs {} = no_counts"
  by (simp add: sum_counts_def no_counts_def)

definition scan_holds :: "XmlDecoder \<Rightarrow> Files \<Rightarrow> string set \<Rightarrow> scan_state \<Rightarrow> bool" where
  "scan_holds x fs A s \<longleftrightarrow> set (sc_seen s) = A \<and> sc_agg s = sum_counts x fs {p \<in> A. is_report x fs p}
     \<and> (sc_found s \<longleftrightarrow> (\<exists>p \<in> A. is_report x fs p))"

lemma scan_path_holds:
  assumes "scan_holds x fs A s"
  shows "scan_holds x fs (insert p A) (scan_path x fs p s)"
proof (cases "p \<in> A")
  case True
  then show ?thesis using assms by (simp add: scan_holds_def scan_path_def insert_absorb)
next
  case False
  have fin: "finite {q \<in> A. is_report x fs q}" using assms by (auto simp: scan_holds_def)
  show ?thesis
  proof (cases "is_report x fs p")
    case True
    then obtain t cs where t: "regular_file fs p" "ParseJUnitReportFile x fs p = Inr (t, cs)"
      by (auto simp: is_report_def is_ok_def split: sum.splits)
    have "{q \<in> insert p A. is_report x fs q} = insert p {q \<in> A. is_report x fs q}" using True by auto
    then have "sum_counts x fs {q \<in> insert p A. is_report x fs q} = add_report (sum_counts x fs {q \<in> A. is_report x fs q}) t"
      using sum_counts_insert [OF fin, of p x] False t by (simp add: report_counts_def)
    then show ?thesis using assms False True t by (auto simp: scan_holds_def scan_path_def Let_def)
  next
    case no: False
    then have "{q \<in> insert p A. is_report x fs q} = {q \<in> A. is_report x fs q}" by auto
    then show ?thesis using assms False no by (auto simp: scan_holds_def scan_path_def Let_def is_report_def is_ok_def split: sum.splits)
  qed
qed

lemma scan_paths_hold: "scan_holds x fs A s \<Longrightarrow> scan_holds x fs (A \<union> set ps) (fold (scan_path x fs) ps s)"
proof (induction ps arbitrary: A s)
  case (Cons p ps)
  then show ?case using Cons.IH [OF scan_path_holds [OF Cons.prems, of p]] by simp
qed simp

definition matched_by :: "(string \<Rightarrow> string list option) \<Rightarrow> string \<Rightarrow> string list \<Rightarrow> string set" where
  "matched_by filepathGlob dir gs = (\<Union>g \<in> set gs. case filepathGlob (path_Join [dir, g]) of None \<Rightarrow> {} | Some ms \<Rightarrow> set ms)"

lemma scan_globs_hold:
  assumes "scan_holds x fs A s" "\<forall>g \<in> set gs. filepathGlob (path_Join [dir, g]) \<noteq> None"
  shows "\<exists>s'. scan_globs filepathGlob x fs dir gs s = Inr s' \<and> scan_holds x fs (A \<union> matched_by filepathGlob dir gs) s'"
  using assms
proof (induction gs arbitrary: A s)
  case (Cons g gs)
  then obtain ms where ms: "filepathGlob (path_Join [dir, g]) = Some ms" by auto
  obtain s' where "scan_globs filepathGlob x fs dir gs (fold (scan_path x fs) ms s) = Inr s'"
    "scan_holds x fs (A \<union> set ms \<union> matched_by filepathGlob dir gs) s'"
    using Cons.IH [OF scan_paths_hold [OF Cons.prems(1), of ms]] Cons.prems(2) by auto
  moreover have "matched_by filepathGlob dir (g # gs) = set ms \<union> matched_by filepathGlob dir gs" by (simp add: matched_by_def ms)
  ultimately show ?case by (simp add: ms Un_assoc)
qed (simp add: matched_by_def)

lemma Scan_exact:
  fixes x :: XmlDecoder and fs :: Files
  assumes "workingDir \<noteq> []" "\<forall>g \<in> set globs. filepathGlob (path_Join [workingDir, g]) \<noteq> None" "globs \<noteq> []"
  defines "P \<equiv> {p \<in> matched_by filepathGlob workingDir globs. is_report x fs p}"
  shows "(P = {} \<longrightarrow> (\<exists>e. Scan filepathGlob x fs workingDir globs = Inl (NoReportFound e)))
    \<and> (P \<noteq> {} \<longrightarrow> Scan filepathGlob x fs workingDir globs =
        (if tc_Total (sum_counts x fs P) = 0 then Inl EmptyReport else Inr (sum_counts x fs P)))"
proof -
  have "scan_holds x fs {} scan_init" by (simp add: scan_holds_def scan_init_def)
  from scan_globs_hold [OF this assms(2)] obtain s' where s': "scan_globs filepathGlob x fs workingDir globs scan_init = Inr s'"
    "scan_holds x fs (matched_by filepathGlob workingDir globs) s'" by auto
  then have "sc_agg s' = sum_counts x fs P" "sc_found s' \<longleftrightarrow> P \<noteq> {}" by (auto simp: scan_holds_def P_def)
  then show ?thesis using assms(1,3) s'(1) by (auto simp: Scan_def)
qed

text \<open>
  What a parsed report gives: the counts add up; without summary attributes they are those of the listed
  cases; the texts of a case are bounded.
\<close>

theorem report_counts_its_cases:
  assumes "ParseJUnitReport x content = Inr (t, cs)"
  shows "tc_Total t = tc_Passed t + tc_Failed t + tc_Skipped t"
    and "(\<And>d s. xd_suite x d = Some s \<Longrightarrow> unsummarised s) \<Longrightarrow> (\<And>d r s. xd_suites x d = Some r \<Longrightarrow> s \<in> set (ts_Suites r) \<Longrightarrow> unsummarised s)
      \<Longrightarrow> t = counts_of cs"
  using balanced_report [OF assms] assms
  by (auto simp: balanced_def ParseJUnitReport_def Let_def aggregate_cases split: if_splits option.splits)

lemma toTestCase_bounded:
  "length (ca_Message (toTestCase n c)) \<le> MaxCaseMessageLen" "length (ca_Details (toTestCase n c)) \<le> MaxCaseDetailsLen"
  using truncate_text_length [of MaxCaseMessageLen] truncate_text_length [of MaxCaseDetailsLen]
  by (auto simp: toTestCase_def split_beta Let_def MaxCaseMessageLen_def MaxCaseDetailsLen_def split: option.splits)

end
