(* ===== verification/Scrape.thy ===== *)
theory Scrape
  imports Junit "HOL-Library.Sublist"
begin

text \<open>
  The artifact scraper, \<open>src/internal/scraper\<close>: which files the globs select (\<open>glob.go\<close>), their upload
  with retries and what is collected of the reports among them (\<open>scraper.go\<close>). The glob library and the
  table of MIME types are parameters; the store is any implementation of \<open>Uploader\<close>; \<open>done n\<close> says whether
  the \<open>n\<close>-th look at the context finds it done.
\<close>

section \<open>Globs\<close>

definition MaxMatchedFiles :: nat where "MaxMatchedFiles = 10000"

record GlobMatch =
  gl_AbsPath :: string
  gl_RelPath :: string

datatype expand_error = AbsolutePattern string | GlobFailed string

text \<open>The matches of one pattern: the state is what was seen and taken; \<open>True\<close> when the cap was reached.\<close>

fun expand_matches :: "Files \<Rightarrow> string \<Rightarrow> string list \<Rightarrow> string list \<Rightarrow> GlobMatch list \<Rightarrow> bool \<times> string list \<times> GlobMatch list" where
  "expand_matches fs dir [] seen out = (False, seen, out)"
| "expand_matches fs dir (m # ms) seen out =
     (let path = path_Join [dir, m]
      in if path \<in> set seen \<or> \<not> regular_file fs path then expand_matches fs dir ms seen out
         else let out' = out @ [\<lparr>gl_AbsPath = path, gl_RelPath = m\<rparr>]
              in if MaxMatchedFiles \<le> length out' then (True, path # seen, out')
                 else expand_matches fs dir ms (path # seen) out')"

fun expand_patterns :: "(string \<Rightarrow> string list option) \<Rightarrow> Files \<Rightarrow> string \<Rightarrow> string list \<Rightarrow> string list \<Rightarrow> GlobMatch list
    \<Rightarrow> (expand_error, bool \<times> GlobMatch list) result" where
  "expand_patterns glob fs dir [] seen out = Inr (False, out)"
| "expand_patterns glob fs dir (p # ps) seen out = (if path_IsAbs p then Inl (AbsolutePattern p)
     else case glob p of None \<Rightarrow> Inl (GlobFailed p)
      | Some ms \<Rightarrow> (case expand_matches fs dir ms seen out of (capped, seen', out') \<Rightarrow>
          if capped then Inr (True, out') else expand_patterns glob fs dir ps seen' out'))"

definition ExpandGlobs :: "(string \<Rightarrow> string list option) \<Rightarrow> Files \<Rightarrow> string \<Rightarrow> string list \<Rightarrow> (expand_error, bool \<times> GlobMatch list) result" where
  "ExpandGlobs glob fs workingDir patterns = (if patterns = [] then Inr (False, [])
     else rbind (expand_patterns glob fs (path_Clean workingDir) patterns [] []) (\<lambda>(capped, out).
       Inr (capped, sort_key gl_RelPath out)))"

section \<open>Upload\<close>

text \<open>\<open>filepath.Ext\<close>: from the last dot of the last element.\<close>

definition path_Ext :: "string \<Rightarrow> string" where
  "path_Ext p = (let last_elem = last (split_on (CHR ''/'') p)
     in if CHR ''.'' \<in> set last_elem then CHR ''.'' # last (split_on (CHR ''.'') last_elem) else [])"

definition printable :: "char \<Rightarrow> bool" where
  "printable c \<longleftrightarrow> byte c \<in> {9, 10, 13} \<or> (32 \<le> byte c \<and> byte c < 127)"

definition detectContentType :: "(string \<Rightarrow> string) \<Rightarrow> string \<Rightarrow> string \<Rightarrow> string" where
  "detectContentType mime path content =
     (if mime (path_Ext path) \<noteq> [] then mime (path_Ext path)
      else let buf = take 512 content; n = length buf
           in if n = 0 then ''application/octet-stream''
              else if n * 9 div 10 < length (filter printable buf) then ''text/plain; charset=utf-8'' else ''application/octet-stream'')"

definition MaxUploadAttempts :: nat where "MaxUploadAttempts = 3"

fun put_attempts :: "'s put_op \<Rightarrow> (nat \<Rightarrow> bool) \<Rightarrow> string \<Rightarrow> string \<Rightarrow> nat \<Rightarrow> nat \<Rightarrow> 's \<Rightarrow> (string, unit) result \<times> nat \<times> 's" where
  "put_attempts put done key body left n s = (case put key body s of
     (Inr _, s') \<Rightarrow> (Inr (), n, s')
   | (Inl e, s') \<Rightarrow> (case left of 0 \<Rightarrow> (Inl e, n, s')
       | Suc left' \<Rightarrow> if done n then (Inl e, Suc n, s') else put_attempts put done key body left' (Suc n) s'))"

declare put_attempts.simps [simp del]

definition uploadOne :: "'s put_op \<Rightarrow> (nat \<Rightarrow> bool) \<Rightarrow> (string \<Rightarrow> string) \<Rightarrow> Files \<Rightarrow> RunKeys \<Rightarrow> GlobMatch \<Rightarrow> nat \<Rightarrow> 's
    \<Rightarrow> (string, ArtifactRef) result \<times> nat \<times> 's" where
  "uploadOne put done mime fs keys m n s = (case fl_content fs (gl_AbsPath m) of
     None \<Rightarrow> (Inl ''open'', n, s)
   | Some body \<Rightarrow> (case put_attempts put done (Artifact keys (gl_RelPath m)) body (MaxUploadAttempts - 1) n s of
       (Inl e, n', s') \<Rightarrow> (Inl e, n', s')
     | (Inr _, n', s') \<Rightarrow> (Inr \<lparr>ar_Path = gl_RelPath m, ar_Key = Artifact keys (gl_RelPath m), ar_SizeBytes = int (length body),
         ar_ContentType = detectContentType mime (gl_RelPath m) body\<rparr>, n', s')))"

section \<open>Scraping\<close>

datatype scrape_problem = TooManyFiles nat | ScrapeCancelled | ExpandFailed expand_error | UploadsFailed "(string \<times> string) list"

record ScrapeResult =
  sp_Artifacts :: "ArtifactRef list"
  sp_TestCounts :: "TestCounts option"
  sp_TestCases :: "TestCase list"
  sp_ScrapeError :: "scrape_problem list"

definition empty_scrape :: ScrapeResult where
  "empty_scrape = \<lparr>sp_Artifacts = [], sp_TestCounts = None, sp_TestCases = [], sp_ScrapeError = []\<rparr>"

definition mergeReport :: "XmlDecoder \<Rightarrow> Files \<Rightarrow> string \<Rightarrow> ScrapeResult \<Rightarrow> ScrapeResult" where
  "mergeReport x fs path r = (case ParseJUnitReportFile x fs path of
     Inl _ \<Rightarrow> r
   | Inr (c, cases) \<Rightarrow> r\<lparr>sp_TestCases := sp_TestCases r @ take (MaxScrapedCases - length (sp_TestCases r)) cases,
       sp_TestCounts := Some (case sp_TestCounts r of None \<Rightarrow> c | Some acc \<Rightarrow> add_report acc c)\<rparr>)"

definition is_xml :: "string \<Rightarrow> bool" where
  "is_xml path \<longleftrightarrow> to_lower (path_Ext path) = ''.xml''"

fun scrape_loop :: "'s put_op \<Rightarrow> (nat \<Rightarrow> bool) \<Rightarrow> (string \<Rightarrow> string) \<Rightarrow> XmlDecoder \<Rightarrow> Files \<Rightarrow> RunKeys \<Rightarrow> GlobMatch list
    \<Rightarrow> (string \<times> string) list \<Rightarrow> nat \<Rightarrow> 's \<Rightarrow> ScrapeResult \<Rightarrow> ScrapeResult \<times> 's" where
  "scrape_loop put done mime x fs keys [] errs n s r =
     ((if errs = [] then r else r\<lparr>sp_ScrapeError := sp_ScrapeError r @ [UploadsFailed errs]\<rparr>), s)"
| "scrape_loop put done mime x fs keys (m # ms) errs n s r =
     (if done n then scrape_loop put done mime x fs keys [] errs n s (r\<lparr>sp_ScrapeError := sp_ScrapeError r @ [ScrapeCancelled]\<rparr>)
      else case uploadOne put done mime fs keys m (Suc n) s of
        (Inl e, n', s') \<Rightarrow> scrape_loop put done mime x fs keys ms (errs @ [(gl_RelPath m, e)]) n' s' r
      | (Inr ref, n', s') \<Rightarrow>
          let r' = r\<lparr>sp_Artifacts := sp_Artifacts r @ [ref]\<rparr>
          in scrape_loop put done mime x fs keys ms errs n' s'
               (if is_xml (gl_RelPath m) then mergeReport x fs (gl_AbsPath m) r' else r'))"

datatype scrape_error = EmptyBucket | BadPrefix keys_error

text \<open>\<open>bucket\<close> empty: no bucket is configured. The uploader is the store operation itself.\<close>

definition Scrape :: "'s put_op \<Rightarrow> (nat \<Rightarrow> bool) \<Rightarrow> (string \<Rightarrow> string) \<Rightarrow> (string \<Rightarrow> string list option) \<Rightarrow> XmlDecoder \<Rightarrow> Files \<Rightarrow> string
    \<Rightarrow> string \<Rightarrow> string \<Rightarrow> string list \<Rightarrow> 's \<Rightarrow> (scrape_error, ScrapeResult) result \<times> 's" where
  "Scrape put done mime glob x fs bucket workingDir storagePrefix paths s =
     (if bucket = [] then (Inl EmptyBucket, s)
      else case ParseRunKeys storagePrefix of Inl e \<Rightarrow> (Inl (BadPrefix e), s)
       | Inr keys \<Rightarrow> (case ExpandGlobs glob fs workingDir paths of
           Inl e \<Rightarrow> (Inr (empty_scrape\<lparr>sp_ScrapeError := [ExpandFailed e]\<rparr>), s)
         | Inr (capped, ms) \<Rightarrow>
             (case scrape_loop put done mime x fs keys ms [] 0 s
                (if capped then empty_scrape\<lparr>sp_ScrapeError := [TooManyFiles (length ms)]\<rparr> else empty_scrape) of
              (r, s') \<Rightarrow> (Inr r, s'))))"

definition UploadResult :: "'s put_op \<Rightarrow> string \<Rightarrow> string \<Rightarrow> 's \<Rightarrow> (scrape_error + string, unit) result \<times> 's" where
  "UploadResult put storagePrefix payload s = (case ParseRunKeys storagePrefix of
     Inl e \<Rightarrow> (Inl (Inl (BadPrefix e)), s)
   | Inr keys \<Rightarrow> (case put (ResultKey keys) payload s of
       (Inl e, s') \<Rightarrow> (Inl (Inr e), s') | (Inr _, s') \<Rightarrow> (Inr (), s')))"

section \<open>What the globs select\<close>

definition expanded :: "Files \<Rightarrow> string \<Rightarrow> string set \<Rightarrow> string list \<Rightarrow> GlobMatch list \<Rightarrow> bool" where
  "expanded fs dir M seen out \<longleftrightarrow> set seen = gl_AbsPath ` set out \<and> distinct (map gl_AbsPath out)
     \<and> (\<forall>m \<in> set out. gl_AbsPath m = path_Join [dir, gl_RelPath m] \<and> gl_RelPath m \<in> M \<and> regular_file fs (gl_AbsPath m))
     \<and> length out \<le> MaxMatchedFiles"

lemma expanded_mono: "expanded fs dir M seen out \<Longrightarrow> M \<subseteq> M' \<Longrightarrow> expanded fs dir M' seen out"
  unfolding expanded_def by blast

lemma expand_matches_ok:
  assumes "expanded fs dir M seen out" "set ms \<subseteq> M" "expand_matches fs dir ms seen out = (capped, seen', out')" "length out < MaxMatchedFiles"
  shows "expanded fs dir M seen' out' \<and> (\<not> capped \<longrightarrow> length out' < MaxMatchedFiles \<and>
    gl_AbsPath ` set out' = gl_AbsPath ` set out \<union> {p \<in> (\<lambda>m. path_Join [dir, m]) ` set ms. regular_file fs p})"
  using assms
proof (induction ms arbitrary: seen out)
  case (Cons m ms)
  let ?p = "path_Join [dir, m]" and ?out = "out @ [\<lparr>gl_AbsPath = path_Join [dir, m], gl_RelPath = m\<rparr>]"
  consider "?p \<in> set seen \<or> \<not> regular_file fs ?p" | "?p \<notin> set seen" "regular_file fs ?p" by blast
  then show ?case
  proof cases
    case 1
    then have e: "expand_matches fs dir ms seen out = (capped, seen', out')" using Cons.prems(3) by (simp add: Let_def)
    have "?p \<in> gl_AbsPath ` set out \<or> \<not> regular_file fs ?p" using 1 Cons.prems(1) by (simp add: expanded_def)
    then show ?thesis using Cons.IH [OF Cons.prems(1) _ e Cons.prems(4)] Cons.prems(2) by auto
  next
    case 2
    have ex: "expanded fs dir M (?p # seen) ?out"
      using Cons.prems(1,2,4) 2 by (auto simp: expanded_def)
    show ?thesis
    proof (cases "MaxMatchedFiles \<le> length ?out")
      case True
      then show ?thesis using Cons.prems(3) 2 ex by (simp add: Let_def)
    next
      case False
      then have e: "expand_matches fs dir ms (?p # seen) ?out = (capped, seen', out')" using Cons.prems(3) 2 by (simp add: Let_def)
      have sub: "set ms \<subseteq> M" using Cons.prems(2) by simp
      have "length ?out < MaxMatchedFiles" using False by simp
      then show ?thesis using Cons.IH [OF ex sub e] 2 by auto
    qed
  qed
qed simp

definition glob_paths :: "(string \<Rightarrow> string list option) \<Rightarrow> string list \<Rightarrow> string set" where
  "glob_paths glob ps = (\<Union>p \<in> set ps. case glob p of None \<Rightarrow> {} | Some ms \<Rightarrow> set ms)"

lemma expand_patterns_ok:
  assumes "expanded fs dir M seen out" "glob_paths glob ps \<subseteq> M" "expand_patterns glob fs dir ps seen out = Inr (capped, out')"
    "length out < MaxMatchedFiles"
  shows "(\<exists>seen'. expanded fs dir M seen' out') \<and> (\<not> capped \<longrightarrow>
    gl_AbsPath ` set out' = gl_AbsPath ` set out \<union> {p \<in> (\<lambda>m. path_Join [dir, m]) ` glob_paths glob ps. regular_file fs p})"
  using assms
proof (induction ps arbitrary: seen out)
  case Nil
  then show ?case by (auto simp: glob_paths_def)
next
  case (Cons p ps)
  then obtain ms where ms: "glob p = Some ms" "\<not> path_IsAbs p" by (auto split: if_splits option.splits)
  obtain c seen1 out1 where e: "expand_matches fs dir ms seen out = (c, seen1, out1)" using prod_cases3 by blast
  have paths: "glob_paths glob (p # ps) = set ms \<union> glob_paths glob ps" by (simp add: glob_paths_def ms)
  have ms_M: "set ms \<subseteq> M" "glob_paths glob ps \<subseteq> M" using Cons.prems(2) paths by auto
  note step = expand_matches_ok [OF Cons.prems(1) ms_M(1) e Cons.prems(4)]
  show ?case
  proof (cases c)
    case True
    then show ?thesis using Cons.prems(3) ms e step by auto
  next
    case False
    then have "expand_patterns glob fs dir ps seen1 out1 = Inr (capped, out')" using Cons.prems(3) ms e by simp
    then show ?thesis using Cons.IH [of seen1 out1] step ms_M False unfolding paths by auto
  qed
qed

lemma ExpandGlobs_ok:
  assumes "ExpandGlobs glob fs wd ps = Inr (capped, ms)"
  shows "distinct (map gl_AbsPath ms)" "distinct (map gl_RelPath ms)" "sorted (map gl_RelPath ms)" "length ms \<le> MaxMatchedFiles"
    "\<forall>m \<in> set ms. gl_AbsPath m = path_Join [path_Clean wd, gl_RelPath m] \<and> gl_RelPath m \<in> glob_paths glob ps \<and> regular_file fs (gl_AbsPath m)"
    "\<not> capped \<Longrightarrow> gl_AbsPath ` set ms = {p \<in> (\<lambda>m. path_Join [path_Clean wd, m]) ` glob_paths glob ps. regular_file fs p}"
proof -
  have "\<exists>out seen. ms = sort_key gl_RelPath out \<and> expanded fs (path_Clean wd) (glob_paths glob ps) seen out \<and> (\<not> capped \<longrightarrow>
      gl_AbsPath ` set out = {p \<in> (\<lambda>m. path_Join [path_Clean wd, m]) ` glob_paths glob ps. regular_file fs p})"
  proof (cases "ps = []")
    case True
    then show ?thesis using assms by (auto simp: ExpandGlobs_def expanded_def glob_paths_def)
  next
    case False
    then obtain out where out: "expand_patterns glob fs (path_Clean wd) ps [] [] = Inr (capped, out)" "ms = sort_key gl_RelPath out"
      using assms by (auto simp: ExpandGlobs_def rbind_Inr)
    have "expanded fs (path_Clean wd) (glob_paths glob ps) [] []" by (simp add: expanded_def)
    from expand_patterns_ok [OF this subset_refl out(1)] obtain seen where
      "expanded fs (path_Clean wd) (glob_paths glob ps) seen out" "\<not> capped \<longrightarrow>
        gl_AbsPath ` set out = {p \<in> (\<lambda>m. path_Join [path_Clean wd, m]) ` glob_paths glob ps. regular_file fs p}"
      by (auto simp: MaxMatchedFiles_def)
    then show ?thesis using out(2) by blast
  qed
  then obtain out seen where o: "ms = sort_key gl_RelPath out" "expanded fs (path_Clean wd) (glob_paths glob ps) seen out"
    "\<not> capped \<Longrightarrow> gl_AbsPath ` set out = {p \<in> (\<lambda>m. path_Join [path_Clean wd, m]) ` glob_paths glob ps. regular_file fs p}" by blast
  then have d: "distinct (map gl_AbsPath out)" by (simp add: expanded_def)
  show "distinct (map gl_AbsPath ms)" using d o(1) by (simp add: distinct_map)
  have "inj_on gl_RelPath (set out)"
  proof (rule inj_onI)
    fix a b assume "a \<in> set out" "b \<in> set out" "gl_RelPath a = gl_RelPath b"
    then have "gl_AbsPath a = gl_AbsPath b" using o(2) by (simp add: expanded_def)
    then show "a = b" using d \<open>a \<in> set out\<close> \<open>b \<in> set out\<close> by (auto simp: distinct_map inj_on_def)
  qed
  then show "distinct (map gl_RelPath ms)" using d o(1) by (simp add: distinct_map)
  show "sorted (map gl_RelPath ms)" "length ms \<le> MaxMatchedFiles"
    "\<forall>m \<in> set ms. gl_AbsPath m = path_Join [path_Clean wd, gl_RelPath m] \<and> gl_RelPath m \<in> glob_paths glob ps \<and> regular_file fs (gl_AbsPath m)"
    "\<not> capped \<Longrightarrow> gl_AbsPath ` set ms = {p \<in> (\<lambda>m. path_Join [path_Clean wd, m]) ` glob_paths glob ps. regular_file fs p}"
    using o by (auto simp: expanded_def)
qed

section \<open>What is uploaded and reported\<close>

definition ref_of :: "(string \<Rightarrow> string) \<Rightarrow> Files \<Rightarrow> RunKeys \<Rightarrow> GlobMatch \<Rightarrow> ArtifactRef" where
  "ref_of mime fs keys m = (let body = (case fl_content fs (gl_AbsPath m) of None \<Rightarrow> [] | Some b \<Rightarrow> b)
     in \<lparr>ar_Path = gl_RelPath m, ar_Key = Artifact keys (gl_RelPath m), ar_SizeBytes = int (length body),
         ar_ContentType = detectContentType mime (gl_RelPath m) body\<rparr>)"

definition report_paths :: "GlobMatch list \<Rightarrow> string list" where
  "report_paths us = map gl_AbsPath (filter (\<lambda>m. is_xml (gl_RelPath m)) us)"

definition merge_reports :: "XmlDecoder \<Rightarrow> Files \<Rightarrow> string list \<Rightarrow> ScrapeResult \<Rightarrow> ScrapeResult" where
  "merge_reports x fs ps r = fold (mergeReport x fs) ps r"

lemma merge_reports_fields [simp]:
  "sp_Artifacts (merge_reports x fs ps r) = sp_Artifacts r" "sp_ScrapeError (merge_reports x fs ps r) = sp_ScrapeError r"
proof -
  have "sp_Artifacts (fold (mergeReport x fs) ps r) = sp_Artifacts r \<and> sp_ScrapeError (fold (mergeReport x fs) ps r) = sp_ScrapeError r"
    by (induction ps arbitrary: r) (simp_all add: mergeReport_def split: sum.splits)
  then show "sp_Artifacts (merge_reports x fs ps r) = sp_Artifacts r" "sp_ScrapeError (merge_reports x fs ps r) = sp_ScrapeError r"
    by (simp_all add: merge_reports_def)
qed

lemma Artifact_inject [simp]: "Artifact k p = Artifact k q \<longleftrightarrow> p = q"
  by (simp add: Artifact_def)

text \<open>
  The loop over \<open>ms\<close> with \<open>us\<close> the files uploaded: \<open>h\<close> and \<open>h'\<close> are what the store holds before and after.
\<close>

definition scraped :: "(string \<Rightarrow> string) \<Rightarrow> XmlDecoder \<Rightarrow> Files \<Rightarrow> RunKeys \<Rightarrow> GlobMatch list \<Rightarrow> GlobMatch list \<Rightarrow> (string \<times> string) list
    \<Rightarrow> ScrapeResult \<Rightarrow> ScrapeResult \<Rightarrow> (string \<rightharpoonup> string) \<Rightarrow> (string \<rightharpoonup> string) \<Rightarrow> bool" where
  "scraped mime x fs keys ms us errs r r' h h' \<longleftrightarrow> subseq us ms
     \<and> sp_Artifacts r' = sp_Artifacts r @ map (ref_of mime fs keys) us
     \<and> (\<forall>m \<in> set us. fl_content fs (gl_AbsPath m) \<noteq> None \<and> h' (Artifact keys (gl_RelPath m)) = fl_content fs (gl_AbsPath m))
     \<and> (\<forall>k. k \<notin> (\<lambda>m. Artifact keys (gl_RelPath m)) ` set ms \<longrightarrow> h' k = h k)
     \<and> sp_TestCounts r' = sp_TestCounts (merge_reports x fs (report_paths us) r)
     \<and> sp_TestCases r' = sp_TestCases (merge_reports x fs (report_paths us) r)
     \<and> (sp_ScrapeError r' = sp_ScrapeError r \<longrightarrow> us = ms \<and> errs = [])
     \<and> length (sp_ScrapeError r) \<le> length (sp_ScrapeError r')"

definition add_artifact :: "XmlDecoder \<Rightarrow> Files \<Rightarrow> GlobMatch \<Rightarrow> ArtifactRef \<Rightarrow> ScrapeResult \<Rightarrow> ScrapeResult" where
  "add_artifact x fs m ref r = (let r' = r\<lparr>sp_Artifacts := sp_Artifacts r @ [ref]\<rparr>
     in if is_xml (gl_RelPath m) then mergeReport x fs (gl_AbsPath m) r' else r')"

lemma merge_reports_cong:
  "sp_TestCounts r = sp_TestCounts q \<Longrightarrow> sp_TestCases r = sp_TestCases q \<Longrightarrow>
    sp_TestCounts (merge_reports x fs ps r) = sp_TestCounts (merge_reports x fs ps q)
    \<and> sp_TestCases (merge_reports x fs ps r) = sp_TestCases (merge_reports x fs ps q)"
  unfolding merge_reports_def
proof (induction ps arbitrary: r q)
  case (Cons p ps)
  have "sp_TestCounts (mergeReport x fs p r) = sp_TestCounts (mergeReport x fs p q)" "sp_TestCases (mergeReport x fs p r) = sp_TestCases (mergeReport x fs p q)"
    using Cons.prems by (simp_all add: mergeReport_def split: sum.splits)
  then show ?case using Cons.IH [of "mergeReport x fs p r" "mergeReport x fs p q"] by simp
qed simp

lemma add_artifact_fields:
  "sp_Artifacts (add_artifact x fs m ref r) = sp_Artifacts r @ [ref]" "sp_ScrapeError (add_artifact x fs m ref r) = sp_ScrapeError r"
  by (auto simp: add_artifact_def mergeReport_def Let_def split: sum.splits)

lemma add_artifact_reports:
  "sp_TestCounts (merge_reports x fs (report_paths us) (add_artifact x fs m ref r)) = sp_TestCounts (merge_reports x fs (report_paths (m # us)) r)"
  "sp_TestCases (merge_reports x fs (report_paths us) (add_artifact x fs m ref r)) = sp_TestCases (merge_reports x fs (report_paths (m # us)) r)"
proof -
  have eq: "merge_reports x fs (report_paths (m # us)) q =
      merge_reports x fs (report_paths us) (if is_xml (gl_RelPath m) then mergeReport x fs (gl_AbsPath m) q else q)" for q
    by (simp add: report_paths_def merge_reports_def)
  have "sp_TestCounts (merge_reports x fs (report_paths (m # us)) (r\<lparr>sp_Artifacts := sp_Artifacts r @ [ref]\<rparr>)) =
      sp_TestCounts (merge_reports x fs (report_paths (m # us)) r)
    \<and> sp_TestCases (merge_reports x fs (report_paths (m # us)) (r\<lparr>sp_Artifacts := sp_Artifacts r @ [ref]\<rparr>)) =
      sp_TestCases (merge_reports x fs (report_paths (m # us)) r)"
    by (rule merge_reports_cong) simp_all
  then show "sp_TestCounts (merge_reports x fs (report_paths us) (add_artifact x fs m ref r)) = sp_TestCounts (merge_reports x fs (report_paths (m # us)) r)"
    "sp_TestCases (merge_reports x fs (report_paths us) (add_artifact x fs m ref r)) = sp_TestCases (merge_reports x fs (report_paths (m # us)) r)"
    unfolding eq [of "r\<lparr>sp_Artifacts := sp_Artifacts r @ [ref]\<rparr>"] by (simp_all add: add_artifact_def Let_def)
qed

lemma scraped_end:
  "scraped mime x fs keys ms [] errs r (if errs = [] then r else r\<lparr>sp_ScrapeError := sp_ScrapeError r @ [UploadsFailed errs]\<rparr>) h h" if "ms = []"
  using that by (simp add: scraped_def report_paths_def merge_reports_def)

lemma scraped_cancel:
  "scraped mime x fs keys ms [] errs r (if errs = [] then r\<lparr>sp_ScrapeError := sp_ScrapeError r @ [ScrapeCancelled]\<rparr>
     else r\<lparr>sp_ScrapeError := (sp_ScrapeError r @ [ScrapeCancelled]) @ [UploadsFailed errs]\<rparr>) h h"
  by (simp add: scraped_def report_paths_def merge_reports_def)

lemma scraped_skip:
  assumes "scraped mime x fs keys ms us (errs @ [e]) r r' h1 h'" "\<And>k. k \<noteq> Artifact keys (gl_RelPath m) \<Longrightarrow> h1 k = h k"
  shows "scraped mime x fs keys (m # ms) us errs r r' h h'"
  using assms unfolding scraped_def by auto

lemma scraped_take:
  assumes s: "scraped mime x fs keys ms us errs (add_artifact x fs m ref r) r' h1 h'"
    and "gl_RelPath m \<notin> gl_RelPath ` set ms" "\<And>k. k \<noteq> Artifact keys (gl_RelPath m) \<Longrightarrow> h1 k = h k"
    and "ref = ref_of mime fs keys m \<and> fl_content fs (gl_AbsPath m) \<noteq> None \<and> h1 (Artifact keys (gl_RelPath m)) = fl_content fs (gl_AbsPath m)"
  shows "scraped mime x fs keys (m # ms) (m # us) errs r r' h h'"
proof -
  have "Artifact keys (gl_RelPath m) \<notin> (\<lambda>m. Artifact keys (gl_RelPath m)) ` set ms" using assms(2) by auto
  then have "h' (Artifact keys (gl_RelPath m)) = h1 (Artifact keys (gl_RelPath m))" using s by (simp add: scraped_def)
  then show ?thesis using s assms(3,4) by (auto simp: scraped_def add_artifact_fields add_artifact_reports)
qed

context blob_store
begin

lemma put_attempts_held:
  assumes "ok s" "put_attempts put done key body left n s = (res, n', s')"
  shows "ok s' \<and> held s' = (if res = Inr () then (held s)(key \<mapsto> body) else held s)"
  using assms
proof (induction left arbitrary: n s)
  case 0
  then show ?case using put_held [OF 0(1), of key body] by (subst (asm) put_attempts.simps) (auto split: prod.splits sum.splits)
next
  case (Suc left)
  obtain pr s1 where p: "put key body s = (pr, s1)" by fastforce
  note h = put_held [OF Suc.prems(1) p]
  show ?case
  proof (cases pr)
    case (Inr u)
    then show ?thesis using Suc.prems(2) p h by (subst (asm) put_attempts.simps) auto
  next
    case (Inl e)
    then have "ok s1" "held s1 = held s" using h by auto
    then show ?thesis using Suc.prems(2) Suc.IH [of s1 "Suc n"] p Inl by (subst (asm) put_attempts.simps) (auto split: if_splits)
  qed
qed

lemma uploadOne_held:
  assumes "ok s" "uploadOne put done mime fs keys m n s = (res, n', s')"
  shows "ok s'" "\<And>k. k \<noteq> Artifact keys (gl_RelPath m) \<Longrightarrow> held s' k = held s k"
    "\<And>ref. res = Inr ref \<Longrightarrow> ref = ref_of mime fs keys m \<and> fl_content fs (gl_AbsPath m) \<noteq> None \<and> held s' (Artifact keys (gl_RelPath m)) = fl_content fs (gl_AbsPath m)"
proof -
  consider "fl_content fs (gl_AbsPath m) = None" | b where "fl_content fs (gl_AbsPath m) = Some b" by blast
  then have "ok s' \<and> (\<forall>k. k \<noteq> Artifact keys (gl_RelPath m) \<longrightarrow> held s' k = held s k) \<and> (\<forall>ref. res = Inr ref \<longrightarrow>
    ref = ref_of mime fs keys m \<and> fl_content fs (gl_AbsPath m) \<noteq> None \<and> held s' (Artifact keys (gl_RelPath m)) = fl_content fs (gl_AbsPath m))"
  proof cases
    case 1
    then show ?thesis using assms by (auto simp: uploadOne_def)
  next
    case (2 b)
    obtain pr n1 s1 where p: "put_attempts put done (Artifact keys (gl_RelPath m)) b (MaxUploadAttempts - 1) n s = (pr, n1, s1)"
      using prod_cases3 by blast
    show ?thesis using put_attempts_held [OF assms(1) p] assms(2) 2 p by (cases pr) (auto simp: uploadOne_def ref_of_def)
  qed
  then show "ok s'" "\<And>k. k \<noteq> Artifact keys (gl_RelPath m) \<Longrightarrow> held s' k = held s k"
    "\<And>ref. res = Inr ref \<Longrightarrow> ref = ref_of mime fs keys m \<and> fl_content fs (gl_AbsPath m) \<noteq> None \<and> held s' (Artifact keys (gl_RelPath m)) = fl_content fs (gl_AbsPath m)"
    by blast+
qed

lemma scrape_loop_held:
  assumes "ok s" "distinct (map gl_RelPath ms)" "scrape_loop put done mime x fs keys ms errs n s r = (r', s')"
  shows "ok s' \<and> (\<exists>us. scraped mime x fs keys ms us errs r r' (held s) (held s'))"
  using assms
proof (induction ms arbitrary: errs n s r)
  case Nil
  then have "r' = (if errs = [] then r else r\<lparr>sp_ScrapeError := sp_ScrapeError r @ [UploadsFailed errs]\<rparr>)" "s' = s" by auto
  then show ?case using Nil.prems(1) scraped_end [OF refl] by blast
next
  case (Cons m ms)
  show ?case
  proof (cases "done n")
    case True
    then have "r' = (if errs = [] then r\<lparr>sp_ScrapeError := sp_ScrapeError r @ [ScrapeCancelled]\<rparr>
        else r\<lparr>sp_ScrapeError := (sp_ScrapeError r @ [ScrapeCancelled]) @ [UploadsFailed errs]\<rparr>)" "s' = s"
      using Cons.prems(3) by auto
    then show ?thesis using Cons.prems(1) scraped_cancel by blast
  next
    case False
    obtain u n1 s1 where u: "uploadOne put done mime fs keys m (Suc n) s = (u, n1, s1)" using prod_cases3 by blast
    note up = uploadOne_held [OF Cons.prems(1) u]
    have dist: "distinct (map gl_RelPath ms)" "gl_RelPath m \<notin> gl_RelPath ` set ms" using Cons.prems(2) by auto
    show ?thesis
    proof (cases u)
      case (Inl e)
      then have "scrape_loop put done mime x fs keys ms (errs @ [(gl_RelPath m, e)]) n1 s1 r = (r', s')" using Cons.prems(3) False u by simp
      from Cons.IH [OF up(1) dist(1) this] show ?thesis using scraped_skip up(2) by blast
    next
      case (Inr ref)
      have "scrape_loop put done mime x fs keys ms errs n1 s1 (add_artifact x fs m ref r) = (r', s')"
        using Cons.prems(3) False u Inr by (simp add: Let_def add_artifact_def)
      from Cons.IH [OF up(1) dist(1) this] obtain us where us: "ok s'"
        "scraped mime x fs keys ms us errs (add_artifact x fs m ref r) r' (held s1) (held s')" by blast
      have "scraped mime x fs keys (m # ms) (m # us) errs r r' (held s) (held s')"
        by (rule scraped_take [OF us(2) dist(2) _ up(3) [OF Inr]]) (rule up(2))
      then show ?thesis using us(1) by blast
    qed
  qed
qed

lemma Scrape_held:
  assumes "ok s" "Scrape put done mime glob x fs bucket wd pre paths s = (Inr r, s')"
  obtains (failed) e where "ExpandGlobs glob fs wd paths = Inl e" "r = empty_scrape\<lparr>sp_ScrapeError := [ExpandFailed e]\<rparr>" "s' = s"
  | (scraped) keys capped ms us where "ParseRunKeys pre = Inr keys" "ExpandGlobs glob fs wd paths = Inr (capped, ms)" "ok s'"
      "scraped mime x fs keys ms us [] (if capped then empty_scrape\<lparr>sp_ScrapeError := [TooManyFiles (length ms)]\<rparr> else empty_scrape) r (held s) (held s')"
proof (cases "ExpandGlobs glob fs wd paths")
  case (Inl e)
  then show ?thesis using assms(2) by (intro failed) (auto simp: Scrape_def split: if_splits sum.splits)
next
  case (Inr cm)
  obtain capped ms where cm: "cm = (capped, ms)" by fastforce
  let ?r0 = "if capped then empty_scrape\<lparr>sp_ScrapeError := [TooManyFiles (length ms)]\<rparr> else empty_scrape"
  obtain keys where keys: "ParseRunKeys pre = Inr keys" "scrape_loop put done mime x fs keys ms [] 0 s ?r0 = (r, s')"
    using assms(2) Inr cm by (auto simp: Scrape_def split: if_splits sum.splits prod.splits)
  have "distinct (map gl_RelPath ms)" using Inr cm by (intro ExpandGlobs_ok(2)) simp
  from scrape_loop_held [OF assms(1) this keys(2)] obtain us where "ok s'" "scraped mime x fs keys ms us [] ?r0 r (held s) (held s')" by blast
  then show ?thesis using keys(1) Inr cm by (intro scraped) auto
qed

end

section \<open>The reports among the artifacts\<close>

lemma merge_report_step:
  "sp_TestCounts (mergeReport x fs p r) = (case ParseJUnitReportFile x fs p of Inl _ \<Rightarrow> sp_TestCounts r
     | Inr (c, _) \<Rightarrow> Some (case sp_TestCounts r of None \<Rightarrow> c | Some acc \<Rightarrow> add_report acc c))"
  by (simp add: mergeReport_def split: sum.splits)

lemma merge_reports_counts:
  assumes "distinct ps" "\<forall>p \<in> set ps. regular_file fs p" "finite A" "A \<inter> set ps = {}" "A \<noteq> {} \<or> sp_TestCounts r = None"
    "A \<noteq> {} \<longrightarrow> sp_TestCounts r = Some (sum_counts x fs A)"
  shows "sp_TestCounts (merge_reports x fs ps r) = (let P = A \<union> {p \<in> set ps. is_report x fs p} in if P = {} then None else Some (sum_counts x fs P))"
  using assms
proof (induction ps arbitrary: A r)
  case Nil
  then show ?case by (auto simp: merge_reports_def)
next
  case (Cons p ps)
  have rec: "merge_reports x fs (p # ps) r = merge_reports x fs ps (mergeReport x fs p r)" by (simp add: merge_reports_def)
  show ?case
  proof (cases "is_report x fs p")
    case True
    then obtain t cs where t: "ParseJUnitReportFile x fs p = Inr (t, cs)" by (auto simp: is_report_def is_ok_def split: sum.splits)
    have p: "p \<notin> A" using Cons.prems(4) by auto
    have "sp_TestCounts (mergeReport x fs p r) = Some (sum_counts x fs (insert p A))"
      using Cons.prems(5,6) sum_counts_insert [OF Cons.prems(3) p, of x fs] t
      by (cases "A = {}") (simp_all add: merge_report_step report_counts_def)
    then have "sp_TestCounts (merge_reports x fs ps (mergeReport x fs p r)) =
        (let P = insert p A \<union> {p \<in> set ps. is_report x fs p} in if P = {} then None else Some (sum_counts x fs P))"
      using Cons.prems by (intro Cons.IH) auto
    moreover have "insert p A \<union> {p \<in> set ps. is_report x fs p} = A \<union> {q \<in> set (p # ps). is_report x fs q}" using True by auto
    ultimately show ?thesis unfolding rec by (simp only:)
  next
    case False
    then obtain e where "ParseJUnitReportFile x fs p = Inl e"
      using Cons.prems(2) by (auto simp: is_report_def is_ok_def split: sum.splits)
    then have "mergeReport x fs p r = r" by (simp add: mergeReport_def)
    moreover have "{p \<in> set ps. is_report x fs p} = {q \<in> set (p # ps). is_report x fs q}" using False by auto
    ultimately show ?thesis using Cons.IH [of A r] Cons.prems unfolding rec by auto
  qed
qed

lemma merge_reports_cases: "length (sp_TestCases r) \<le> MaxScrapedCases \<Longrightarrow> length (sp_TestCases (merge_reports x fs ps r)) \<le> MaxScrapedCases"
  unfolding merge_reports_def by (induction ps arbitrary: r) (auto simp: mergeReport_def split: sum.splits)

lemma subseq_sub: "subseq xs ys \<Longrightarrow> set xs \<subseteq> set ys" "subseq xs ys \<Longrightarrow> distinct ys \<Longrightarrow> distinct xs"
  by (auto simp: subseq_conv_nths set_nths)

lemma uploaded_reports:
  assumes "ExpandGlobs glob fs wd paths = Inr (capped, ms)" "subseq us ms"
  shows "sp_TestCounts (merge_reports x fs (report_paths us) (empty_scrape\<lparr>sp_ScrapeError := e\<rparr>)) =
    (let P = {p \<in> set (report_paths us). is_report x fs p} in if P = {} then None else Some (sum_counts x fs P))"
proof -
  have "distinct (map gl_AbsPath us)" by (rule subseq_sub(2) [OF subseq_map [OF assms(2)] ExpandGlobs_ok(1) [OF assms(1)]])
  then have "distinct (report_paths us)" unfolding report_paths_def by (simp add: distinct_map_filter)
  moreover have "\<forall>p \<in> set (report_paths us). regular_file fs p"
    using ExpandGlobs_ok(5) [OF assms(1)] subseq_sub(1) [OF assms(2)] by (auto simp: report_paths_def)
  ultimately show ?thesis
    using merge_reports_counts [of "report_paths us" fs "{}" "empty_scrape\<lparr>sp_ScrapeError := e\<rparr>" x] by (simp add: empty_scrape_def)
qed

text \<open>What \<open>scraped\<close> says of the listed artifacts, for the matches of \<open>ExpandGlobs\<close>.\<close>

lemma scraped_listing:
  assumes ex: "ExpandGlobs glob fs wd paths = Inr (capped, ms)"
    and sc: "scraped mime x fs keys ms us [] r0 r h h'" and r0: "sp_Artifacts r0 = []" "sp_ScrapeError r0 = [] \<longleftrightarrow> \<not> capped"
  shows "\<And>a. a \<in> set (sp_Artifacts r) \<Longrightarrow> ar_Path a \<in> glob_paths glob paths \<and> ar_Key a = Artifact keys (ar_Path a)
      \<and> (\<exists>body. fl_content fs (path_Join [path_Clean wd, ar_Path a]) = Some body \<and> h' (ar_Key a) = Some body \<and> ar_SizeBytes a = int (length body))"
    and "\<And>k. \<not> has_prefix (Artifacts keys) k \<Longrightarrow> h' k = h k"
    and "distinct (map ar_Path (sp_Artifacts r))" and "length (sp_Artifacts r) \<le> 10000"
    and "\<And>Q. {path_Join [path_Clean wd, ar_Path a] |a. a \<in> set (sp_Artifacts r) \<and> Q (ar_Path a)} = gl_AbsPath ` {m \<in> set us. Q (gl_RelPath m)}"
    and "sp_ScrapeError r = [] \<Longrightarrow> {path_Join [path_Clean wd, ar_Path a] |a. a \<in> set (sp_Artifacts r)}
        = {p \<in> (\<lambda>m. path_Join [path_Clean wd, m]) ` glob_paths glob paths. regular_file fs p}"
proof -
  note globs = ExpandGlobs_ok [OF ex]
  have sub: "subseq us ms" and arts: "sp_Artifacts r = map (ref_of mime fs keys) us"
    and held: "\<And>m. m \<in> set us \<Longrightarrow> fl_content fs (gl_AbsPath m) \<noteq> None \<and> h' (Artifact keys (gl_RelPath m)) = fl_content fs (gl_AbsPath m)"
    and frame: "\<And>k. k \<notin> (\<lambda>m. Artifact keys (gl_RelPath m)) ` set ms \<Longrightarrow> h' k = h k"
    and all: "sp_ScrapeError r = sp_ScrapeError r0 \<Longrightarrow> us = ms" "length (sp_ScrapeError r0) \<le> length (sp_ScrapeError r)"
    using sc r0(1) by (simp_all add: scraped_def)
  have ref: "ar_Path (ref_of mime fs keys m) = gl_RelPath m" "ar_Key (ref_of mime fs keys m) = Artifact keys (gl_RelPath m)" for m
    by (simp_all add: ref_of_def Let_def)
  have path: "gl_AbsPath m = path_Join [path_Clean wd, gl_RelPath m]" "gl_RelPath m \<in> glob_paths glob paths" if "m \<in> set us" for m
    using globs(5) subseq_sub(1) [OF sub] that by auto
  show "ar_Path a \<in> glob_paths glob paths \<and> ar_Key a = Artifact keys (ar_Path a)
      \<and> (\<exists>body. fl_content fs (path_Join [path_Clean wd, ar_Path a]) = Some body \<and> h' (ar_Key a) = Some body \<and> ar_SizeBytes a = int (length body))"
    if a: "a \<in> set (sp_Artifacts r)" for a
  proof -
    obtain m where m: "m \<in> set us" "a = ref_of mime fs keys m" using a arts by auto
    then show ?thesis using held [OF m(1)] path [OF m(1)] by (auto simp: ref_of_def Let_def)
  qed
  show "h' k = h k" if "\<not> has_prefix (Artifacts keys) k" for k
    by (rule frame) (use that in \<open>auto simp: Artifact_def\<close>)
  show "distinct (map ar_Path (sp_Artifacts r))"
    using subseq_sub(2) [OF subseq_map [OF sub] globs(2)] unfolding arts by (simp add: o_def ref)
  show "length (sp_Artifacts r) \<le> 10000"
    using globs(4) list_emb_length [OF sub] unfolding arts by (simp add: MaxMatchedFiles_def)
  show paths_us: "{path_Join [path_Clean wd, ar_Path a] |a. a \<in> set (sp_Artifacts r) \<and> Q (ar_Path a)} = gl_AbsPath ` {m \<in> set us. Q (gl_RelPath m)}" for Q
    using path unfolding arts by (force simp: ref)
  show "{path_Join [path_Clean wd, ar_Path a] |a. a \<in> set (sp_Artifacts r)} = {p \<in> (\<lambda>m. path_Join [path_Clean wd, m]) ` glob_paths glob paths. regular_file fs p}"
    if "sp_ScrapeError r = []"
  proof -
    have "sp_ScrapeError r0 = []" using all(2) that by simp
    then have "\<not> capped" "us = ms" using r0(2) all(1) that by auto
    then show ?thesis using paths_us [of "\<lambda>_. True"] globs(6) by simp
  qed
qed



definition sample_case :: "string \<Rightarrow> junitResult option \<Rightarrow> junitCase" where
  "sample_case name failure = \<lparr>jc_Name = name, jc_Classname = ''c'', jc_Time = ''1,5'', jc_File = [], jc_Skipped = None, jc_Failure = failure, jc_Errored = None\<rparr>"

definition sample_xml :: XmlDecoder where
  "sample_xml = \<lparr>xd_suites = (\<lambda>_. None), xd_suite = (\<lambda>_. Some (JunitSuite ''s'' 0 0 0 0
     [sample_case ''a'' None, sample_case ''b'' (Some \<lparr>jr_Message = [], jr_Type = ''T'', jr_Text = ''x''\<rparr>)] []))\<rparr>"

definition sample_files :: Files where
  "sample_files = \<lparr>fl_content = (\<lambda>p. if p = ''/data/r.xml'' then Some ''<testsuite/>'' else if p = ''/data/a.txt'' then Some ''hi'' else None),
     fl_isdir = (\<lambda>_. False)\<rparr>"

definition sample_glob :: "string \<Rightarrow> string list option" where
  "sample_glob p = (if p = ''*.xml'' then Some [''r.xml''] else if p = ''*'' then Some [''a.txt'', ''r.xml''] else None)"

definition sample_store :: Fake where
  "sample_store = NewFake\<lparr>fk_PutErrors := [Some ''down'']\<rparr>"

definition sample_scrape :: "string list \<Rightarrow> (scrape_error, ScrapeResult) result \<times> Fake" where
  "sample_scrape paths = Scrape (FakePut ''b'') (\<lambda>_. False) (\<lambda>_. ''t'') sample_glob sample_xml sample_files ''b'' ''/data'' ''runs/n/u/'' paths sample_store"

lemma sample_paths:
  "path_Clean ''/data'' = ''/data''" "path_Join [''/data'', ''r.xml''] = ''/data/r.xml''" "path_Join [''/data'', ''a.txt''] = ''/data/a.txt''"
  "is_xml ''r.xml''" "\<not> is_xml ''a.txt''" "ParseRunKeys ''runs/n/u/'' = Inr ''runs/n/u/''" "path_IsAbs ''*'' = False" "path_IsAbs ''*.xml'' = False"
  by code_simp+

lemma sample_regular: "regular_file sample_files ''/data/r.xml''" "regular_file sample_files ''/data/a.txt''"
  by (simp_all add: regular_file_def sample_files_def)

lemma sample_report: "\<exists>t cs. ParseJUnitReportFile sample_xml sample_files ''/data/r.xml'' = Inr (t, cs) \<and> tc_Total t = 2"
proof -
  have "IsProbablyJUnit ''<testsuite/>''" by code_simp
  then show ?thesis
    by (simp add: ParseJUnitReportFile_def sample_files_def ParseJUnitReport_def MaxJUnitFileBytes_def sample_xml_def aggregate_def summarised_def
      countCases_def count_case_def no_counts_def sample_case_def Let_def)
qed

lemma sample_expand: "ExpandGlobs sample_glob sample_files ''/data'' [''*'', ''*.xml''] =
    Inr (False, [\<lparr>gl_AbsPath = ''/data/a.txt'', gl_RelPath = ''a.txt''\<rparr>, \<lparr>gl_AbsPath = ''/data/r.xml'', gl_RelPath = ''r.xml''\<rparr>])"
  "ExpandGlobs sample_glob sample_files ''/data'' [''*.xml''] = Inr (False, [\<lparr>gl_AbsPath = ''/data/r.xml'', gl_RelPath = ''r.xml''\<rparr>])"
proof -
  have "\<not> ''r.xml'' \<le> ''a.txt''" "''a.txt'' \<le> ''r.xml''" by code_simp+
  then show "ExpandGlobs sample_glob sample_files ''/data'' [''*'', ''*.xml''] =
    Inr (False, [\<lparr>gl_AbsPath = ''/data/a.txt'', gl_RelPath = ''a.txt''\<rparr>, \<lparr>gl_AbsPath = ''/data/r.xml'', gl_RelPath = ''r.xml''\<rparr>])"
    by (simp add: ExpandGlobs_def sample_paths sample_regular sample_glob_def MaxMatchedFiles_def Let_def)
  show "ExpandGlobs sample_glob sample_files ''/data'' [''*.xml''] = Inr (False, [\<lparr>gl_AbsPath = ''/data/r.xml'', gl_RelPath = ''r.xml''\<rparr>])"
    by (simp add: ExpandGlobs_def sample_paths sample_regular sample_glob_def MaxMatchedFiles_def Let_def)
qed

lemma FakePut_sample:
  "FakePut ''b'' k v sample_store = (Inl ''down'', NewFake\<lparr>fk_PutCalls := 1\<rparr>)"
  by (simp add: FakePut_def sample_store_def NewFake_def next_error_def Let_def)

lemma FakePut_up: "fk_PutErrors f = [] \<Longrightarrow> \<exists>f'. FakePut b k v f = (Inr (), f') \<and> fk_PutErrors f' = []"
  by (simp add: FakePut_def next_error_def Let_def)

lemma upload_up:
  assumes "fk_PutErrors f = [] \<or> f = sample_store" "fl_content fs (gl_AbsPath m) = Some body"
  shows "\<exists>n' f'. uploadOne (FakePut ''b'') (\<lambda>_. False) mime fs keys m n f = (Inr (ref_of mime fs keys m), n', f') \<and> fk_PutErrors f' = []"
proof -
  have up: "\<exists>f'. put_attempts (FakePut ''b'') (\<lambda>_. False) k v left n g = (Inr (), n, f') \<and> fk_PutErrors f' = []"
    if "fk_PutErrors g = []" for k v left n g
    using FakePut_up [OF that, of "''b''" k v] by (subst put_attempts.simps) auto
  have down: "\<exists>n' f'. put_attempts (FakePut ''b'') (\<lambda>_. False) k v (Suc left) n sample_store = (Inr (), n', f') \<and> fk_PutErrors f' = []" for k v left n
    using up [of "NewFake\<lparr>fk_PutCalls := 1\<rparr>" k v left "Suc n"] by (subst put_attempts.simps) (auto simp: FakePut_sample NewFake_def)
  show ?thesis
    using assms up [of f "Artifact keys (gl_RelPath m)" body 2 n] down [of "Artifact keys (gl_RelPath m)" body 1 n]
    by (auto simp: uploadOne_def MaxUploadAttempts_def ref_of_def numeral_2_eq_2)
qed

lemma sample_scrape_runs:
  "\<exists>r f. sample_scrape [''*'', ''*.xml''] = (Inr r, f) \<and> map ar_Path (sp_Artifacts r) = [''a.txt'', ''r.xml'']"
  "\<exists>r f t. sample_scrape [''*.xml''] = (Inr r, f) \<and> sp_ScrapeError r = [] \<and> sp_TestCounts r = Some t \<and> tc_Total t = 2"
proof -
  let ?up = "uploadOne (FakePut ''b'') (\<lambda>_. False) (\<lambda>_. ''t'') sample_files ''runs/n/u/''"
  let ?a = "\<lparr>gl_AbsPath = ''/data/a.txt'', gl_RelPath = ''a.txt''\<rparr>" and ?r = "\<lparr>gl_AbsPath = ''/data/r.xml'', gl_RelPath = ''r.xml''\<rparr>"
  have ref: "ar_Path (ref_of mime fs keys m) = gl_RelPath m" for mime fs keys m by (simp add: ref_of_def Let_def)
  obtain t cs where t: "ParseJUnitReportFile sample_xml sample_files ''/data/r.xml'' = Inr (t, cs)" "tc_Total t = 2" using sample_report by blast
  obtain n1 f1 where a: "?up ?a (Suc 0) sample_store = (Inr (ref_of (\<lambda>_. ''t'') sample_files ''runs/n/u/'' ?a), n1, f1)" "fk_PutErrors f1 = []"
    using upload_up [of sample_store sample_files ?a "''hi''"] by (fastforce simp: sample_files_def)
  obtain n2 f2 where r: "?up ?r (Suc n1) f1 = (Inr (ref_of (\<lambda>_. ''t'') sample_files ''runs/n/u/'' ?r), n2, f2)"
    using upload_up [of f1 sample_files ?r "''<testsuite/>''"] a(2) by (fastforce simp: sample_files_def)
  obtain n3 f3 where r': "?up ?r (Suc 0) sample_store = (Inr (ref_of (\<lambda>_. ''t'') sample_files ''runs/n/u/'' ?r), n3, f3)"
    using upload_up [of sample_store sample_files ?r "''<testsuite/>''"] by (fastforce simp: sample_files_def)
  show "\<exists>r f. sample_scrape [''*'', ''*.xml''] = (Inr r, f) \<and> map ar_Path (sp_Artifacts r) = [''a.txt'', ''r.xml'']"
    by (simp add: sample_scrape_def Scrape_def sample_paths sample_expand a(1) r Let_def mergeReport_def t(1) empty_scrape_def ref)
  show "\<exists>r f t. sample_scrape [''*.xml''] = (Inr r, f) \<and> sp_ScrapeError r = [] \<and> sp_TestCounts r = Some t \<and> tc_Total t = 2"
    by (simp add: sample_scrape_def Scrape_def sample_paths sample_expand r' Let_def mergeReport_def t empty_scrape_def)
qed


text \<open>
  C27. When every artifact pattern asks for XML files, the JUnit verdict reads exactly the reports whose
  counts the scraper reports: for a scrape without an error over the same files, the verdict has no
  report when the scraper has no counts, finds the report empty when those count nothing, and otherwise
  decides on those very counts. The laws assumed of the glob library: both of its entry points find the
  same files, and a pattern that ends in \<open>.xml\<close> finds only names that do.
\<close>

theorem verdict_reads_the_reported_counts:
  assumes "fake_ok f" "Scrape (FakePut b) done mime glob x fs b wd pre paths f = (Inr r, f')" "sp_ScrapeError r = []"
    and "paths \<noteq> []" "wd \<noteq> []" "\<And>p. p \<in> set paths \<Longrightarrow> glob p \<noteq> None"
    and "\<And>p. p \<in> set paths \<Longrightarrow> filepathGlob (path_Join [wd, p]) = map_option (map (\<lambda>m. path_Join [path_Clean wd, m])) (glob p)"
    and "\<And>p m ms. p \<in> set paths \<Longrightarrow> glob p = Some ms \<Longrightarrow> m \<in> set ms \<Longrightarrow> is_xml m"
  shows "case sp_TestCounts r of
      None \<Rightarrow> \<exists>e. Scan filepathGlob x fs wd paths = Inl (NoReportFound e)
    | Some t \<Rightarrow> Scan filepathGlob x fs wd paths = (if tc_Total t = 0 then Inl EmptyReport else Inr t)"
proof -
  have "r \<noteq> empty_scrape\<lparr>sp_ScrapeError := [ExpandFailed e]\<rparr>" for e using assms(3) by (auto simp: empty_scrape_def)
  with assms(1,2) obtain keys capped ms us where ex: "ExpandGlobs glob fs wd paths = Inr (capped, ms)" and
    sc: "scraped mime x fs keys ms us [] (if capped then empty_scrape\<lparr>sp_ScrapeError := [TooManyFiles (length ms)]\<rparr> else empty_scrape) r
        (\<lambda>k. Object b k f) (\<lambda>k. Object b k f')"
    by (cases rule: fake.Scrape_held) blast+
  have cap: "\<not> capped" and us: "us = ms" using sc assms(3) by (auto simp: scraped_def empty_scrape_def split: if_splits)
  note globs = ExpandGlobs_ok [OF ex]
  have matched: "matched_by filepathGlob wd paths = (\<lambda>m. path_Join [path_Clean wd, m]) ` glob_paths glob paths"
    unfolding matched_by_def glob_paths_def image_UN by (rule SUP_cong) (auto simp: assms(7) split: option.splits)
  have "is_xml (gl_RelPath m)" if "m \<in> set ms" for m
    using globs(5) that assms(8) by (fastforce simp: glob_paths_def split: option.splits)
  then have "set (report_paths us) = gl_AbsPath ` set ms" by (auto simp: report_paths_def us)
  then have reports: "{p \<in> set (report_paths us). is_report x fs p} = {p \<in> matched_by filepathGlob wd paths. is_report x fs p}"
    using globs(6) [OF cap] by (auto simp: matched is_report_def)
  have "sp_TestCounts r = sp_TestCounts (merge_reports x fs (report_paths us) (empty_scrape\<lparr>sp_ScrapeError := []\<rparr>))"
    using sc cap by (simp add: scraped_def empty_scrape_def)
  also have "\<dots> = (let P = {p \<in> matched_by filepathGlob wd paths. is_report x fs p} in if P = {} then None else Some (sum_counts x fs P))"
    using uploaded_reports [OF ex, of us x "[]"] unfolding reports by (simp add: us)
  finally show ?thesis
    using Scan_exact [of wd paths filepathGlob x fs] assms(4-7) by (auto simp: Let_def)
qed

theorem verdict_reads_the_reported_counts_witness:
  "case sample_scrape [''*.xml''] of
     (Inr r, f) \<Rightarrow> (case sp_TestCounts r of Some t \<Rightarrow> tc_Total t = 2
         \<and> Scan (\<lambda>p. if p = ''/data/*.xml'' then Some [''/data/r.xml''] else None) sample_xml sample_files ''/data'' [''*.xml''] = Inr t
       | None \<Rightarrow> False)
   | _ \<Rightarrow> False"
proof -
  obtain r f t where rf: "sample_scrape [''*.xml''] = (Inr r, f)" "sp_ScrapeError r = []" "sp_TestCounts r = Some t" "tc_Total t = 2"
    using sample_scrape_runs(2) by blast
  have join: "path_Join [''/data'', ''*.xml''] = ''/data/*.xml''" by code_simp
  have "fake_ok sample_store" by (simp add: fake_ok_def sample_store_def NewFake_def)
  moreover have "sample_glob p \<noteq> None" "(\<lambda>p. if p = ''/data/*.xml'' then Some [''/data/r.xml''] else None) (path_Join [''/data'', p]) =
      map_option (map (\<lambda>m. path_Join [path_Clean ''/data'', m])) (sample_glob p)" if "p \<in> set [''*.xml'']" for p
    using that by (simp_all add: join sample_glob_def sample_paths)
  moreover have "is_xml m" if "p \<in> set [''*.xml'']" "sample_glob p = Some ms" "m \<in> set ms" for p m ms
    using that by (auto simp: sample_glob_def sample_paths)
  ultimately have "case sp_TestCounts r of
      None \<Rightarrow> \<exists>e. Scan (\<lambda>p. if p = ''/data/*.xml'' then Some [''/data/r.xml''] else None) sample_xml sample_files ''/data'' [''*.xml''] = Inl (NoReportFound e)
    | Some t \<Rightarrow> Scan (\<lambda>p. if p = ''/data/*.xml'' then Some [''/data/r.xml''] else None) sample_xml sample_files ''/data'' [''*.xml'']
        = (if tc_Total t = 0 then Inl EmptyReport else Inr t)"
    by (intro verdict_reads_the_reported_counts [OF _ rf(1) [unfolded sample_scrape_def] rf(2)]) simp_all
  then show ?thesis using rf by simp
qed

end
