(* ===== verification/Jtl.thy ===== *)
theory Jtl
  imports Junit
begin

text \<open>
  The JMeter verdict: \<open>src/pkg/verdict/jtl\<close> (counting the samples of a test log), its wiring in
  \<open>src/cmd/entry/main.go\<close> (which log is read, the comparison with the threshold) and
  \<open>parseErrorRateMax\<close> of \<open>src/pkg/executor/entry.go\<close>. The CSV reader is a parameter: the records of a
  text, and whether reading ended in an error. The mean of the elapsed times, which nothing reads, is left
  out.
\<close>

section \<open>Samples\<close>

record JTLAggregate =
  ag_SamplesTotal :: int
  ag_SamplesFailed :: int

datatype jtl_error = JtlNotFound | JtlEmpty | NoSuccessColumn | BadRow | ManyLogs "string list"

type_synonym csv_reader = "string \<Rightarrow> string list list \<times> bool"

text \<open>The last column of the name.\<close>

definition success_column :: "string list \<Rightarrow> nat option" where
  "success_column header = foldl (\<lambda>c (i, h). if to_lower (trim_space h) = ''success'' then Some i else c) None (enumerate 0 header)"

definition add_sample :: "nat \<Rightarrow> string list \<Rightarrow> JTLAggregate \<Rightarrow> JTLAggregate" where
  "add_sample col row a = (if length row \<le> col then a
     else a\<lparr>ag_SamplesTotal := ag_SamplesTotal a + 1,
       ag_SamplesFailed := ag_SamplesFailed a + (if to_lower (trim_space (row ! col)) = ''false'' then 1 else 0)\<rparr>)"

definition ParseJTL :: "csv_reader \<Rightarrow> string \<Rightarrow> (jtl_error, JTLAggregate) result" where
  "ParseJTL csv content = (case csv content of
     ([], failed) \<Rightarrow> Inl (if failed then BadRow else JtlEmpty)
   | (header # rows, failed) \<Rightarrow> (case success_column header of
       None \<Rightarrow> Inl NoSuccessColumn
     | Some col \<Rightarrow> if failed then Inl BadRow
         else Inr (fold (add_sample col) rows \<lparr>ag_SamplesTotal = 0, ag_SamplesFailed = 0\<rparr>)))"

text \<open>Division of two floats that come from integers.\<close>

definition int_ratio :: "int \<Rightarrow> int \<Rightarrow> float64" where
  "int_ratio a b = (case to_float64 (round64 (of_int a) / round64 (of_int b)) of Some f \<Rightarrow> f | None \<Rightarrow> Infinite (a < 0))"

definition AggregateErrorRate :: "JTLAggregate \<Rightarrow> float64" where
  "AggregateErrorRate a = (if ag_SamplesTotal a = 0 then Finite 0 else int_ratio (ag_SamplesFailed a) (ag_SamplesTotal a))"

section \<open>The log and the verdict\<close>

text \<open>\<open>walk\<close>: the files below the directory, in the order of the walk.\<close>

definition findJTL :: "Files \<Rightarrow> string list \<Rightarrow> string \<Rightarrow> (jtl_error, string) result" where
  "findJTL fs walk dir =
     (let out = path_Join [dir, ''out.jtl'']
      in if fl_content fs out \<noteq> None \<or> fl_isdir fs out then Inr out
         else let logs = filter (\<lambda>p. has_suffix ''.jtl'' (to_lower (last (split_on (CHR ''/'') p)))) walk
              in case logs of [] \<Rightarrow> Inl JtlNotFound | [p] \<Rightarrow> Inr p | _ \<Rightarrow> Inl (ManyLogs logs))"

record JTLProcessorResult =
  jp_SamplesTotal :: int
  jp_SamplesFailed :: int
  jp_ErrorRate :: float64
  jp_Threshold :: float64
  jp_Passed :: bool

definition jtlProcessorFromDir :: "csv_reader \<Rightarrow> Files \<Rightarrow> string list \<Rightarrow> string \<Rightarrow> float64 \<Rightarrow> (jtl_error, JTLProcessorResult) result" where
  "jtlProcessorFromDir csv fs walk dir threshold =
     rbind (findJTL fs walk dir) (\<lambda>path.
     rbind (case fl_content fs path of None \<Rightarrow> Inl JtlNotFound | Some b \<Rightarrow> ParseJTL csv b) (\<lambda>agg.
     let rate = AggregateErrorRate agg
     in Inr \<lparr>jp_SamplesTotal = ag_SamplesTotal agg, jp_SamplesFailed = ag_SamplesFailed agg, jp_ErrorRate = rate, jp_Threshold = threshold,
              jp_Passed = float_le rate threshold\<rparr>))"

section \<open>The threshold\<close>

text \<open>
  \<open>fmt.Sscanf\<close> with \<open>%f\<close>: leading blanks are skipped, a newline among them is an error, then the longest
  token that looks like a float is taken; what follows it is not read. The state is what the token has so
  far (reversed) and the rest of the input.
\<close>

type_synonym scan_input = "string \<times> string"

definition accept_char :: "string \<Rightarrow> scan_input \<Rightarrow> bool \<times> scan_input" where
  "accept_char ok s = (case s of (tok, c # cs) \<Rightarrow> if c \<in> set ok then (True, c # tok, cs) else (False, s) | _ \<Rightarrow> (False, s))"

definition accept_all :: "string \<Rightarrow> scan_input \<Rightarrow> scan_input" where
  "accept_all ok s = (case s of (tok, cs) \<Rightarrow> (rev (takeWhile (\<lambda>c. c \<in> set ok) cs) @ tok, dropWhile (\<lambda>c. c \<in> set ok) cs))"

definition accept_word :: "string \<Rightarrow> string \<Rightarrow> string \<Rightarrow> scan_input \<Rightarrow> bool \<times> scan_input" where
  "accept_word a b c s = (case accept_char a s of (False, s) \<Rightarrow> (False, s)
     | (True, s) \<Rightarrow> (case accept_char b s of (False, s) \<Rightarrow> (False, s) | (True, s) \<Rightarrow> accept_char c s))"

definition floatToken :: "string \<Rightarrow> string" where
  "floatToken input =
     (case accept_word ''nN'' ''aA'' ''nN'' ([], input) of
        (True, tok, _) \<Rightarrow> rev tok
      | (False, s) \<Rightarrow> (case accept_word ''iI'' ''nN'' ''fF'' (snd (accept_char ''+-'' s)) of
          (True, tok, _) \<Rightarrow> rev tok
        | (False, s) \<Rightarrow>
            (let (zero, s) = accept_char ''0'' s;
                 (hex, s) = (if zero then accept_char ''xX'' s else (False, s));
                 digits = (if hex then ''0123456789aAbBcCdDeEfF_'' else ''0123456789_'');
                 s = accept_all digits s;
                 (point, s) = accept_char ''.'' s;
                 s = (if point then accept_all digits s else s);
                 (expo, s) = accept_char (if hex then ''pP'' else ''eEpP'') s;
                 s = (if expo then accept_all ''0123456789_'' (snd (accept_char ''+-'' s)) else s)
             in rev (fst s))))"

text \<open>A decimal mantissa with a binary exponent is the scanner's own; everything else is \<open>ParseFloat\<close>.\<close>

definition convertFloat :: "string \<Rightarrow> float64 option" where
  "convertFloat tok =
     (if CHR ''p'' \<in> set tok \<and> CHR ''x'' \<notin> set tok \<and> CHR ''X'' \<notin> set tok
      then (let mant = takeWhile (\<lambda>c. c \<noteq> CHR ''p'') tok; expo = drop (length mant + 1) tok
            in case (ParseFloat mant, parse_int64 expo) of
                 (Some (Finite x), Some m) \<Rightarrow> Some (case to_float64 (x * pow2 m) of Some f \<Rightarrow> f | None \<Rightarrow> Infinite (x < 0))
               | (Some f, Some _) \<Rightarrow> Some f
               | _ \<Rightarrow> None)
      else ParseFloat tok)"

definition blank_encodings :: "string list" where
  "blank_encodings = filter (\<lambda>e. e \<noteq> [newline]) space_encodings"

definition Sscanf_float :: "string \<Rightarrow> float64 option" where
  "Sscanf_float s = (let r = trim_left_enc blank_encodings s
     in if r = [] \<or> hd r = newline then None else convertFloat (floatToken r))"

datatype rate_error = NotAFloat string | RateOutOfRange float64

definition parseErrorRateMax :: "string \<Rightarrow> (rate_error, float64) result" where
  "parseErrorRateMax s = (if s = [] then Inr (Finite 0)
     else case Sscanf_float s of None \<Rightarrow> Inl (NotAFloat s)
      | Some f \<Rightarrow> if float_less f (Finite 0) \<or> float_less (Finite 1) f then Inl (RateOutOfRange f) else Inr f)"

section \<open>Lemmas\<close>

lemma fold_samples:
  "ag_SamplesTotal (fold (add_sample col) rows a) = ag_SamplesTotal a + int (length (filter (\<lambda>r. col < length r) rows))"
  "ag_SamplesFailed (fold (add_sample col) rows a) =
     ag_SamplesFailed a + int (length (filter (\<lambda>r. col < length r \<and> to_lower (trim_space (r ! col)) = ''false'') rows))"
  by (induction rows arbitrary: a) (auto simp: add_sample_def)

text \<open>The samples are the rows that reach the column; between none and all of them failed.\<close>

lemma ParseJTL_counts:
  assumes "ParseJTL csv content = Inr a"
  obtains header rows col where "csv content = (header # rows, False)" "success_column header = Some col"
    "ag_SamplesTotal a = int (length (filter (\<lambda>r. col < length r) rows))"
    "ag_SamplesFailed a = int (length (filter (\<lambda>r. col < length r \<and> to_lower (trim_space (r ! col)) = ''false'') rows))"
    "0 \<le> ag_SamplesFailed a" "ag_SamplesFailed a \<le> ag_SamplesTotal a"
proof -
  obtain header rows col where h: "csv content = (header # rows, False)" "success_column header = Some col"
    "a = fold (add_sample col) rows \<lparr>ag_SamplesTotal = 0, ag_SamplesFailed = 0\<rparr>"
    using assms by (auto simp: ParseJTL_def split: prod.splits list.splits option.splits if_splits)
  have "length (filter (\<lambda>r. col < length r \<and> to_lower (trim_space (r ! col)) = ''false'') rows) \<le> length (filter (\<lambda>r. col < length r) rows)"
    by (induction rows) auto
  then show ?thesis using h by (intro that [of header rows col]) (auto simp: fold_samples)
qed

text \<open>No threshold is the strictest one; NaN passes both range checks.\<close>

lemma parseErrorRateMax_examples: "parseErrorRateMax [] = Inr (Finite 0)" "parseErrorRateMax ''NaN'' = Inr NaN"
  by code_simp+

lemma float_less_NaN [simp]: "\<not> float_less x NaN"
  by (cases x) simp_all

lemma nan_threshold_never_passes:
  "jtlProcessorFromDir csv fs walk dir NaN = Inr r \<Longrightarrow> \<not> jp_Passed r"
  by (auto simp: jtlProcessorFromDir_def rbind_Inr Let_def float_le_def)

end
