(* ===== verification/Wrapper.thy ===== *)
theory Wrapper
  imports Scrape Jtl
begin

text \<open>
  The wrapper that runs the tool in the pod, \<open>src/pkg/executor/entry.go\<close>: the tries, the verdict, what is
  collected afterwards and where the result goes. What a try meets (how the process ends, what the report
  processors find in the working directory after it), the state of the context at each place the code
  looks at it, and the outcome of each write are parameters. Error messages are values. The log lines of
  \<open>collect_log.go\<close> are not modelled.
\<close>

section \<open>Request and result\<close>

record ExecutionRequest =
  rq_StoragePrefix :: string
  rq_DataDir :: string
  rq_WorkingDir :: string
  rq_Command :: "string list"
  rq_Args :: "string list"
  rq_ArtifactPaths :: "string list"
  rq_TimeoutSeconds :: int
  rq_VerdictFrom :: string
  rq_ErrorRateMax :: string
  rq_MetricsFrom :: string
  rq_MetricsPath :: string
  rq_RetryCount :: int

datatype tool_message = NoMessage | ExecFailed string | ExitCodeIs int | NoJUnitProcessor | JUnitError scan_error | JUnitFailures int int
  | NoJTLProcessor | BadThreshold rate_error | JTLError jtl_error | RateExceeds float64 float64 int int
  | TimeoutExceeded int | TimeoutWith tool_message | AbortedBySignal | LoadFailed string | NothingToRun

record TryResult =
  ty_Phase :: Phase
  ty_ErrorMessage :: tool_message
  ty_ToolExitCode :: "int option"

datatype scrape_note = NoNote | ScrapeFailed scrape_error | ScrapeProblems "scrape_problem list"

record ToolResult =
  tr_Phase :: Phase
  tr_ErrorMessage :: tool_message
  tr_Metrics :: "(string, float64) gomap"
  tr_TestCounts :: "TestCounts option"
  tr_Content :: "ContentStatus option"
  tr_TestCases :: "TestCase list"
  tr_ToolFinishedAt :: "instant option"
  tr_Attempts :: "TryResult list"
  tr_Artifacts :: "ArtifactRef list"
  tr_ScrapeError :: scrape_note
  tr_MetricsError :: "string option"
  tr_ToolExitCode :: "int option"

definition tool_result :: "Phase \<Rightarrow> tool_message \<Rightarrow> int option \<Rightarrow> ToolResult" where
  "tool_result phase msg code = \<lparr>tr_Phase = phase, tr_ErrorMessage = msg, tr_Metrics = [], tr_TestCounts = None, tr_Content = None, tr_TestCases = [],
     tr_ToolFinishedAt = None, tr_Attempts = [], tr_Artifacts = [], tr_ScrapeError = NoNote, tr_MetricsError = None, tr_ToolExitCode = code\<rparr>"

section \<open>The surroundings\<close>

text \<open>How a process ends: with an exit code (zero is no error), or it could not be run.\<close>

datatype run_end = Exited int | NotRun string

datatype ctx_state = Alive | DeadlineExceeded | Canceled

datatype moment = AfterTry nat | FirstCheck | SecondCheck | AtScrape | AtUpload

record Entry =
  en_Run :: "nat \<Rightarrow> string \<Rightarrow> string list \<Rightarrow> run_end"
  en_JUnit :: "(nat \<Rightarrow> string \<Rightarrow> string list \<Rightarrow> (scan_error, TestCounts) result) option"
  en_JTL :: "(nat \<Rightarrow> string \<Rightarrow> float64 \<Rightarrow> (jtl_error, JTLProcessorResult) result) option"
  en_Ctx :: "moment \<Rightarrow> ctx_state"
  en_Scraper :: "(bool \<Rightarrow> string \<Rightarrow> string \<Rightarrow> string list \<Rightarrow> (scrape_error, ScrapeResult) result) option"
  en_UploadResult :: "ctx_state \<Rightarrow> string \<Rightarrow> ToolResult \<Rightarrow> bool"
  en_Metrics :: "string \<Rightarrow> string \<Rightarrow> string \<Rightarrow> (string, (string, float64) gomap) result"
  en_Content :: "string \<Rightarrow> ContentStatus option"
  en_WriteResult :: "ToolResult \<Rightarrow> bool"
  en_ToolEnd :: instant
  en_WorkingDir :: string

text \<open>What a run of the wrapper leaves: the termination message, the result file, the uploaded result; whether it ended with an error.\<close>

record Left =
  lf_Termination :: "ToolResult option"
  lf_ResultFile :: "ToolResult option"
  lf_Uploaded :: "ToolResult option"
  lf_Error :: bool

section \<open>One try\<close>

definition splitInvocation :: "ExecutionRequest \<Rightarrow> string \<times> string list" where
  "splitInvocation q = (case rq_Command q of c # cs \<Rightarrow> (c, cs @ rq_Args q) | [] \<Rightarrow> (hd (rq_Args q), tl (rq_Args q)))"

definition workingDir :: "ExecutionRequest \<Rightarrow> string" where
  "workingDir q = (if rq_WorkingDir q \<noteq> [] then rq_WorkingDir q else if rq_DataDir q \<noteq> [] then rq_DataDir q else ''.'')"

definition processor_dir :: "Entry \<Rightarrow> ExecutionRequest \<Rightarrow> string" where
  "processor_dir e q = (if en_WorkingDir e = [] then workingDir q else en_WorkingDir e)"

definition junitGlobs :: "ExecutionRequest \<Rightarrow> string list" where
  "junitGlobs q = filter (\<lambda>p. has_suffix ''.xml'' (to_lower p)) (rq_ArtifactPaths q)"

definition baseVerdict :: "run_end \<Rightarrow> ToolResult" where
  "baseVerdict r = (case r of
     Exited code \<Rightarrow> if code = 0 then tool_result PhasePassed NoMessage (Some 0) else tool_result PhaseFailed (ExitCodeIs code) (Some code)
   | NotRun err \<Rightarrow> tool_result PhaseError (ExecFailed err) None)"

definition float_of_int :: "int \<Rightarrow> float64" where
  "float_of_int n = (case to_float64 (of_int n) of Some f \<Rightarrow> f | None \<Rightarrow> Infinite (n < 0))"

definition applyJUnitVerdict :: "(string \<Rightarrow> string list \<Rightarrow> (scan_error, TestCounts) result) option \<Rightarrow> string \<Rightarrow> string list \<Rightarrow> ToolResult \<Rightarrow> ToolResult" where
  "applyJUnitVerdict processor dir globs base = (case processor of
     None \<Rightarrow> tool_result PhaseError NoJUnitProcessor (tr_ToolExitCode base)
   | Some scan \<Rightarrow> (case scan dir globs of
       Inl err \<Rightarrow> tool_result PhaseError (JUnitError err) (tr_ToolExitCode base)
     | Inr tc \<Rightarrow>
         (let metrics = [(''tests_total'', float_of_int (tc_Total tc)), (''tests_passed'', float_of_int (tc_Total tc - tc_Failed tc - tc_Skipped tc)),
                (''tests_failed'', float_of_int (tc_Failed tc)), (''tests_skipped'', float_of_int (tc_Skipped tc))]
          in if 0 < tc_Failed tc
             then (tool_result PhaseFailed (JUnitFailures (tc_Failed tc) (tc_Total tc)) (tr_ToolExitCode base))\<lparr>tr_TestCounts := Some tc, tr_Metrics := metrics\<rparr>
             else (tool_result PhasePassed NoMessage (tr_ToolExitCode base))\<lparr>tr_TestCounts := Some tc, tr_Metrics := metrics\<rparr>)))"

definition applyJTLVerdict :: "(string \<Rightarrow> float64 \<Rightarrow> (jtl_error, JTLProcessorResult) result) option \<Rightarrow> string \<Rightarrow> string \<Rightarrow> ToolResult \<Rightarrow> ToolResult" where
  "applyJTLVerdict processor dir errorRateMax base = (case processor of
     None \<Rightarrow> tool_result PhaseError NoJTLProcessor (tr_ToolExitCode base)
   | Some load \<Rightarrow> (case parseErrorRateMax errorRateMax of
       Inl err \<Rightarrow> tool_result PhaseError (BadThreshold err) (tr_ToolExitCode base)
     | Inr limit \<Rightarrow> (case load dir limit of
         Inl err \<Rightarrow> tool_result PhaseError (JTLError err) (tr_ToolExitCode base)
       | Inr res \<Rightarrow>
           (let metrics = [(''requests'', float_of_int (jp_SamplesTotal res)), (''errors'', float_of_int (jp_SamplesFailed res)), (''error_rate'', jp_ErrorRate res)]
            in if \<not> jp_Passed res
               then (tool_result PhaseFailed (RateExceeds (jp_ErrorRate res) (jp_Threshold res) (jp_SamplesFailed res) (jp_SamplesTotal res)) (tr_ToolExitCode base))
                 \<lparr>tr_Metrics := metrics\<rparr>
               else (tool_result PhasePassed NoMessage (tr_ToolExitCode base))\<lparr>tr_Metrics := metrics\<rparr>))))"

definition entry_runTool :: "Entry \<Rightarrow> ExecutionRequest \<Rightarrow> nat \<Rightarrow> ToolResult" where
  "entry_runTool e q n =
     (let base = (case splitInvocation q of (binary, argv) \<Rightarrow> baseVerdict (en_Run e n binary argv))
      in if rq_VerdictFrom q = ''junit'' then applyJUnitVerdict (map_option (\<lambda>p. p n) (en_JUnit e)) (processor_dir e q) (junitGlobs q) base
         else if rq_VerdictFrom q = ''jtl'' then applyJTLVerdict (map_option (\<lambda>p. p n) (en_JTL e)) (processor_dir e q) (rq_ErrorRateMax q) base
         else base)"

section \<open>The tries\<close>

definition retryable :: "ToolResult \<Rightarrow> bool" where
  "retryable r \<longleftrightarrow> tr_Phase r = PhaseFailed \<or> (tr_Phase r = PhaseError \<and> tr_ToolExitCode r \<noteq> None)"

definition attemptOf :: "ToolResult \<Rightarrow> TryResult" where
  "attemptOf r = \<lparr>ty_Phase = tr_Phase r, ty_ErrorMessage = tr_ErrorMessage r, ty_ToolExitCode = tr_ToolExitCode r\<rparr>"

text \<open>After try \<open>n\<close> with result \<open>r\<close>, when \<open>left\<close> tries remain: the last result and the earlier attempts.\<close>

fun retry_loop :: "Entry \<Rightarrow> ExecutionRequest \<Rightarrow> nat \<Rightarrow> nat \<Rightarrow> ToolResult \<Rightarrow> TryResult list \<Rightarrow> ToolResult \<times> TryResult list" where
  "retry_loop e q 0 n r attempts = (r, attempts)"
| "retry_loop e q (Suc left) n r attempts = (if retryable r \<and> en_Ctx e (AfterTry n) = Alive
     then retry_loop e q left (Suc n) (entry_runTool e q (Suc n)) (attempts @ [attemptOf r]) else (r, attempts))"

definition runWithRetry :: "Entry \<Rightarrow> ExecutionRequest \<Rightarrow> ToolResult" where
  "runWithRetry e q = (let result = entry_runTool e q 1
     in if rq_RetryCount q \<le> 0 then result
        else case retry_loop e q (nat (rq_RetryCount q)) 1 result [] of
          (r, attempts) \<Rightarrow> if attempts \<noteq> [] then r\<lparr>tr_Attempts := attempts @ [attemptOf r]\<rparr> else r)"

section \<open>After the tool\<close>

definition reclassify :: "Entry \<Rightarrow> ExecutionRequest \<Rightarrow> ToolResult \<Rightarrow> ToolResult" where
  "reclassify e q r =
     (if en_Ctx e FirstCheck = DeadlineExceeded
      then r\<lparr>tr_Phase := PhaseError, tr_ErrorMessage := (if tr_ErrorMessage r = NoMessage then TimeoutExceeded (rq_TimeoutSeconds q) else TimeoutWith (tr_ErrorMessage r))\<rparr>
      else if en_Ctx e SecondCheck = Canceled
      then r\<lparr>tr_Phase := PhaseAborted, tr_ErrorMessage := (if tr_ErrorMessage r = NoMessage then AbortedBySignal else tr_ErrorMessage r)\<rparr>
      else r)"

definition last_attempt :: "ToolResult \<Rightarrow> ToolResult" where
  "last_attempt r = (let n = length (tr_Attempts r) in if 0 < n then r\<lparr>tr_Attempts := (tr_Attempts r)[n - 1 := attemptOf r]\<rparr> else r)"

definition entry_parseMetrics :: "Entry \<Rightarrow> ExecutionRequest \<Rightarrow> ToolResult \<Rightarrow> ToolResult" where
  "entry_parseMetrics e q r = (if rq_MetricsFrom q = [] then r
     else case en_Metrics e (rq_MetricsFrom q) (processor_dir e q) (rq_MetricsPath q) of
       Inl err \<Rightarrow> r\<lparr>tr_MetricsError := Some err\<rparr>
     | Inr m \<Rightarrow> r\<lparr>tr_Metrics := maps_copy (tr_Metrics r) m\<rparr>)"

definition scrape_dir :: "Entry \<Rightarrow> ExecutionRequest \<Rightarrow> string" where
  "scrape_dir e q = (if en_WorkingDir e \<noteq> [] then en_WorkingDir e else if rq_WorkingDir q \<noteq> [] then rq_WorkingDir q else rq_DataDir q)"

text \<open>A context that is done is replaced by a fresh one with the grace period: the first argument of the scraper.\<close>

definition runScrape :: "Entry \<Rightarrow> ExecutionRequest \<Rightarrow> ToolResult \<Rightarrow> ToolResult" where
  "runScrape e q r = (case en_Scraper e of None \<Rightarrow> r
     | Some scrape \<Rightarrow> if scrape_dir e q = [] then r
       else (case scrape (en_Ctx e AtScrape \<noteq> Alive) (scrape_dir e q) (rq_StoragePrefix q) (rq_ArtifactPaths q) of
         Inl err \<Rightarrow> r\<lparr>tr_ScrapeError := (if tr_ScrapeError r = NoNote then ScrapeFailed err else tr_ScrapeError r)\<rparr>
       | Inr sr \<Rightarrow> r\<lparr>tr_Artifacts := sp_Artifacts sr, tr_TestCases := sp_TestCases sr,
           tr_TestCounts := (if sp_TestCounts sr \<noteq> None \<and> tr_TestCounts r = None then sp_TestCounts sr else tr_TestCounts r),
           tr_ScrapeError := (if sp_ScrapeError sr \<noteq> [] then ScrapeProblems (sp_ScrapeError sr) else tr_ScrapeError r)\<rparr>))"

definition writeErrorResult :: "Entry \<Rightarrow> tool_message \<Rightarrow> Left" where
  "writeErrorResult e msg = (let r = tool_result PhaseError msg None
     in \<lparr>lf_Termination = Some r, lf_ResultFile = (if en_WriteResult e r then Some r else None), lf_Uploaded = None, lf_Error = \<not> en_WriteResult e r\<rparr>)"

text \<open>The final result of a request that is run.\<close>

definition final_result :: "Entry \<Rightarrow> ExecutionRequest \<Rightarrow> ToolResult" where
  "final_result e q =
     (let r = (runWithRetry e q)\<lparr>tr_ToolFinishedAt := Some (en_ToolEnd e)\<rparr>;
          r = last_attempt (reclassify e q r);
          r = runScrape e q (entry_parseMetrics e q r)
      in r\<lparr>tr_Content := (if rq_DataDir q = [] then None else en_Content e (rq_DataDir q))\<rparr>)"

definition Execute :: "Entry \<Rightarrow> (string, ExecutionRequest) result \<Rightarrow> Left" where
  "Execute e request = (case request of
     Inl err \<Rightarrow> writeErrorResult e (LoadFailed err)
   | Inr q \<Rightarrow> if rq_Command q = [] \<and> rq_Args q = [] then writeErrorResult e NothingToRun
       else (let r = final_result e q
             in if \<not> en_WriteResult e r then \<lparr>lf_Termination = Some r, lf_ResultFile = None, lf_Uploaded = None, lf_Error = True\<rparr>
                else \<lparr>lf_Termination = Some r, lf_ResultFile = Some r,
                       lf_Uploaded = (if en_Scraper e \<noteq> None \<and> rq_StoragePrefix q \<noteq> [] \<and> en_UploadResult e (en_Ctx e AtUpload) (rq_StoragePrefix q) r
                         then Some r else None),
                       lf_Error = False\<rparr>))"

section \<open>What decides the verdict\<close>

definition run_end_of :: "Entry \<Rightarrow> ExecutionRequest \<Rightarrow> nat \<Rightarrow> run_end" where
  "run_end_of e q n = (case splitInvocation q of (binary, argv) \<Rightarrow> en_Run e n binary argv)"

definition exit_code :: "run_end \<Rightarrow> int option" where
  "exit_code r = (case r of Exited c \<Rightarrow> Some c | NotRun _ \<Rightarrow> None)"

text \<open>A try passes by its report when the verdict comes from one, else by its exit code.\<close>

definition try_passes :: "Entry \<Rightarrow> ExecutionRequest \<Rightarrow> nat \<Rightarrow> bool" where
  "try_passes e q n =
     (if rq_VerdictFrom q = ''junit''
      then (case en_JUnit e of None \<Rightarrow> False
        | Some scan \<Rightarrow> (case scan n (processor_dir e q) (junitGlobs q) of Inl _ \<Rightarrow> False | Inr tc \<Rightarrow> tc_Failed tc \<le> 0))
      else if rq_VerdictFrom q = ''jtl''
      then (case (en_JTL e, parseErrorRateMax (rq_ErrorRateMax q)) of
          (Some load, Inr limit) \<Rightarrow> (case load n (processor_dir e q) limit of Inl _ \<Rightarrow> False | Inr res \<Rightarrow> jp_Passed res)
        | _ \<Rightarrow> False)
      else run_end_of e q n = Exited 0)"

lemma tool_result_simps [simp]:
  "tr_Phase (tool_result p m c) = p" "tr_ErrorMessage (tool_result p m c) = m" "tr_ToolExitCode (tool_result p m c) = c"
  "tr_Attempts (tool_result p m c) = []"
  by (simp_all add: tool_result_def)

lemma baseVerdict_ok:
  "tr_Phase (baseVerdict r) = PhasePassed \<longleftrightarrow> r = Exited 0" "tr_ErrorMessage (baseVerdict r) = NoMessage \<longleftrightarrow> r = Exited 0"
  "tr_ToolExitCode (baseVerdict r) = exit_code r" "tr_Attempts (baseVerdict r) = []"
  by (auto simp: baseVerdict_def exit_code_def split: run_end.splits)

lemma applyJUnitVerdict_ok:
  "tr_Phase (applyJUnitVerdict p d g b) = PhasePassed \<longleftrightarrow>
     (case p of None \<Rightarrow> False | Some scan \<Rightarrow> (case scan d g of Inl _ \<Rightarrow> False | Inr tc \<Rightarrow> tc_Failed tc \<le> 0))"
  "tr_ErrorMessage (applyJUnitVerdict p d g b) = NoMessage \<longleftrightarrow> tr_Phase (applyJUnitVerdict p d g b) = PhasePassed"
  "tr_ToolExitCode (applyJUnitVerdict p d g b) = tr_ToolExitCode b" "tr_Attempts (applyJUnitVerdict p d g b) = []"
  by (simp_all add: applyJUnitVerdict_def Let_def split: option.splits sum.splits)

lemma applyJTLVerdict_ok:
  "tr_Phase (applyJTLVerdict p d m b) = PhasePassed \<longleftrightarrow> (case (p, parseErrorRateMax m) of
     (Some load, Inr limit) \<Rightarrow> (case load d limit of Inl _ \<Rightarrow> False | Inr res \<Rightarrow> jp_Passed res) | _ \<Rightarrow> False)"
  "tr_ErrorMessage (applyJTLVerdict p d m b) = NoMessage \<longleftrightarrow> tr_Phase (applyJTLVerdict p d m b) = PhasePassed"
  "tr_ToolExitCode (applyJTLVerdict p d m b) = tr_ToolExitCode b" "tr_Attempts (applyJTLVerdict p d m b) = []"
  by (simp_all add: applyJTLVerdict_def Let_def split: option.splits sum.splits)

lemma entry_runTool_ok:
  "tr_Phase (entry_runTool e q n) = PhasePassed \<longleftrightarrow> try_passes e q n"
  "tr_ErrorMessage (entry_runTool e q n) = NoMessage \<longleftrightarrow> tr_Phase (entry_runTool e q n) = PhasePassed"
  "tr_ToolExitCode (entry_runTool e q n) = exit_code (run_end_of e q n)" "tr_Attempts (entry_runTool e q n) = []"
proof -
  have base: "(case splitInvocation q of (b, a) \<Rightarrow> baseVerdict (en_Run e n b a)) = baseVerdict (run_end_of e q n)"
    by (simp add: run_end_of_def split: prod.splits)
  show "tr_Phase (entry_runTool e q n) = PhasePassed \<longleftrightarrow> try_passes e q n"
    unfolding entry_runTool_def base try_passes_def
    by (simp add: Let_def applyJUnitVerdict_ok applyJTLVerdict_ok baseVerdict_ok split: option.splits sum.splits)
  show "tr_ErrorMessage (entry_runTool e q n) = NoMessage \<longleftrightarrow> tr_Phase (entry_runTool e q n) = PhasePassed"
    "tr_ToolExitCode (entry_runTool e q n) = exit_code (run_end_of e q n)" "tr_Attempts (entry_runTool e q n) = []"
    unfolding entry_runTool_def base by (simp_all add: Let_def applyJUnitVerdict_ok applyJTLVerdict_ok baseVerdict_ok)
qed

section \<open>Which try is the last\<close>

definition tries_again :: "Entry \<Rightarrow> ExecutionRequest \<Rightarrow> nat \<Rightarrow> bool" where
  "tries_again e q n \<longleftrightarrow> retryable (entry_runTool e q n) \<and> en_Ctx e (AfterTry n) = Alive"

lemma retry_loop_spec:
  "\<exists>m. retry_loop e q left n (entry_runTool e q n) as = (entry_runTool e q m, as @ map (\<lambda>i. attemptOf (entry_runTool e q i)) [n..<m])
     \<and> n \<le> m \<and> m \<le> n + left \<and> (\<forall>i \<in> {n..<m}. tries_again e q i) \<and> (m = n + left \<or> \<not> tries_again e q m)"
proof (induction left arbitrary: n as)
  case 0
  show ?case by (intro exI [of _ n]) simp
next
  case (Suc left)
  show ?case
  proof (cases "tries_again e q n")
    case True
    obtain m where m: "retry_loop e q left (Suc n) (entry_runTool e q (Suc n)) (as @ [attemptOf (entry_runTool e q n)]) =
        (entry_runTool e q m, (as @ [attemptOf (entry_runTool e q n)]) @ map (\<lambda>i. attemptOf (entry_runTool e q i)) [Suc n..<m])"
      "Suc n \<le> m" "m \<le> Suc n + left" "\<forall>i \<in> {Suc n..<m}. tries_again e q i" "m = Suc n + left \<or> \<not> tries_again e q m"
      using Suc.IH [of "Suc n" "as @ [attemptOf (entry_runTool e q n)]"] by blast
    have "[n..<m] = n # [Suc n..<m]" using m(2) by (simp add: upt_conv_Cons)
    moreover have "tries_again e q i" if "i \<in> {n..<m}" for i using that True m(4) by (cases "i = n") auto
    ultimately show ?thesis using True m(1-3,5) by (intro exI [of _ m]) (simp add: tries_again_def)
  next
    case False
    then have "retry_loop e q (Suc left) n (entry_runTool e q n) as = (entry_runTool e q n, as)" by (auto simp: tries_again_def)
    then show ?thesis using False by (intro exI [of _ n]) simp
  qed
qed

lemma runWithRetry_spec:
  obtains n where "1 \<le> n" "n \<le> Suc (nat (rq_RetryCount q))" "\<forall>i \<in> {1..<n}. tries_again e q i"
    "n = Suc (nat (rq_RetryCount q)) \<or> \<not> tries_again e q n"
    "runWithRetry e q = (if n = 1 then entry_runTool e q 1
       else (entry_runTool e q n)\<lparr>tr_Attempts := map (\<lambda>i. attemptOf (entry_runTool e q i)) [1..<n] @ [attemptOf (entry_runTool e q n)]\<rparr>)"
proof (cases "rq_RetryCount q \<le> 0")
  case True
  then show ?thesis by (intro that [of 1]) (simp_all add: runWithRetry_def)
next
  case False
  obtain m where m: "retry_loop e q (nat (rq_RetryCount q)) 1 (entry_runTool e q 1) [] = (entry_runTool e q m, [] @ map (\<lambda>i. attemptOf (entry_runTool e q i)) [1..<m])"
     "1 \<le> m" "m \<le> 1 + nat (rq_RetryCount q)" "\<forall>i \<in> {1..<m}. tries_again e q i" "m = 1 + nat (rq_RetryCount q) \<or> \<not> tries_again e q m"
    using retry_loop_spec by blast
  have "runWithRetry e q = (if m = 1 then entry_runTool e q 1
       else (entry_runTool e q m)\<lparr>tr_Attempts := map (\<lambda>i. attemptOf (entry_runTool e q i)) [1..<m] @ [attemptOf (entry_runTool e q m)]\<rparr>)"
    using False m(1,2) by (cases "m = 1") (simp_all add: runWithRetry_def Let_def)
  then show ?thesis using m(2-5) by (intro that [of m]) simp_all
qed

section \<open>The final result\<close>

lemma entry_parseMetrics_keeps [simp]:
  "tr_Phase (entry_parseMetrics e q r) = tr_Phase r" "tr_ErrorMessage (entry_parseMetrics e q r) = tr_ErrorMessage r"
  "tr_ToolExitCode (entry_parseMetrics e q r) = tr_ToolExitCode r" "tr_Attempts (entry_parseMetrics e q r) = tr_Attempts r"
  by (simp_all add: entry_parseMetrics_def split: sum.splits)

lemma runScrape_keeps [simp]:
  "tr_Phase (runScrape e q r) = tr_Phase r" "tr_ErrorMessage (runScrape e q r) = tr_ErrorMessage r"
  "tr_ToolExitCode (runScrape e q r) = tr_ToolExitCode r" "tr_Attempts (runScrape e q r) = tr_Attempts r"
  by (simp_all add: runScrape_def split: sum.splits option.splits)

definition final_phase :: "Entry \<Rightarrow> Phase \<Rightarrow> Phase" where
  "final_phase e p = (if en_Ctx e FirstCheck = DeadlineExceeded then PhaseError else if en_Ctx e SecondCheck = Canceled then PhaseAborted else p)"

lemma reclassify_ok:
  "tr_Phase (reclassify e q r) = final_phase e (tr_Phase r)" "tr_ToolExitCode (reclassify e q r) = tr_ToolExitCode r"
  "tr_Attempts (reclassify e q r) = tr_Attempts r"
  "final_phase e (tr_Phase r) = PhasePassed \<Longrightarrow> tr_ErrorMessage (reclassify e q r) = tr_ErrorMessage r"
  by (auto simp: reclassify_def final_phase_def split: if_splits)

lemma update_last: "xs \<noteq> [] \<Longrightarrow> xs[length xs - Suc 0 := y] = butlast xs @ [y]"
  by (cases xs rule: rev_cases) (simp_all add: list_update_append)

lemma last_attempt_ok:
  "tr_Phase (last_attempt r) = tr_Phase r" "tr_ErrorMessage (last_attempt r) = tr_ErrorMessage r" "tr_ToolExitCode (last_attempt r) = tr_ToolExitCode r"
  "tr_Attempts (last_attempt r) = (if tr_Attempts r = [] then [] else butlast (tr_Attempts r) @ [attemptOf r])"
  by (simp_all add: last_attempt_def Let_def update_last)

lemma final_result_ok:
  fixes e :: Entry and q :: ExecutionRequest
  defines "r0 \<equiv> runWithRetry e q" and "r \<equiv> final_result e q"
  shows "tr_Phase r = final_phase e (tr_Phase r0)" "tr_ToolExitCode r = tr_ToolExitCode r0"
    "tr_Phase r = PhasePassed \<Longrightarrow> tr_ErrorMessage r = tr_ErrorMessage r0"
    "tr_Attempts r = (if tr_Attempts r0 = [] then [] else butlast (tr_Attempts r0) @ [attemptOf r])"
  by (auto simp: r_def r0_def final_result_def Let_def last_attempt_ok reclassify_ok attemptOf_def)


definition sample_request :: ExecutionRequest where
  "sample_request = \<lparr>rq_StoragePrefix = ''runs/n/u/'', rq_DataDir = ''/data'', rq_WorkingDir = [], rq_Command = [''k6''], rq_Args = [''run''],
     rq_ArtifactPaths = [], rq_TimeoutSeconds = 60, rq_VerdictFrom = [], rq_ErrorRateMax = [], rq_MetricsFrom = [], rq_MetricsPath = [], rq_RetryCount = 2\<rparr>"

definition sample_entry :: "(moment \<Rightarrow> ctx_state) \<Rightarrow> Entry" where
  "sample_entry ctx = \<lparr>en_Run = (\<lambda>n _ _. if n = 1 then Exited 1 else Exited 0), en_JUnit = None, en_JTL = None, en_Ctx = ctx,
     en_Scraper = Some (\<lambda>_ _ _ _. Inr empty_scrape), en_UploadResult = (\<lambda>c _ _. c = Alive), en_Metrics = (\<lambda>_ _ _. Inl []), en_Content = (\<lambda>_. None),
     en_WriteResult = (\<lambda>_. True), en_ToolEnd = 0, en_WorkingDir = []\<rparr>"

lemma sample_fields:
  "rq_Command sample_request = [''k6'']" "rq_Args sample_request = [''run'']" "rq_RetryCount sample_request = 2" "rq_VerdictFrom sample_request = []"
  "rq_StoragePrefix sample_request = ''runs/n/u/''" "rq_WorkingDir sample_request = []" "rq_DataDir sample_request = ''/data''"
  "en_Run (sample_entry ctx) n b a = (if n = 1 then Exited 1 else Exited 0)" "en_Ctx (sample_entry ctx) = ctx"
  "en_Scraper (sample_entry ctx) = Some (\<lambda>_ _ _ _. Inr empty_scrape)" "en_UploadResult (sample_entry ctx) c p r \<longleftrightarrow> c = Alive"
  "en_WriteResult (sample_entry ctx) r" "en_WorkingDir (sample_entry ctx) = []"
  by (simp_all add: sample_request_def sample_entry_def)


text \<open>
  C40. A run that hits its own timeout is never uploaded: the scrape after it gets a fresh context for its
  grace period, the result goes out on the context that is already done. Assumed of the context and the
  store client: a context that is done stays done, and a call on it fails.
\<close>

theorem timed_out_result_not_uploaded:
  assumes "rq_Command q \<noteq> [] \<or> rq_Args q \<noteq> []" "en_Ctx e FirstCheck = DeadlineExceeded"
    and "en_Ctx e FirstCheck \<noteq> Alive \<Longrightarrow> en_Ctx e AtScrape = en_Ctx e FirstCheck \<and> en_Ctx e AtUpload = en_Ctx e FirstCheck"
    and "\<And>c p r. en_UploadResult e c p r \<Longrightarrow> c = Alive"
    and "en_Scraper e = Some scrape" "scrape_dir e q \<noteq> []" "scrape True (scrape_dir e q) (rq_StoragePrefix q) (rq_ArtifactPaths q) = Inr sr"
  shows "lf_Uploaded (Execute e (Inr q)) = None
    \<and> (\<exists>r. lf_Termination (Execute e (Inr q)) = Some r \<and> tr_Phase r = PhaseError \<and> tr_Artifacts r = sp_Artifacts sr \<and> tr_TestCases r = sp_TestCases sr)"
proof -
  have ctx: "en_Ctx e AtScrape = DeadlineExceeded" "en_Ctx e AtUpload = DeadlineExceeded" using assms(2,3) by auto
  have "\<not> en_UploadResult e (en_Ctx e AtUpload) p r" for p r using assms(4) ctx by fastforce
  then have "lf_Uploaded (Execute e (Inr q)) = None" using assms(1) by (auto simp: Execute_def Let_def)
  moreover have "lf_Termination (Execute e (Inr q)) = Some (final_result e q)" using assms(1) by (auto simp: Execute_def Let_def)
  moreover have "tr_Phase (final_result e q) = PhaseError" using assms(2) by (simp add: final_result_ok final_phase_def)
  moreover have "tr_Artifacts (final_result e q) = sp_Artifacts sr \<and> tr_TestCases (final_result e q) = sp_TestCases sr"
    using assms(5-7) ctx by (simp add: final_result_def Let_def runScrape_def)
  ultimately show ?thesis by blast
qed

theorem timed_out_result_not_uploaded_witness:
  "lf_Uploaded (Execute (sample_entry (\<lambda>_. DeadlineExceeded)) (Inr sample_request)) = None
   \<and> lf_Uploaded (Execute (sample_entry (\<lambda>_. Alive)) (Inr sample_request)) \<noteq> None"
proof -
  have "lf_Uploaded (Execute (sample_entry (\<lambda>_. DeadlineExceeded)) (Inr sample_request)) = None"
    using timed_out_result_not_uploaded [of sample_request "sample_entry (\<lambda>_. DeadlineExceeded)" "\<lambda>_ _ _ _. Inr empty_scrape" empty_scrape]
    by (simp add: sample_fields scrape_dir_def)
  moreover have "lf_Uploaded (Execute (sample_entry (\<lambda>_. Alive)) (Inr sample_request)) \<noteq> None"
    by (simp add: Execute_def Let_def sample_fields)
  ultimately show ?thesis by simp
qed

text \<open>A tool that never started is passed when a clean report lies in the working directory.\<close>

lemma unstarted_tool_can_pass:
  assumes "rq_VerdictFrom q = ''junit''" "en_JUnit e = Some scan" "scan 1 (processor_dir e q) (junitGlobs q) = Inr tc" "tc_Failed tc = 0"
  shows "tr_Phase (entry_runTool e q 1) = PhasePassed"
  using assms by (simp add: entry_runTool_ok try_passes_def)

end
