(* ===== verification/VerdictPath.thy ===== *)
theory VerdictPath
  imports Wrapper PodStatus
begin

text \<open>
  The way of a verdict from the wrapper to the operator without object storage:
  \<open>TerminationSummary\<close> (\<open>src/pkg/executor/termination.go\<close>) writes it, the kubelet copies the first 4096
  bytes into the pod status, \<open>ResultFromTermination\<close> (\<open>PodStatus\<close>) reads it. The JSON encoder, the texts of
  the error messages and the printing of floats are parameters.
\<close>

definition maxTerminationMessageBytes :: nat where "maxTerminationMessageBytes = 4096"
definition maxSummaryErrorBytes :: nat where "maxSummaryErrorBytes = 1024"

definition summary_of :: "(tool_message \<Rightarrow> string) \<Rightarrow> (GoNum.float64 \<Rightarrow> PodStatus.float64) \<Rightarrow> ToolResult \<Rightarrow> ExecutionResult" where
  "summary_of text num r = \<lparr>er_Phase = phase_string (tr_Phase r), er_ErrorMessage = truncate_text (text (tr_ErrorMessage r)) maxSummaryErrorBytes,
     er_Metrics = map (\<lambda>(k, v). (k, num v)) (tr_Metrics r), er_TestCounts = tr_TestCounts r, er_Content = tr_Content r, er_Artifacts = [],
     er_Attempts = [], er_ToolFinishedAt = None, er_TestCases = []\<rparr>"

definition TerminationSummary :: "(ExecutionResult \<Rightarrow> string option) \<Rightarrow> ExecutionResult \<Rightarrow> string" where
  "TerminationSummary marshal s =
     (let plain = (case marshal (s\<lparr>er_Metrics := []\<rparr>) of Some b \<Rightarrow> b | None \<Rightarrow> [])
      in case marshal s of None \<Rightarrow> plain
       | Some b \<Rightarrow> if maxTerminationMessageBytes < length b then plain else b)"

section \<open>Laws of the encoder\<close>

text \<open>
  Of \<open>encoding/json\<close>: a struct is written as an object and read back as it was; the fields other than
  the metrics, which may hold a NaN, always encode.
\<close>

definition json_laws :: "(ExecutionResult \<Rightarrow> string option) \<Rightarrow> unmarshal \<Rightarrow> ExecutionResult \<Rightarrow> bool" where
  "json_laws marshal unm s \<longleftrightarrow>
     (\<forall>s' \<in> {s, s\<lparr>er_Metrics := []\<rparr>}. \<forall>b. marshal s' = Some b \<longrightarrow> unm b = Some s' \<and> (\<exists>c. b = ''{'' @ c @ ''}''))
     \<and> marshal (s\<lparr>er_Metrics := []\<rparr>) \<noteq> None"

lemma trim_space_object: "trim_space (''{'' @ c @ ''}'') = ''{'' @ c @ ''}''"
proof -
  have "trim_left_enc space_encodings (CHR ''{'' # s) = CHR ''{'' # s" for s
    by (rule trim_left_enc_stop) (simp add: space_encodings_def)
  moreover have "trim_left_enc (map rev space_encodings) (CHR ''}'' # s) = CHR ''}'' # s" for s
    by (rule trim_left_enc_stop) (simp add: space_encodings_def)
  ultimately show ?thesis by (simp add: trim_space_def)
qed

lemma TerminationSummary_read:
  assumes "json_laws marshal unm s" "er_Phase s \<in> {''passed'', ''failed'', ''error'', ''aborted''}"
  shows "\<exists>m. (m = er_Metrics s \<or> m = []) \<and> ParseTerminationSummary unm (TerminationSummary marshal s) = Some (s\<lparr>er_Metrics := m\<rparr>)"
proof -
  have parse: "ParseTerminationSummary unm b = Some s'" if m: "marshal s' = Some b" "s' \<in> {s, s\<lparr>er_Metrics := []\<rparr>}" for b s'
  proof -
    obtain c where "b = ''{'' @ c @ ''}''" "unm b = Some s'" using assms(1) m unfolding json_laws_def by blast
    moreover have "er_Phase s' = er_Phase s" using m(2) by auto
    ultimately show ?thesis using assms(2) trim_space_object [of c] by (simp add: ParseTerminationSummary_def Let_def)
  qed
  obtain b0 where b0: "marshal (s\<lparr>er_Metrics := []\<rparr>) = Some b0" using assms(1) unfolding json_laws_def by blast
  show ?thesis
  proof (cases "\<exists>b. marshal s = Some b \<and> length b \<le> maxTerminationMessageBytes")
    case True
    then obtain b where "marshal s = Some b" "TerminationSummary marshal s = b" by (auto simp: TerminationSummary_def)
    then show ?thesis using parse [of s b] by (intro exI [of _ "er_Metrics s"]) simp
  next
    case False
    then have "TerminationSummary marshal s = b0" using b0 by (auto simp: TerminationSummary_def not_le split: option.splits)
    then show ?thesis using parse [OF b0] by (intro exI [of _ "[]"]) simp
  qed
qed

section \<open>The verdict arrives\<close>

lemma entry_runTool_terminal: "tr_Phase (entry_runTool e q n) \<in> {PhasePassed, PhaseFailed, PhaseError}"
  by (auto simp: entry_runTool_def applyJUnitVerdict_def applyJTLVerdict_def baseVerdict_def Let_def split: option.splits sum.splits run_end.splits prod.splits)

lemma Execute_terminal:
  assumes "lf_Termination (Execute e request) = Some r"
  shows "tr_Phase r \<in> {PhasePassed, PhaseFailed, PhaseError, PhaseAborted}"
proof -
  have "tr_Phase (final_result e q) \<in> {PhasePassed, PhaseFailed, PhaseError, PhaseAborted}" for q
  proof -
    obtain n where "runWithRetry e q = (if n = 1 then entry_runTool e q 1
       else (entry_runTool e q n)\<lparr>tr_Attempts := map (\<lambda>i. attemptOf (entry_runTool e q i)) [1..<n] @ [attemptOf (entry_runTool e q n)]\<rparr>)"
      using runWithRetry_spec by blast
    then have "tr_Phase (runWithRetry e q) = tr_Phase (entry_runTool e q n)" by simp
    then show ?thesis using entry_runTool_terminal [of e q n] by (auto simp: final_result_ok final_phase_def)
  qed
  then show ?thesis using assms by (auto simp: Execute_def writeErrorResult_def Let_def split: sum.splits if_splits)
qed


definition sample_verdict :: ToolResult where
  "sample_verdict = tool_result PhaseError NothingToRun None"

definition sample_marshal :: "ExecutionResult \<Rightarrow> string option" where
  "sample_marshal s = Some ''{}''"

definition sample_unmarshal :: unmarshal where
  "sample_unmarshal b = (if b = ''{}'' then Some (summary_of (\<lambda>_. ''request has no command'') (\<lambda>_. PodStatus.Float64 ''0'') sample_verdict) else None)"

definition sample_wrapper_pod :: Pod where
  "sample_wrapper_pod = \<lparr>pd_Name = ''p'', pd_Namespace = ''n'', pd_Labels = [], pd_CreationTimestamp = 0, pd_Containers = [], pd_Phase = ''Failed'',
     pd_PodIP = [], pd_Conditions = [], pd_InitContainerStatuses = [],
     pd_ContainerStatuses = [\<lparr>cs_Name = ''wrapper'', cs_Image = [],
       cs_State = \<lparr>cst_Waiting = None, cst_Running = None,
         cst_Terminated = Some \<lparr>tm_ExitCode = 0, tm_Reason = [], tm_Message = ''{}'', tm_StartedAt = 0, tm_FinishedAt = 0\<rparr>\<rparr>,
       cs_LastTerminationState = \<lparr>cst_Waiting = None, cst_Running = None, cst_Terminated = None\<rparr>\<rparr>]\<rparr>"


end
