(* ===== verification/Compiler.thy ===== *)
theory Compiler
  imports ServiceObjects Wrapper Stages
begin

text \<open>
  The Job of a run, \<open>src/internal/compiler/compiler.go\<close>, with the test data volumes (\<open>testdata.go\<close>), the
  environment of the content fetcher (\<open>git_auth.go\<close>) and the storage settings it hands to the wrapper
  (\<open>src/pkg/storage/config.go\<close>). The request and the content are records: JSON is how they travel. The
  parts of Kubernetes objects that are only passed on stay opaque. A nil Test or TestRun is not
  represented.
\<close>

section \<open>Constants\<close>

definition DataDirPath :: string where "DataDirPath = ''/data''"
definition RequestMountDir :: string where "RequestMountDir = ''/etc/kubetest''"
definition ResultDirPath :: string where "ResultDirPath = ''/etc/kubetest/result''"
definition KubetestBinMountPath :: string where "KubetestBinMountPath = ''/kubetest-bin''"
definition RepoDir :: string where "RepoDir = ''/data/repo''"
definition TestDataDir :: string where "TestDataDir = ''/data/testdata''"
definition DefaultTimeout :: duration where "DefaultTimeout = 30 * 60 * 1000000000"
definition ADSBufferSeconds :: int where "ADSBufferSeconds = 60"
definition TTLSecondsAfterFinished :: int where "TTLSecondsAfterFinished = 3600"
definition ScrapeGracePeriodSeconds :: int where "ScrapeGracePeriodSeconds = 30"
definition TerminationGracePeriodMarginSeconds :: int where "TerminationGracePeriodMarginSeconds = 15"

definition terminationGracePeriodSeconds :: int where
  "terminationGracePeriodSeconds = ScrapeGracePeriodSeconds + TerminationGracePeriodMarginSeconds"

section \<open>Storage settings\<close>

record StorageConfig =
  sg_Type :: string
  sg_Bucket :: string
  sg_S3Endpoint :: string
  sg_S3UseSSL :: bool
  sg_S3Region :: string
  sg_AccessKey :: string
  sg_SecretKey :: string
  sg_GCSEndpoint :: string

definition EnvType :: string where "EnvType = ''KUBETEST_STORAGE_TYPE''"
definition EnvBucket :: string where "EnvBucket = ''KUBETEST_STORAGE_BUCKET''"
definition EnvS3Endpoint :: string where "EnvS3Endpoint = ''KUBETEST_S3_ENDPOINT''"
definition EnvS3UseSSL :: string where "EnvS3UseSSL = ''KUBETEST_S3_USE_SSL''"
definition EnvS3Region :: string where "EnvS3Region = ''KUBETEST_S3_REGION''"
definition EnvGCSEndpoint :: string where "EnvGCSEndpoint = ''KUBETEST_GCS_ENDPOINT''"

definition env_unless_empty :: "string \<Rightarrow> string \<Rightarrow> EnvVar list" where
  "env_unless_empty name value = (if value \<noteq> [] then [env_var name value] else [])"

definition StorageEnv :: "StorageConfig \<Rightarrow> EnvVar list" where
  "StorageEnv c = (if sg_Type c = [] then []
     else [env_var EnvType (sg_Type c), env_var EnvBucket (sg_Bucket c)] @
       (if sg_Type c = ''s3''
        then env_unless_empty EnvS3Endpoint (sg_S3Endpoint c) @ (if sg_S3UseSSL c then [env_var EnvS3UseSSL ''true''] else []) @
          env_unless_empty EnvS3Region (sg_S3Region c)
        else if sg_Type c = ''gcs'' then env_unless_empty EnvGCSEndpoint (sg_GCSEndpoint c) else []))"

text \<open>
  \<open>os.Getenv\<close> in a container: the last entry of a name counts, then what Kubernetes takes from \<open>envFrom\<close>. The
  value of an entry that is a reference is resolved by Kubernetes.
\<close>

definition getenv :: "(string \<Rightarrow> string) \<Rightarrow> EnvVar list \<Rightarrow> string \<Rightarrow> string" where
  "getenv envFrom es name = (case find (\<lambda>e. ev_Name e = name) (rev es) of None \<Rightarrow> envFrom name | Some e \<Rightarrow> ev_Value e)"

definition parse_bool :: "string \<Rightarrow> bool option" where
  "parse_bool s = (if s \<in> {''1'', ''t'', ''T'', ''TRUE'', ''true'', ''True''} then Some True
     else if s \<in> {''0'', ''f'', ''F'', ''FALSE'', ''false'', ''False''} then Some False else None)"

definition FromEnv :: "(string \<Rightarrow> string) \<Rightarrow> StorageConfig" where
  "FromEnv env = \<lparr>sg_Type = env EnvType, sg_Bucket = env EnvBucket, sg_S3Endpoint = env EnvS3Endpoint,
     sg_S3UseSSL = (parse_bool (env EnvS3UseSSL) = Some True), sg_S3Region = env EnvS3Region,
     sg_AccessKey = env ''AWS_ACCESS_KEY_ID'', sg_SecretKey = env ''AWS_SECRET_ACCESS_KEY'', sg_GCSEndpoint = env EnvGCSEndpoint\<rparr>"

record CompilerOptions =
  op_ContentFetcherImage :: string
  op_ImageRegistry :: string
  op_Storage :: StorageConfig
  op_SecretName :: string

section \<open>Content\<close>

record fetcherFile =
  ff_Path :: string
  ff_Content :: string
  ff_Mode :: "int option"

record fetcherContent =
  fe_Git :: "GitContent option"
  fe_Files :: "fetcherFile list"
  fe_Tarball :: "Tarball list"
  fe_EmptyMounts :: "(string \<times> string) list"

datatype compile_error = ErrMissingContentFetcherImage | ErrContentFrom | BadTestData nat

definition repoRelDir :: string where
  "repoRelDir = trim_prefix (DataDirPath @ ''/'') RepoDir"

definition testDataName :: "TestDataSource \<Rightarrow> string" where
  "testDataName d = (if td_Secret d \<noteq> [] then td_Secret d else td_ConfigMap d)"

definition toFetcherContent :: "Content \<Rightarrow> (compile_error, fetcherContent) result" where
  "toFetcherContent c =
     rbind (rmap (\<lambda>f. if fc_ContentFrom f \<noteq> None then Inl ErrContentFrom
         else Inr \<lparr>ff_Path = path_Join [repoRelDir, InlineFilePath (fc_Path f)], ff_Content = fc_Content f, ff_Mode = fc_Mode f\<rparr>) (cn_Files c)) (\<lambda>files.
     Inr \<lparr>fe_Git = cn_Git c, fe_Files = files, fe_Tarball = cn_Tarball c,
       fe_EmptyMounts = map (\<lambda>d. (testDataName d, path_Clean (td_MountPath d)))
         (filter (\<lambda>d. td_MountPath d \<noteq> [] \<and> has_prefix (DataDirPath @ ''/'') (path_Clean (td_MountPath d) @ ''/'')) (cn_TestData c))\<rparr>)"

datatype vmount = Mount (mt_Name: string) (mt_Path: string) (mt_SubPath: string) (mt_ReadOnly: bool) | UserMount opaque

definition no_source :: VolumeSource where
  "no_source = \<lparr>vs_EmptyDir = None, vs_ConfigMap = None, vs_Secret = None, vs_Projected = None, vs_DownwardAPI = None,
     vs_PersistentVolumeClaim = None, vs_Ephemeral = None, vs_CSI = None, vs_HostPath = None, vs_Other = None\<rparr>"

definition keyed_source :: "string \<Rightarrow> string list \<Rightarrow> KeyedSource" where
  "keyed_source name ks = \<lparr>ks_Name = name, ks_Optional = None, ks_Items = ks\<rparr>"

definition data_name :: "nat \<Rightarrow> string" where "data_name i = ''testdata-'' @ utoa i"

definition data_source :: "nat \<Rightarrow> TestDataSource \<Rightarrow> (compile_error, VolumeSource) result" where
  "data_source i d = (if td_ConfigMap d \<noteq> [] \<and> td_Secret d = [] then Inr (no_source\<lparr>vs_ConfigMap := Some (keyed_source (td_ConfigMap d) [])\<rparr>)
     else if td_Secret d \<noteq> [] \<and> td_ConfigMap d = [] then Inr (no_source\<lparr>vs_Secret := Some (keyed_source (td_Secret d) [])\<rparr>)
     else Inl (BadTestData i))"

definition data_mounts :: "nat \<Rightarrow> TestDataSource \<Rightarrow> vmount list" where
  "data_mounts i d = (if td_Items d \<noteq> [] then map (\<lambda>it. Mount (data_name i) (tdi_Path it) (tdi_Key it) True) (td_Items d)
     else if td_MountPath d \<noteq> [] then [Mount (data_name i) (td_MountPath d) [] True]
     else [Mount (data_name i) (path_Join [TestDataDir, testDataName d]) [] True])"

definition testDataVolumes :: "TestDataSource list \<Rightarrow> (compile_error, Volume list \<times> vmount list) result" where
  "testDataVolumes ds =
     rbind (rmap (\<lambda>(i, d). rbind (data_source i d) (\<lambda>src. Inr \<lparr>vol_Name = data_name i, vol_Source = src\<rparr>)) (enumerate 0 ds)) (\<lambda>vols.
     Inr (vols, concat (map (\<lambda>(i, d). data_mounts i d) (enumerate 0 ds))))"

definition initContainerEnv :: "GitContent option \<Rightarrow> EnvVar list" where
  "initContainerEnv git =
     (let ref = (\<lambda>name src. case src of None \<Rightarrow> [] | Some s \<Rightarrow> [\<lparr>ev_Name = name, ev_Value = [], ev_ValueFrom = Some s\<rparr>])
      in env_var ''KUBETEST_DATADIR'' DataDirPath # (case git of None \<Rightarrow> []
        | Some g \<Rightarrow> ref ''KUBETEST_GIT_USERNAME'' (gc_UsernameFrom g) @ ref ''KUBETEST_GIT_TOKEN'' (gc_TokenFrom g) @ ref ''KUBETEST_GIT_SSH_KEY_PATH'' (gc_SSHKeyFrom g)))"

section \<open>The request\<close>

record WireRequest = ExecutionRequest +
  wq_RunID :: string
  wq_TestRef :: string
  wq_Env :: "(string, string) gomap"
  wq_Config :: "(string, string) gomap"
  wq_Compress :: string

definition envSliceToMap :: "EnvVar list \<Rightarrow> (string, string) gomap" where
  "envSliceToMap es = fold (\<lambda>e m. if ev_ValueFrom e = None then gm_set (ev_Name e) (ev_Value e) m else m) es []"

definition buildRequest :: "TestSpec \<Rightarrow> TestRun \<Rightarrow> RunKeys \<Rightarrow> int \<Rightarrow> WireRequest" where
  "buildRequest spec run keys timeoutSec =
     (let c = ts_Container spec
      in \<lparr>rq_StoragePrefix = RunPrefix keys, rq_DataDir = DataDirPath, rq_WorkingDir = ct_WorkingDir c, rq_Command = ct_Command c, rq_Args = ct_Args c,
          rq_ArtifactPaths = (case ts_Artifacts spec of None \<Rightarrow> [] | Some a \<Rightarrow> as_Paths a), rq_TimeoutSeconds = timeoutSec,
          rq_VerdictFrom = (case ts_Verdict spec of None \<Rightarrow> [] | Some v \<Rightarrow> vd_From v),
          rq_ErrorRateMax = (case ts_Verdict spec of None \<Rightarrow> [] | Some v \<Rightarrow> vd_ErrorRateMax v),
          rq_MetricsFrom = (case ts_Metrics spec of None \<Rightarrow> [] | Some v \<Rightarrow> ms_From v), rq_MetricsPath = (case ts_Metrics spec of None \<Rightarrow> [] | Some v \<Rightarrow> ms_Path v),
          rq_RetryCount = (case ts_Retry spec of None \<Rightarrow> 0 | Some r \<Rightarrow> rp_Count r),
          wq_RunID = r_Name run, wq_TestRef = rs_TestRef (r_Spec run), wq_Env = envSliceToMap (ct_Env c), wq_Config = rs_Config (r_Spec run),
          wq_Compress = (case ts_Artifacts spec of None \<Rightarrow> [] | Some a \<Rightarrow> as_Compress a)\<rparr>)"

text \<open>\<open>int64(timeout.Seconds())\<close>: the seconds as a float64, cut toward zero.\<close>

definition quot_go :: "int \<Rightarrow> int \<Rightarrow> int" where
  "quot_go a b = (if 0 \<le> a then a div b else - ((- a) div b))"

definition Seconds :: "duration \<Rightarrow> rat" where
  "Seconds d = (let sec = quot_go d 1000000000; nsec = d - sec * 1000000000
     in round64 (round64 (of_int sec) + round64 (of_int nsec / 1000000000)))"

definition timeout_seconds :: "duration option \<Rightarrow> int" where
  "timeout_seconds t = (let s = Seconds (case t of None \<Rightarrow> DefaultTimeout | Some d \<Rightarrow> d) in if 0 \<le> s then \<lfloor>s\<rfloor> else - \<lfloor>- s\<rfloor>)"

section \<open>The objects\<close>

datatype env_from = SecretEnv string | UserEnvFrom opaque

record CompiledContainer =
  cc_Name :: string
  cc_Image :: string
  cc_Command :: "string list"
  cc_Args :: "string list"
  cc_Env :: "EnvVar list"
  cc_EnvFrom :: "env_from list"
  cc_WorkingDir :: string
  cc_ImagePullPolicy :: string
  cc_Resources :: "ResourceRequirements option"
  cc_SecurityContext :: "SecurityContext option"
  cc_VolumeMounts :: "vmount list"

record OwnerRef =
  ow_Kind :: string
  ow_Name :: string
  ow_UID :: string
  ow_Controller :: bool

record RequestConfigMap =
  rc_Name :: string
  rc_Namespace :: string
  rc_Owners :: "OwnerRef list"
  rc_Labels :: "(string, string) gomap"
  rc_Request :: WireRequest
  rc_Content :: fetcherContent

record CompiledJob =
  jb_Name :: string
  jb_Namespace :: string
  jb_Owners :: "OwnerRef list"
  jb_Labels :: "(string, string) gomap"
  jb_BackoffLimit :: int
  jb_ActiveDeadlineSeconds :: int
  jb_TTLSecondsAfterFinished :: int
  jb_PodLabels :: "(string, string) gomap"
  jb_PodAnnotations :: "(string, string) gomap"
  jb_RestartPolicy :: string
  jb_AutomountServiceAccountToken :: bool
  jb_TerminationGracePeriodSeconds :: int
  jb_PodSettings :: PodConfig
  jb_InitContainers :: "CompiledContainer list"
  jb_Containers :: "CompiledContainer list"
  jb_Volumes :: "Volume list"

definition ownerRefForTestRun :: "TestRun \<Rightarrow> OwnerRef list" where
  "ownerRefForTestRun run = [\<lparr>ow_Kind = ''TestRun'', ow_Name = r_Name run, ow_UID = r_UID run, ow_Controller = True\<rparr>]"

text \<open>What differs between the Job of a run and the Job of a worker.\<close>

record jobTarget =
  jt_Name :: string
  jt_Keys :: RunKeys
  jt_Labels :: "(string, string) gomap"
  jt_Env :: "EnvVar list"

section \<open>Compiling\<close>

definition fetcher_image :: "CompilerOptions \<Rightarrow> string" where
  "fetcher_image opts = (if op_ImageRegistry opts \<noteq> [] then op_ImageRegistry opts @ ''/'' @ op_ContentFetcherImage opts else op_ContentFetcherImage opts)"

definition plain_container :: "string \<Rightarrow> string \<Rightarrow> string list \<Rightarrow> EnvVar list \<Rightarrow> vmount list \<Rightarrow> CompiledContainer" where
  "plain_container name img cmd env mounts = \<lparr>cc_Name = name, cc_Image = img, cc_Command = cmd, cc_Args = [], cc_Env = env, cc_EnvFrom = [],
     cc_WorkingDir = [], cc_ImagePullPolicy = [], cc_Resources = None, cc_SecurityContext = None, cc_VolumeMounts = mounts\<rparr>"

definition init_containers :: "CompilerOptions \<Rightarrow> TestSpec \<Rightarrow> CompiledContainer list" where
  "init_containers opts spec =
     [plain_container ''kubetest-bin-install'' (fetcher_image opts) [''sh'', ''-c'', ''cp /entry '' @ KubetestBinMountPath @ ''/entry''] []
        [Mount ''kubetest-bin'' KubetestBinMountPath [] False],
      plain_container ContainerContentFetcher (fetcher_image opts) [''/entry'', ''fetch''] (initContainerEnv (cn_Git (ts_Content spec)))
        [Mount ''data'' DataDirPath [] False, Mount ''request'' RequestMountDir [] True]]"

definition wrapper_env :: "CompilerOptions \<Rightarrow> TestSpec \<Rightarrow> TestRun \<Rightarrow> jobTarget \<Rightarrow> EnvVar list" where
  "wrapper_env opts spec run target =
     [env_var ''KUBETEST_DATADIR'' DataDirPath, env_var ''KUBETEST_RESULTDIR'' ResultDirPath, env_var ''KUBETEST_RUN_ID'' (r_Name run),
      env_var ''KUBETEST_TEST_REF'' (rs_TestRef (r_Spec run))] @
     StorageEnv (op_Storage opts) @
     map (\<lambda>n. env_var (ServiceHostEnv n) (ServiceHost (r_Name run) (r_Namespace run) n)) (sort (map fst (ts_Services spec))) @
     [env_var ''KUBETEST_TESTDATA_DIR'' TestDataDir] @ jt_Env target @ ct_Env (ts_Container spec)"

definition wrapper_env_from :: "CompilerOptions \<Rightarrow> TestSpec \<Rightarrow> env_from list" where
  "wrapper_env_from opts spec =
     (if sg_Type (op_Storage opts) = ''s3'' \<and> op_SecretName opts \<noteq> [] then [SecretEnv (op_SecretName opts)] else []) @ map UserEnvFrom (ct_EnvFrom (ts_Container spec))"

definition wrapper_mounts :: "TestSpec \<Rightarrow> vmount list \<Rightarrow> vmount list" where
  "wrapper_mounts spec dataMounts =
     [Mount ''data'' DataDirPath [] False, Mount ''request'' RequestMountDir [] True, Mount ''result'' ResultDirPath [] False,
      Mount ''kubetest-bin'' KubetestBinMountPath [] False] @ map UserMount (ct_VolumeMounts (ts_Container spec)) @ dataMounts"

definition wrapper_container :: "CompilerOptions \<Rightarrow> TestSpec \<Rightarrow> TestRun \<Rightarrow> jobTarget \<Rightarrow> vmount list \<Rightarrow> CompiledContainer" where
  "wrapper_container opts spec run target dataMounts =
     (let c = ts_Container spec
      in \<lparr>cc_Name = ContainerWrapper, cc_Image = ct_Image c, cc_Command = [KubetestBinMountPath @ ''/entry''], cc_Args = ct_Command c @ ct_Args c,
          cc_Env = wrapper_env opts spec run target, cc_EnvFrom = wrapper_env_from opts spec, cc_WorkingDir = ct_WorkingDir c,
          cc_ImagePullPolicy = ct_ImagePullPolicy c, cc_Resources = Some (ct_Resources c), cc_SecurityContext = ct_SecurityContext c,
          cc_VolumeMounts = wrapper_mounts spec dataMounts\<rparr>)"

definition request_files :: "string list" where "request_files = [''request.json'', ''content.json'']"

definition job_volumes :: "string \<Rightarrow> PodConfig \<Rightarrow> Volume list \<Rightarrow> Volume list" where
  "job_volumes cmName pod dataVolumes =
     (let empty = (\<lambda>n. \<lparr>vol_Name = n, vol_Source = no_source\<lparr>vs_EmptyDir := Some (Opaque [])\<rparr>\<rparr>)
      in [empty ''data'', empty ''result'', empty ''kubetest-bin'',
          \<lparr>vol_Name = ''request'', vol_Source = no_source\<lparr>vs_ConfigMap := Some (keyed_source cmName request_files)\<rparr>\<rparr>] @
         items (po_Volumes pod) @ dataVolumes)"

text \<open>The labels of the run: its id, the manager, those of the target, the tool of the Test.\<close>

definition with_tool :: "(string, string) gomap \<Rightarrow> (string, string) gomap \<Rightarrow> (string, string) gomap" where
  "with_tool testLabels m = (let tool = gm_at [] testLabels LabelKubetestTool in if tool \<noteq> [] then gm_set LabelKubetestTool tool m else m)"

definition compile :: "CompilerOptions \<Rightarrow> (string, string) gomap \<Rightarrow> TestSpec \<Rightarrow> TestRun \<Rightarrow> jobTarget \<Rightarrow> (compile_error, CompiledJob \<times> RequestConfigMap) result" where
  "compile opts testLabels spec run target =
     (if op_ContentFetcherImage opts = [] then Inl ErrMissingContentFetcherImage
      else let timeoutSec = timeout_seconds (ts_Timeout spec)
           in rbind (toFetcherContent (ts_Content spec)) (\<lambda>content.
              rbind (testDataVolumes (cn_TestData (ts_Content spec))) (\<lambda>(dataVolumes, dataMounts).
              let cmName = jt_Name target @ ''-request'';
                  mergedPod = mergePodConfig (ts_Pod spec) (rs_Pod (r_Spec run));
                  ours = [(LabelRunID, r_Name run), (LabelManagedBy, ManagedByValue)]
              in Inr (\<lparr>jb_Name = jt_Name target, jb_Namespace = r_Namespace run, jb_Owners = ownerRefForTestRun run,
                   jb_Labels = with_tool testLabels (maps_copy ours (jt_Labels target)), jb_BackoffLimit = 0,
                   jb_ActiveDeadlineSeconds = timeoutSec + ADSBufferSeconds, jb_TTLSecondsAfterFinished = TTLSecondsAfterFinished,
                   jb_PodLabels = with_tool testLabels (maps_copy (mergeLabels (ts_Pod spec) (rs_Pod (r_Spec run)) (r_Name run)) (jt_Labels target)),
                   jb_PodAnnotations = mergeAnnotations (ts_Pod spec) (rs_Pod (r_Spec run)), jb_RestartPolicy = ''Never'',
                   jb_AutomountServiceAccountToken = False, jb_TerminationGracePeriodSeconds = terminationGracePeriodSeconds, jb_PodSettings = mergedPod,
                   jb_InitContainers = init_containers opts spec, jb_Containers = [wrapper_container opts spec run target dataMounts],
                   jb_Volumes = job_volumes cmName mergedPod dataVolumes\<rparr>,
                 \<lparr>rc_Name = cmName, rc_Namespace = r_Namespace run, rc_Owners = ownerRefForTestRun run, rc_Labels = ours,
                   rc_Request = buildRequest spec run (jt_Keys target) timeoutSec, rc_Content = content\<rparr>))))"

definition Compile :: "CompilerOptions \<Rightarrow> (string, string) gomap \<Rightarrow> TestSpec \<Rightarrow> TestRun \<Rightarrow> (compile_error, CompiledJob \<times> RequestConfigMap) result" where
  "Compile opts testLabels spec run = compile opts testLabels spec run
     \<lparr>jt_Name = r_Name run, jt_Keys = ForRun (r_Namespace run) (r_UID run), jt_Labels = [], jt_Env = []\<rparr>"

definition CompileWorkerJob :: "CompilerOptions \<Rightarrow> (string, string) gomap \<Rightarrow> TestSpec \<Rightarrow> TestRun \<Rightarrow> WorkerVars \<Rightarrow> (compile_error, CompiledJob \<times> RequestConfigMap) result" where
  "CompileWorkerJob opts testLabels spec run w = CompileWorker (\<lambda>sp name labels env. compile opts testLabels sp run
     \<lparr>jt_Name = name, jt_Keys = WorkerKeys (ForRun (r_Namespace run) (r_UID run)) (int (wv_Index w)), jt_Labels = labels, jt_Env = env\<rparr>) spec run w"

section \<open>Timeouts\<close>

lemma bits_bound: "n < 2 ^ k \<Longrightarrow> bits n \<le> k"
proof (induction k arbitrary: n)
  case 0
  then show ?case by (simp add: bits.simps)
next
  case (Suc k)
  then have "n div 2 < 2 ^ k" by simp
  from Suc.IH [OF this] show ?case by (subst bits.simps) simp
qed

lemma round_half_even_int: "round_half_even (of_int m) = m"
  by (simp add: round_half_even_def)

text \<open>An integer of at most 53 bits is a float64.\<close>

lemma round64_int:
  assumes "0 \<le> n" "n < 2 ^ 53"
  shows "round64 (of_int n) = of_int n"
proof (cases "n = 0")
  case False
  then have n: "0 < n" using assms(1) by simp
  have "nat n < 2 ^ 53" using assms by simp
  then have "bits (nat n) \<le> 53" by (rule bits_bound)
  moreover have "bits 1 = 1" by (simp add: bits.simps)
  ultimately have log: "ilog2 (of_int n) \<le> 52" by (simp add: ilog2_def quotient_of_int Let_def)
  define k where "k = 52 - max (- 1022) (ilog2 (of_int n))"
  then have k: "0 \<le> k" using log by simp
  then have u: "pow2 (- k) = 1 / 2 ^ nat k" by (auto simp: pow2_def)
  have "round64 (of_int n) = of_int (round_half_even (of_int n / pow2 (- k))) * pow2 (- k)"
    using n by (simp add: round64_def Let_def k_def)
  also have "of_int n / pow2 (- k) = (of_int (n * 2 ^ nat k) :: rat)" by (simp add: u)
  also have "round_half_even \<dots> = n * 2 ^ nat k" by (rule round_half_even_int)
  finally show ?thesis by (simp add: u)
qed (simp add: round64_def)

lemma timeout_whole:
  assumes "0 \<le> n" "n < 2 ^ 53"
  shows "timeout_seconds (Some (n * 1000000000)) = n"
proof -
  have "round64 0 = 0" by (simp add: round64_def)
  then have "Seconds (n * 1000000000) = of_int n"
    using assms round64_int [OF assms] by (simp add: Seconds_def quot_go_def Let_def)
  then show ?thesis using assms by (simp add: timeout_seconds_def)
qed

lemma timeout_default: "timeout_seconds None = 1800"
proof -
  have "timeout_seconds None = timeout_seconds (Some (1800 * 1000000000))" by (simp add: timeout_seconds_def DefaultTimeout_def)
  then show ?thesis using timeout_whole [of 1800] by simp
qed

text \<open>A timeout below a second is no timeout for the wrapper.\<close>

lemma timeout_half_second: "timeout_seconds (Some 500000000) = 0"
  by code_simp

lemma compile_parts:
  assumes "compile opts testLabels spec run target = Inr (job, cm)"
  obtains vols mounts content where "testDataVolumes (cn_TestData (ts_Content spec)) = Inr (vols, mounts)" "toFetcherContent (ts_Content spec) = Inr content"
    "jb_ActiveDeadlineSeconds job = timeout_seconds (ts_Timeout spec) + 60" "rc_Request cm = buildRequest spec run (jt_Keys target) (timeout_seconds (ts_Timeout spec))"
    "jb_BackoffLimit job = 0" "jb_RestartPolicy job = ''Never''" "jb_TerminationGracePeriodSeconds job = 45"
    "jb_Labels job = with_tool testLabels (maps_copy [(LabelRunID, r_Name run), (LabelManagedBy, ManagedByValue)] (jt_Labels target))"
    "jb_PodLabels job = with_tool testLabels (maps_copy (mergeLabels (ts_Pod spec) (rs_Pod (r_Spec run)) (r_Name run)) (jt_Labels target))"
    "jb_Owners job = ownerRefForTestRun run" "rc_Owners cm = ownerRefForTestRun run" "jb_Namespace job = r_Namespace run" "rc_Namespace cm = r_Namespace run"
    "jb_Name job = jt_Name target" "rc_Name cm = jt_Name target @ ''-request''"
    "jb_Volumes job = job_volumes (rc_Name cm) (mergePodConfig (ts_Pod spec) (rs_Pod (r_Spec run))) vols"
    "jb_Containers job = [wrapper_container opts spec run target mounts]" "jb_InitContainers job = init_containers opts spec"
  using assms
  by (auto simp: compile_def Let_def rbind_Inr ADSBufferSeconds_def terminationGracePeriodSeconds_def ScrapeGracePeriodSeconds_def
    TerminationGracePeriodMarginSeconds_def split: if_splits prod.splits)

text \<open>
  C25. The three clocks of a run are in order. For a timeout of whole seconds (or none, which is half an
  hour) the wrapper stops the tool by itself after that time, the Job is killed a minute later, and a pod
  told to stop has longer than the scrape's grace period. The pod is never started twice.
\<close>

theorem job_outlives_wrapper:
  assumes "compile opts testLabels spec run target = Inr (job, cm)" "case ts_Timeout spec of None \<Rightarrow> n = 1800 | Some d \<Rightarrow> d = n * 1000000000"
    and "0 < n" "n < 2 ^ 53"
  shows "rq_TimeoutSeconds (rc_Request cm) = n \<and> jb_ActiveDeadlineSeconds job = n + 60
    \<and> ScrapeGracePeriodSeconds < jb_TerminationGracePeriodSeconds job \<and> jb_BackoffLimit job = 0 \<and> jb_RestartPolicy job = ''Never''"
proof -
  have t: "timeout_seconds (ts_Timeout spec) = n"
    using assms(2-4) timeout_whole [of n] timeout_default by (cases "ts_Timeout spec") auto
  show ?thesis
    using assms(1) by (rule compile_parts) (simp add: t buildRequest_def Let_def ScrapeGracePeriodSeconds_def)
qed

definition sample_options :: CompilerOptions where
  "sample_options = \<lparr>op_ContentFetcherImage = ''fetcher'', op_ImageRegistry = [],
     op_Storage = \<lparr>sg_Type = ''s3'', sg_Bucket = ''b'', sg_S3Endpoint = ''minio:9000'', sg_S3UseSSL = True, sg_S3Region = [],
       sg_AccessKey = [], sg_SecretKey = [], sg_GCSEndpoint = []\<rparr>,
     op_SecretName = ''s3-keys''\<rparr>"

definition sample_compile :: "duration option \<Rightarrow> (compile_error, CompiledJob \<times> RequestConfigMap) result" where
  "sample_compile t = Compile sample_options [(LabelKubetestTool, ''k6'')] (zero_TestSpec\<lparr>ts_Timeout := t\<rparr>) (sample_run ''r1'')"

lemma sample_compile_ok: "\<exists>job cm. sample_compile t = Inr (job, cm)"
  by (simp add: sample_compile_def Compile_def compile_def sample_options_def toFetcherContent_def testDataVolumes_def zero_TestSpec_def zero_Content_def Let_def)

theorem job_outlives_wrapper_witness:
  "\<exists>job cm. sample_compile (Some (90 * 1000000000)) = Inr (job, cm) \<and> rq_TimeoutSeconds (rc_Request cm) = 90 \<and> jb_ActiveDeadlineSeconds job = 150"
proof -
  obtain job cm where j: "sample_compile (Some (90 * 1000000000)) = Inr (job, cm)" using sample_compile_ok by blast
  have t: "case ts_Timeout (zero_TestSpec\<lparr>ts_Timeout := Some (90 * 1000000000)\<rparr>) of None \<Rightarrow> (90 :: int) = 1800 | Some d \<Rightarrow> d = 90 * 1000000000" by simp
  show ?thesis using job_outlives_wrapper [OF j [unfolded sample_compile_def Compile_def] t] j by simp
qed

text \<open>A timeout below a second passes admission, leaves the wrapper without a deadline and the Job with one minute.\<close>

lemma subsecond_timeout_unbounded:
  assumes "compile opts testLabels spec run target = Inr (job, cm)" "ts_Timeout spec = Some 500000000"
  shows "rq_TimeoutSeconds (rc_Request cm) = 0" "jb_ActiveDeadlineSeconds job = 60"
  using assms timeout_half_second by (auto elim!: compile_parts simp: buildRequest_def Let_def)

section \<open>Whose objects they are\<close>

lemma label_keys: "LabelRunID \<noteq> LabelManagedBy" "LabelKubetestTool \<noteq> LabelRunID" "LabelKubetestTool \<noteq> LabelManagedBy"
  "LabelWorker \<noteq> LabelRunID" "LabelWorker \<noteq> LabelManagedBy"
  by (simp_all add: LabelRunID_def LabelManagedBy_def LabelKubetestTool_def LabelWorker_def)

lemma with_tool_get: "k \<noteq> LabelKubetestTool \<Longrightarrow> map_of (with_tool ls m) k = map_of m k"
  by (simp add: with_tool_def Let_def)

lemma compile_owned:
  assumes "compile opts testLabels spec run target = Inr (job, cm)" "gm_ok (jt_Labels target)"
    "map_of (jt_Labels target) LabelRunID = None" "map_of (jt_Labels target) LabelManagedBy = None"
  shows "map_of (jb_Labels job) LabelRunID = Some (r_Name run) \<and> map_of (jb_PodLabels job) LabelRunID = Some (r_Name run)
    \<and> map_of (jb_Labels job) LabelManagedBy = Some ManagedByValue \<and> map_of (jb_PodLabels job) LabelManagedBy = Some ManagedByValue
    \<and> jb_Owners job = ownerRefForTestRun run \<and> rc_Owners cm = ownerRefForTestRun run \<and> jb_Namespace job = r_Namespace run \<and> rc_Namespace cm = r_Namespace run
    \<and> jb_Name job = jt_Name target \<and> rc_Name cm = jt_Name target @ ''-request'' \<and> rq_StoragePrefix (rc_Request cm) = jt_Keys target
    \<and> \<lparr>vol_Name = ''request'', vol_Source = no_source\<lparr>vs_ConfigMap := Some (keyed_source (rc_Name cm) request_files)\<rparr>\<rparr> \<in> set (jb_Volumes job)"
  using assms(1)
proof (rule compile_parts)
  assume labels: "jb_Labels job = with_tool testLabels (maps_copy [(LabelRunID, r_Name run), (LabelManagedBy, ManagedByValue)] (jt_Labels target))"
    "jb_PodLabels job = with_tool testLabels (maps_copy (mergeLabels (ts_Pod spec) (rs_Pod (r_Spec run)) (r_Name run)) (jt_Labels target))"
    and rest: "jb_Owners job = ownerRefForTestRun run" "rc_Owners cm = ownerRefForTestRun run" "jb_Namespace job = r_Namespace run" "rc_Namespace cm = r_Namespace run"
    "jb_Name job = jt_Name target" "rc_Name cm = jt_Name target @ ''-request''"
    "rc_Request cm = buildRequest spec run (jt_Keys target) (timeout_seconds (ts_Timeout spec))"
  fix vols assume vols: "jb_Volumes job = job_volumes (rc_Name cm) (mergePodConfig (ts_Pod spec) (rs_Pod (r_Spec run))) vols"
  have get: "map_of (with_tool testLabels (maps_copy m (jt_Labels target))) LabelRunID = map_of m LabelRunID"
    "map_of (with_tool testLabels (maps_copy m (jt_Labels target))) LabelManagedBy = map_of m LabelManagedBy" for m
    using label_keys assms(3,4) by (simp_all add: with_tool_get maps_copy_get [OF assms(2)] map_add_def)
  have "map_of (mergeLabels a b n) LabelRunID = Some n" "map_of (mergeLabels a b n) LabelManagedBy = Some ManagedByValue" for a b n
    using label_keys by (simp_all add: mergeLabels_def)
  then show ?thesis using label_keys rest
    by (simp add: labels get vols job_volumes_def Let_def buildRequest_def RunPrefix_def)
qed

text \<open>
  C24. Whatever labels and pod settings the Test and the TestRun ask for, the Job of a run, the Job of a
  worker and their pods carry the run's id and the manager's label, live in the run's namespace and are
  owned by the run; the pod reads the ConfigMap of its own Job; and the storage prefix in the request is
  one the wrapper accepts and that lies below the prefix of the run.
\<close>

theorem compiled_objects_belong_to_run:
  assumes "Compile opts testLabels spec run = Inr (job, cm) \<or> (\<exists>w. CompileWorkerJob opts testLabels spec run w = Inr (job, cm) \<and> wv_Index w < 2 ^ 63)"
    and "segment (r_Namespace run)" "segment (r_UID run)" "r_UID run \<noteq> ''workers''"
  shows "map_of (jb_Labels job) LabelRunID = Some (r_Name run) \<and> map_of (jb_PodLabels job) LabelRunID = Some (r_Name run)
    \<and> map_of (jb_Labels job) LabelManagedBy = Some ManagedByValue \<and> map_of (jb_PodLabels job) LabelManagedBy = Some ManagedByValue
    \<and> jb_Owners job = ownerRefForTestRun run \<and> rc_Owners cm = ownerRefForTestRun run \<and> jb_Namespace job = r_Namespace run \<and> rc_Namespace cm = r_Namespace run
    \<and> \<lparr>vol_Name = ''request'', vol_Source = no_source\<lparr>vs_ConfigMap := Some (keyed_source (jb_Name job @ ''-request'') request_files)\<rparr>\<rparr> \<in> set (jb_Volumes job)
    \<and> rc_Name cm = jb_Name job @ ''-request''
    \<and> ParseRunKeys (rq_StoragePrefix (rc_Request cm)) = Inr (rq_StoragePrefix (rc_Request cm))
    \<and> has_prefix (ForRun (r_Namespace run) (r_UID run)) (rq_StoragePrefix (rc_Request cm))"
  using assms(1)
proof
  assume "Compile opts testLabels spec run = Inr (job, cm)"
  from compile_owned [OF this [unfolded Compile_def]]
  show ?thesis using ParseRunKeys_ForRun [OF assms(2-4)] by (auto simp: has_prefix_def gm_ok_def)
next
  assume "\<exists>w. CompileWorkerJob opts testLabels spec run w = Inr (job, cm) \<and> wv_Index w < 2 ^ 63"
  then obtain w where w: "CompileWorkerJob opts testLabels spec run w = Inr (job, cm)" "wv_Index w < 2 ^ 63" by blast
  from compile_owned [OF w(1) [unfolded CompileWorkerJob_def CompileWorker_def]]
  show ?thesis using WorkerKeys_parsed [OF assms(2-4) w(2)] label_keys
    by (auto simp: has_prefix_def WorkerKeys_def Artifacts_def gm_ok_def)
qed

theorem compiled_objects_belong_to_run_witness:
  "\<exists>job cm. sample_compile None = Inr (job, cm) \<and> gm_get (jb_PodLabels job) LabelRunID = Some ''r1''
     \<and> has_prefix ''runs/n/u/'' (rq_StoragePrefix (rc_Request cm))"
proof -
  obtain job cm where j: "sample_compile None = Inr (job, cm)" using sample_compile_ok by blast
  then show ?thesis
    using compiled_objects_belong_to_run [OF disjI1 [OF j [unfolded sample_compile_def]]] by (simp add: sample_run_def segment_def ForRun_def)
qed

section \<open>The storage settings reach the wrapper\<close>

lemma find_append: "find P (xs @ ys) = (case find P xs of None \<Rightarrow> find P ys | Some x \<Rightarrow> Some x)"
  by (induction xs) auto

lemma getenv_append: "getenv f (es @ fs) = getenv (getenv f es) fs"
  by (rule ext) (simp add: getenv_def find_append split: option.splits)

lemma getenv_other: "k \<notin> ev_Name ` set es \<Longrightarrow> getenv f es k = f k"
  by (auto simp: getenv_def find_Some_iff split: option.splits) (metis image_eqI nth_mem set_rev length_rev)

lemma getenv_cong: "f k = g k \<Longrightarrow> getenv f es k = getenv g es k"
  by (simp add: getenv_def split: option.splits)

lemma getenv_one: "getenv f [env_var n v] = f(n := v)" "getenv f [] = f"
  by (auto simp: getenv_def env_var_def)

lemma getenv_Cons: "getenv f (env_var n v # es) = getenv (f(n := v)) es"
  using getenv_append [of f "[env_var n v]" es] by (simp add: getenv_one)

definition storage_names :: "string list" where
  "storage_names = [EnvType, EnvBucket, EnvS3Endpoint, EnvS3UseSSL, EnvS3Region, EnvGCSEndpoint]"

lemma storage_names_distinct: "distinct storage_names" "distinct (rev storage_names)"
  by (simp_all add: storage_names_def EnvType_def EnvBucket_def EnvS3Endpoint_def EnvS3UseSSL_def EnvS3Region_def EnvGCSEndpoint_def)

definition usable :: "StorageConfig \<Rightarrow> bool" where
  "usable c \<longleftrightarrow> sg_Type c = ''s3'' \<and> sg_GCSEndpoint c = []
     \<or> sg_Type c = ''gcs'' \<and> sg_S3Endpoint c = [] \<and> \<not> sg_S3UseSSL c \<and> sg_S3Region c = []"

lemma StorageEnv_names: "ev_Name ` set (StorageEnv c) \<subseteq> set storage_names"
  by (auto simp: StorageEnv_def env_unless_empty_def env_var_def storage_names_def)

lemma getenv_unless_empty: "getenv f (env_unless_empty n v) = (if v = [] then f else f(n := v))"
  by (simp add: env_unless_empty_def getenv_one)

lemma parse_bool_simps: "parse_bool ''true'' = Some True" "parse_bool [] = None"
  by (simp_all add: parse_bool_def)

text \<open>\<open>FromEnv\<close> is the inverse of \<open>Env\<close> on the settings of one backend, credentials apart.\<close>

lemma StorageEnv_roundtrip:
  assumes "usable c" "list_all (\<lambda>k. f k = []) storage_names"
  shows "list_all2 (\<lambda>k v. getenv f (StorageEnv c) k = v) storage_names
    [sg_Type c, sg_Bucket c, sg_S3Endpoint c, if sg_S3UseSSL c then ''true'' else [], sg_S3Region c, sg_GCSEndpoint c]"
proof -
  note d = storage_names_distinct [unfolded storage_names_def, simplified]
  show ?thesis using assms unfolding usable_def
    by (elim disjE) (simp_all add: d StorageEnv_def getenv_append getenv_Cons getenv_one getenv_unless_empty storage_names_def)
qed

lemma fixed_names:
  "k \<in> set storage_names \<Longrightarrow> k \<noteq> ServiceHostEnv n \<and> k \<noteq> ''KUBETEST_TESTDATA_DIR'' \<and> k \<noteq> ''KUBETEST_DATADIR''
     \<and> k \<noteq> ''KUBETEST_RESULTDIR'' \<and> k \<noteq> ''KUBETEST_RUN_ID'' \<and> k \<noteq> ''KUBETEST_TEST_REF''"
  unfolding storage_names_def EnvType_def EnvBucket_def EnvS3Endpoint_def EnvS3UseSSL_def EnvS3Region_def EnvGCSEndpoint_def ServiceHostEnv_def
  by (simp, elim disjE) simp_all

lemma wrapper_env_storage:
  assumes "k \<in> set storage_names" "k \<notin> ev_Name ` set (jt_Env target @ ct_Env (ts_Container spec))"
  shows "getenv f (wrapper_env opts spec run target) k = getenv f (StorageEnv (op_Storage opts)) k"
proof -
  let ?first = "[env_var ''KUBETEST_DATADIR'' DataDirPath, env_var ''KUBETEST_RESULTDIR'' ResultDirPath, env_var ''KUBETEST_RUN_ID'' (r_Name run),
    env_var ''KUBETEST_TEST_REF'' (rs_TestRef (r_Spec run))]"
  let ?services = "map (\<lambda>n. env_var (ServiceHostEnv n) (ServiceHost (r_Name run) (r_Namespace run) n)) (sort (map fst (ts_Services spec)))"
  have services: "k \<notin> ev_Name ` set ?services" using fixed_names [OF assms(1)] by (fastforce simp: env_var_def)
  have fixed: "k \<notin> ev_Name ` set ?first" "k \<notin> ev_Name ` set [env_var ''KUBETEST_TESTDATA_DIR'' TestDataDir]"
    using fixed_names [OF assms(1)] by (simp_all add: env_var_def)
  have user: "k \<notin> ev_Name ` set (jt_Env target)" "k \<notin> ev_Name ` set (ct_Env (ts_Container spec))" using assms(2) by auto
  have "getenv f (wrapper_env opts spec run target) k = getenv (getenv f ?first) (StorageEnv (op_Storage opts)) k"
    by (simp only: wrapper_env_def getenv_append getenv_other [OF services] getenv_other [OF fixed(2)] getenv_other [OF user(1)] getenv_other [OF user(2)])
  also have "\<dots> = getenv f (StorageEnv (op_Storage opts)) k" by (rule getenv_cong) (rule getenv_other [OF fixed(1)])
  finally show ?thesis .
qed

text \<open>
  The wrapper reads back from its environment the object store the operator was configured with, unless
  the Test, a worker or an \<open>envFrom\<close> source sets one of the six variables itself: \<open>FromEnv\<close> of the environment
  the compiler writes is the operator's configuration, with the credentials the pod has.
\<close>

theorem wrapper_reads_storage:
  assumes "usable (op_Storage opts)" "list_all (\<lambda>k. envFrom k = []) storage_names"
    and "set storage_names \<inter> ev_Name ` set (jt_Env target @ ct_Env (ts_Container spec)) = {}"
    and "env = getenv envFrom (cc_Env (wrapper_container opts spec run target mounts))"
  shows "FromEnv env = (op_Storage opts)\<lparr>sg_AccessKey := env ''AWS_ACCESS_KEY_ID'', sg_SecretKey := env ''AWS_SECRET_ACCESS_KEY''\<rparr>"
proof -
  have "env k = getenv envFrom (StorageEnv (op_Storage opts)) k" if "k \<in> set storage_names" for k
  proof -
    have "k \<notin> ev_Name ` set (jt_Env target @ ct_Env (ts_Container spec))" using that assms(3) by blast
    then show ?thesis using wrapper_env_storage [OF that] by (simp add: assms(4) wrapper_container_def Let_def)
  qed
  then show ?thesis using StorageEnv_roundtrip [OF assms(1,2)]
    by (intro StorageConfig.equality) (simp_all add: storage_names_def FromEnv_def parse_bool_simps)
qed

theorem wrapper_reads_storage_witness:
  "FromEnv (getenv ((\<lambda>_. [])(''AWS_ACCESS_KEY_ID'' := ''AKIA'')) (cc_Env (wrapper_container sample_options zero_TestSpec (sample_run ''r1'')
       \<lparr>jt_Name = ''r1'', jt_Keys = ForRun ''n'' ''u'', jt_Labels = [], jt_Env = []\<rparr> [])))
     = (op_Storage sample_options)\<lparr>sg_AccessKey := ''AKIA'', sg_SecretKey := []\<rparr>"
proof -
  let ?f = "(\<lambda>_. [])(''AWS_ACCESS_KEY_ID'' := ''AKIA'')"
  let ?t = "\<lparr>jt_Name = ''r1'', jt_Keys = ForRun ''n'' ''u'', jt_Labels = [], jt_Env = []\<rparr>"
  have "usable (op_Storage sample_options)" by (simp add: usable_def sample_options_def)
  moreover have "list_all (\<lambda>k. ?f k = []) storage_names"
    by (simp add: storage_names_def EnvType_def EnvBucket_def EnvS3Endpoint_def EnvS3UseSSL_def EnvS3Region_def EnvGCSEndpoint_def)
  moreover have "set storage_names \<inter> ev_Name ` set (jt_Env ?t @ ct_Env (ts_Container zero_TestSpec)) = {}"
    by (simp add: zero_TestSpec_def zero_ContainerConfig_def)
  moreover have "getenv ?f (cc_Env (wrapper_container sample_options zero_TestSpec (sample_run ''r1'') ?t [])) ''AWS_ACCESS_KEY_ID'' = ''AKIA''"
    "getenv ?f (cc_Env (wrapper_container sample_options zero_TestSpec (sample_run ''r1'') ?t [])) ''AWS_SECRET_ACCESS_KEY'' = []"
    by (simp_all add: wrapper_container_def wrapper_env_def sample_options_def StorageEnv_def zero_TestSpec_def zero_ContainerConfig_def env_unless_empty_def
      Let_def getenv_append getenv_Cons getenv_one EnvType_def EnvBucket_def EnvS3Endpoint_def EnvS3UseSSL_def)
  ultimately show ?thesis using wrapper_reads_storage [OF _ _ _ refl, of sample_options ?f ?t zero_TestSpec "sample_run ''r1''" "[]"] by simp
qed

end
