(* ===== verification/Spec2Isabelle.thy ===== *)
theory Spec2Isabelle
  imports Expr Names PodMerge Resolver Composer PodStatus Concurrency Stages Workers ServiceObjects
    TestData Lifecycle Delivery Ending Abort Exclusion Composition
    LogRoundtrip Subscribers TriggerGates Scheduler AdmissionRules RunListing Retention Dispatcher VerdictPath
    Compiler
begin

text \<open>
  A verification library for kubetest-alt, a Kubernetes operator that runs tests. A user describes
  a \<open>Test\<close>; a \<open>TestRun\<close> is one execution of it. Admission webhooks check both. The scheduler, the
  triggers, the API server and users create TestRuns. The operator (\<open>src/internal/controller\<close>) resolves
  the Test with its templates and parameters, decides whether the run may start, creates a Job (one per
  worker for parallel runs, child TestRuns for composite Tests) and watches the Job's pod. In the pod the
  wrapper runs the tool, decides the verdict, uploads artifacts and leaves the result. The operator
  copies the pod's log into object storage for readers, takes over the verdict and ends the run: status,
  run history, webhooks, log tailers, Job. Retention removes old history and objects.

  \<^bold>\<open>Theories and sources.\<close>
  \<^item> \<open>Prelude\<close>: results, Go maps as association lists, the locales of transition systems and of
    their invariants. \<open>GoStrings\<close>, \<open>GoPath\<close>, \<open>GoNum\<close>, \<open>GoTime\<close>, \<open>GoDate\<close>: the parts of Go's library the code
    uses, on byte strings: texts, slash paths, 64-bit integers and float64 with its rounding, durations
    and times with their layouts. \<open>Sha256\<close>: SHA-256 on 32-bit words, for the generated names.
  \<^item> \<open>ApiTypes\<close>: the resource types of \<open>src/api/v1alpha1\<close> as records.
  \<^item> \<open>Expr\<close> (\<open>src/pkg/expr/expr.go\<close>): the expressions \<open>{{ ... }}\<close>; \<open>Resolver\<close> (\<open>src/internal/resolver\<close>):
    merging templates, parameters, the expression pass; \<open>Names\<close> (\<open>src/internal/names\<close>): bounded names;
    \<open>PodMerge\<close> (\<open>compiler/podmerge.go\<close>, \<open>podpolicy\<close>): labels and the pod policy.
  \<^item> \<open>Composer\<close> (\<open>src/internal/composer\<close>): verdicts of composite steps, the execute graph;
    \<open>Concurrency\<close> (\<open>controller/concurrency.go\<close>): Forbid, Replace, Allow; \<open>Stages\<close> (\<open>stages.go\<close>): the
    course of a run as stages; \<open>Workers\<close>, \<open>ServiceObjects\<close> (\<open>compiler/parallel.go\<close>, \<open>services.go\<close>):
    what parallel workers and services consist of; \<open>TestData\<close> (\<open>controller/testdata.go\<close>).
  \<^item> \<open>PodStatus\<close> (\<open>phases.go\<close>, \<open>status_projection.go\<close>, the result readers): what Jobs and Pods say.
  \<^item> \<open>Cluster\<close>: the world the run controller works on and its API calls; \<open>RunCore\<close>, \<open>Services\<close>,
    \<open>Parallel\<close>, \<open>Composite\<close>, \<open>Reconcile\<close>: the handlers of \<open>testrun_controller.go\<close>, \<open>services.go\<close>,
    \<open>parallel.go\<close>, \<open>composite.go\<close>, one definition per Go function under its name (\<open>setup_run\<close> is
    \<open>setup\<close>).
  \<^item> \<open>Guarantees\<close>: what every handler keeps. \<open>Lifecycle\<close>, \<open>Delivery\<close>, \<open>Ending\<close>, \<open>Abort\<close>, \<open>Exclusion\<close>: over any
    sequence of reconciles, faults and environment steps an ended run stays as it ended, an event is
    sent once, a Job outlives the stored status, an abort ends a run, Forbid excludes. \<open>Composition\<close>: the
    composite controller with the verdicts of \<open>Composer\<close>.
  \<^item> \<open>Storage\<close> (\<open>src/pkg/storage\<close>): keys, the contract of a store as the locale \<open>blob_store\<close> and the
    in-memory store as its interpretation. \<open>LogRing\<close>, \<open>Tailer\<close>, \<open>TailerLines\<close>, \<open>TailerRun\<close>, \<open>Subscribers\<close>
    (\<open>src/internal/logstream\<close>): ring, tailer with reconnects, subscribers; \<open>ChunkReader\<close>, \<open>LogRoundtrip\<close>
    (\<open>src/internal/apiserver/chunk_reader.go\<close>): reading the stored log, and that it is what was published.
  \<^item> \<open>Triggers\<close>, \<open>TriggerGates\<close> (\<open>testtrigger_*.go\<close>): events, gates, firing. \<open>Scheduler\<close>
    (\<open>src/internal/scheduler\<close>): cron schedules. \<open>Admission\<close>, \<open>AdmissionRules\<close> (\<open>src/internal/webhook\<close>): the
    checks, and what an admitted Test is bounded by.
  \<^item> \<open>Partitions\<close>, \<open>History\<close>, \<open>HistoryRules\<close> (\<open>src/internal/store\<close>): rows, monthly partitions and each
    statement as an operation on tables; \<open>Retention\<close> (\<open>src/internal/retention\<close>); \<open>RunListing\<close>: the merged,
    paged run listing of the API server (\<open>src/internal/apiserver/handlers_runs.go\<close>).
  \<^item> \<open>Dispatcher\<close> (\<open>src/internal/webhookdelivery\<close>): payload, retries, the bounded queue.
  \<^item> \<open>Junit\<close>, \<open>Jtl\<close> (\<open>scraper/junit.go\<close>, \<open>src/pkg/verdict\<close>, \<open>src/cmd/entry\<close>): reports; \<open>Scrape\<close>
    (\<open>src/internal/scraper\<close>): artifacts; \<open>Wrapper\<close> (\<open>src/pkg/executor/entry.go\<close>): tries and verdict;
    \<open>VerdictPath\<close> (\<open>termination.go\<close>): the verdict from the wrapper to the operator.
  \<^item> \<open>Compiler\<close> (\<open>compiler/compiler.go\<close>, \<open>testdata.go\<close>, \<open>git_auth.go\<close>, \<open>src/pkg/storage/config.go\<close>): the Job of a
    run or a worker with its pod, environment, volumes and request; its deadlines, its owner and
    labels, and the storage settings the wrapper reads back.

  \<^bold>\<open>How code becomes definitions.\<close> A pure Go function is a HOL function, its error a value of a sum
  type. A handler of the controller is a function from the world to a result and a new world; each
  API call can fail, by the schedules \<open>w_Faults\<close> and \<open>w_ReadFaults\<close>, and the informer cache can lag
  (\<open>w_Lag\<close>). A reconcile is atomic: a lost write race is the fault \<open>AConflict\<close>. The clock is read once
  per handler. The run is a local copy until the status update. JSON encoding is the identity on
  the snapshot; a text that does not parse is \<open>BadSnapshot\<close>. Goroutines that share state (subscribers,
  the delivery queue) are sequences of their atomic sections, in any interleaving.

  \<^bold>\<open>Parameters.\<close> \<open>Deps\<close> holds what the operator wires in and the sources here do not determine: the
  user's regular expressions, the result reader, the run store, the Job builder, the objects of the
  cluster, the text of setup errors. \<open>Compiler\<close> models the Job builder by itself: the controller keeps of a
  Job only its name, labels and conditions. Further parameters, each an argument of the definitions that use
  it: the cron parser and its next instant, the glob library, the DNS and UUID checks, which statements of
  the database fail and how it prints bounds, the JSON of cursors and results, the XML and CSV decoders,
  the HTTP client, the context of the wrapper and how its processes end. Laws assumed of them are
  hypotheses of the theorems or \<open>assumes\<close> of a locale with an interpretation.

  \<^bold>\<open>What is shown.\<close> Results of the pure parts are characterised exactly (which value, which error, on
  every input); the reconcile loop, the store, the scraper and the queue by what they keep under every
  fault and interleaving; chains across components (log written and read back, run saved and listed,
  verdict written and read) as round trips. Each property is a theorem after a text block with its
  number. Recursion is structural or has a termination proof; where the code has a bound it is the bound
  of the definition (depth of the execute graph, retries, reopen attempts, matched files, the
  scheduler's look back). The polling of the log reader runs for a given number of rounds, and the theorem
  says which are enough.

  \<^bold>\<open>Not modelled.\<close> The content fetcher, the parsers of tool reports into metrics, the lines of the collect log, the
  other handlers of the API server, the Control Center, the CLI and the API client, the statistics
  queries, the S3 and GCS clients, flag parsing and wiring, generated code: input and output around
  libraries, with no state of their own.
\<close>

end
